(* ===== verification/Prelude.thy ===== *)
theory Prelude
  imports Main "HOL-Library.Word"
begin

text \<open>
  The shared vocabulary of the development: names for the machine integers the C++ code
  uses, the exceptions it raises and the result type that carries them, and the
  generic lemmas on results, lists and bit sequences that the component theories use.
\<close>

unbundle bit_operations_syntax

section \<open>Machine integers\<close>

type_synonym u8 = "8 word"
type_synonym i32 = "32 word"
type_synonym u64 = "64 word"

section \<open>Exceptions and results\<close>

text \<open>
  Every exception type the modelled code throws is a constructor. \<open>UndefinedBehaviour\<close> and
  \<open>OutOfBounds\<close> are not exceptions of the code: they mark executions on which the C++ has no
  defined result (a shift by the width, a read or write outside of a buffer), so that a
  theorem that an operation returns \<open>Inr\<close> excludes them. \<open>Terminate\<close> is an exception that
  leaves a \<^verbatim>\<open>noexcept\<close> function and ends the program.
\<close>

datatype exn =
    AssertionFailed
  | SeriousBug
  | UserError
  | NotImplemented
  | OutOfRange
  | BadValue
  | MaskCompressionException
  | FailureAwareException
  | MetadataException
  | DataModellingException
  | Mars2MarsException
  | Mars2GribException
  | TransportException
  | ForeignException
  | Terminate
  | OutOfBounds
  | UndefinedBehaviour

type_synonym 'a res = "exn + 'a"

definition bind_res :: "'a res \<Rightarrow> ('a \<Rightarrow> 'b res) \<Rightarrow> 'b res" where
  "bind_res m f = (case m of Inl e \<Rightarrow> Inl e | Inr x \<Rightarrow> f x)"

named_theorems res_simps \<open>evaluation of results\<close>

lemma bind_res_simps [simp, res_simps]:
  "bind_res (Inl e) f = Inl e"
  "bind_res (Inr x) f = f x"
  by (simp_all add: bind_res_def)

lemma bind_res_Inr_iff:
  "bind_res m f = Inr y \<longleftrightarrow> (\<exists>x. m = Inr x \<and> f x = Inr y)"
  by (cases m) auto

lemma bind_res_Inl_iff:
  "bind_res m f = Inl e \<longleftrightarrow> m = Inl e \<or> (\<exists>x. m = Inr x \<and> f x = Inl e)"
  by (cases m) auto

lemma bind_res_assoc:
  "bind_res (bind_res m f) g = bind_res m (\<lambda>x. bind_res (f x) g)"
  by (cases m) auto

text \<open>A range-for over a container whose body may throw.\<close>

fun fold_res :: "('a \<Rightarrow> 's \<Rightarrow> 's res) \<Rightarrow> 'a list \<Rightarrow> 's \<Rightarrow> 's res" where
  "fold_res f [] s = Inr s"
| "fold_res f (x # xs) s = bind_res (f x s) (fold_res f xs)"

lemma fold_res_append:
  "fold_res f (xs @ ys) s = bind_res (fold_res f xs s) (fold_res f ys)"
proof (induction xs arbitrary: s)
  case Nil
  show ?case by simp
next
  case (Cons x xs)
  then show ?case by (cases "f x s") simp_all
qed

lemma fold_res_invariant:
  assumes step: "\<And>x s s'. x \<in> set xs \<Longrightarrow> P s \<Longrightarrow> f x s = Inr s' \<Longrightarrow> P s'"
    and init: "P s"
    and run: "fold_res f xs s = Inr s'"
  shows "P s'"
  using assms
proof (induction xs arbitrary: s)
  case Nil
  then show ?case by simp
next
  case (Cons x xs)
  then obtain t where t: "f x s = Inr t" and rest: "fold_res f xs t = Inr s'"
    by (auto simp: bind_res_Inr_iff)
  have "P t" using Cons.prems(1) [of x s t] Cons.prems(2) t by simp
  show ?case
  proof (rule Cons.IH [OF _ \<open>P t\<close> rest])
    show "P v" if "y \<in> set xs" and "P u" and "f y u = Inr v" for y u v
      using Cons.prems(1) [of y u v] that by simp
  qed
qed

text \<open>Searching a container with a test that may throw, and converting its elements.\<close>

fun any_res :: "('a \<Rightarrow> bool res) \<Rightarrow> 'a list \<Rightarrow> bool res" where
  "any_res f [] = Inr False"
| "any_res f (x # xs) = bind_res (f x) (\<lambda>b. if b then Inr True else any_res f xs)"

fun all_res :: "('a \<Rightarrow> bool res) \<Rightarrow> 'a list \<Rightarrow> bool res" where
  "all_res f [] = Inr True"
| "all_res f (x # xs) = bind_res (f x) (\<lambda>b. if b then all_res f xs else Inr False)"

fun map_res :: "('a \<Rightarrow> 'b res) \<Rightarrow> 'a list \<Rightarrow> 'b list res" where
  "map_res f [] = Inr []"
| "map_res f (x # xs) = bind_res (f x) (\<lambda>y. bind_res (map_res f xs) (\<lambda>ys. Inr (y # ys)))"

lemma any_res_cong [fundef_cong]:
  "xs = ys \<Longrightarrow> (\<And>x. x \<in> set ys \<Longrightarrow> f x = g x) \<Longrightarrow> any_res f xs = any_res g ys"
  by (induction ys arbitrary: xs) (auto simp: bind_res_def split: sum.splits)

lemma all_res_cong [fundef_cong]:
  "xs = ys \<Longrightarrow> (\<And>x. x \<in> set ys \<Longrightarrow> f x = g x) \<Longrightarrow> all_res f xs = all_res g ys"
  by (induction ys arbitrary: xs) (auto simp: bind_res_def split: sum.splits)

lemma map_res_cong [fundef_cong]:
  "xs = ys \<Longrightarrow> (\<And>x. x \<in> set ys \<Longrightarrow> f x = g x) \<Longrightarrow> map_res f xs = map_res g ys"
  by (induction ys arbitrary: xs) auto

lemma map_resD:
  "map_res f xs = Inr ys \<Longrightarrow> length ys = length xs \<and> (\<forall>i < length xs. f (xs ! i) = Inr (ys ! i))"
proof (induction xs arbitrary: ys)
  case Nil
  then show ?case by simp
next
  case (Cons x xs)
  then obtain z zs where "f x = Inr z" "map_res f xs = Inr zs" "ys = z # zs"
    by (auto simp: bind_res_Inr_iff)
  then show ?case using Cons.IH [of zs] by (auto simp: less_Suc_eq_0_disj)
qed

lemma map_res_total:
  "(\<And>x. x \<in> set xs \<Longrightarrow> \<exists>y. f x = Inr y) \<Longrightarrow> \<exists>ys. map_res f xs = Inr ys"
proof (induction xs)
  case (Cons x xs)
  then show ?case by (metis bind_res_simps(2) list.set_intros map_res.simps(2))
qed simp

text \<open>Checked element access: \<open>b[i]\<close> on a buffer.\<close>

definition read_at :: "'a list \<Rightarrow> nat \<Rightarrow> 'a res" where
  "read_at b i = (if i < length b then Inr (b ! i) else Inl OutOfBounds)"

definition write_at :: "'a list \<Rightarrow> nat \<Rightarrow> 'a \<Rightarrow> 'a list res" where
  "write_at b i v = (if i < length b then Inr (b[i := v]) else Inl OutOfBounds)"

lemma read_at_ok [simp]: "i < length b \<Longrightarrow> read_at b i = Inr (b ! i)"
  by (simp add: read_at_def)

lemma write_at_ok [simp]: "i < length b \<Longrightarrow> write_at b i v = Inr (b[i := v])"
  by (simp add: write_at_def)

lemma write_at_Inr_iff: "write_at b i v = Inr b' \<longleftrightarrow> i < length b \<and> b' = b[i := v]"
  by (auto simp: write_at_def)

text \<open>The result of an \<^verbatim>\<open>int\<close> expression, whose overflow is undefined.\<close>

definition chk32 :: "int \<Rightarrow> int res" where
  "chk32 x = (if - (2 ^ 31) \<le> x \<and> x < 2 ^ 31 then Inr x else Inl UndefinedBehaviour)"

lemma chk32_Inr_iff: "chk32 x = Inr y \<longleftrightarrow> y = x \<and> - (2 ^ 31) \<le> x \<and> x < 2 ^ 31"
  by (auto simp: chk32_def)

lemma chk32_ok [simp]: "0 \<le> x \<Longrightarrow> x < 2147483648 \<Longrightarrow> chk32 x = Inr x"
  by (simp add: chk32_def)

section \<open>Big-endian bit sequences\<close>

text \<open>The value of a bit sequence, most significant bit first, and its inverse.\<close>

definition of_bits :: "bool list \<Rightarrow> nat" where
  "of_bits bs = foldl (\<lambda>a b. 2 * a + of_bool b) 0 bs"

definition to_bits :: "nat \<Rightarrow> nat \<Rightarrow> bool list" where
  "to_bits n v = map (\<lambda>i. bit v (n - 1 - i)) [0..<n]"

lemma length_to_bits [simp]: "length (to_bits n v) = n"
  by (simp add: to_bits_def)

lemma nth_to_bits: "i < n \<Longrightarrow> to_bits n v ! i = bit v (n - 1 - i)"
  by (simp add: to_bits_def)

lemma of_bits_Nil [simp]: "of_bits [] = 0"
  by (simp add: of_bits_def)

lemma of_bits_snoc [simp]: "of_bits (bs @ [b]) = 2 * of_bits bs + of_bool b"
  by (simp add: of_bits_def)

lemma of_bits_append: "of_bits (xs @ ys) = of_bits xs * 2 ^ length ys + of_bits ys"
  by (induction ys rule: rev_induct) (auto simp flip: append_assoc)

lemma of_bits_less: "of_bits bs < 2 ^ length bs"
  by (induction bs rule: rev_induct) auto

lemma to_bits_0 [simp]: "to_bits 0 v = []"
  by (simp add: to_bits_def)

lemma to_bits_Suc: "to_bits (Suc n) v = to_bits n (v div 2) @ [odd v]"
proof (rule nth_equalityI)
  fix i
  assume "i < length (to_bits (Suc n) v)"
  then show "to_bits (Suc n) v ! i = (to_bits n (v div 2) @ [odd v]) ! i"
    by (cases "i = n")
      (auto simp: nth_to_bits nth_append bit_0 Suc_diff_Suc simp flip: bit_Suc)
qed simp

lemma of_bits_to_bits: "v < 2 ^ n \<Longrightarrow> of_bits (to_bits n v) = v"
proof (induction n arbitrary: v)
  case 0
  then show ?case by simp
next
  case (Suc n)
  then have "v div 2 < 2 ^ n" by auto
  then show ?case using Suc.IH [of "v div 2"] by (simp add: to_bits_Suc)
qed

lemma to_bits_append:
  "to_bits (m + n) v = to_bits m (v div 2 ^ n) @ to_bits n v"
proof (rule nth_equalityI)
  fix i
  assume "i < length (to_bits (m + n) v)"
  then show "to_bits (m + n) v ! i = (to_bits m (v div 2 ^ n) @ to_bits n v) ! i"
    by (auto simp: nth_to_bits nth_append bit_drop_bit_eq algebra_simps
        simp flip: drop_bit_eq_div)
qed simp

end
