(* ===== verification/Metadata.thy ===== *)
theory Metadata
  imports Complex_Main Prelude
begin

text \<open>
  \<^verbatim>\<open>src/src/multio/message\<close>: \<^verbatim>\<open>MetadataValue\<close>, \<^verbatim>\<open>BaseMetadata\<close> and the global
  \<^verbatim>\<open>Parametrization\<close>. Metadata is an \<^verbatim>\<open>unordered_map\<close>: an association list with distinct keys
  in the order in which the container iterates; no theorem assumes anything on that order.
  Floating point numbers stand for finite values.
\<close>

section \<open>Values\<close>

datatype MetadataValue =
    MNull
  | MBool bool
  | MInteger int
  | MDouble real
  | MFloat real
  | MString string
  | MBytes "u8 list"
  | MBoolList "bool list"
  | MIntegerList "int list"
  | MDoubleList "real list"
  | MFloatList "real list"
  | MStringList "string list"
  | MNested "(string \<times> MetadataValue) list"

type_synonym BaseMetadata = "(string \<times> MetadataValue) list"

text \<open>
  \<^verbatim>\<open>operator==\<close> on values compares the alternatives and then the content; on nested metadata this is
  \<^verbatim>\<open>operator==\<close> of \<^verbatim>\<open>BaseMetadata\<close>, whose loop returns in its first round.
\<close>

fun value_eq :: "MetadataValue \<Rightarrow> MetadataValue \<Rightarrow> bool" where
  "value_eq x y =
     (case x of
        MNested lhs \<Rightarrow> (case y of
            MNested rhs \<Rightarrow> length lhs = length rhs \<and>
              (case lhs of
                 [] \<Rightarrow> True
               | (k, v) # _ \<Rightarrow> (case map_of rhs k of None \<Rightarrow> False | Some w \<Rightarrow> value_eq v w))
          | _ \<Rightarrow> False)
      | _ \<Rightarrow> x = y)"

declare value_eq.simps [simp del]

definition metadata_eq :: "BaseMetadata \<Rightarrow> BaseMetadata \<Rightarrow> bool" where
  "metadata_eq lhs rhs \<longleftrightarrow> length lhs = length rhs \<and>
     (case lhs of
        [] \<Rightarrow> True
      | (k, v) # _ \<Rightarrow> (case map_of rhs k of None \<Rightarrow> False | Some w \<Rightarrow> value_eq v w))"

lemma value_eq_Nested [simp]: "value_eq (MNested l) (MNested r) = metadata_eq l r"
  by (subst value_eq.simps) (simp add: metadata_eq_def)

lemma value_eq_flat: "\<forall>l. x \<noteq> MNested l \<Longrightarrow> value_eq x y \<longleftrightarrow> x = y"
  by (subst value_eq.simps) (cases x; simp)

lemma value_eq_refl [simp]: "value_eq x x"
proof (induction x)
  case (MNested l)
  have "value_eq v v" if "(k, v) \<in> set l" for k v
    using MNested.IH [OF that, of v] by simp
  then show ?case by (cases l) (fastforce simp: metadata_eq_def)+
qed (simp_all add: value_eq_flat)

section \<open>Metadata\<close>

definition md_find :: "BaseMetadata \<Rightarrow> string \<Rightarrow> MetadataValue option" where
  "md_find md k = map_of md k"

fun md_set :: "string \<Rightarrow> MetadataValue \<Rightarrow> BaseMetadata \<Rightarrow> BaseMetadata" where
  "md_set k v [] = [(k, v)]"
| "md_set k v ((k', v') # md) = (if k = k' then (k, v) # md else (k', v') # md_set k v md)"

definition md_trySet :: "string \<Rightarrow> MetadataValue \<Rightarrow> BaseMetadata \<Rightarrow> BaseMetadata" where
  "md_trySet k v md = (if md_find md k = None then md_set k v md else md)"

definition md_erase :: "string \<Rightarrow> BaseMetadata \<Rightarrow> BaseMetadata" where
  "md_erase k md = filter (\<lambda>(k', _). k' \<noteq> k) md"

text \<open>
  \<^verbatim>\<open>merge\<close> moves the entries whose keys are new and leaves the others behind; \<^verbatim>\<open>updateOverwrite\<close>
  and \<^verbatim>\<open>updateNoOverwrite\<close> copy.
\<close>

definition md_merge :: "BaseMetadata \<Rightarrow> BaseMetadata \<Rightarrow> BaseMetadata \<times> BaseMetadata" where
  "md_merge md other =
     (fold (\<lambda>(k, v). md_trySet k v) other md, filter (\<lambda>(k, _). md_find md k \<noteq> None) other)"

definition md_updateOverwrite :: "BaseMetadata \<Rightarrow> BaseMetadata \<Rightarrow> BaseMetadata" where
  "md_updateOverwrite other md = fold (\<lambda>(k, v). md_set k v) other md"

definition md_updateOverwrite_move :: "BaseMetadata \<Rightarrow> BaseMetadata \<Rightarrow> BaseMetadata" where
  "md_updateOverwrite_move other md = fst (md_merge other md)"

definition md_updateNoOverwrite :: "BaseMetadata \<Rightarrow> BaseMetadata \<Rightarrow> BaseMetadata" where
  "md_updateNoOverwrite other md = fold (\<lambda>(k, v). md_trySet k v) other md"

text \<open>
  Typed access. \<^verbatim>\<open>get<T>\<close> throws for a missing key and for a wrong type; \<^verbatim>\<open>getOpt<T>\<close> has a result
  for a missing key, but it is declared \<^verbatim>\<open>noexcept\<close> and its helper throws for a wrong type.
\<close>

definition getter :: "(MetadataValue \<Rightarrow> 'a option) \<Rightarrow> MetadataValue \<Rightarrow> 'a res" where
  "getter as v = (case as v of Some x \<Rightarrow> Inr x | None \<Rightarrow> Inl MetadataException)"

definition md_get :: "(MetadataValue \<Rightarrow> 'a option) \<Rightarrow> string \<Rightarrow> BaseMetadata \<Rightarrow> 'a res" where
  "md_get as k md = (case md_find md k of None \<Rightarrow> Inl MetadataException | Some v \<Rightarrow> getter as v)"

definition md_getOpt :: "(MetadataValue \<Rightarrow> 'a option) \<Rightarrow> string \<Rightarrow> BaseMetadata \<Rightarrow> 'a option res" where
  "md_getOpt as k md =
     (case md_find md k of
        None \<Rightarrow> Inr None
      | Some v \<Rightarrow> (case getter as v of Inl e \<Rightarrow> Inl Terminate | Inr x \<Rightarrow> Inr (Some x)))"

fun as_string :: "MetadataValue \<Rightarrow> string option" where
  "as_string (MString s) = Some s"
| "as_string _ = None"

fun as_integer :: "MetadataValue \<Rightarrow> int option" where
  "as_integer (MInteger i) = Some i"
| "as_integer _ = None"

fun as_bool :: "MetadataValue \<Rightarrow> bool option" where
  "as_bool (MBool b) = Some b"
| "as_bool _ = None"

fun as_double :: "MetadataValue \<Rightarrow> real option" where
  "as_double (MDouble d) = Some d"
| "as_double _ = None"

abbreviation md_wf :: "BaseMetadata \<Rightarrow> bool" where
  "md_wf md \<equiv> distinct (map fst md)"

lemma md_find_Nil [simp]: "md_find [] k = None"
  by (simp add: md_find_def)

lemma md_find_set [simp]: "md_find (md_set k v md) k' = (if k' = k then Some v else md_find md k')"
  by (induction md) (auto simp: md_find_def)

lemma md_keys_set: "fst ` set (md_set k v md) = insert k (fst ` set md)"
  by (induction k v md rule: md_set.induct) auto

lemma md_wf_set [simp]: "md_wf md \<Longrightarrow> md_wf (md_set k v md)"
  by (induction k v md rule: md_set.induct) (auto simp: md_keys_set)

lemma md_find_trySet [simp]:
  "md_find (md_trySet k v md) k' =
     (if k' = k \<and> md_find md k = None then Some v else md_find md k')"
  by (auto simp: md_trySet_def)

lemma md_wf_trySet [simp]: "md_wf md \<Longrightarrow> md_wf (md_trySet k v md)"
  by (simp add: md_trySet_def)

lemma md_find_None: "md_find md k = None \<longleftrightarrow> k \<notin> fst ` set md"
  by (simp add: md_find_def map_of_eq_None_iff)

lemma md_find_filter: "md_find (filter (\<lambda>(k, _). P k) md) k = (if P k then md_find md k else None)"
  by (induction md) (auto simp: md_find_def)

lemma md_find_erase: "md_find (md_erase k md) k' = (if k' = k then None else md_find md k')"
  using md_find_filter [of "\<lambda>k'. k' \<noteq> k"] by (simp add: md_erase_def)

lemma md_find_Cons: "md_find ((k, v) # md) k' = (if k' = k then Some v else md_find md k')"
  by (simp add: md_find_def)

lemma md_find_updateNoOverwrite:
  "md_find (md_updateNoOverwrite other md) k =
     (case md_find md k of Some v \<Rightarrow> Some v | None \<Rightarrow> md_find other k)"
  unfolding md_updateNoOverwrite_def
proof (induction other arbitrary: md)
  case Nil
  then show ?case by (simp split: option.splits)
next
  case (Cons kv other)
  obtain k' v where kv: "kv = (k', v)" by force
  show ?case using Cons.IH [of "md_trySet k' v md"] kv
    by (auto simp: md_find_Cons split: option.splits if_splits)
qed

lemma md_find_updateOverwrite:
  "md_wf other \<Longrightarrow> md_find (md_updateOverwrite other md) k =
     (case md_find other k of Some v \<Rightarrow> Some v | None \<Rightarrow> md_find md k)"
  unfolding md_updateOverwrite_def
proof (induction other arbitrary: md)
  case Nil
  then show ?case by simp
next
  case (Cons kv other)
  obtain k' v where kv: "kv = (k', v)" by force
  then have "md_find other k' = None" using Cons.prems by (simp add: md_find_None)
  then show ?case using Cons.IH [of "md_set k' v md"] Cons.prems kv
    by (auto simp: md_find_Cons split: option.splits)
qed

lemma md_find_merge:
  "md_find (fst (md_merge md other)) k = (case md_find md k of Some v \<Rightarrow> Some v | None \<Rightarrow> md_find other k)"
  "md_find (snd (md_merge md other)) k = (if md_find md k \<noteq> None then md_find other k else None)"
  using md_find_updateNoOverwrite [of other md k] md_find_filter [of "\<lambda>k. md_find md k \<noteq> None" other k]
  by (simp_all add: md_merge_def md_updateNoOverwrite_def)

lemma md_get_Inr_iff: "md_get as k md = Inr x \<longleftrightarrow> (\<exists>v. md_find md k = Some v \<and> as v = Some x)"
  by (auto simp: md_get_def getter_def split: option.splits)

lemma md_getOpt_Some: "md_getOpt as k md = Inr (Some x) \<longleftrightarrow> md_get as k md = Inr x"
  by (auto simp: md_getOpt_def md_get_def split: option.splits sum.splits)

text \<open>
  \<^verbatim>\<open>Metadata\<close>, the class of the metadata of messages, looks a key up in its own values and then in the
  global parametrization \<open>g\<close>; the version that is not \<^verbatim>\<open>const\<close> copies what it has found there into
  its own values. Either way the lookup sees the metadata with the missing entries of \<open>g\<close>
  added, and setting a value commutes with that: in the other theories the metadata of a message is what its lookups see.
\<close>

definition metadata_find :: "BaseMetadata \<Rightarrow> BaseMetadata \<Rightarrow> string \<Rightarrow> MetadataValue option" where
  "metadata_find g md k =
     (case md_find md k of
        Some v \<Rightarrow> Some v
      | None \<Rightarrow> (case md_find g k of Some v \<Rightarrow> Some v | None \<Rightarrow> None))"

definition metadata_find_insert ::
    "BaseMetadata \<Rightarrow> BaseMetadata \<Rightarrow> string \<Rightarrow> BaseMetadata \<times> MetadataValue option" where
  "metadata_find_insert g md k =
     (case md_find md k of
        Some v \<Rightarrow> (md, Some v)
      | None \<Rightarrow> (case md_find g k of Some v \<Rightarrow> (md_set k v md, Some v) | None \<Rightarrow> (md, None)))"

lemma metadata_find_view: "metadata_find g md k = md_find (md_updateNoOverwrite g md) k"
  by (simp add: metadata_find_def md_find_updateNoOverwrite split: option.splits)

lemma metadata_find_insert_view:
  "snd (metadata_find_insert g md k) = metadata_find g md k"
  "metadata_find g (fst (metadata_find_insert g md k)) = metadata_find g md"
  by (auto simp: metadata_find_insert_def metadata_find_def fun_eq_iff split: option.splits)

lemma metadata_find_set: "metadata_find g (md_set k v md) k' = (if k' = k then Some v else metadata_find g md k')"
  by (simp add: metadata_find_def)

section \<open>The precision of a field\<close>

datatype PrecisionTag = Float | Double

definition decodePrecisionTag :: "string \<Rightarrow> PrecisionTag res" where
  "decodePrecisionTag tagStr =
     (case map_of [(''single'', Float), (''double'', Double),
                   (''misc-single'', Float), (''misc-double'', Double)] tagStr of
        Some t \<Rightarrow> Inr t
      | None \<Rightarrow> Inl OutOfRange)"

fun precision_size :: "PrecisionTag \<Rightarrow> nat" where
  "precision_size Float = 4"
| "precision_size Double = 8"

section \<open>The global parametrization\<close>

datatype ElementType = Byte | Int32 | Int64 | Real32 | Real64

definition decodeElementType :: "string \<Rightarrow> ElementType res" where
  "decodeElementType typeKey =
     (case map_of [(''byte'', Byte), (''int64'', Int64), (''int32'', Int32),
                   (''real64'', Real64), (''real32'', Real32)] typeKey of
        Some t \<Rightarrow> Inr t
      | None \<Rightarrow> Inl MetadataException)"

fun elementTypeToString :: "ElementType \<Rightarrow> string" where
  "elementTypeToString Byte = ''byte''"
| "elementTypeToString Int32 = ''int32''"
| "elementTypeToString Int64 = ''int64''"
| "elementTypeToString Real32 = ''real32''"
| "elementTypeToString Real64 = ''real64''"

definition PARAMETRIZATION_PAYLOAD_KEY :: string where
  "PARAMETRIZATION_PAYLOAD_KEY = ''payloadKey''"

definition PARAMETRIZATION_PAYLOAD_ELEMENT_TYPE :: string where
  "PARAMETRIZATION_PAYLOAD_ELEMENT_TYPE = ''payloadElementType''"

definition param_update :: "string \<Rightarrow> MetadataValue \<Rightarrow> BaseMetadata \<Rightarrow> BaseMetadata res" where
  "param_update key val data =
     (case md_find data key of
        None \<Rightarrow> Inr (md_set key val data)
      | Some old \<Rightarrow> if \<not> value_eq old val then Inl MetadataException else Inr data)"

definition param_update_md :: "BaseMetadata \<Rightarrow> BaseMetadata \<Rightarrow> BaseMetadata res" where
  "param_update_md other =
     fold_res (\<lambda>(k, v) data.
       if k \<in> {PARAMETRIZATION_PAYLOAD_KEY, PARAMETRIZATION_PAYLOAD_ELEMENT_TYPE} then Inr data
       else param_update k v data) other"

text \<open>
  The bytes of a payload seen as a vector of the element type: how the machine represents the
  wider types is the parameter \<open>view\<close>; bytes are themselves, and \<^verbatim>\<open>size / sizeof(Type)\<close> elements
  are taken.
\<close>

record byte_view =
  view_int32 :: "u8 list \<Rightarrow> int"
  view_int64 :: "u8 list \<Rightarrow> int"
  view_real32 :: "u8 list \<Rightarrow> real"
  view_real64 :: "u8 list \<Rightarrow> real"

definition chunks :: "nat \<Rightarrow> u8 list \<Rightarrow> u8 list list" where
  "chunks n b = map (\<lambda>i. take n (drop (i * n) b)) [0..<length b div n]"

fun element_vector :: "byte_view \<Rightarrow> ElementType \<Rightarrow> u8 list \<Rightarrow> MetadataValue" where
  "element_vector view Byte b = MBytes b"
| "element_vector view Int32 b = MIntegerList (map (view_int32 view) (chunks 4 b))"
| "element_vector view Int64 b = MIntegerList (map (view_int64 view) (chunks 8 b))"
| "element_vector view Real32 b = MFloatList (map (view_real32 view) (chunks 4 b))"
| "element_vector view Real64 b = MDoubleList (map (view_real64 view) (chunks 8 b))"

definition param_update_bytes ::
    "byte_view \<Rightarrow> string \<Rightarrow> string \<Rightarrow> u8 list \<Rightarrow> BaseMetadata \<Rightarrow> BaseMetadata res" where
  "param_update_bytes view key kt b data =
     bind_res (decodeElementType kt) (\<lambda>et. param_update key (element_vector view et b) data)"

definition param_update_msg ::
    "byte_view \<Rightarrow> BaseMetadata \<Rightarrow> u8 list \<Rightarrow> BaseMetadata \<Rightarrow> BaseMetadata res" where
  "param_update_msg view md payload data =
     bind_res
       (case md_find md PARAMETRIZATION_PAYLOAD_KEY of
          None \<Rightarrow> Inr data
        | Some key \<Rightarrow>
            if length payload = 0 then Inl MetadataException
            else case md_find md PARAMETRIZATION_PAYLOAD_ELEMENT_TYPE of
              None \<Rightarrow> Inl MetadataException
            | Some ty \<Rightarrow>
                bind_res (getter as_string key) (\<lambda>k.
                bind_res (getter as_string ty) (\<lambda>t.
                param_update_bytes view k t payload data)))
       (param_update_md md)"

lemma decodeElementType_toString: "decodeElementType (elementTypeToString t) = Inr t"
  by (cases t) (simp_all add: decodeElementType_def)

lemma param_update_find:
  assumes "param_update k v data = Inr data'"
  shows "md_find data' k' = (if k' = k \<and> md_find data k = None then Some v else md_find data k')"
    and "\<exists>w. md_find data' k = Some w \<and> value_eq w v"
  using assms by (auto simp: param_update_def split: option.splits if_splits)

lemma param_update_md_mono:
  "param_update_md other data = Inr data' \<Longrightarrow> md_find data k = Some v \<Longrightarrow> md_find data' k = Some v"
  unfolding param_update_md_def
  by (rule fold_res_invariant [where P = "\<lambda>d. md_find d k = Some v"])
    (auto simp: param_update_find split: if_splits)

lemma param_update_md_contains:
  assumes "param_update_md other data = Inr data'" and "(k, v) \<in> set other"
    and "k \<notin> {PARAMETRIZATION_PAYLOAD_KEY, PARAMETRIZATION_PAYLOAD_ELEMENT_TYPE}"
  shows "\<exists>w. md_find data' k = Some w \<and> value_eq w v"
  using assms(1,2)
proof (induction other arbitrary: data)
  case Nil
  then show ?case by simp
next
  case (Cons kv other)
  obtain d where d: "param_update_md [kv] data = Inr d" "param_update_md other d = Inr data'"
    using Cons.prems(1) by (auto simp: param_update_md_def bind_res_Inr_iff split: prod.splits if_splits)
  show ?case
  proof (cases "(k, v) \<in> set other")
    case True
    then show ?thesis using Cons.IH [OF d(2)] by blast
  next
    case False
    then have "kv = (k, v)" using Cons.prems(2) by simp
    then have "param_update k v data = Inr d" using d(1) assms(3) by (simp add: param_update_md_def bind_res_Inr_iff)
    from param_update_find(2) [OF this] show ?thesis using param_update_md_mono [OF d(2)] by blast
  qed
qed

lemma param_update_msg_split:
  assumes "param_update_msg view md payload data = Inr data'"
  obtains d where "param_update_md md d = Inr data'"
    and "\<And>k v. md_find data k = Some v \<Longrightarrow> md_find d k = Some v"
proof -
  obtain d where d: "param_update_md md d = Inr data'"
    "d = data \<or> (\<exists>k t. param_update_bytes view k t payload data = Inr d)"
    using assms by (auto simp: param_update_msg_def bind_res_Inr_iff split: option.splits if_splits)
  then have "md_find d k = Some v" if "md_find data k = Some v" for k v
    using that by (auto simp: param_update_bytes_def bind_res_Inr_iff param_update_find)
  then show thesis using that d(1) by blast
qed

section \<open>Properties\<close>

text \<open>
  A parametrization message never overwrites: after a successful update every key that was
  known has the value it had, and every key of the message (the two payload keys apart) is known
  with a value that the code takes to be equal to the one sent.
\<close>

theorem param_update_monotone:
  assumes "param_update_msg view md payload data = Inr data'"
  shows "(\<forall>k v. md_find data k = Some v \<longrightarrow> md_find data' k = Some v) \<and>
    (\<forall>(k, v) \<in> set md. k \<notin> {PARAMETRIZATION_PAYLOAD_KEY, PARAMETRIZATION_PAYLOAD_ELEMENT_TYPE} \<longrightarrow>
       (\<exists>w. md_find data' k = Some w \<and> value_eq w v))"
proof -
  obtain d where d: "param_update_md md d = Inr data'"
    "\<And>k v. md_find data k = Some v \<Longrightarrow> md_find d k = Some v"
    using param_update_msg_split [OF assms] by metis
  then show ?thesis
    using param_update_md_mono [OF d(1)] param_update_md_contains [OF d(1)] by blast
qed

theorem param_update_monotone_witness:
  "\<exists>data'. param_update_msg \<lparr>view_int32 = \<lambda>_. 0, view_int64 = \<lambda>_. 0, view_real32 = \<lambda>_. 0, view_real64 = \<lambda>_. 0\<rparr>
     [(''payloadKey'', MString ''z''), (''payloadElementType'', MString ''byte''), (''a'', MInteger 1)]
     [7] [(''a'', MInteger 1)] = Inr data' \<and>
   (\<forall>k v. md_find [(''a'', MInteger 1)] k = Some v \<longrightarrow> md_find data' k = Some v)"
proof -
  let ?v = "\<lparr>view_int32 = \<lambda>_. 0, view_int64 = \<lambda>_. 0, view_real32 = \<lambda>_. 0, view_real64 = \<lambda>_. 0\<rparr>"
  let ?md = "[(''payloadKey'', MString ''z''), (''payloadElementType'', MString ''byte''), (''a'', MInteger 1)]"
  have "param_update_msg ?v ?md [7] [(''a'', MInteger 1)] = Inr [(''a'', MInteger 1), (''z'', MBytes [7])]"
    by (simp add: param_update_msg_def param_update_bytes_def param_update_md_def param_update_def
        md_find_def PARAMETRIZATION_PAYLOAD_KEY_def PARAMETRIZATION_PAYLOAD_ELEMENT_TYPE_def
        decodeElementType_def getter_def)
  from param_update_monotone [OF this] this show ?thesis by blast
qed

text \<open>
  \<^verbatim>\<open>operator==\<close> on metadata looks at the first entry only: two metadata of the same size
  that agree on the first entry of the left one compare equal, whatever the other entries are.
\<close>

theorem metadata_eq_ignores_rest:
  assumes "length r = length l" and "md_find ((k', v') # r) k = Some v"
  shows "metadata_eq ((k, v) # l) ((k', v') # r)"
  using assms by (auto simp: metadata_eq_def md_find_def split: if_splits)

theorem metadata_eq_ignores_rest_witness:
  "metadata_eq [(''a'', MInteger 1), (''b'', MInteger 2)] [(''a'', MInteger 1), (''b'', MInteger 3)]"
  by (rule metadata_eq_ignores_rest) (simp_all add: md_find_def)

text \<open>
  The two forms of \<^verbatim>\<open>updateOverwrite\<close>, by copy and by move, give metadata with the same
  content: the entries of the other metadata win, all others stay.
\<close>

theorem updateOverwrite_agree:
  assumes "md_wf other"
  shows "md_find (md_updateOverwrite other md) k = md_find (md_updateOverwrite_move other md) k"
  by (simp add: md_find_updateOverwrite [OF assms] md_updateOverwrite_move_def md_find_merge)

theorem updateOverwrite_agree_witness:
  "md_find (md_updateOverwrite [(''a'', MInteger 1)] [(''a'', MInteger 2), (''b'', MNull)]) ''a'' =
   md_find (md_updateOverwrite_move [(''a'', MInteger 1)] [(''a'', MInteger 2), (''b'', MNull)]) ''a''"
  by (rule updateOverwrite_agree) simp

end
