(* ===== verification/Messages.thy ===== *)
theory Messages
  imports Metadata "HOL-Library.List_Lexorder" "HOL-Library.Char_ord"
begin

text \<open>
  \<^verbatim>\<open>src/src/multio/message\<close>: \<^verbatim>\<open>Peer\<close> with its order, \<^verbatim>\<open>Message\<close> with its header and the typed
  accessors of the header. A payload is what its reader takes the bytes for: raw bytes,
  \<^verbatim>\<open>int32_t\<close> indices, or field values of the message's precision. \<^verbatim>\<open>fieldId()\<close>, the JSON text of the
  metadata, is the parameter \<open>toJSON\<close>.
\<close>

section \<open>Peers\<close>

datatype Peer = Peer (group_of: string) (id_of: u64)

definition default_peer :: Peer where
  "default_peer = Peer ''null'' (- 1)"

definition peer_before :: "Peer \<Rightarrow> Peer \<Rightarrow> bool" where
  "peer_before p q \<longleftrightarrow> (if id_of p \<noteq> id_of q then id_of p < id_of q else group_of p < group_of q)"

instantiation Peer :: linorder
begin

definition less_eq_Peer :: "Peer \<Rightarrow> Peer \<Rightarrow> bool" where
  "less_eq_Peer p q \<longleftrightarrow> (if id_of p \<noteq> id_of q then id_of p < id_of q else group_of p \<le> group_of q)"

definition less_Peer :: "Peer \<Rightarrow> Peer \<Rightarrow> bool" where
  "less_Peer p q \<longleftrightarrow> peer_before p q"

instance
proof
  fix p q r :: Peer
  show "(p < q) = (p \<le> q \<and> \<not> q \<le> p)" by (auto simp: less_Peer_def peer_before_def less_eq_Peer_def)
  show "p \<le> p" by (simp add: less_eq_Peer_def)
  show "p \<le> q \<Longrightarrow> q \<le> r \<Longrightarrow> p \<le> r"
    by (auto simp: less_eq_Peer_def split: if_splits)
  show "p \<le> q \<Longrightarrow> q \<le> p \<Longrightarrow> p = q"
    by (cases p; cases q) (auto simp: less_eq_Peer_def split: if_splits)
  show "p \<le> q \<or> q \<le> p" by (auto simp: less_eq_Peer_def)
qed

end

section \<open>Messages\<close>

datatype Tag = Empty | Open | Close | Grib | Domain | Mask | Field | Flush | Notification
  | Parametrization | Synchronization | ENDTAG

fun tag_code :: "Tag \<Rightarrow> nat" where
  "tag_code Empty = 0"
| "tag_code Open = 1"
| "tag_code Close = 2"
| "tag_code Grib = 3"
| "tag_code Domain = 4"
| "tag_code Mask = 5"
| "tag_code Field = 6"
| "tag_code Flush = 7"
| "tag_code Notification = 8"
| "tag_code Parametrization = 9"
| "tag_code Synchronization = 10"
| "tag_code ENDTAG = 11"

definition tag2str :: "Tag \<Rightarrow> string res" where
  "tag2str t =
     (if \<not> tag_code t < tag_code ENDTAG then Inl AssertionFailed
      else case map_of [(Empty, ''Empty''), (Open, ''Open''), (Close, ''Close''), (Domain, ''Domain''),
                        (Mask, ''Mask''), (Field, ''Field''), (Flush, ''Flush''),
                        (Notification, ''Notification''), (Parametrization, ''Parametrization''),
                        (Synchronization, ''Synchronization'')] t of
        Some s \<Rightarrow> Inr s
      | None \<Rightarrow> Inl AssertionFailed)"

datatype 'v payload = Bytes "u8 list" | Indices "int list" | Values "'v list"

record 'v message =
  tag :: Tag
  source :: Peer
  destination :: Peer
  metadata :: BaseMetadata
  payload :: "'v payload"

definition required :: "(MetadataValue \<Rightarrow> 'a option) \<Rightarrow> string \<Rightarrow> 'v message \<Rightarrow> 'a res" where
  "required as k msg =
     bind_res (md_getOpt as k (metadata msg))
       (\<lambda>opt. case opt of Some x \<Rightarrow> Inr x | None \<Rightarrow> Inl MetadataException)"

definition msg_name :: "'v message \<Rightarrow> string res" where
  "msg_name = required as_string ''name''"

definition msg_category :: "'v message \<Rightarrow> string res" where
  "msg_category = required as_string ''category''"

definition msg_globalSize :: "'v message \<Rightarrow> int res" where
  "msg_globalSize = required as_integer ''misc-globalSize''"

definition msg_domain :: "'v message \<Rightarrow> string res" where
  "msg_domain = required as_string ''domain''"

definition msg_precision :: "'v message \<Rightarrow> PrecisionTag res" where
  "msg_precision msg = bind_res (required as_string ''misc-precision'' msg) decodePrecisionTag"

text \<open>
  \<^verbatim>\<open>convert_precision<From, To>\<close>: the values are converted one by one; the global size of the result is
  set to the size of the new buffer, in bytes.
\<close>

definition convert_precision :: "PrecisionTag \<Rightarrow> ('v \<Rightarrow> 'v) \<Rightarrow> 'v message \<Rightarrow> 'v message res" where
  "convert_precision to cast msg =
     (case payload msg of
        Values vs \<Rightarrow>
          Inr \<lparr>tag = tag msg, source = source msg, destination = destination msg,
               metadata = md_set ''misc-precision'' (MString (case to of Double \<Rightarrow> ''double'' | Float \<Rightarrow> ''single''))
                 (md_set ''misc-globalSize'' (MInteger (int (length vs * precision_size to))) (metadata msg)),
               payload = Values (map cast vs)\<rparr>
      | _ \<Rightarrow> Inl UndefinedBehaviour)"

lemma required_Inr_iff:
  "required as k msg = Inr x \<longleftrightarrow> md_get as k (metadata msg) = Inr x"
  by (auto simp: required_def bind_res_Inr_iff md_getOpt_Some [symmetric] split: option.splits)

lemma required_error:
  "required as k msg = Inl e \<longleftrightarrow>
     (md_find (metadata msg) k = None \<and> e = MetadataException \<or>
      (\<exists>v. md_find (metadata msg) k = Some v \<and> as v = None \<and> e = Terminate))"
  by (auto simp: required_def md_getOpt_def getter_def bind_res_def split: option.splits)

section \<open>Properties\<close>

text \<open>
  A header accessor returns the value of its key, throws a \<^verbatim>\<open>MetadataException\<close> exactly if the
  key is missing, and ends the program exactly if the key has a value of another type.
\<close>

theorem msg_domain_cases:
  "msg_domain msg =
     (case md_find (metadata msg) ''domain'' of
        None \<Rightarrow> Inl MetadataException
      | Some v \<Rightarrow> (case as_string v of Some s \<Rightarrow> Inr s | None \<Rightarrow> Inl Terminate))"
  by (auto simp: msg_domain_def required_def md_getOpt_def getter_def split: option.splits)

text \<open>
  After \<^verbatim>\<open>convert_precision\<close> the message has as many values as before and announces the
  new precision, but its global size is not the number of its values: it is their size in bytes.
\<close>

theorem convert_precision_global_size:
  assumes "payload msg = Values vs"
  shows "\<exists>msg'. convert_precision to cast msg = Inr msg' \<and> payload msg' = Values (map cast vs) \<and>
    msg_precision msg' = Inr to \<and>
    msg_globalSize msg' = Inr (int (length vs) * int (precision_size to))"
  using assms
  by (cases to)
    (simp_all add: convert_precision_def msg_precision_def msg_globalSize_def required_def md_getOpt_def
      getter_def decodePrecisionTag_def)

theorem convert_precision_global_size_witness:
  "\<exists>msg'. convert_precision Double (\<lambda>x. x) \<lparr>tag = Field, source = default_peer, destination = default_peer,
       metadata = [(''misc-globalSize'', MInteger 2)], payload = Values [1, 2 :: nat]\<rparr> = Inr msg' \<and>
     payload msg' = Values (map (\<lambda>x. x) [1, 2]) \<and> msg_precision msg' = Inr Double \<and>
     msg_globalSize msg' = Inr (int (length [1, 2 :: nat]) * int (precision_size Double))"
  by (rule convert_precision_global_size) simp

text \<open>
  Every tag has a name of its own, except for \<^verbatim>\<open>Grib\<close>, which \<^verbatim>\<open>tag2str\<close> does not know.
\<close>

theorem tag2str_names:
  "tag2str t = Inl AssertionFailed \<longleftrightarrow> t \<in> {Grib, ENDTAG}"
  by (cases t) (simp_all add: tag2str_def)

end
