(* ===== verification/Configurations.thy ===== *)
theory Configurations
  imports Messages
begin

text \<open>
  Configuration objects and how they become metadata. \<^verbatim>\<open>eckit::LocalConfiguration\<close> is not part
  of the repository; the code sees it as a tree of YAML values, which is the datatype
  \<open>Config\<close>: \<^verbatim>\<open>getString\<close> and \<^verbatim>\<open>getInt\<close> throw for a missing key and for a value of another type, a
  list of sub-configurations that is not there is empty, and a list counts as a list of integers,
  of floating point numbers or of strings if all its elements are. The conversions
  \<^verbatim>\<open>tryToMetadataValue\<close> and \<^verbatim>\<open>toMetadata\<close> are those of \<^verbatim>\<open>message/MetadataValue.cc\<close> and
  \<^verbatim>\<open>message/Metadata.cc\<close>.
\<close>

section \<open>Configuration objects\<close>

datatype Config =
    CNull
  | CString string
  | CInt int
  | CDouble real
  | CBool bool
  | CList "Config list"
  | CMap "(string \<times> Config) list"

fun cfg_find :: "Config \<Rightarrow> string \<Rightarrow> Config option" where
  "cfg_find (CMap kvs) k = map_of kvs k"
| "cfg_find _ k = None"

definition cfg_has :: "Config \<Rightarrow> string \<Rightarrow> bool" where
  "cfg_has c k \<longleftrightarrow> cfg_find c k \<noteq> None"

fun cfg_entries :: "Config \<Rightarrow> (string \<times> Config) list" where
  "cfg_entries (CMap kvs) = kvs"
| "cfg_entries _ = []"

definition cfg_getString :: "Config \<Rightarrow> string \<Rightarrow> string res" where
  "cfg_getString c k = (case cfg_find c k of Some (CString s) \<Rightarrow> Inr s | _ \<Rightarrow> Inl ForeignException)"

definition cfg_getInt :: "Config \<Rightarrow> string \<Rightarrow> int res" where
  "cfg_getInt c k = (case cfg_find c k of Some (CInt i) \<Rightarrow> Inr i | _ \<Rightarrow> Inl ForeignException)"

definition cfg_getBool :: "Config \<Rightarrow> string \<Rightarrow> bool res" where
  "cfg_getBool c k = (case cfg_find c k of Some (CBool b) \<Rightarrow> Inr b | _ \<Rightarrow> Inl ForeignException)"

definition cfg_getSubConfiguration :: "Config \<Rightarrow> string \<Rightarrow> Config" where
  "cfg_getSubConfiguration c k = (case cfg_find c k of Some (CMap kvs) \<Rightarrow> CMap kvs | _ \<Rightarrow> CMap [])"

definition cfg_getSubConfigurations :: "Config \<Rightarrow> string \<Rightarrow> Config list" where
  "cfg_getSubConfigurations c k = (case cfg_find c k of Some (CList cs) \<Rightarrow> cs | _ \<Rightarrow> [])"

definition getLong_default :: "Config \<Rightarrow> string \<Rightarrow> int \<Rightarrow> int res" where
  "getLong_default c k d = (if cfg_has c k then cfg_getInt c k else Inr d)"

definition getString_default :: "Config \<Rightarrow> string \<Rightarrow> string \<Rightarrow> string res" where
  "getString_default c k d = (if cfg_has c k then cfg_getString c k else Inr d)"

definition getBool_default :: "Config \<Rightarrow> string \<Rightarrow> bool \<Rightarrow> bool res" where
  "getBool_default c k d = (case cfg_find c k of
     None \<Rightarrow> Inr d | Some (CBool b) \<Rightarrow> Inr b | Some _ \<Rightarrow> Inl ForeignException)"

text \<open>The lists whose elements all have one type; the empty list counts as each of them.\<close>

definition list_as :: "('c \<Rightarrow> 'a option) \<Rightarrow> 'c list \<Rightarrow> 'a list option" where
  "list_as as cs = (if \<forall>c \<in> set cs. as c \<noteq> None then Some (List.map (\<lambda>c. the (as c)) cs) else None)"

fun c_int :: "Config \<Rightarrow> int option" where
  "c_int (CInt i) = Some i"
| "c_int _ = None"

fun c_double :: "Config \<Rightarrow> real option" where
  "c_double (CDouble d) = Some d"
| "c_double _ = None"

fun c_bool :: "Config \<Rightarrow> bool option" where
  "c_bool (CBool b) = Some b"
| "c_bool _ = None"

fun c_string :: "Config \<Rightarrow> string option" where
  "c_string (CString s) = Some s"
| "c_string _ = None"

lemma list_as_Some: "list_as as cs = Some xs \<Longrightarrow> length xs = length cs \<and> (\<forall>c \<in> set cs. as c \<noteq> None)"
  by (auto simp: list_as_def split: if_splits)

lemma list_as_map: "(\<And>x. as (f x) = Some x) \<Longrightarrow> list_as as (List.map f xs) = Some xs"
  by (simp add: list_as_def map_idI)

section \<open>Metadata from configurations\<close>

fun scalar_value :: "Config \<Rightarrow> MetadataValue option" where
  "scalar_value (CBool b) = Some (MBool b)"
| "scalar_value (CDouble d) = Some (MDouble d)"
| "scalar_value (CInt i) = Some (MInteger i)"
| "scalar_value (CString s) = Some (MString s)"
| "scalar_value CNull = Some MNull"
| "scalar_value _ = None"

definition list_value :: "Config list \<Rightarrow> MetadataValue option" where
  "list_value cs =
     (case list_as c_bool cs of Some bs \<Rightarrow> Some (MBoolList bs)
      | None \<Rightarrow> (case list_as c_double cs of Some ds \<Rightarrow> Some (MDoubleList ds)
      | None \<Rightarrow> (case list_as c_int cs of Some is \<Rightarrow> Some (MIntegerList is)
      | None \<Rightarrow> (case list_as c_string cs of Some ss \<Rightarrow> Some (MStringList ss)
      | None \<Rightarrow> None))))"

fun tryToMetadataValue :: "Config \<Rightarrow> MetadataValue option"
  and toMetadata_onto :: "(string \<times> Config) list \<Rightarrow> BaseMetadata \<Rightarrow> BaseMetadata" where
  "tryToMetadataValue (CMap kvs) = Some (MNested (toMetadata_onto kvs []))"
| "tryToMetadataValue (CList cs) = list_value cs"
| "tryToMetadataValue c = scalar_value c"
| "toMetadata_onto [] m = m"
| "toMetadata_onto ((k, c) # kvs) m =
     toMetadata_onto kvs (case tryToMetadataValue c of Some v \<Rightarrow> md_set k v m | None \<Rightarrow> m)"

definition toMetadata :: "Config \<Rightarrow> BaseMetadata" where
  "toMetadata c = toMetadata_onto (cfg_entries c) []"

lemma md_find_toMetadata_onto:
  "distinct (List.map fst kvs) \<Longrightarrow>
   md_find (toMetadata_onto kvs m) k =
     (case map_of kvs k of
        None \<Rightarrow> md_find m k
      | Some c \<Rightarrow> (case tryToMetadataValue c of Some v \<Rightarrow> Some v | None \<Rightarrow> md_find m k))"
proof (induction kvs arbitrary: m)
  case Nil
  then show ?case by simp
next
  case (Cons kv kvs)
  obtain k' c where kv: "kv = (k', c)" by force
  have "map_of kvs k' = None" using Cons.prems kv by (simp add: map_of_eq_None_iff)
  then show ?case using Cons.IH Cons.prems kv by (auto split: option.splits)
qed

lemma md_wf_toMetadata_onto: "md_wf m \<Longrightarrow> md_wf (toMetadata_onto kvs m)"
proof (induction kvs arbitrary: m)
  case Nil
  then show ?case by simp
next
  case (Cons kv kvs)
  then show ?case by (cases kv) (auto split: option.splits)
qed

lemma md_find_toMetadata:
  "distinct (List.map fst (cfg_entries c)) \<Longrightarrow>
   md_find (toMetadata c) k = Option.bind (cfg_find c k) tryToMetadataValue"
  by (cases c) (auto simp: toMetadata_def md_find_toMetadata_onto split: option.splits)

lemma md_wf_toMetadata: "md_wf (toMetadata c)"
  by (simp add: toMetadata_def md_wf_toMetadata_onto)

end
