(* ===== verification/Failures.thy ===== *)
theory Failures
  imports Configurations
begin

text \<open>
  \<^verbatim>\<open>src/src/multio/util/FailureHandling.{h,cc}\<close> and its users: the error tags of the six failure-aware
  components, how a tag is read from the configuration, the retry loop \<^verbatim>\<open>withFailureHandling\<close>, and
  the handlers. The loop takes a bound on its rounds: \<open>None\<close> says that it is
  still running after that many rounds.
\<close>

section \<open>Names in lower case\<close>

definition lower_char :: "char \<Rightarrow> char" where
  "lower_char c = (let n = (of_char c :: nat) in if 65 \<le> n \<and> n \<le> 90 then char_of (n + 32) else c)"

definition lower :: "string \<Rightarrow> string" where
  "lower s = List.map lower_char s"

lemma lower_char_idem [simp]: "lower_char (lower_char c) = lower_char c"
proof -
  have "(of_char c :: nat) < 256" using of_char_of [of "of_char c"] by (metis mod_less_divisor of_char_mod_256 zero_less_numeral)
  then show ?thesis by (simp add: lower_char_def Let_def)
qed

lemma lower_idem [simp]: "lower (lower s) = lower s"
  by (simp add: lower_def)

section \<open>Error tags\<close>

datatype OnClientError = ClientPropagate | ClientRecover | ClientAbortTransport
datatype OnServerError = ServerPropagate | ServerRecover | ServerAbortTransport
datatype OnPlanError = PlanPropagate | PlanRecover
datatype OnActionError = ActionPropagate | ActionRecover
datatype OnReceiveError = ReceivePropagate
datatype OnDispatchError = DispatchPropagate

fun translateClient :: "OnClientError \<Rightarrow> string" where
  "translateClient ClientPropagate = ''propagate''"
| "translateClient ClientRecover = ''recover''"
| "translateClient ClientAbortTransport = ''abort-transport''"

fun translateServer :: "OnServerError \<Rightarrow> string" where
  "translateServer ServerPropagate = ''propagate''"
| "translateServer ServerRecover = ''recover''"
| "translateServer ServerAbortTransport = ''abort-transport''"

fun translatePlan :: "OnPlanError \<Rightarrow> string" where
  "translatePlan PlanPropagate = ''propagate''"
| "translatePlan PlanRecover = ''recover''"

fun translateAction :: "OnActionError \<Rightarrow> string" where
  "translateAction ActionPropagate = ''propagate''"
| "translateAction ActionRecover = ''recover''"

fun translateReceive :: "OnReceiveError \<Rightarrow> string" where
  "translateReceive ReceivePropagate = ''propagate''"

fun translateDispatch :: "OnDispatchError \<Rightarrow> string" where
  "translateDispatch DispatchPropagate = ''propagate''"

text \<open>The lookup map of lower-case names, built from the tag sequence of the component.\<close>

definition buildEnumLookUpMap :: "('t \<Rightarrow> string) \<Rightarrow> 't list \<Rightarrow> (string \<times> 't) list" where
  "buildEnumLookUpMap translate tags = List.map (\<lambda>t. (lower (translate t), t)) tags"

definition parseErrorTag :: "('t \<Rightarrow> string) \<Rightarrow> 't list \<Rightarrow> string \<Rightarrow> 't option" where
  "parseErrorTag translate tags str = map_of (buildEnumLookUpMap translate tags) (lower str)"

definition parseClient :: "string \<Rightarrow> OnClientError option" where
  "parseClient = parseErrorTag translateClient [ClientPropagate, ClientRecover, ClientAbortTransport]"

definition parseServer :: "string \<Rightarrow> OnServerError option" where
  "parseServer = parseErrorTag translateServer [ServerPropagate, ServerRecover, ServerAbortTransport]"

definition parsePlan :: "string \<Rightarrow> OnPlanError option" where
  "parsePlan = parseErrorTag translatePlan [PlanPropagate, PlanRecover]"

definition parseAction :: "string \<Rightarrow> OnActionError option" where
  "parseAction = parseErrorTag translateAction [ActionPropagate, ActionRecover]"

definition parseReceive :: "string \<Rightarrow> OnReceiveError option" where
  "parseReceive = parseErrorTag translateReceive [ReceivePropagate]"

definition parseDispatch :: "string \<Rightarrow> OnDispatchError option" where
  "parseDispatch = parseErrorTag translateDispatch [DispatchPropagate]"

section \<open>Reading the tag of a component\<close>

record FailureOptions =
  maxRetries :: "int option"

definition parseDefaultFailureOptions :: "Config \<Rightarrow> FailureOptions res" where
  "parseDefaultFailureOptions conf =
     (if cfg_has conf ''maxRetries''
      then bind_res (cfg_getInt conf ''maxRetries'') (\<lambda>n. Inr \<lparr>maxRetries = Some n\<rparr>)
      else Inr \<lparr>maxRetries = None\<rparr>)"

text \<open>
  The constructor of \<^verbatim>\<open>FailureAware\<close>, for the parser, the default tag and the configuration key of the
  component: a plain string has to be a known tag; an object has to have a \<^verbatim>\<open>type\<close>, and may have options.
\<close>

definition failureAware ::
    "(string \<Rightarrow> 't option) \<Rightarrow> 't \<Rightarrow> string \<Rightarrow> Config \<Rightarrow> ('t \<times> FailureOptions) res" where
  "failureAware parse dflt key conf =
     (if \<not> cfg_has conf key then Inr (dflt, \<lparr>maxRetries = None\<rparr>)
      else case cfg_getString conf key of
        Inr str \<Rightarrow>
          (case parse str of
             None \<Rightarrow> Inl FailureAwareException
           | Some t \<Rightarrow> Inr (t, \<lparr>maxRetries = None\<rparr>))
      | Inl _ \<Rightarrow>
          let sub = cfg_getSubConfiguration conf key
          in (case cfg_getString sub ''type'' of
                Inl _ \<Rightarrow> Inl FailureAwareException
              | Inr str \<Rightarrow>
                  bind_res (parseDefaultFailureOptions sub) (\<lambda>opts.
                    Inr (case parse str of Some t \<Rightarrow> t | None \<Rightarrow> dflt, opts))))"

text \<open>What the constructor needs of a component: its names are lower case and its tags read back.\<close>

locale failure_traits =
  fixes translate :: "'t \<Rightarrow> string" and parse :: "string \<Rightarrow> 't option" and dflt :: 't
  assumes parse_translate: "parse (translate t) = Some t"
    and parse_Some: "parse s = Some t \<Longrightarrow> lower s = translate t"
    and parse_lower: "parse (lower s) = parse s"
begin

lemma parse_iff: "parse s = Some t \<longleftrightarrow> lower s = translate t"
  using parse_Some parse_translate parse_lower by metis

lemma translate_inj: "translate t = translate u \<Longrightarrow> t = u"
  using parse_translate by (metis option.inject)

lemma parse_None_iff: "parse s = None \<longleftrightarrow> lower s \<notin> range translate"
  using parse_iff by (metis not_None_eq rangeE rangeI)

lemma plain_string:
  "cfg_find conf key = Some (CString s) \<Longrightarrow>
     failureAware parse dflt key conf =
       (if lower s \<in> range translate then Inr (the (parse s), \<lparr>maxRetries = None\<rparr>) else Inl FailureAwareException)"
  using parse_None_iff [of s]
  by (cases "parse s") (auto simp: failureAware_def cfg_has_def cfg_getString_def)

lemma object_type:
  assumes "cfg_find conf key = Some (CMap kvs)" and "map_of kvs ''type'' = Some (CString s)"
    and "map_of kvs ''maxRetries'' = None"
  shows "failureAware parse dflt key conf =
    Inr (if lower s \<in> range translate then the (parse s) else dflt, \<lparr>maxRetries = None\<rparr>)"
proof -
  have "(case parse s of Some t \<Rightarrow> t | None \<Rightarrow> dflt) = (if lower s \<in> range translate then the (parse s) else dflt)"
    using parse_None_iff [of s] by (cases "parse s") auto
  then show ?thesis
    using assms by (simp add: failureAware_def cfg_has_def cfg_getString_def cfg_getSubConfiguration_def
        parseDefaultFailureOptions_def)
qed

end

section \<open>The retry loop\<close>

datatype FailureHandlerResponse = Rethrow | Ignore | Retry

fun withFailureHandling :: "nat \<Rightarrow> ('s \<Rightarrow> 's \<times> unit res) \<Rightarrow> FailureHandlerResponse \<Rightarrow> 's \<Rightarrow> ('s \<times> unit res) option" where
  "withFailureHandling 0 callable response st = None"
| "withFailureHandling (Suc fuel) callable response st =
     (case callable st of
        (st', Inr u) \<Rightarrow> Some (st', Inr u)
      | (st', Inl e) \<Rightarrow>
          (case response of
             Retry \<Rightarrow> withFailureHandling fuel callable response st'
           | Rethrow \<Rightarrow> Some (st', Inl FailureAwareException)
           | Ignore \<Rightarrow> Some (st', Inr ())))"

section \<open>Handlers\<close>

text \<open>The response, and whether the transports are aborted or the message queue is interrupted.\<close>

record Reaction =
  response :: FailureHandlerResponse
  abortsTransport :: bool
  interruptsQueue :: bool

fun clientHandleFailure :: "OnClientError \<Rightarrow> Reaction" where
  "clientHandleFailure t = \<lparr>response = Rethrow, abortsTransport = (t = ClientAbortTransport), interruptsQueue = False\<rparr>"

fun serverHandleFailure :: "OnServerError \<Rightarrow> Reaction" where
  "serverHandleFailure t = \<lparr>response = Rethrow, abortsTransport = (t = ServerAbortTransport), interruptsQueue = False\<rparr>"

fun planHandleFailure :: "OnPlanError \<Rightarrow> Reaction" where
  "planHandleFailure t =
     \<lparr>response = (if t = PlanRecover then Retry else Rethrow), abortsTransport = False, interruptsQueue = False\<rparr>"

fun actionHandleFailure :: "OnActionError \<Rightarrow> Reaction" where
  "actionHandleFailure t =
     \<lparr>response = (if t = ActionRecover then Retry else Rethrow), abortsTransport = False, interruptsQueue = False\<rparr>"

fun listenerHandleFailure :: "OnReceiveError \<Rightarrow> Reaction" where
  "listenerHandleFailure t = \<lparr>response = Rethrow, abortsTransport = True, interruptsQueue = True\<rparr>"

fun dispatcherHandleFailure :: "OnDispatchError \<Rightarrow> Reaction" where
  "dispatcherHandleFailure t = \<lparr>response = Rethrow, abortsTransport = False, interruptsQueue = True\<rparr>"

text \<open>
  \<^verbatim>\<open>Plan::process\<close> and \<^verbatim>\<open>Action::execute\<close>: the message is captured by the callable and moved out of it in
  the first round; a further round passes on the moved-from message.
\<close>

definition processMessage ::
    "nat \<Rightarrow> FailureHandlerResponse \<Rightarrow> ('v message \<Rightarrow> 's \<Rightarrow> 's \<times> unit res) \<Rightarrow> 'v message \<Rightarrow> 'v message \<Rightarrow> 's \<Rightarrow>
     ('s \<times> unit res) option" where
  "processMessage fuel resp execute movedFrom msg st =
     map_option (\<lambda>((m, s), r). (s, r))
       (withFailureHandling fuel
          (\<lambda>(m, s). case execute m s of (s', r) \<Rightarrow> ((movedFrom, s'), r)) resp (msg, st))"

definition planProcess where
  "planProcess fuel t = processMessage fuel (response (planHandleFailure t))"

definition actionExecute where
  "actionExecute fuel t = processMessage fuel (response (actionHandleFailure t))"

section \<open>The six components\<close>

lemma lower_char_const [simp]: "lower_char CHR ''-'' = CHR ''-''"
  by (simp add: lower_char_def)

lemma lower_names [simp]:
  "lower ''propagate'' = ''propagate''" "lower ''recover'' = ''recover''"
  "lower ''abort-transport'' = ''abort-transport''"
  by (simp_all add: lower_def lower_char_def)

lemmas parse_defs = parseClient_def parseServer_def parsePlan_def parseAction_def parseReceive_def parseDispatch_def
  parseErrorTag_def buildEnumLookUpMap_def

interpretation client: failure_traits translateClient parseClient ClientPropagate
proof
  show "parseClient (translateClient t) = Some t" for t by (cases t) (simp_all add: parse_defs)
  show "parseClient s = Some t \<Longrightarrow> lower s = translateClient t" for s t
    by (simp add: parse_defs split: if_splits; elim disjE; simp)
qed (simp add: parse_defs)

interpretation server: failure_traits translateServer parseServer ServerPropagate
proof
  show "parseServer (translateServer t) = Some t" for t by (cases t) (simp_all add: parse_defs)
  show "parseServer s = Some t \<Longrightarrow> lower s = translateServer t" for s t
    by (auto simp: parse_defs split: if_splits)
qed (simp add: parse_defs)

interpretation plan: failure_traits translatePlan parsePlan PlanPropagate
proof
  show "parsePlan (translatePlan t) = Some t" for t by (cases t) (simp_all add: parse_defs)
  show "parsePlan s = Some t \<Longrightarrow> lower s = translatePlan t" for s t
    by (auto simp: parse_defs split: if_splits)
qed (simp add: parse_defs)

interpretation action: failure_traits translateAction parseAction ActionPropagate
proof
  show "parseAction (translateAction t) = Some t" for t by (cases t) (simp_all add: parse_defs)
  show "parseAction s = Some t \<Longrightarrow> lower s = translateAction t" for s t
    by (auto simp: parse_defs split: if_splits)
qed (simp add: parse_defs)

interpretation receiver: failure_traits translateReceive parseReceive ReceivePropagate
proof
  show "parseReceive (translateReceive t) = Some t" for t by (cases t) (simp_all add: parse_defs)
  show "parseReceive s = Some t \<Longrightarrow> lower s = translateReceive t" for s t
    by (auto simp: parse_defs split: if_splits)
qed (simp add: parse_defs)

interpretation dispatcher: failure_traits translateDispatch parseDispatch DispatchPropagate
proof
  show "parseDispatch (translateDispatch t) = Some t" for t by (cases t) (simp_all add: parse_defs)
  show "parseDispatch s = Some t \<Longrightarrow> lower s = translateDispatch t" for s t
    by (auto simp: parse_defs split: if_splits)
qed (simp add: parse_defs)

section \<open>Lemmas on the loop\<close>

lemma withFailureHandling_Rethrow:
  "withFailureHandling (Suc fuel) callable Rethrow st =
     Some (fst (callable st), case snd (callable st) of Inr u \<Rightarrow> Inr u | Inl e \<Rightarrow> Inl FailureAwareException)"
  by (cases "callable st"; cases "snd (callable st)") auto

lemma withFailureHandling_Retry_Inr:
  "withFailureHandling fuel callable Retry st = Some (st', r) \<Longrightarrow> r = Inr ()"
  by (induction fuel arbitrary: st) (auto split: prod.splits sum.splits)

lemma withFailureHandling_Retry_fails:
  assumes "\<And>st. P st \<Longrightarrow> \<exists>st' e. callable st = (st', Inl e) \<and> P st'" and "P st"
  shows "withFailureHandling fuel callable Retry st = None"
  using assms(2)
proof (induction fuel arbitrary: st)
  case 0
  then show ?case by simp
next
  case (Suc fuel)
  then obtain st' e where "callable st = (st', Inl e)" "P st'" using assms(1) by blast
  then show ?case using Suc.IH by simp
qed

section \<open>Properties\<close>

text \<open>
  A plan's \<^verbatim>\<open>on-error\<close> string is accepted exactly if it is \<^verbatim>\<open>propagate\<close> or \<^verbatim>\<open>recover\<close> in any case of
  letters, and it then means this tag; any other string is a \<^verbatim>\<open>FailureAwareException\<close>.
\<close>

theorem plan_on_error_string:
  assumes "cfg_find conf ''on-error'' = Some (CString s)"
  shows "failureAware parsePlan PlanPropagate ''on-error'' conf =
    (if lower s = ''propagate'' then Inr (PlanPropagate, \<lparr>maxRetries = None\<rparr>)
     else if lower s = ''recover'' then Inr (PlanRecover, \<lparr>maxRetries = None\<rparr>)
     else Inl FailureAwareException)"
proof -
  have U: "(UNIV :: OnPlanError set) = {PlanPropagate, PlanRecover}" using OnPlanError.exhaust by blast
  have "range translatePlan = {''propagate'', ''recover''}" unfolding U by simp
  moreover have "lower s = ''propagate'' \<Longrightarrow> parsePlan s = Some PlanPropagate"
    "lower s = ''recover'' \<Longrightarrow> parsePlan s = Some PlanRecover"
    using plan.parse_iff by simp_all
  ultimately show ?thesis using plan.plain_string [OF assms] by auto
qed

theorem plan_on_error_string_witness:
  "failureAware parsePlan PlanPropagate ''on-error'' (CMap [(''on-error'', CString ''Recover'')]) =
    (if lower ''Recover'' = ''propagate'' then Inr (PlanPropagate, \<lparr>maxRetries = None\<rparr>)
     else if lower ''Recover'' = ''recover'' then Inr (PlanRecover, \<lparr>maxRetries = None\<rparr>)
     else Inl FailureAwareException)"
  by (rule plan_on_error_string) simp

text \<open>
  Inside an object the tag is not checked: an unknown \<^verbatim>\<open>type\<close> silently becomes the default
  of the client, \<^verbatim>\<open>propagate\<close>, although the same text is refused when it is given as a plain string.
\<close>

theorem client_unknown_type_is_defaulted:
  assumes "cfg_find conf ''on-error'' = Some (CMap [(''type'', CString s)])"
    and "lower s \<notin> range translateClient"
  shows "failureAware parseClient ClientPropagate ''on-error'' conf = Inr (ClientPropagate, \<lparr>maxRetries = None\<rparr>) \<and>
    failureAware parseClient ClientPropagate ''on-error'' (CMap [(''on-error'', CString s)]) = Inl FailureAwareException"
  using client.object_type [OF assms(1), of s] client.plain_string [of "CMap [(''on-error'', CString s)]" "''on-error''" s]
    assms(2)
  by simp

theorem client_unknown_type_is_defaulted_witness:
  "failureAware parseClient ClientPropagate ''on-error'' (CMap [(''on-error'', CMap [(''type'', CString ''ignore'')])]) =
     Inr (ClientPropagate, \<lparr>maxRetries = None\<rparr>) \<and>
   failureAware parseClient ClientPropagate ''on-error'' (CMap [(''on-error'', CString ''ignore'')]) =
     Inl FailureAwareException"
proof (rule client_unknown_type_is_defaulted)
  show "lower ''ignore'' \<notin> range translateClient"
  proof -
    have U: "(UNIV :: OnClientError set) = {ClientPropagate, ClientRecover, ClientAbortTransport}"
      using OnClientError.exhaust by blast
    show ?thesis unfolding U by (simp add: lower_def lower_char_def)
  qed
qed simp

text \<open>
  A plan that propagates errors executes its action once: it returns what the action returns, and any
  exception leaves it as a \<^verbatim>\<open>FailureAwareException\<close>.
\<close>

theorem plan_propagate:
  "planProcess (Suc fuel) PlanPropagate execute movedFrom msg st =
     Some (fst (execute msg st), case snd (execute msg st) of Inr u \<Rightarrow> Inr u | Inl e \<Rightarrow> Inl FailureAwareException)"
  by (simp add: planProcess_def processMessage_def withFailureHandling_Rethrow split_beta split: sum.split)

text \<open>
  Property C36. A plan with \<^verbatim>\<open>recover\<close> never reports a failure, and it need not return: the first round moves the message
  away, so if the action fails once and then fails on the moved-from message, the plan is still retrying after
  any number of rounds. The configured number of retries is not consulted.
\<close>

theorem plan_recover_spins:
  assumes first: "snd (execute msg st) = Inl e"
    and moved: "\<And>s. \<exists>e'. snd (execute movedFrom s) = Inl e'"
  shows "planProcess fuel PlanRecover execute movedFrom msg st = None"
proof -
  let ?call = "\<lambda>(m, s). case execute m s of (s', r) \<Rightarrow> ((movedFrom, s'), r)"
  have "withFailureHandling fuel ?call Retry (msg, st) = None"
  proof (rule withFailureHandling_Retry_fails [where P = "\<lambda>(m, s). \<exists>e. snd (execute m s) = Inl e"])
    show "\<exists>y e. ?call x = (y, Inl e) \<and> (case y of (m, s) \<Rightarrow> \<exists>e. snd (execute m s) = Inl e)"
      if "case x of (m, s) \<Rightarrow> \<exists>e. snd (execute m s) = Inl e" for x
      using that moved by (cases x) (auto split: prod.splits)
  qed (use first in simp)
  then show ?thesis by (simp add: planProcess_def processMessage_def)
qed

theorem plan_recover_spins_witness:
  "planProcess 5 PlanRecover (\<lambda>m n. (n + 1, Inl AssertionFailed))
     \<lparr>tag = Empty, source = default_peer, destination = default_peer, metadata = [], payload = Bytes [] :: nat payload\<rparr>
     \<lparr>tag = Field, source = default_peer, destination = default_peer, metadata = [], payload = Values [1]\<rparr>
     (0 :: nat) = None"
  by (rule plan_recover_spins) simp_all

end
