(* ===== verification/BinaryUtils.thy ===== *)
theory BinaryUtils
  imports Prelude
begin

text \<open>
  The bit tricks of \<^verbatim>\<open>src/src/multio/util/BinaryUtils.h\<close> at \<^verbatim>\<open>size_t\<close>, the type
  the mask compression instantiates them with: the next and the previous power of two and
  the number of bits of a value. The template recursions over
  \<^verbatim>\<open>std::integral_constant\<close> are recursions over the shift distance and the width.
\<close>

section \<open>The functions\<close>

text \<open>The recursion is started with distance 1 only; distance 0 is not instantiated.\<close>

function nextPowOf2_from :: "u64 \<Rightarrow> nat \<Rightarrow> u64" where
  "nextPowOf2_from v d =
     (if d = 0 \<or> d \<ge> 64 then v + 1 else nextPowOf2_from (v OR drop_bit d v) (2 * d))"
  by pat_completeness auto
termination
  by (relation "measure (\<lambda>(v, d). 64 - d)") auto

declare nextPowOf2_from.simps [simp del]

definition nextPowOf2 :: "u64 \<Rightarrow> u64" where
  "nextPowOf2 v = nextPowOf2_from (v - 1) 1"

definition prevPowOf2 :: "u64 \<Rightarrow> u64" where
  "prevPowOf2 v = (let np2 = nextPowOf2 v in if v = np2 then v else drop_bit 1 np2)"

function bitWidth_from :: "u64 \<Rightarrow> u64 \<Rightarrow> nat \<Rightarrow> u64" where
  "bitWidth_from v s w =
     (if w \<le> 1 then s
      else let shift = w div 2;
               mask = push_bit shift 1 - 1;
               high = v AND push_bit shift mask;
               low = v AND mask
           in if high \<noteq> 0 then bitWidth_from (drop_bit shift high) (s + of_nat shift) shift
              else bitWidth_from low s shift)"
  by pat_completeness auto
termination
  by (relation "measure (\<lambda>(v, s, w). w)") auto

declare bitWidth_from.simps [simp del]

definition bitWidth :: "u64 \<Rightarrow> u64" where
  "bitWidth v =
     (let highestNP2 = push_bit 63 1
      in if v = highestNP2 then 63
         else if v > highestNP2 then 64
         else let np2 = nextPowOf2 v
              in bitWidth_from (if v = np2 then push_bit 1 np2 else np2) 0 64)"

section \<open>The next power of two\<close>

text \<open>
  After the shifts by \<open>1, 2, \<dots>, d / 2\<close> a bit is set iff one of the \<open>d\<close> bits from its
  position upwards was set at the start.
\<close>

definition smear :: "nat \<Rightarrow> u64 \<Rightarrow> u64" where
  "smear d v = horner_sum of_bool 2 (map (\<lambda>i. \<exists>j<d. bit v (i + j)) [0..<64])"

lemma bit_smear: "bit (smear d v) i \<longleftrightarrow> i < 64 \<and> (\<exists>j<d. bit v (i + j))"
  by (auto simp: smear_def bit_horner_sum_bit_word_iff)

lemma smear_1: "smear 1 v = v"
  by (rule bit_word_eqI) (auto simp: bit_smear)

lemma smear_double: "smear d v OR drop_bit d (smear d v) = smear (2 * d) v"
proof (rule bit_word_eqI)
  fix i
  assume i: "i < LENGTH(64)"
  have "(\<exists>j<2 * d. bit v (i + j)) \<longleftrightarrow> (\<exists>j<d. bit v (i + j)) \<or> (\<exists>j<d. bit v (i + d + j))"
  proof
    assume "\<exists>j<2 * d. bit v (i + j)"
    then obtain j where j: "j < 2 * d" "bit v (i + j)" by blast
    show "(\<exists>j<d. bit v (i + j)) \<or> (\<exists>j<d. bit v (i + d + j))"
    proof (cases "j < d")
      case True
      with j show ?thesis by blast
    next
      case False
      with j have "j - d < d" "bit v (i + d + (j - d))" by auto
      then show ?thesis by blast
    qed
  next
    assume "(\<exists>j<d. bit v (i + j)) \<or> (\<exists>j<d. bit v (i + d + j))"
    then show "\<exists>j<2 * d. bit v (i + j)"
    proof
      assume "\<exists>j<d. bit v (i + j)"
      then obtain j where "j < d" "bit v (i + j)" by blast
      then have "j < 2 * d" by simp
      with \<open>bit v (i + j)\<close> show ?thesis by blast
    next
      assume "\<exists>j<d. bit v (i + d + j)"
      then obtain j where "j < d" "bit v (i + d + j)" by blast
      then have "d + j < 2 * d" "bit v (i + (d + j))" by (auto simp: add.assoc)
      then show ?thesis by blast
    qed
  qed
  moreover have "bit v (i + d + j) \<Longrightarrow> i + d < 64" for j
    using bit_imp_le_length [of v "i + d + j"] by simp
  ultimately show "bit (smear d v OR drop_bit d (smear d v)) i \<longleftrightarrow> bit (smear (2 * d) v) i"
    using i by (auto simp: bit_or_iff bit_drop_bit_eq bit_smear add.commute [of d i])
qed

lemma nextPowOf2_from_smear: "nextPowOf2_from v 1 = smear 64 v + 1"
proof -
  have step: "nextPowOf2_from (smear e v) e = nextPowOf2_from (smear (2 * e) v) (2 * e)"
    if "0 < e" "e < 64" for e
    using that by (subst nextPowOf2_from.simps) (simp add: smear_double)
  have "nextPowOf2_from (smear 1 v) 1 = nextPowOf2_from (smear 64 v) 64"
    using step [of 1] step [of 2] step [of 4] step [of 8] step [of 16] step [of 32] by simp
  also have "\<dots> = smear 64 v + 1"
    by (subst nextPowOf2_from.simps) simp
  finally show ?thesis by (simp only: smear_1)
qed

lemma binade_nat:
  assumes "0 < (n::nat)"
  obtains k where "2 ^ k \<le> n" "n < 2 ^ Suc k"
proof -
  have "\<exists>k. 2 ^ k \<le> n \<and> n < 2 ^ Suc k"
    using assms
  proof (induction n rule: less_induct)
    case (less n)
    show ?case
    proof (cases "n = 1")
      case True
      then show ?thesis by (intro exI [of _ 0]) simp
    next
      case False
      with less.prems have "n div 2 < n" "0 < n div 2" by auto
      then obtain k where "2 ^ k \<le> n div 2" "n div 2 < 2 ^ Suc k"
        using less.IH [of "n div 2"] by blast
      then have "2 ^ Suc k \<le> n" "n < 2 ^ Suc (Suc k)" by auto
      then show ?thesis by blast
    qed
  qed
  then show ?thesis using that by blast
qed

lemma bit_word_nat: "bit (v::u64) n \<longleftrightarrow> odd (unat v div 2 ^ n)"
proof -
  have "bit v n \<longleftrightarrow> bit (unat v) n"
    by transfer (auto simp: bit_nat_iff bit_take_bit_iff)
  then show ?thesis by (simp add: bit_iff_odd)
qed

lemma binade_bits:
  assumes lo: "2 ^ k \<le> unat v" and hi: "unat v < 2 ^ Suc k"
  shows "bit (v::u64) k" and "Suc k \<le> n \<Longrightarrow> \<not> bit v n"
proof -
  have "unat v div 2 ^ k = 1"
    using lo hi by (simp add: div_nat_eqI)
  then show "bit v k" by (simp add: bit_word_nat)
  show "\<not> bit v n" if "Suc k \<le> n"
  proof -
    have "unat v < 2 ^ n"
      using hi power_increasing [OF that, of "2::nat"] by linarith
    then have "unat v div 2 ^ n = 0" by simp
    then show ?thesis by (simp add: bit_word_nat)
  qed
qed

lemma smear_all:
  assumes "2 ^ k \<le> unat v" and "unat v < 2 ^ Suc k"
  shows "smear 64 v = mask (Suc k)"
proof (rule bit_word_eqI)
  fix i
  assume i: "i < LENGTH(64)"
  have k: "bit v k" and above: "\<And>n. Suc k \<le> n \<Longrightarrow> \<not> bit v n"
    using binade_bits [OF assms] by auto
  from k have "k < 64" using bit_imp_le_length by fastforce
  have "(\<exists>j<64. bit v (i + j)) \<longleftrightarrow> i < Suc k"
  proof
    assume "\<exists>j<64. bit v (i + j)"
    then show "i < Suc k" using above by (meson le_add1 le_trans not_less)
  next
    assume "i < Suc k"
    then have "k - i < 64" "bit v (i + (k - i))" using \<open>k < 64\<close> k by auto
    then show "\<exists>j<64. bit v (i + j)" by blast
  qed
  then show "bit (smear 64 v) i \<longleftrightarrow> bit (mask (Suc k) :: u64) i"
    using i by (auto simp: bit_smear bit_mask_iff)
qed

lemma unat_of_nat64: "n < 2 ^ 64 \<Longrightarrow> unat (of_nat n :: u64) = n"
  by (simp add: unsigned_of_nat take_bit_nat_eq_self)

lemma unat_max: "unat (- 1 :: u64) = 18446744073709551615"
  by (simp add: unsigned_minus_1_eq_mask mask_eq_exp_minus_1)

lemma nextPowOf2_0: "nextPowOf2 0 = 0"
proof -
  have "smear 64 (- 1) = mask (Suc 63)"
    by (rule smear_all) (simp_all add: unat_max)
  then show ?thesis
    by (simp only: nextPowOf2_def nextPowOf2_from_smear) (simp add: mask_eq_exp_minus_1)
qed

lemma nextPowOf2_1: "nextPowOf2 1 = 1"
proof -
  have "smear 64 0 = 0" by (rule bit_word_eqI) (simp add: bit_smear)
  then show ?thesis by (simp only: nextPowOf2_def nextPowOf2_from_smear) simp
qed

lemma nextPowOf2_binade:
  assumes "2 ^ k < unat v" and "unat v \<le> 2 ^ Suc k"
  shows "nextPowOf2 v = 2 ^ Suc k"
proof -
  have "unat (v - 1) = unat v - 1"
    using assms(1) by (intro unat_minus_one) auto
  then have "smear 64 (v - 1) = mask (Suc k)"
    using assms by (intro smear_all) auto
  then show ?thesis
    by (simp only: nextPowOf2_def nextPowOf2_from_smear) (simp add: mask_eq_exp_minus_1)
qed

lemma unat_pow2: "k < 64 \<Longrightarrow> unat (2 ^ k :: u64) = 2 ^ k"
  using power_strict_increasing [of k 64 "2::nat"]
  by transfer (simp add: take_bit_eq_mod nat_mod_distrib nat_power_eq)

text \<open>The least power of two that is not below the argument, where it fits.\<close>

lemma nextPowOf2_least:
  assumes "0 < unat v" and "unat v \<le> 2 ^ 63"
  obtains k where "k \<le> 63" "nextPowOf2 v = 2 ^ k" "unat v \<le> 2 ^ k"
    "k = 0 \<and> unat v = 1 \<or> 0 < k \<and> 2 ^ (k - 1) < unat v"
proof (cases "unat v = 1")
  case True
  then have "v = 1" by (metis unat_1 word_unat_eq_iff)
  then show ?thesis using that [of 0] by (simp add: nextPowOf2_1)
next
  case False
  with assms have "0 < unat v - 1" by simp
  then obtain k where k: "2 ^ k \<le> unat v - 1" "unat v - 1 < 2 ^ Suc k"
    by (rule binade_nat)
  have "2 ^ k < (2::nat) ^ 63" using k assms False by linarith
  then have "k < 63" by (rule power_less_imp_less_exp [rotated]) simp
  moreover have "2 ^ k < unat v" "unat v \<le> 2 ^ Suc k" using k False assms by auto
  ultimately show ?thesis using that [of "Suc k"] nextPowOf2_binade [of k v] by simp
qed

lemma prevPowOf2_greatest:
  assumes "0 < unat v" and "unat v \<le> 2 ^ 63"
  shows "\<exists>k\<le>63. prevPowOf2 v = 2 ^ k \<and> 2 ^ k \<le> unat v \<and> unat v < 2 ^ Suc k"
proof -
  from assms obtain k where k: "k \<le> 63" "nextPowOf2 v = 2 ^ k" "unat v \<le> 2 ^ k"
    and low: "k = 0 \<and> unat v = 1 \<or> 0 < k \<and> 2 ^ (k - 1) < unat v"
    by (rule nextPowOf2_least)
  show ?thesis
  proof (cases "v = nextPowOf2 v")
    case True
    then have "unat v = 2 ^ k" using k unat_pow2 [of k] by simp
    then show ?thesis
      using True k by (intro exI [of _ k]) (simp add: prevPowOf2_def)
  next
    case False
    have "unat v \<noteq> 2 ^ k" using False k unat_pow2 [of k] by (auto simp: word_unat_eq_iff)
    with k low obtain j where j: "k = Suc j" "2 ^ j < unat v" "unat v < 2 ^ Suc j"
      by (cases k) auto
    have "drop_bit 1 (2 ^ Suc j :: u64) = 2 ^ j"
      using k j by (intro bit_word_eqI) (auto simp: bit_drop_bit_eq bit_exp_iff simp del: power_Suc)
    then show ?thesis
      using False k j by (intro exI [of _ j]) (auto simp: prevPowOf2_def Let_def simp del: drop_bit_Suc)
  qed
qed

section \<open>The bit width\<close>

lemma bitWidth_from_pow2:
  assumes "k < 2 ^ m" and "m \<le> 6"
  shows "bitWidth_from (2 ^ k) s (2 ^ m) = s + of_nat k"
  using assms
proof (induction m arbitrary: k s)
  case 0
  then show ?case by (simp add: bitWidth_from.simps)
next
  case (Suc m)
  let ?h = "2 ^ m :: nat"
  have h64: "?h \<le> 32" using Suc.prems(2) power_increasing [of m 5 "2::nat"] by simp
  have k64: "k < 64" using Suc.prems h64 by simp
  have mask: "2 ^ ?h - 1 = (mask ?h :: u64)"
    by (simp add: mask_eq_exp_minus_1)
  have high: "(2 ^ k :: u64) AND push_bit ?h (mask ?h) = (if ?h \<le> k then 2 ^ k else 0)"
    using Suc.prems k64 h64
    by (intro bit_word_eqI) (auto simp: bit_and_iff bit_push_bit_iff bit_exp_iff bit_mask_iff)
  have low: "(2 ^ k :: u64) AND mask ?h = (if ?h \<le> k then 0 else 2 ^ k)"
    using Suc.prems k64 h64
    by (intro bit_word_eqI) (auto simp: bit_and_iff bit_exp_iff bit_mask_iff)
  have ne: "(2 ^ k :: u64) \<noteq> 0" using k64 by simp
  show ?case
  proof (cases "?h \<le> k")
    case True
    have "drop_bit ?h (2 ^ k :: u64) = 2 ^ (k - ?h)"
      using True k64
      by (intro bit_word_eqI) (auto simp: bit_drop_bit_eq bit_exp_iff)
    then show ?thesis
      using Suc.IH [of "k - ?h" "s + of_nat ?h"] Suc.prems True ne
      by (subst bitWidth_from.simps) (simp add: Let_def mask high of_nat_diff)
  next
    case False
    then show ?thesis
      using Suc.IH [of k s] Suc.prems ne
      by (subst bitWidth_from.simps) (simp add: Let_def mask high low)
  qed
qed

lemma bitWidth_from_0: "bitWidth_from 0 s (2 ^ m) = s"
proof (induction m arbitrary: s)
  case 0
  then show ?case by (simp add: bitWidth_from.simps)
next
  case (Suc m)
  then show ?case by (subst bitWidth_from.simps) (simp add: Let_def)
qed

lemma bitWidth_pow2_arg:
  "k < 64 \<Longrightarrow> bitWidth_from (2 ^ k) 0 64 = of_nat k"
  using bitWidth_from_pow2 [of k 6 0] by simp

lemma bitWidth_0: "bitWidth 0 = 0"
  using bitWidth_from_0 [of 0 6] by (simp add: bitWidth_def nextPowOf2_0)

lemma bitWidth_binade:
  assumes "2 ^ k \<le> unat v" and "unat v < 2 ^ Suc k" and "k < 63"
  shows "bitWidth v = of_nat (Suc k)"
proof -
  have "(2::nat) ^ Suc k \<le> 2 ^ 63" using assms(3) by (intro power_increasing) auto
  then have small: "\<not> v > 2 ^ 63" "v \<noteq> 2 ^ 63"
    using assms(2) unat_pow2 [of 63] by (auto simp: word_less_nat_alt)
  have "nextPowOf2 v = (if unat v = 2 ^ k then v else 2 ^ Suc k) \<and> (v = 2 ^ k \<longleftrightarrow> unat v = 2 ^ k)"
  proof (cases "unat v = 2 ^ k")
    case True
    then have v: "v = 2 ^ k" using assms(3) unat_pow2 [of k] by (simp add: word_unat_eq_iff)
    have "nextPowOf2 v = 2 ^ k"
    proof (cases k)
      case 0
      then show ?thesis using v nextPowOf2_1 by simp
    next
      case (Suc j)
      then show ?thesis using True nextPowOf2_binade [of j v] by simp
    qed
    then show ?thesis using True v by simp
  next
    case False
    then have "nextPowOf2 v = 2 ^ Suc k" using assms by (intro nextPowOf2_binade) auto
    then show ?thesis using False assms(3) unat_pow2 [of k] by auto
  qed
  moreover have "v \<noteq> 2 ^ Suc k"
    using assms(2,3) unat_pow2 [of "Suc k"] by auto
  ultimately show ?thesis
    using small assms(3) bitWidth_pow2_arg [of "Suc k"]
    by (auto simp: bitWidth_def Let_def push_bit_eq_mult mult.commute [of _ 2])
qed

text \<open>
  Below \<open>2 ^ 63\<close> the result is the number of bits of the argument: it fits in that many
  bits and not in fewer.
\<close>

lemma bitWidth_bounds:
  assumes "unat v < 2 ^ 63"
  shows "unat v < 2 ^ unat (bitWidth v)"
    and "v \<noteq> 0 \<Longrightarrow> 2 ^ (unat (bitWidth v) - 1) \<le> unat v"
    and "unat (bitWidth v) \<le> 63"
    and "v \<noteq> 0 \<Longrightarrow> 1 \<le> unat (bitWidth v)"
proof -
  have "(v = 0 \<and> bitWidth v = 0) \<or>
    (\<exists>k<63. 2 ^ k \<le> unat v \<and> unat v < 2 ^ Suc k \<and> unat (bitWidth v) = Suc k)"
  proof (cases "unat v = 0")
    case True
    then show ?thesis by (simp add: bitWidth_0 unat_eq_zero)
  next
    case False
    then have "0 < unat v" by simp
    then obtain k where k: "2 ^ k \<le> unat v" "unat v < 2 ^ Suc k" by (rule binade_nat)
    with assms have "(2::nat) ^ k < 2 ^ 63" by linarith
    then have "k < 63" by (rule power_less_imp_less_exp [rotated]) simp
    then have "unat (bitWidth v) = Suc k"
      using bitWidth_binade [OF k] by (simp add: unat_of_nat take_bit_eq_mod del: of_nat_Suc)
    with k \<open>k < 63\<close> show ?thesis by blast
  qed
  then show "unat v < 2 ^ unat (bitWidth v)"
    and "v \<noteq> 0 \<Longrightarrow> 2 ^ (unat (bitWidth v) - 1) \<le> unat v"
    and "unat (bitWidth v) \<le> 63"
    and "v \<noteq> 0 \<Longrightarrow> 1 \<le> unat (bitWidth v)"
    by auto
qed

end
