(* ===== verification/MaskEncode.thy ===== *)
theory MaskEncode
  imports BinaryUtils
begin

text \<open>
  The encoding half of \<^verbatim>\<open>src/src/multio/domain/MaskCompression.{h,cc}\<close>: the five byte
  header, the plain bit mask and the run-length format. Buffers are byte lists; a freshly
  allocated \<^verbatim>\<open>eckit::Buffer\<close> has unspecified content, which is the parameter \<open>uninit\<close>,
  and every write outside of a buffer is \<open>Inl OutOfBounds\<close>. The loops of the code count
  with \<^verbatim>\<open>unsigned int\<close>; the model is of masks shorter than \<open>2 ^ 32\<close>, the longest the header
  can announce.
\<close>

section \<open>The header\<close>

datatype MaskPayloadFormat = BitMask | RunLength

fun format_code :: "MaskPayloadFormat \<Rightarrow> u8" where
  "format_code BitMask = 0"
| "format_code RunLength = 1"

record MaskPayloadHeader =
  payloadFormat :: MaskPayloadFormat
  numBits :: u64
  runLengthNumBitsPerInt :: u64
  runLengthStartValue :: bool

definition MASK_PAYLOAD_HEADER_SIZE :: nat where
  "MASK_PAYLOAD_HEADER_SIZE = 5"

definition MASK_PAYLOAD_SPARSE_MAX_NUM_BITS :: u64 where
  "MASK_PAYLOAD_SPARSE_MAX_NUM_BITS = 64"

definition decodeMaskPayloadHeader :: "u8 list \<Rightarrow> MaskPayloadHeader res" where
  "decodeMaskPayloadHeader b =
     (if length b < MASK_PAYLOAD_HEADER_SIZE then Inl MaskCompressionException
      else
        let fmt = (if drop_bit 7 (b ! 0) = 1 then RunLength else BitMask);
            nb = push_bit 24 (ucast (b ! 1)) OR push_bit 16 (ucast (b ! 2))
               OR push_bit 8 (ucast (b ! 3)) OR ucast (b ! 4)
        in Inr (if fmt = RunLength
           then \<lparr>payloadFormat = fmt, numBits = nb,
                 runLengthNumBitsPerInt = (ucast (b ! 0) AND (push_bit 6 1 - 1)) + 1,
                 runLengthStartValue = (drop_bit 6 (b ! 0) AND 1 \<noteq> 0)\<rparr>
           else \<lparr>payloadFormat = fmt, numBits = nb,
                 runLengthNumBitsPerInt = 0, runLengthStartValue = False\<rparr>))"

definition encodeMaskPayloadHeader :: "MaskPayloadHeader \<Rightarrow> u8 list res" where
  "encodeMaskPayloadHeader h =
     bind_res
       (let b0 = push_bit 7 (format_code (payloadFormat h))
        in if payloadFormat h = RunLength
           then let b0' = b0 OR push_bit 6 (if runLengthStartValue h then 1 else 0)
                in if runLengthNumBitsPerInt h > MASK_PAYLOAD_SPARSE_MAX_NUM_BITS
                   then Inl MaskCompressionException
                   else Inr (b0' OR ucast ((runLengthNumBitsPerInt h - 1) AND 0xFF))
           else Inr b0)
       (\<lambda>b0. if numBits h > push_bit 32 1 - 1 then Inl MaskCompressionException
         else Inr [b0,
           ucast (drop_bit 24 (numBits h) AND 0xFF),
           ucast (drop_bit 16 (numBits h) AND 0xFF),
           ucast (drop_bit 8 (numBits h) AND 0xFF),
           ucast (drop_bit 0 (numBits h) AND 0xFF)])"

section \<open>Buffers\<close>

definition new_buffer :: "(nat \<Rightarrow> u8) \<Rightarrow> nat \<Rightarrow> u8 list" where
  "new_buffer uninit n = map uninit [0..<n]"

definition memcpy_front :: "u8 list \<Rightarrow> u8 list \<Rightarrow> u8 list res" where
  "memcpy_front src b =
     (if length src \<le> length b then Inr (src @ drop (length src) b) else Inl OutOfBounds)"

definition or_at :: "u8 list \<Rightarrow> nat \<Rightarrow> u64 \<Rightarrow> u8 list res" where
  "or_at b i v = bind_res (read_at b i) (\<lambda>x. write_at b i (x OR ucast v))"

section \<open>The bit mask format\<close>

definition computeBufferSizeMaskBitMask :: "nat \<Rightarrow> nat" where
  "computeBufferSizeMaskBitMask sz =
     MASK_PAYLOAD_HEADER_SIZE + drop_bit 3 sz + (if sz AND (push_bit 3 1 - 1) = 0 then 0 else 1)"

fun bitMaskLoop :: "bool list \<Rightarrow> nat \<Rightarrow> u8 list \<Rightarrow> u8 list res" where
  "bitMaskLoop [] i b = Inr b"
| "bitMaskLoop (v # vs) i b =
     (let offset = MASK_PAYLOAD_HEADER_SIZE + drop_bit 3 i;
          r8 = i AND (push_bit 3 1 - 1)
      in bind_res (if r8 = 0 then write_at b offset 0 else Inr b) (\<lambda>b.
         bind_res (if v then or_at b offset (push_bit r8 1) else Inr b) (\<lambda>b.
         bitMaskLoop vs (i + 1) b)))"

definition encodeMaskBitMask :: "(nat \<Rightarrow> u8) \<Rightarrow> bool list \<Rightarrow> u8 list res" where
  "encodeMaskBitMask uninit maskVals =
     bind_res
       (encodeMaskPayloadHeader
          \<lparr>payloadFormat = BitMask, numBits = of_nat (length maskVals),
           runLengthNumBitsPerInt = 0, runLengthStartValue = False\<rparr>)
       (\<lambda>hdr. bind_res
          (memcpy_front hdr (new_buffer uninit (computeBufferSizeMaskBitMask (length maskVals))))
          (bitMaskLoop maskVals 0))"

section \<open>The run-length format\<close>

record MaskRunLengthProperties =
  bufSize :: nat
  numValues :: nat
  numBitsPerInt :: u64
  startValue :: bool

text \<open>The scan: \<open>(counter, numValues, maxNum)\<close> at the end of the loop.\<close>

fun scanRuns :: "bool list \<Rightarrow> bool \<Rightarrow> nat \<Rightarrow> nat \<Rightarrow> nat \<Rightarrow> nat \<times> nat \<times> nat" where
  "scanRuns [] currentSign counter nv maxNum = (counter, nv, maxNum)"
| "scanRuns (v # vs) currentSign counter nv maxNum =
     (if v = currentSign then scanRuns vs currentSign (counter + 1) nv maxNum
      else scanRuns vs v 1 (nv + 1) (max maxNum counter))"

fun computeMaskRunLengthProperties :: "bool list \<Rightarrow> MaskRunLengthProperties" where
  "computeMaskRunLengthProperties [] =
     \<lparr>bufSize = 0, numValues = 0, numBitsPerInt = 0, startValue = False\<rparr>"
| "computeMaskRunLengthProperties (v # vs) =
     (let (counter, nv, mx) = scanRuns vs v 1 0 0;
          nv = nv + 1;
          maxNum = max mx counter;
          bits = bitWidth (if maxNum > 1 then of_nat maxNum - 1 else 1);
          bufSizeBits = unat bits * nv
      in \<lparr>bufSize = drop_bit 3 bufSizeBits
            + (if bufSizeBits AND (push_bit 3 1 - 1) = 0 then 0 else 1) + MASK_PAYLOAD_HEADER_SIZE,
          numValues = nv, numBitsPerInt = bits, startValue = v\<rparr>)"

text \<open>The buffer, the current byte and the number of bits that are free in it.\<close>

record wstate =
  wbuf :: "u8 list"
  wOffset :: nat
  wRemaining :: nat

text \<open>
  The body of the \<^verbatim>\<open>writeCounter\<close> lambda: the branch on whether the remaining bits of the
  current byte take the whole rest of the number, then the step to the next byte.
\<close>

definition writeChunk :: "nat \<Rightarrow> u64 \<Rightarrow> nat \<Rightarrow> wstate \<Rightarrow> (nat \<times> wstate) res" where
  "writeChunk sz valToWrite n st =
     bind_res
       (if wRemaining st \<ge> n
        then let nextRemaining = wRemaining st - n
             in bind_res (or_at (wbuf st) (wOffset st)
                   (push_bit nextRemaining (valToWrite AND (push_bit n 1 - 1))))
                 (\<lambda>b. Inr (0, st\<lparr>wbuf := b, wRemaining := nextRemaining\<rparr>))
        else let next = n - wRemaining st
             in bind_res (or_at (wbuf st) (wOffset st)
                   (drop_bit next valToWrite AND (push_bit (wRemaining st) 1 - 1)))
                 (\<lambda>b. Inr (next, st\<lparr>wbuf := b, wRemaining := 0\<rparr>)))
       (\<lambda>(n, st).
         if wRemaining st = 0
         then let off = wOffset st + 1
              in if off < sz
                 then bind_res (write_at (wbuf st) off 0)
                   (\<lambda>b. Inr (n, st\<lparr>wbuf := b, wOffset := off, wRemaining := 8\<rparr>))
                 else if n = 0 then Inr (n, st\<lparr>wOffset := off, wRemaining := 8\<rparr>)
                 else Inl AssertionFailed
         else Inr (n, st))"

text \<open>The \<^verbatim>\<open>do ... while (numBitsToWrite > 0)\<close> loop; the first argument bounds its rounds.\<close>

fun writeLoop :: "nat \<Rightarrow> nat \<Rightarrow> u64 \<Rightarrow> nat \<Rightarrow> wstate \<Rightarrow> wstate res" where
  "writeLoop 0 sz v n st = Inl UndefinedBehaviour"
| "writeLoop (Suc fuel) sz v n st =
     bind_res (writeChunk sz v n st)
       (\<lambda>(n, st). if n > 0 then writeLoop fuel sz v n st else Inr st)"

definition writeCounter :: "MaskRunLengthProperties \<Rightarrow> nat \<Rightarrow> wstate \<Rightarrow> wstate res" where
  "writeCounter props counter st =
     writeLoop (Suc (unat (numBitsPerInt props))) (bufSize props) (of_nat counter - 1)
       (unat (numBitsPerInt props)) st"

fun runLengthLoop :: "MaskRunLengthProperties \<Rightarrow> bool list \<Rightarrow> bool \<Rightarrow> nat \<Rightarrow> wstate \<Rightarrow> wstate res" where
  "runLengthLoop props [] currentSign counter st = writeCounter props counter st"
| "runLengthLoop props (v # vs) currentSign counter st =
     (if v = currentSign then runLengthLoop props vs currentSign (counter + 1) st
      else bind_res (writeCounter props counter st) (runLengthLoop props vs v 1))"

definition encodeMaskRunLength_props ::
    "(nat \<Rightarrow> u8) \<Rightarrow> bool list \<Rightarrow> MaskRunLengthProperties \<Rightarrow> u8 list res" where
  "encodeMaskRunLength_props uninit maskVals props =
     bind_res
       (encodeMaskPayloadHeader
          \<lparr>payloadFormat = RunLength, numBits = of_nat (length maskVals),
           runLengthNumBitsPerInt = numBitsPerInt props, runLengthStartValue = startValue props\<rparr>)
       (\<lambda>hdr.
     bind_res (memcpy_front hdr (new_buffer uninit (bufSize props))) (\<lambda>b.
     bind_res (write_at b MASK_PAYLOAD_HEADER_SIZE 0) (\<lambda>b.
     bind_res
       (runLengthLoop props (tl maskVals) (startValue props) 1
          \<lparr>wbuf = b, wOffset = MASK_PAYLOAD_HEADER_SIZE, wRemaining = 8\<rparr>)
       (\<lambda>st. Inr (wbuf st)))))"

definition encodeMaskRunLength :: "(nat \<Rightarrow> u8) \<Rightarrow> bool list \<Rightarrow> u8 list res" where
  "encodeMaskRunLength uninit maskVals =
     encodeMaskRunLength_props uninit maskVals (computeMaskRunLengthProperties maskVals)"

section \<open>The choice of the shorter format\<close>

definition encodeMask_props ::
    "(nat \<Rightarrow> u8) \<Rightarrow> bool list \<Rightarrow> MaskRunLengthProperties \<Rightarrow> u8 list res" where
  "encodeMask_props uninit maskVals props =
     (if computeBufferSizeMaskBitMask (length maskVals) < bufSize props
      then encodeMaskBitMask uninit maskVals
      else encodeMaskRunLength_props uninit maskVals props)"

definition encodeMask :: "(nat \<Rightarrow> u8) \<Rightarrow> bool list \<Rightarrow> u8 list res" where
  "encodeMask uninit maskVals =
     encodeMask_props uninit maskVals (computeMaskRunLengthProperties maskVals)"

section \<open>Header round trip\<close>

definition header_wf :: "MaskPayloadHeader \<Rightarrow> bool" where
  "header_wf h \<longleftrightarrow> unat (numBits h) < 2 ^ 32 \<and>
     (case payloadFormat h of
        RunLength \<Rightarrow> 1 \<le> unat (runLengthNumBitsPerInt h) \<and> unat (runLengthNumBitsPerInt h) \<le> 64
      | BitMask \<Rightarrow> runLengthNumBitsPerInt h = 0 \<and> \<not> runLengthStartValue h)"

lemma bit_consts_int [simp]:
  "bit (0xFF :: int) j \<longleftrightarrow> j < 8" "bit (0x3F :: int) j \<longleftrightarrow> j < 6"
  "bit (0x80 :: int) j \<longleftrightarrow> j = 7" "bit (0x40 :: int) j \<longleftrightarrow> j = 6"
  "bit (0xC0 :: int) j \<longleftrightarrow> j = 6 \<or> j = 7"
proof -
  have m: "(0xFF :: int) = mask 8" "(0x3F :: int) = mask 6" by (simp_all add: mask_eq_exp_minus_1)
  show "bit (0xFF :: int) j \<longleftrightarrow> j < 8" "bit (0x3F :: int) j \<longleftrightarrow> j < 6"
    unfolding m bit_mask_iff by auto
  have pow: "(0x80 :: int) = 2 ^ 7" "(0x40 :: int) = 2 ^ 6" by simp_all
  show h: "bit (0x80 :: int) j \<longleftrightarrow> j = 7" "bit (0x40 :: int) j \<longleftrightarrow> j = 6"
    unfolding pow bit_exp_iff by auto
  have "(0xC0 :: int) = 0x80 OR 0x40" by simp
  then show "bit (0xC0 :: int) j \<longleftrightarrow> j = 6 \<or> j = 7"
    by (simp only: bit_or_iff h) auto
qed

lemma bit_byte:
  "bit (push_bit k (ucast (ucast (drop_bit k (n::u64) AND 0xFF) :: u8)) :: u64) i \<longleftrightarrow>
     k \<le> i \<and> i < 64 \<and> i < k + 8 \<and> bit n i"
  by (auto simp: bit_push_bit_iff bit_unsigned_iff bit_and_iff bit_drop_bit_eq)

lemma numBits_bytes:
  fixes n :: u64
  assumes "unat n < 2 ^ 32"
  shows "push_bit 24 (ucast (ucast (drop_bit 24 n AND 0xFF) :: u8))
       OR push_bit 16 (ucast (ucast (drop_bit 16 n AND 0xFF) :: u8))
       OR push_bit 8 (ucast (ucast (drop_bit 8 n AND 0xFF) :: u8))
       OR ucast (ucast (drop_bit 0 n AND 0xFF) :: u8) = n" (is "?l = n")
proof (rule bit_word_eqI)
  fix i
  have low: "bit (ucast (ucast (drop_bit 0 n AND 0xFF) :: u8) :: u64) i \<longleftrightarrow> i < 8 \<and> bit n i"
    using bit_byte [of 0 n i] by auto
  have high: "i < 32" if "bit n i"
  proof (rule ccontr)
    assume "\<not> i < 32"
    then have "(2::nat) ^ 32 \<le> 2 ^ i" by (intro power_increasing) auto
    with assms that show False by (simp add: bit_word_nat)
  qed
  show "bit ?l i = bit n i"
    unfolding bit_or_iff bit_byte low using high by (cases "bit n i") auto
qed

lemma header_rl_byte:
  fixes s :: bool
  fixes n :: u64
  assumes "1 \<le> unat n" "unat n \<le> 64"
  defines "c \<equiv> ((push_bit 7 1 OR push_bit 6 (if s then 1 else 0)) OR ucast ((n - 1) AND 0xFF)) :: u8"
  shows "drop_bit 7 c = 1" "(ucast c AND (push_bit 6 1 - 1)) + 1 = n" "drop_bit 6 c AND 1 \<noteq> 0 \<longleftrightarrow> s"
proof -
  define m where "m = n - 1"
  have m: "unat m < 2 ^ 6" and n: "n = m + 1"
    using assms(1,2) unat_minus_one [of n] by (cases "n = 0"; simp add: m_def)+
  have low: "j < 6" if "bit m j" for j
  proof (rule ccontr)
    assume "\<not> j < 6"
    then have "(2::nat) ^ 6 \<le> 2 ^ j" by (intro power_increasing) auto
    with m that show False by (simp add: bit_word_nat)
  qed
  have c: "bit c i \<longleftrightarrow> i = 7 \<or> (i = 6 \<and> s) \<or> bit m i" for i
    using low [of i] unfolding c_def m_def [symmetric]
    by (cases s; cases "bit m i") (auto simp: bit_or_iff bit_unsigned_iff bit_and_iff)
  show "drop_bit 7 c = 1"
    by (rule bit_word_eqI) (auto simp: bit_drop_bit_eq bit_1_iff c dest: low)
  have "drop_bit 6 c AND 1 = (if s then 1 else 0)"
    by (rule bit_word_eqI) (auto simp: bit_drop_bit_eq bit_and_iff bit_1_iff c dest: low)
  then show "drop_bit 6 c AND 1 \<noteq> 0 \<longleftrightarrow> s" by simp
  have "ucast c AND 0x3F = m"
    by (rule bit_word_eqI) (auto simp: bit_unsigned_iff bit_and_iff c dest: low)
  then show "(ucast c AND (push_bit 6 1 - 1)) + 1 = n" by (simp add: n)
qed

lemma decode_header_Cons:
  "decodeMaskPayloadHeader (b0 # b1 # b2 # b3 # b4 # rest) =
     (let nb = push_bit 24 (ucast b1) OR push_bit 16 (ucast b2) OR push_bit 8 (ucast b3) OR ucast b4
      in Inr (if drop_bit 7 b0 = 1
           then \<lparr>payloadFormat = RunLength, numBits = nb,
                 runLengthNumBitsPerInt = (ucast b0 AND (push_bit 6 1 - 1)) + 1,
                 runLengthStartValue = (drop_bit 6 b0 AND 1 \<noteq> 0)\<rparr>
           else \<lparr>payloadFormat = BitMask, numBits = nb,
                 runLengthNumBitsPerInt = 0, runLengthStartValue = False\<rparr>))"
  unfolding decodeMaskPayloadHeader_def MASK_PAYLOAD_HEADER_SIZE_def Let_def
  by (cases "drop_bit 7 b0 = 1") simp_all

lemma header_roundtrip:
  assumes "header_wf h"
  shows "\<exists>b. encodeMaskPayloadHeader h = Inr b \<and> length b = 5 \<and>
    (\<forall>rest. decodeMaskPayloadHeader (b @ rest) = Inr h)"
proof -
  have nb: "unat (numBits h) < 2 ^ 32" using assms by (simp add: header_wf_def)
  have small: "\<not> numBits h > push_bit 32 1 - 1"
    using nb by (simp add: word_less_nat_alt)
  show ?thesis
  proof (cases "payloadFormat h")
    case BitMask
    then have z: "runLengthNumBitsPerInt h = 0" "\<not> runLengthStartValue h"
      using assms by (auto simp: header_wf_def)
    have "drop_bit 7 (push_bit 7 0 :: u8) \<noteq> 1" by simp
    then show ?thesis
      unfolding encodeMaskPayloadHeader_def BitMask format_code.simps Let_def
      using small z BitMask
      using numBits_bytes [OF nb] by (simp del: push_bit_of_1 add: decode_header_Cons)
  next
    case RunLength
    then have w: "1 \<le> unat (runLengthNumBitsPerInt h)" "unat (runLengthNumBitsPerInt h) \<le> 64"
      using assms by (auto simp: header_wf_def)
    then have le: "\<not> runLengthNumBitsPerInt h > MASK_PAYLOAD_SPARSE_MAX_NUM_BITS"
      by (simp add: word_less_nat_alt MASK_PAYLOAD_SPARSE_MAX_NUM_BITS_def)
    note byte = header_rl_byte [OF w, of "runLengthStartValue h"]
    have enc: "encodeMaskPayloadHeader h = Inr
       [(push_bit 7 1 OR push_bit 6 (if runLengthStartValue h then 1 else 0))
          OR ucast ((runLengthNumBitsPerInt h - 1) AND 0xFF),
        ucast (drop_bit 24 (numBits h) AND 0xFF), ucast (drop_bit 16 (numBits h) AND 0xFF),
        ucast (drop_bit 8 (numBits h) AND 0xFF), ucast (drop_bit 0 (numBits h) AND 0xFF)]"
      unfolding encodeMaskPayloadHeader_def RunLength format_code.simps Let_def
      by (simp only: le small if_False if_True refl bind_res_simps)
    show ?thesis
      unfolding enc
      by (intro exI conjI allI, rule refl, simp)
        (simp only: append.simps decode_header_Cons Let_def byte numBits_bytes [OF nb] if_True refl,
          simp add: RunLength)
  qed
qed

section \<open>The plain bit mask\<close>

lemma and_low_nat: "(n::nat) AND (push_bit 3 1 - 1) = n mod 8"
  using take_bit_eq_mask [of 3 n] by (simp add: take_bit_eq_mod mask_eq_exp_minus_1)

lemma drop_bit_3_nat: "drop_bit 3 (n::nat) = n div 8"
  by (simp add: drop_bit_eq_div)

lemma computeBufferSizeMaskBitMask_eq: "computeBufferSizeMaskBitMask n = 5 + (n + 7) div 8"
  unfolding computeBufferSizeMaskBitMask_def MASK_PAYLOAD_HEADER_SIZE_def and_low_nat drop_bit_3_nat
proof -
  have "n = 8 * (n div 8) + n mod 8" by simp
  then obtain q r where n: "n = 8 * q + r" "r < 8" by (metis mod_less_divisor zero_less_numeral)
  then show "5 + n div 8 + (if n mod 8 = 0 then 0 else 1) = 5 + (n + 7) div 8" by auto
qed

text \<open>One round of the loop: the byte of position \<open>i\<close> gets its bit, all else stays.\<close>

definition bitMaskStep :: "bool \<Rightarrow> nat \<Rightarrow> u8 list \<Rightarrow> u8 list" where
  "bitMaskStep v i b =
     (let x = (if i mod 8 = 0 then 0 else b ! (5 + i div 8))
      in b[5 + i div 8 := (if v then x OR push_bit (i mod 8) 1 else x)])"

lemma bitMaskLoop_Cons:
  assumes "5 + i div 8 < length b"
  shows "bitMaskLoop (v # vs) i b = bitMaskLoop vs (Suc i) (bitMaskStep v i b)"
proof -
  have "ucast (push_bit (i mod 8) 1 :: u64) = (push_bit (i mod 8) 1 :: u8)"
    by (rule bit_word_eqI) (auto simp: bit_simps)
  then show ?thesis
    using assms
    unfolding bitMaskLoop.simps MASK_PAYLOAD_HEADER_SIZE_def and_low_nat drop_bit_3_nat Let_def
    by (auto simp: bitMaskStep_def or_at_def)
qed

definition bits_at :: "u8 list \<Rightarrow> nat \<Rightarrow> bool" where
  "bits_at b k \<longleftrightarrow> bit (b ! (5 + k div 8)) (k mod 8)"

definition clear_from :: "nat \<Rightarrow> u8 list \<Rightarrow> bool" where
  "clear_from i b \<longleftrightarrow> (i mod 8 \<noteq> 0 \<longrightarrow> (\<forall>k\<ge>i. k div 8 = i div 8 \<longrightarrow> \<not> bits_at b k))"

lemma bitMaskStep_bits:
  assumes len: "5 + i div 8 < length b" and clear: "clear_from i b"
  shows "length (bitMaskStep v i b) = length b" "take 5 (bitMaskStep v i b) = take 5 b"
    and "k < i \<Longrightarrow> bits_at (bitMaskStep v i b) k = bits_at b k"
    and "bits_at (bitMaskStep v i b) i = v"
    and "clear_from (Suc i) (bitMaskStep v i b)"
proof -
  let ?b = "bitMaskStep v i b"
  show "length ?b = length b" "take 5 ?b = take 5 b"
    by (simp_all add: bitMaskStep_def Let_def)
  have same: "bits_at ?b k \<longleftrightarrow> (if k div 8 = i div 8
      then (i mod 8 \<noteq> 0 \<and> bits_at b k) \<or> (v \<and> k mod 8 = i mod 8) else bits_at b k)" for k
    using len by (auto simp: bitMaskStep_def Let_def bits_at_def nth_list_update bit_or_iff
        bit_exp_iff)
  show "bits_at ?b k = bits_at b k" if "k < i"
  proof (cases "k div 8 = i div 8")
    case True
    with that have "k mod 8 < i mod 8" by (metis div_mod_decomp add_less_cancel_left)
    then show ?thesis using True same [of k] by auto
  next
    case False
    then show ?thesis using same [of k] by simp
  qed
  show "bits_at ?b i = v" using same [of i] clear by (auto simp: clear_from_def)
  show "clear_from (Suc i) ?b"
    unfolding clear_from_def
  proof (intro impI allI)
    fix k
    assume s: "Suc i mod 8 \<noteq> 0" and k: "Suc i \<le> k" "k div 8 = Suc i div 8"
    then have q: "Suc i div 8 = i div 8" by (simp add: mod_Suc div_Suc split: if_splits)
    then have "k mod 8 \<noteq> i mod 8" using k by (metis div_mod_decomp not_less_eq_eq le_refl)
    then show "\<not> bits_at ?b k" using same [of k] clear k q by (auto simp: clear_from_def)
  qed
qed

lemma bitMaskLoop_correct:
  assumes "length b = 5 + (i + length vs + 7) div 8" and "clear_from i b"
  shows "\<exists>b'. bitMaskLoop vs i b = Inr b' \<and> length b' = length b \<and> take 5 b' = take 5 b \<and>
    (\<forall>k<i. bits_at b' k = bits_at b k) \<and> (\<forall>k<length vs. bits_at b' (i + k) = vs ! k)"
  using assms
proof (induction vs arbitrary: i b)
  case Nil
  then show ?case by simp
next
  case (Cons v vs)
  have "i div 8 < (i + length (v # vs) + 7) div 8"
  proof -
    have "(i + 8) div 8 \<le> (i + length (v # vs) + 7) div 8" by (rule div_le_mono) simp
    then show ?thesis by simp
  qed
  then have len: "5 + i div 8 < length b" using Cons.prems(1) by simp
  let ?b = "bitMaskStep v i b"
  note st = bitMaskStep_bits [where v = v, OF len Cons.prems(2)]
  have "length ?b = 5 + (Suc i + length vs + 7) div 8" using Cons.prems(1) st(1) by simp
  then obtain b' where b': "bitMaskLoop vs (Suc i) ?b = Inr b'" "length b' = length ?b"
    "take 5 b' = take 5 ?b" "\<forall>k<Suc i. bits_at b' k = bits_at ?b k"
    "\<forall>k<length vs. bits_at b' (Suc i + k) = vs ! k"
    using Cons.IH [of ?b "Suc i"] st(5) by blast
  have "bits_at b' (i + k) = (v # vs) ! k" if "k < length (v # vs)" for k
    using that b' st by (cases k) auto
  then show ?case
    using b' st bitMaskLoop_Cons [OF len, of v vs] by (intro exI [of _ b']) auto
qed

lemma encodeMaskBitMask_correct:
  assumes "length m < 2 ^ 32"
  shows "\<exists>b. encodeMaskBitMask uninit m = Inr b \<and> length b = computeBufferSizeMaskBitMask (length m) \<and>
    (\<forall>k<length m. bits_at b k = m ! k) \<and>
    decodeMaskPayloadHeader b = Inr \<lparr>payloadFormat = BitMask, numBits = of_nat (length m),
      runLengthNumBitsPerInt = 0, runLengthStartValue = False\<rparr>"
proof -
  let ?h = "\<lparr>payloadFormat = BitMask, numBits = of_nat (length m),
      runLengthNumBitsPerInt = 0, runLengthStartValue = False\<rparr>"
  have "header_wf ?h"
    using assms by (simp add: header_wf_def unat_of_nat take_bit_eq_mod)
  then obtain hdr where hdr: "encodeMaskPayloadHeader ?h = Inr hdr" "length hdr = 5"
    "\<And>rest. decodeMaskPayloadHeader (hdr @ rest) = Inr ?h"
    using header_roundtrip by blast
  let ?n = "computeBufferSizeMaskBitMask (length m)"
  let ?b = "hdr @ drop 5 (new_buffer uninit ?n)"
  have n: "?n = 5 + (0 + length m + 7) div 8" by (simp add: computeBufferSizeMaskBitMask_eq)
  have len: "length ?b = ?n" using n hdr(2) by (simp add: new_buffer_def)
  have mc: "memcpy_front hdr (new_buffer uninit ?n) = Inr ?b"
    using n hdr(2) by (simp add: memcpy_front_def new_buffer_def)
  have "clear_from 0 ?b" by (simp add: clear_from_def)
  then obtain b' where b': "bitMaskLoop m 0 ?b = Inr b'" "length b' = length ?b"
    "take 5 b' = take 5 ?b" "\<forall>k<length m. bits_at b' (0 + k) = m ! k"
    using bitMaskLoop_correct [of ?b 0 m] len n by auto
  have "b' = hdr @ drop 5 b'"
    using b'(3) hdr(2) append_take_drop_id [of 5 b'] by simp
  then have "decodeMaskPayloadHeader b' = Inr ?h" using hdr(3) [of "drop 5 b'"] by simp
  then show ?thesis
    using b' len hdr mc by (simp add: encodeMaskBitMask_def)
qed

section \<open>The run-length writer\<close>

text \<open>The payload as a stream of bits, most significant bit of every byte first.\<close>

definition stream_bit :: "u8 list \<Rightarrow> nat \<Rightarrow> bool" where
  "stream_bit b p \<longleftrightarrow> bit (b ! (5 + p div 8)) (7 - p mod 8)"

definition num_bits :: "nat \<Rightarrow> u64 \<Rightarrow> bool list" where
  "num_bits n v = map (\<lambda>t. bit v (n - 1 - t)) [0..<n]"

lemma length_num_bits [simp]: "length (num_bits n v) = n"
  by (simp add: num_bits_def)

lemma nth_num_bits [simp]: "t < n \<Longrightarrow> num_bits n v ! t = bit v (n - 1 - t)"
  by (simp add: num_bits_def)

lemma drop_num_bits: "k \<le> n \<Longrightarrow> drop k (num_bits n v) = num_bits (n - k) v"
  by (rule nth_equalityI) auto

text \<open>The writer has put the bits \<open>bs\<close> and the rest of the current byte is zero.\<close>

definition written :: "wstate \<Rightarrow> bool list \<Rightarrow> bool" where
  "written st bs \<longleftrightarrow>
     5 \<le> length (wbuf st) \<and> length bs \<le> 8 * (length (wbuf st) - 5) \<and>
     wOffset st = 5 + length bs div 8 \<and> wRemaining st = 8 - length bs mod 8 \<and>
     (\<forall>p<length bs. stream_bit (wbuf st) p = bs ! p) \<and>
     (wOffset st < length (wbuf st) \<longrightarrow>
       (\<forall>p\<ge>length bs. p div 8 = length bs div 8 \<longrightarrow> \<not> stream_bit (wbuf st) p))"

lemma same_byte:
  assumes "p div 8 = (q::nat) div 8" and "7 - p mod 8 = 7 - q mod 8"
  shows "p = q"
proof -
  have "p mod 8 < 8" "q mod 8 < 8" by simp_all
  with assms(2) have "p mod 8 = q mod 8" by linarith
  with assms(1) show ?thesis by (metis div_mod_decomp)
qed

lemma or_chunk:
  fixes b :: "u8 list"
  assumes off: "5 + pos div 8 < length b"
    and k: "pos mod 8 + k \<le> 8"
    and X: "\<And>p. p div 8 = pos div 8 \<Longrightarrow>
      bit X (7 - p mod 8) \<longleftrightarrow> pos \<le> p \<and> p < pos + k \<and> cs ! (p - pos)"
    and clear: "\<forall>p\<ge>pos. p div 8 = pos div 8 \<longrightarrow> \<not> stream_bit b p"
  defines "b' \<equiv> b[5 + pos div 8 := b ! (5 + pos div 8) OR ucast (X::u64)]"
  shows "p < pos \<Longrightarrow> stream_bit b' p = stream_bit b p"
    and "t < k \<Longrightarrow> stream_bit b' (pos + t) = cs ! t"
    and "pos + k \<le> p \<Longrightarrow> p div 8 = pos div 8 \<Longrightarrow> \<not> stream_bit b' p"
proof -
  have sb: "stream_bit b' p \<longleftrightarrow> (if p div 8 = pos div 8
      then stream_bit b p \<or> (pos \<le> p \<and> p < pos + k \<and> cs ! (p - pos)) else stream_bit b p)" for p
    using off X [of p] by (auto simp: b'_def stream_bit_def nth_list_update bit_or_iff bit_unsigned_iff)
  show "p < pos \<Longrightarrow> stream_bit b' p = stream_bit b p" for p using sb [of p] by auto
  show "t < k \<Longrightarrow> stream_bit b' (pos + t) = cs ! t" for t
  proof -
    assume t: "t < k"
    have "(pos + t) div 8 = pos div 8"
    proof -
      have "pos + t = 8 * (pos div 8) + (pos mod 8 + t)" by simp
      moreover have "pos mod 8 + t < 8" using k t by simp
      ultimately show ?thesis by (metis Euclidean_Rings.div_eq_0_iff add.right_neutral div_mult_self4 zero_neq_numeral)
    qed
    then show ?thesis using sb [of "pos + t"] t clear by auto
  qed
  show "pos + k \<le> p \<Longrightarrow> p div 8 = pos div 8 \<Longrightarrow> \<not> stream_bit b' p" for p
    using sb [of p] clear by auto
qed

lemma div_mod_add_small:
  assumes "(p::nat) mod 8 + k < 8"
  shows "(p + k) mod 8 = p mod 8 + k" "(p + k) div 8 = p div 8"
proof -
  have "p + k = (p mod 8 + k) + 8 * (p div 8)" by simp
  then have "(p + k) mod 8 = (p mod 8 + k) mod 8" "(p + k) div 8 = p div 8 + (p mod 8 + k) div 8"
    by (metis mod_mult_self2, metis div_mult_self2 zero_neq_numeral)
  then show "(p + k) mod 8 = p mod 8 + k" "(p + k) div 8 = p div 8" using assms by simp_all
qed

lemma same_byte_diff:
  assumes "p div 8 = (pos::nat) div 8"
  shows "pos \<le> p \<longleftrightarrow> pos mod 8 \<le> p mod 8" "p - pos = p mod 8 - pos mod 8"
    "p < pos + k \<longleftrightarrow> p mod 8 < pos mod 8 + k"
proof -
  have "p = 8 * (pos div 8) + p mod 8" "pos = 8 * (pos div 8) + pos mod 8"
    using assms by (metis mult_div_mod_eq)+
  then show "pos \<le> p \<longleftrightarrow> pos mod 8 \<le> p mod 8" "p - pos = p mod 8 - pos mod 8"
    "p < pos + k \<longleftrightarrow> p mod 8 < pos mod 8 + k"
    by linarith+
qed

lemma bit_mask_word: "bit (2 ^ n - 1 :: u64) j \<longleftrightarrow> j < 64 \<and> j < n"
  using bit_mask_iff [of n j, where 'a = u64] by (simp add: mask_eq_exp_minus_1)

lemma bit_low_shifted:
  "j < 8 \<Longrightarrow> bit (push_bit s (v AND (push_bit n 1 - 1)) :: u64) j \<longleftrightarrow>
     s \<le> j \<and> j - s < n \<and> bit v (j - s)"
  by (auto simp: bit_push_bit_iff bit_and_iff bit_mask_word)

lemma bit_high_low:
  "j < 8 \<Longrightarrow> bit (drop_bit d v AND (push_bit s 1 - 1) :: u64) j \<longleftrightarrow> j < s \<and> bit v (d + j)"
  by (auto simp: bit_drop_bit_eq bit_and_iff bit_mask_word)

lemma chunk_index:
  fixes q r n :: nat
  assumes "r \<le> q" "q < 8"
  shows "n \<le> 8 - r \<Longrightarrow> q < r + n \<Longrightarrow> 7 - q - (8 - r - n) = n - 1 - (q - r) \<and> q - r < n \<and> 8 - r - n \<le> 7 - q \<and> 7 - q - (8 - r - n) < n"
    and "8 - r < n \<Longrightarrow> n - (8 - r) + (7 - q) = n - 1 - (q - r) \<and> q - r < n \<and> 7 - q < 8 - r"
  using assms by linarith+

lemma chunk_index_out:
  fixes q r n :: nat
  assumes "q < 8" "r < 8"
  shows "n \<le> 8 - r \<Longrightarrow> \<not> (r \<le> q \<and> q < r + n) \<Longrightarrow> \<not> (8 - r - n \<le> 7 - q \<and> 7 - q - (8 - r - n) < n)"
    and "\<not> r \<le> q \<Longrightarrow> \<not> 7 - q < 8 - r"
  using assms by linarith+

lemma chunk_all_bits:
  assumes "n \<le> 8 - pos mod 8" and "p div 8 = pos div 8"
  shows "bit (push_bit (8 - pos mod 8 - n) (v AND (push_bit n 1 - 1)) :: u64) (7 - p mod 8)
    \<longleftrightarrow> pos \<le> p \<and> p < pos + n \<and> num_bits n v ! (p - pos)"
proof -
  have lt: "p mod 8 < 8" "pos mod 8 < 8" "7 - p mod 8 < 8" by simp_all
  show ?thesis
    unfolding bit_low_shifted [OF lt(3)] same_byte_diff [OF assms(2)]
    using chunk_index(1) [of "pos mod 8" "p mod 8" n] chunk_index_out(1) [OF lt(1,2) assms(1)] lt(1) assms(1)
    by (cases "pos mod 8 \<le> p mod 8 \<and> p mod 8 < pos mod 8 + n") (metis nth_num_bits)+
qed

lemma chunk_top_bits:
  assumes "8 - pos mod 8 < n" and "p div 8 = pos div 8"
  shows "bit (drop_bit (n - (8 - pos mod 8)) v AND (push_bit (8 - pos mod 8) 1 - 1) :: u64) (7 - p mod 8)
    \<longleftrightarrow> pos \<le> p \<and> p < pos + (8 - pos mod 8) \<and> num_bits n v ! (p - pos)"
proof -
  have lt: "p mod 8 < 8" "pos mod 8 < 8" "7 - p mod 8 < 8" by simp_all
  have "p mod 8 < pos mod 8 + (8 - pos mod 8)" using lt by linarith
  then show ?thesis
    unfolding bit_high_low [OF lt(3)] same_byte_diff [OF assms(2)]
    using chunk_index(2) [of "pos mod 8" "p mod 8" n] chunk_index_out(2) [OF lt(1,2)] lt(1) assms(1)
    by (cases "pos mod 8 \<le> p mod 8") (metis nth_num_bits)+
qed

text \<open>The step to the next byte, which zeroes it when there is one.\<close>

lemma written_next_byte:
  assumes b: "5 \<le> length b" "length bs \<le> 8 * (length b - 5)"
    and full: "length bs mod 8 = 0" "bs \<noteq> []"
    and bits: "\<forall>p<length bs. stream_bit b p = bs ! p"
  shows "5 + length bs div 8 < length b \<Longrightarrow>
      written \<lparr>wbuf = b[5 + length bs div 8 := 0], wOffset = 5 + length bs div 8, wRemaining = 8\<rparr> bs"
    and "\<not> 5 + length bs div 8 < length b \<Longrightarrow>
      written \<lparr>wbuf = b, wOffset = 5 + length bs div 8, wRemaining = 8\<rparr> bs"
proof -
  have lt: "p div 8 < length bs div 8" if "p < length bs" for p
    using that full(1) by (metis div_less_iff_less_mult div_mult_self_is_m mod_0_imp_dvd dvd_div_mult_self zero_less_numeral)
  show "written \<lparr>wbuf = b[5 + length bs div 8 := 0], wOffset = 5 + length bs div 8, wRemaining = 8\<rparr> bs"
    if "5 + length bs div 8 < length b"
    using that b full bits lt by (auto simp: written_def stream_bit_def nth_list_update)
  show "written \<lparr>wbuf = b, wOffset = 5 + length bs div 8, wRemaining = 8\<rparr> bs"
    if "\<not> 5 + length bs div 8 < length b"
    using that b full bits by (auto simp: written_def)
qed

lemma writeChunk_written:
  assumes w: "written st bs" and n: "0 < n"
    and room: "length bs + n \<le> 8 * (length (wbuf st) - 5)"
  defines "k \<equiv> min n (wRemaining st)"
  shows "\<exists>st'. writeChunk (length (wbuf st)) v n st = Inr (n - k, st') \<and>
    written st' (bs @ take k (num_bits n v)) \<and> 0 < k \<and>
    length (wbuf st') = length (wbuf st) \<and> take 5 (wbuf st') = take 5 (wbuf st)"
proof -
  let ?pos = "length bs" and ?b = "wbuf st" and ?cs = "num_bits n v"
  let ?X = "if wRemaining st \<ge> n then push_bit (wRemaining st - n) (v AND (push_bit n 1 - 1))
    else drop_bit (n - wRemaining st) v AND (push_bit (wRemaining st) 1 - 1)"
  let ?b' = "?b[5 + ?pos div 8 := ?b ! (5 + ?pos div 8) OR ucast ?X]"
  let ?bs' = "bs @ take k ?cs"
  have off: "wOffset st = 5 + ?pos div 8" and rem: "wRemaining st = 8 - ?pos mod 8"
    using w by (simp_all add: written_def)
  have lt: "?pos mod 8 < 8" by simp
  have inb: "5 + ?pos div 8 < length ?b"
    using room n by (metis (no_types, lifting) add_lessD1 div_less_iff_less_mult less_diff_conv
        add.commute mult.commute less_le_trans less_add_same_cancel1 zero_less_numeral)
  have clear: "\<forall>p\<ge>?pos. p div 8 = ?pos div 8 \<longrightarrow> \<not> stream_bit ?b p"
    using w inb by (simp add: written_def)
  have k: "?pos mod 8 + k \<le> 8" "0 < k" "k \<le> n" using n lt by (auto simp: k_def rem)
  have X: "bit ?X (7 - p mod 8) \<longleftrightarrow> ?pos \<le> p \<and> p < ?pos + k \<and> ?cs ! (p - ?pos)"
    if "p div 8 = ?pos div 8" for p
  proof (cases "n \<le> 8 - ?pos mod 8")
    case True
    then have "k = n" by (simp add: k_def rem)
    then show ?thesis using True chunk_all_bits [OF True that, of v] by (simp add: rem)
  next
    case False
    then have "k = 8 - ?pos mod 8" by (simp add: k_def rem)
    then show ?thesis using False chunk_top_bits [OF _ that, of n v] by (simp add: rem)
  qed
  note oc = or_chunk [OF inb k(1) X clear]
  have lbs': "length ?bs' = ?pos + k" using k by simp
  have bits: "\<forall>p<?pos + k. stream_bit ?b' p = ?bs' ! p"
  proof (intro allI impI)
    fix p
    assume p: "p < ?pos + k"
    show "stream_bit ?b' p = ?bs' ! p"
    proof (cases "p < ?pos")
      case True
      then show ?thesis using oc(1) w by (simp add: nth_append written_def)
    next
      case False
      then have "p - ?pos < k" "?pos + (p - ?pos) = p" using p by auto
      then show ?thesis using oc(2) [of "p - ?pos"] False by (simp add: nth_append)
    qed
  qed
  have or: "or_at ?b (wOffset st) ?X = Inr ?b'" using inb by (simp add: or_at_def off)
  have "5 \<le> length ?b" using w by (simp add: written_def)
  have fit: "?pos + k \<le> 8 * (length ?b' - 5)" using room k by simp
  have step: "writeChunk (length ?b) v n st =
     (if wRemaining st - k = 0 then
        if wOffset st + 1 < length ?b
        then Inr (n - k, st\<lparr>wbuf := ?b'[wOffset st + 1 := 0], wOffset := wOffset st + 1, wRemaining := 8\<rparr>)
        else if n - k = 0 then Inr (n - k, st\<lparr>wbuf := ?b', wOffset := wOffset st + 1, wRemaining := 8\<rparr>)
        else Inl AssertionFailed
      else Inr (n - k, st\<lparr>wbuf := ?b', wRemaining := wRemaining st - k\<rparr>))"
    using or unfolding writeChunk_def
    by (cases "wRemaining st \<ge> n") (auto simp: k_def Let_def split: if_splits)
  define b' where "b' = ?b'"
  define bs' where "bs' = ?bs'"
  have b': "length b' = length ?b" "take 5 b' = take 5 ?b" "5 \<le> length b'"
    "length bs' = ?pos + k" "bs' \<noteq> []" "length bs' \<le> 8 * (length b' - 5)"
    "\<forall>p<length bs'. stream_bit b' p = bs' ! p"
  proof -
    show "bs' \<noteq> []" using lbs' k(2) by (metis bs'_def add_gr_0 length_greater_0_conv)
  qed (use bits fit lbs' \<open>5 \<le> length ?b\<close> in \<open>simp_all add: b'_def bs'_def\<close>)
  have all: "st\<lparr>wbuf := c, wOffset := m, wRemaining := r\<rparr> = \<lparr>wbuf = c, wOffset = m, wRemaining = r\<rparr>" for c m r
    by simp
  note step = step [folded b'_def, unfolded all]
  show ?thesis
    unfolding bs'_def [symmetric]
  proof (cases "wRemaining st - k = 0")
    case True
    then have m: "length bs' mod 8 = 0" "5 + length bs' div 8 = wOffset st + 1"
    proof -
      have "k = 8 - ?pos mod 8" using True k by (simp add: rem)
      then have "?pos mod 8 + k = 8" using lt by simp
      then have "?pos + k = 8 * (?pos div 8 + 1)"
        using mult_div_mod_eq [of 8 ?pos] by (simp only: distrib_left)
      then show "length bs' mod 8 = 0" "5 + length bs' div 8 = wOffset st + 1"
        by (simp_all add: b' off)
    qed
    note nb = written_next_byte [OF b'(3,6) m(1) b'(5,7), unfolded m(2)]
    show "\<exists>st'. writeChunk (length ?b) v n st = Inr (n - k, st') \<and> written st' bs' \<and> 0 < k \<and>
        length (wbuf st') = length ?b \<and> take 5 (wbuf st') = take 5 ?b"
    proof (cases "wOffset st + 1 < length ?b")
      case inside: True
      have "written \<lparr>wbuf = b'[wOffset st + 1 := 0], wOffset = wOffset st + 1, wRemaining = 8\<rparr> bs'"
        using nb(1) inside b'(1) by simp
      then show ?thesis
        using step True inside k b'(1,2) off
        by (intro exI [of _ "\<lparr>wbuf = b'[wOffset st + 1 := 0], wOffset = wOffset st + 1, wRemaining = 8\<rparr>"])
          simp
    next
      case False
      have "n - k = 0"
      proof -
        have "length ?b = 5 + length bs' div 8" using False inb m(2) off by simp
        then have "8 * (length ?b - 5) = ?pos + k" using m(1) b'(4) by auto
        then show ?thesis using room k by simp
      qed
      then show ?thesis
        using step True False nb(2) k b'(1,2)
        by (intro exI [of _ "\<lparr>wbuf = b', wOffset = wOffset st + 1, wRemaining = 8\<rparr>"]) simp
    qed
  next
    case False
    then have "?pos mod 8 + k < 8" using rem by simp
    note m = div_mod_add_small [OF this]
    have "written (st\<lparr>wbuf := b', wRemaining := wRemaining st - k\<rparr>) bs'"
      using b' oc(3) [folded b'_def] m off rem by (simp add: written_def)
    then show "\<exists>st'. writeChunk (length ?b) v n st = Inr (n - k, st') \<and> written st' bs' \<and> 0 < k \<and>
        length (wbuf st') = length ?b \<and> take 5 (wbuf st') = take 5 ?b"
      using step False k b'(1,2)
      by (intro exI [of _ "st\<lparr>wbuf := b', wRemaining := wRemaining st - k\<rparr>"]) simp
  qed
qed

text \<open>The whole loop appends the \<open>n\<close> low bits of the number.\<close>

lemma writeLoop_written:
  assumes "written st bs" and "0 < n" and "n \<le> fuel"
    and "length bs + n \<le> 8 * (length (wbuf st) - 5)"
  shows "\<exists>st'. writeLoop fuel (length (wbuf st)) v n st = Inr st' \<and> written st' (bs @ num_bits n v) \<and>
    length (wbuf st') = length (wbuf st) \<and> take 5 (wbuf st') = take 5 (wbuf st)"
  using assms
proof (induction fuel arbitrary: n st bs)
  case 0
  then show ?case by simp
next
  case (Suc fuel)
  define k where "k = min n (wRemaining st)"
  obtain st1 where st1: "writeChunk (length (wbuf st)) v n st = Inr (n - k, st1)"
    "written st1 (bs @ take k (num_bits n v))" "0 < k"
    "length (wbuf st1) = length (wbuf st)" "take 5 (wbuf st1) = take 5 (wbuf st)"
    using writeChunk_written [OF Suc.prems(1,2,4)] unfolding k_def by blast
  have kn: "k \<le> n" by (simp add: k_def)
  show ?case
  proof (cases "n - k = 0")
    case True
    then show ?thesis using st1 kn by (intro exI [of _ st1]) simp
  next
    case False
    have split: "(bs @ take k (num_bits n v)) @ num_bits (n - k) v = bs @ num_bits n v"
      using append_take_drop_id [of k "num_bits n v"] drop_num_bits [OF kn] by simp
    obtain st2 where "writeLoop fuel (length (wbuf st1)) v (n - k) st1 = Inr st2"
      "written st2 (bs @ num_bits n v)" "length (wbuf st2) = length (wbuf st1)"
      "take 5 (wbuf st2) = take 5 (wbuf st1)"
    proof -
      have "n - k \<le> fuel" using Suc.prems(3) st1(3) by linarith
      then show thesis
        using that Suc.IH [OF st1(2), of "n - k"] False Suc.prems(4) st1(3,4) kn split by auto
    qed
    then show ?thesis using st1(1,4,5) False by (intro exI [of _ st2]) simp
  qed
qed

section \<open>Runs\<close>

text \<open>
  The reference for the run-length format: the runs of a mask that starts with \<open>n\<close> times
  \<open>c\<close>, in order.
\<close>

fun runs :: "bool \<Rightarrow> nat \<Rightarrow> bool list \<Rightarrow> (bool \<times> nat) list" where
  "runs c n [] = [(c, n)]"
| "runs c n (v # vs) = (if v = c then runs c (n + 1) vs else (c, n) # runs v 1 vs)"

definition unruns :: "(bool \<times> nat) list \<Rightarrow> bool list" where
  "unruns rs = concat (map (\<lambda>(s, k). replicate k s) rs)"

lemma unruns_simps [simp]:
  "unruns [] = []" "unruns ((s, k) # rs) = replicate k s @ unruns rs"
  by (simp_all add: unruns_def)

lemma unruns_runs: "unruns (runs c n vs) = replicate n c @ vs"
  by (induction vs arbitrary: c n) (auto simp flip: replicate_append_same)

lemma runs_Cons_ex: "\<exists>k rs. runs c n vs = (c, k) # rs"
proof (induction vs arbitrary: n)
  case Nil
  then show ?case by simp
next
  case (Cons v vs)
  then show ?case using Cons.IH [of "n + 1"] by auto
qed

lemma runs_not_Nil [simp]: "runs c n vs \<noteq> []"
  using runs_Cons_ex [of c n vs] by auto

lemma runs_positive: "0 < n \<Longrightarrow> (s, k) \<in> set (runs c n vs) \<Longrightarrow> 0 < k"
  by (induction vs arbitrary: c n) (auto split: if_splits)

fun alternating :: "bool \<Rightarrow> (bool \<times> nat) list \<Rightarrow> bool" where
  "alternating c [] \<longleftrightarrow> True"
| "alternating c ((s, k) # rs) \<longleftrightarrow> s = c \<and> alternating (\<not> c) rs"

lemma runs_alternating: "alternating c (runs c n vs)"
proof (induction vs arbitrary: c n)
  case Nil
  then show ?case by simp
next
  case (Cons v vs)
  then show ?case using Cons.IH [of "\<not> c" 1] by (cases "v = c") auto
qed

lemma scanRuns_runs:
  assumes "scanRuns vs c n nv mx = (cnt, nv', mx')"
  shows "nv' + 1 = nv + length (runs c n vs)"
    and "mx \<le> max mx' cnt" "(s, k) \<in> set (runs c n vs) \<Longrightarrow> k \<le> max mx' cnt"
    and "max mx' cnt \<le> max mx (n + length vs)"
  using assms
  by (induction vs arbitrary: c n nv mx) (auto split: if_splits, (fastforce simp: le_max_iff_disj)+)

lemma props_of_runs:
  assumes "length (v # vs) < 2 ^ 62"
  defines "p \<equiv> computeMaskRunLengthProperties (v # vs)"
  shows "startValue p = v" and "numValues p = length (runs v 1 vs)"
    and "bufSize p = 5 + (unat (numBitsPerInt p) * length (runs v 1 vs) + 7) div 8"
    and "1 \<le> unat (numBitsPerInt p)" and "unat (numBitsPerInt p) \<le> 63"
    and "(s, k) \<in> set (runs v 1 vs) \<Longrightarrow> k - 1 < 2 ^ unat (numBitsPerInt p)"
    and "length (v # vs) \<le> 2 ^ m \<Longrightarrow> 1 \<le> m \<Longrightarrow> m \<le> 62 \<Longrightarrow> unat (numBitsPerInt p) \<le> m"
proof -
  obtain cnt nv mx where sc: "scanRuns vs v 1 0 0 = (cnt, nv, mx)" by (metis prod_cases3)
  note sr = scanRuns_runs [OF sc] and sc' = sc [simplified]
  define mn where "mn = max mx cnt"
  have mn: "mn \<le> length (v # vs)" using sr(4) by (simp add: mn_def)
  let ?arg = "if mn > 1 then of_nat mn - 1 else (1 :: u64)"
  have mn64: "unat (of_nat mn :: u64) = mn"
    using mn assms(1) by (intro unat_of_nat64) simp
  have arg: "unat ?arg = (if mn > 1 then mn - 1 else 1)"
  proof (cases "mn > 1")
    case True
    then have "(of_nat mn :: u64) \<noteq> 0" using mn64 by auto
    then show ?thesis using True mn64 by (simp add: unat_minus_one)
  qed simp
  have bits: "numBitsPerInt p = bitWidth ?arg"
    by (simp add: p_def sc' Let_def mn_def)
  have small: "unat ?arg < 2 ^ 63" using arg mn assms(1) by auto
  have "unat ?arg \<noteq> 0" unfolding arg by simp
  then have "?arg \<noteq> 0" by (rule contrapos_nn) (simp only: unat_0)
  note bw = bitWidth_bounds [OF small]
  show "startValue p = v" by (simp add: p_def sc' Let_def)
  show "numValues p = length (runs v 1 vs)" using sr(1) by (simp add: p_def sc' Let_def)
  show "1 \<le> unat (numBitsPerInt p)" "unat (numBitsPerInt p) \<le> 63"
    using bw(3,4) \<open>?arg \<noteq> 0\<close> by (simp_all add: bits)
  have "(nv + 1) = length (runs v 1 vs)" using sr(1) by simp
  then have "bufSize p = drop_bit 3 (unat (numBitsPerInt p) * length (runs v 1 vs))
      + (if (unat (numBitsPerInt p) * length (runs v 1 vs)) AND (push_bit 3 1 - 1) = 0 then 0 else 1)
      + MASK_PAYLOAD_HEADER_SIZE"
    unfolding p_def computeMaskRunLengthProperties.simps sc Let_def prod.case by simp
  also have "\<dots> = computeBufferSizeMaskBitMask (unat (numBitsPerInt p) * length (runs v 1 vs))"
    unfolding computeBufferSizeMaskBitMask_def by simp
  finally show "bufSize p = 5 + (unat (numBitsPerInt p) * length (runs v 1 vs) + 7) div 8"
    by (simp add: computeBufferSizeMaskBitMask_eq)
  show "k - 1 < 2 ^ unat (numBitsPerInt p)" if "(s, k) \<in> set (runs v 1 vs)"
    using sr(3) [OF that] bw(1) arg unfolding bits mn_def [symmetric] by (auto split: if_splits)
  show "unat (numBitsPerInt p) \<le> m" if "length (v # vs) \<le> 2 ^ m" "1 \<le> m" "m \<le> 62"
  proof (rule ccontr)
    assume "\<not> unat (numBitsPerInt p) \<le> m"
    then have "(2::nat) ^ m \<le> 2 ^ (unat (bitWidth ?arg) - 1)"
      by (intro power_increasing) (auto simp: bits)
    also have "\<dots> \<le> unat ?arg" using bw(2) \<open>?arg \<noteq> 0\<close> by blast
    finally have "2 ^ m \<le> (if mn > 1 then mn - 1 else 1)" unfolding arg .
    moreover have "(2::nat) ^ 1 \<le> 2 ^ m" using that(2) by (intro power_increasing) auto
    ultimately show False using mn that(1) by (auto split: if_splits)
  qed
qed

definition run_bits :: "nat \<Rightarrow> (bool \<times> nat) list \<Rightarrow> bool list" where
  "run_bits w rs = concat (map (\<lambda>(s, k). num_bits w (of_nat k - 1)) rs)"

lemma run_bits_simps [simp]:
  "run_bits w [] = []"
  "run_bits w ((s, k) # rs) = num_bits w (of_nat k - 1) @ run_bits w rs"
  by (simp_all add: run_bits_def)

lemma length_run_bits [simp]: "length (run_bits w rs) = w * length rs"
  by (induction rs) auto

lemma writeCounter_written:
  assumes "written st bs" and "bufSize p = length (wbuf st)" and "1 \<le> unat (numBitsPerInt p)"
    and "length bs + unat (numBitsPerInt p) \<le> 8 * (length (wbuf st) - 5)"
  shows "\<exists>st'. writeCounter p k st = Inr st' \<and>
    written st' (bs @ num_bits (unat (numBitsPerInt p)) (of_nat k - 1)) \<and>
    length (wbuf st') = length (wbuf st) \<and> take 5 (wbuf st') = take 5 (wbuf st)"
  unfolding writeCounter_def assms(2)
  using assms by (intro writeLoop_written) auto

lemma runLengthLoop_written:
  assumes "written st bs" and "bufSize p = length (wbuf st)" and "1 \<le> unat (numBitsPerInt p)"
    and "length bs + unat (numBitsPerInt p) * length (runs c n vs) \<le> 8 * (length (wbuf st) - 5)"
  shows "\<exists>st'. runLengthLoop p vs c n st = Inr st' \<and>
    written st' (bs @ run_bits (unat (numBitsPerInt p)) (runs c n vs)) \<and>
    length (wbuf st') = length (wbuf st) \<and> take 5 (wbuf st') = take 5 (wbuf st)"
  using assms
proof (induction vs arbitrary: c n st bs)
  case Nil
  then show ?case using writeCounter_written [of st bs p n] by auto
next
  case (Cons v vs)
  show ?case
  proof (cases "v = c")
    case True
    then show ?thesis using Cons.IH [of st bs c "n + 1"] Cons.prems by auto
  next
    case False
    have "length bs + unat (numBitsPerInt p) \<le> 8 * (length (wbuf st) - 5)"
      using Cons.prems(4) False by simp
    then obtain st1 where st1: "writeCounter p n st = Inr st1"
      "written st1 (bs @ num_bits (unat (numBitsPerInt p)) (of_nat n - 1))"
      "length (wbuf st1) = length (wbuf st)" "take 5 (wbuf st1) = take 5 (wbuf st)"
      using writeCounter_written [of st bs p n] Cons.prems by blast
    then show ?thesis
      using False Cons.prems Cons.IH [OF st1(2), of v 1] by (auto simp: algebra_simps)
  qed
qed

lemma encodeMaskRunLength_correct:
  assumes "length (v # vs) < 2 ^ 32"
  defines "p \<equiv> computeMaskRunLengthProperties (v # vs)"
  shows "\<exists>b. encodeMaskRunLength uninit (v # vs) = Inr b \<and> length b = bufSize p \<and>
    (\<forall>i<unat (numBitsPerInt p) * length (runs v 1 vs).
       stream_bit b i = run_bits (unat (numBitsPerInt p)) (runs v 1 vs) ! i) \<and>
    decodeMaskPayloadHeader b = Inr \<lparr>payloadFormat = RunLength, numBits = of_nat (length (v # vs)),
      runLengthNumBitsPerInt = numBitsPerInt p, runLengthStartValue = v\<rparr>"
proof -
  let ?w = "unat (numBitsPerInt p)" and ?rs = "runs v 1 vs"
  let ?h = "\<lparr>payloadFormat = RunLength, numBits = of_nat (length (v # vs)),
      runLengthNumBitsPerInt = numBitsPerInt p, runLengthStartValue = v\<rparr>"
  have "length (v # vs) < 2 ^ 62" using assms(1) by (rule less_trans) simp
  note pr = props_of_runs [OF this, folded p_def]
  have "unat (of_nat (length (v # vs)) :: u64) = length (v # vs)"
    by (rule unat_of_nat64, rule less_trans [OF assms(1)]) simp
  then have "header_wf ?h" using assms(1) pr(4,5) by (simp add: header_wf_def)
  then obtain hdr where hdr: "encodeMaskPayloadHeader ?h = Inr hdr" "length hdr = 5"
    "\<And>rest. decodeMaskPayloadHeader (hdr @ rest) = Inr ?h"
    using header_roundtrip by blast
  let ?b0 = "hdr @ drop 5 (new_buffer uninit (bufSize p))"
  have "0 < ?w * length ?rs" using pr(4) by simp
  moreover have "0 < (N + 7) div 8 \<and> N \<le> 8 * ((N + 7) div 8)" if "0 < N" for N :: nat
    using that by (simp add: div_greater_zero_iff)
  ultimately have size: "5 < bufSize p" "?w * length ?rs \<le> 8 * (bufSize p - 5)"
    using pr(3) by simp_all
  have mc: "memcpy_front hdr (new_buffer uninit (bufSize p)) = Inr ?b0"
    using size hdr(2) by (simp add: memcpy_front_def new_buffer_def)
  let ?b1 = "?b0[5 := 0]"
  have len: "length ?b1 = bufSize p" using size hdr(2) by (simp add: new_buffer_def)
  have w0: "written \<lparr>wbuf = ?b1, wOffset = 5, wRemaining = 8\<rparr> []"
    using size len hdr(2) by (auto simp: written_def stream_bit_def div_eq_0_iff)
  then obtain st where st:
    "runLengthLoop p vs v 1 \<lparr>wbuf = ?b1, wOffset = 5, wRemaining = 8\<rparr> = Inr st"
    "written st ([] @ run_bits ?w ?rs)" "length (wbuf st) = length ?b1"
    "take 5 (wbuf st) = take 5 ?b1"
    using runLengthLoop_written [OF w0, of p v 1 vs] len size pr(4) by auto
  have "wbuf st = hdr @ drop 5 (wbuf st)"
    using st(4) hdr(2) append_take_drop_id [of 5 "wbuf st"] by simp
  then have dec: "decodeMaskPayloadHeader (wbuf st) = Inr ?h" using hdr(3) by metis
  have "encodeMaskRunLength uninit (v # vs) = Inr (wbuf st)"
    unfolding encodeMaskRunLength_def encodeMaskRunLength_props_def p_def [symmetric] pr(1)
    using hdr(1) mc st(1) len size by (simp add: MASK_PAYLOAD_HEADER_SIZE_def)
  then show ?thesis using st(2,3) len dec by (auto simp: written_def)
qed

end
