(* ===== verification/MaskDecode.thy ===== *)
theory MaskDecode
  imports MaskEncode
begin

text \<open>
  The decoding half of \<^verbatim>\<open>src/src/multio/domain/MaskCompression.{h,cc}\<close>: the iterators over
  the runs and over the single values of an encoded mask. A range-for over an iterator is a
  recursion with fuel: \<open>None\<close> says that the loop has not ended within the fuel. The
  intermediate results of type \<^verbatim>\<open>int\<close> are 32 bit words that are sign-extended where the code
  or-s them to a \<^verbatim>\<open>size_t\<close>; a shift of an \<^verbatim>\<open>int\<close> by 32 or more, or of a value that does
  not fit after the shift, is \<open>Inl UndefinedBehaviour\<close>.
\<close>

section \<open>The iterator over the runs\<close>

record RunLengthIterator =
  rlPayload :: "u8 list"
  rlHeader :: MaskPayloadHeader
  rlIndex :: u64
  rlOffset :: nat
  rlRemainingBits :: nat
  rlVal :: "bool \<times> u64"

definition readChunk :: "u8 \<Rightarrow> nat \<Rightarrow> nat \<Rightarrow> u64 \<Rightarrow> (nat \<times> nat \<times> u64) res" where
  "readChunk b n remaining val =
     (if remaining \<ge> n
      then let nextRemaining = remaining - n
           in Inr (0, nextRemaining, val OR scast (drop_bit nextRemaining
                ((ucast b :: i32) AND push_bit nextRemaining (push_bit n 1 - 1))))
      else let next = n - remaining;
               chunk = (ucast b :: i32) AND (push_bit remaining 1 - 1)
           in if next \<ge> 32 \<or> unat chunk * 2 ^ next \<ge> 2 ^ 32 then Inl UndefinedBehaviour
              else Inr (next, 0, val OR scast (push_bit next chunk)))"

text \<open>The \<^verbatim>\<open>do ... while (numBitsToRead > 0)\<close> loop of \<^verbatim>\<open>updateValue\<close>, with its \<^verbatim>\<open>break\<close>.\<close>

fun readLoop :: "nat \<Rightarrow> u8 list \<Rightarrow> nat \<Rightarrow> u8 \<Rightarrow> nat \<Rightarrow> nat \<Rightarrow> u64 \<Rightarrow> (nat \<times> nat \<times> u64) res" where
  "readLoop 0 payload n b offset remaining val = Inl UndefinedBehaviour"
| "readLoop (Suc fuel) payload n b offset remaining val =
     bind_res (readChunk b n remaining val) (\<lambda>(n, remaining, val).
       if remaining = 0
       then let offset = offset + 1
            in if offset \<ge> length payload then Inr (offset, remaining, val)
               else bind_res (read_at payload offset) (\<lambda>b.
                 if n > 0 then readLoop fuel payload n b offset 8 val else Inr (offset, 8, val))
       else if n > 0 then readLoop fuel payload n b offset remaining val
       else Inr (offset, remaining, val))"

definition rlUpdateValue :: "RunLengthIterator \<Rightarrow> RunLengthIterator res" where
  "rlUpdateValue it =
     (let index = rlIndex it + snd (rlVal it)
      in if index \<ge> numBits (rlHeader it) then Inr (it\<lparr>rlIndex := index\<rparr>)
         else let n = unat (runLengthNumBitsPerInt (rlHeader it))
         in bind_res (read_at (rlPayload it) (rlOffset it)) (\<lambda>b.
            bind_res (readLoop (Suc n) (rlPayload it) n b (rlOffset it) (rlRemainingBits it) 0)
              (\<lambda>(offset, remaining, val).
                Inr (it\<lparr>rlIndex := index, rlOffset := offset, rlRemainingBits := remaining,
                        rlVal := (\<not> fst (rlVal it), val + 1)\<rparr>))))"

definition rlIterator :: "u8 list \<Rightarrow> MaskPayloadHeader \<Rightarrow> bool \<Rightarrow> RunLengthIterator res" where
  "rlIterator payload header toEnd =
     (if payloadFormat header \<noteq> RunLength then Inl MaskCompressionException
      else let it = \<lparr>rlPayload = payload, rlHeader = header, rlIndex = 0,
                     rlOffset = MASK_PAYLOAD_HEADER_SIZE, rlRemainingBits = 8,
                     rlVal = (\<not> runLengthStartValue header, 0)\<rparr>
           in if toEnd then Inr (it\<lparr>rlIndex := numBits header\<rparr>) else rlUpdateValue it)"

definition rlEqual :: "RunLengthIterator \<Rightarrow> RunLengthIterator \<Rightarrow> bool" where
  "rlEqual it other \<longleftrightarrow> rlPayload it = rlPayload other \<and> rlIndex it = rlIndex other"

fun rlCollect :: "nat \<Rightarrow> RunLengthIterator \<Rightarrow> RunLengthIterator \<Rightarrow> (bool \<times> u64) list res option" where
  "rlCollect 0 it end_it = None"
| "rlCollect (Suc fuel) it end_it =
     (if rlEqual it end_it then Some (Inr [])
      else case rlUpdateValue it of
        Inl e \<Rightarrow> Some (Inl e)
      | Inr it' \<Rightarrow> map_option (\<lambda>r. bind_res r (\<lambda>vs. Inr (rlVal it # vs))) (rlCollect fuel it' end_it))"

text \<open>
  \<^verbatim>\<open>for (const auto& pair : EncodedRunLengthPayload{payload})\<close>: the pairs the loop body sees.
\<close>

definition runLengthPairs :: "nat \<Rightarrow> u8 list \<Rightarrow> (bool \<times> u64) list res option" where
  "runLengthPairs fuel payload =
     (case bind_res (decodeMaskPayloadHeader payload) (\<lambda>h.
        bind_res (rlIterator payload h False) (\<lambda>it.
        bind_res (rlIterator payload h True) (\<lambda>end_it. Inr (it, end_it)))) of
        Inl e \<Rightarrow> Some (Inl e)
      | Inr (it, end_it) \<Rightarrow> rlCollect fuel it end_it)"

section \<open>The iterator over the values\<close>

record MaskPayloadIterator =
  mpPayload :: "u8 list"
  mpHeader :: MaskPayloadHeader
  mpIndex :: u64
  mpVal :: bool
  mpRl :: "(RunLengthIterator \<times> u64) option"

definition mpUpdateValue :: "MaskPayloadIterator \<Rightarrow> MaskPayloadIterator res" where
  "mpUpdateValue it =
     (case payloadFormat (mpHeader it) of
        RunLength \<Rightarrow>
          bind_res
            (if mpIndex it = 0 then rlIterator (mpPayload it) (mpHeader it) False
             else case mpRl it of
               None \<Rightarrow> Inl UndefinedBehaviour
             | Some (r, counter) \<Rightarrow> rlUpdateValue r)
            (\<lambda>r. Inr (it\<lparr>mpRl := Some (r, 0), mpVal := fst (rlVal r)\<rparr>))
      | BitMask \<Rightarrow>
          bind_res (read_at (mpPayload it) (unat (drop_bit 3 (mpIndex it)) + MASK_PAYLOAD_HEADER_SIZE))
            (\<lambda>b. Inr (it\<lparr>mpVal :=
               drop_bit (unat (mpIndex it AND (push_bit 3 1 - 1))) b AND 0x01 \<noteq> 0\<rparr>)))"

definition mpIterator :: "u8 list \<Rightarrow> MaskPayloadHeader \<Rightarrow> bool \<Rightarrow> MaskPayloadIterator res" where
  "mpIterator payload header toEnd =
     (let it = \<lparr>mpPayload = payload, mpHeader = header, mpIndex = 0,
                mpVal = runLengthStartValue header, mpRl = None\<rparr>
      in if toEnd then Inr (it\<lparr>mpIndex := numBits header\<rparr>)
         else if payloadFormat header = BitMask
              \<and> computeBufferSizeMaskBitMask (unat (numBits header)) \<noteq> length payload
         then Inl MaskCompressionException
         else mpUpdateValue it)"

definition mpIncrement :: "MaskPayloadIterator \<Rightarrow> MaskPayloadIterator res" where
  "mpIncrement it =
     (case payloadFormat (mpHeader it) of
        RunLength \<Rightarrow>
          if mpIndex it + 1 < numBits (mpHeader it)
          then case mpRl it of
            None \<Rightarrow> Inl UndefinedBehaviour
          | Some (r, counter) \<Rightarrow>
              let it' = it\<lparr>mpIndex := mpIndex it + 1, mpRl := Some (r, counter + 1)\<rparr>
              in if counter + 1 \<ge> snd (rlVal r) then mpUpdateValue it' else Inr it'
          else Inr (it\<lparr>mpIndex := numBits (mpHeader it)\<rparr>)
      | BitMask \<Rightarrow>
          if mpIndex it + 1 < numBits (mpHeader it)
          then mpUpdateValue (it\<lparr>mpIndex := mpIndex it + 1\<rparr>)
          else Inr (it\<lparr>mpIndex := numBits (mpHeader it)\<rparr>))"

definition mpEqual :: "MaskPayloadIterator \<Rightarrow> MaskPayloadIterator \<Rightarrow> bool" where
  "mpEqual it other \<longleftrightarrow> mpPayload it = mpPayload other \<and> mpIndex it = mpIndex other"

fun mpCollect :: "nat \<Rightarrow> MaskPayloadIterator \<Rightarrow> MaskPayloadIterator \<Rightarrow> bool list res option" where
  "mpCollect 0 it end_it = None"
| "mpCollect (Suc fuel) it end_it =
     (if mpEqual it end_it then Some (Inr [])
      else case mpIncrement it of
        Inl e \<Rightarrow> Some (Inl e)
      | Inr it' \<Rightarrow> map_option (\<lambda>r. bind_res r (\<lambda>vs. Inr (mpVal it # vs))) (mpCollect fuel it' end_it))"

text \<open>\<^verbatim>\<open>for (bool v : EncodedBitMaskPayload{payload})\<close>: the values the loop body sees.\<close>

definition maskValues :: "nat \<Rightarrow> u8 list \<Rightarrow> bool list res option" where
  "maskValues fuel payload =
     (case bind_res (decodeMaskPayloadHeader payload) (\<lambda>h.
        bind_res (mpIterator payload h False) (\<lambda>it.
        bind_res (mpIterator payload h True) (\<lambda>end_it. Inr (it, end_it)))) of
        Inl e \<Rightarrow> Some (Inl e)
      | Inr (it, end_it) \<Rightarrow> mpCollect fuel it end_it)"

section \<open>The two containers\<close>

datatype EncodedMaskPayload =
    EncodedBitMaskPayload "u8 list" MaskPayloadHeader
  | EncodedRunLengthPayload "u8 list" MaskPayloadHeader

definition getEncodedMaskPayload :: "u8 list \<Rightarrow> EncodedMaskPayload res" where
  "getEncodedMaskPayload payload =
     bind_res (decodeMaskPayloadHeader payload) (\<lambda>h.
       Inr (case payloadFormat h of
              RunLength \<Rightarrow> EncodedRunLengthPayload payload h
            | BitMask \<Rightarrow> EncodedBitMaskPayload payload h))"

fun encodedMaskSize :: "EncodedMaskPayload \<Rightarrow> u64" where
  "encodedMaskSize (EncodedBitMaskPayload payload h) = numBits h"
| "encodedMaskSize (EncodedRunLengthPayload payload h) = numBits h"

section \<open>Reading a number\<close>

lemma bit_mask_i32: "bit (2 ^ n - 1 :: i32) j \<longleftrightarrow> j < 32 \<and> j < n"
  using bit_mask_iff [of n j, where 'a = i32] by (simp add: mask_eq_exp_minus_1)

lemma bit_i32_less: "bit (w :: i32) i \<Longrightarrow> i < 32"
  using bit_imp_le_length [of w i] by simp

lemma bit_scast_nonneg:
  assumes "\<not> bit (w :: i32) 31"
  shows "bit (scast w :: u64) i \<longleftrightarrow> bit w i"
proof -
  have "i < 31" if "bit w i"
    using that bit_i32_less [OF that] assms by (cases "i = 31") auto
  then show ?thesis using assms by (auto simp: bit_simps min_def)
qed

lemma read_index:
  fixes m n i :: nat
  assumes "m < 8" "i < n"
  shows "n \<le> 8 - m \<Longrightarrow> m + (n - 1 - i) < 8 \<and> 7 - (m + (n - 1 - i)) = 8 - m - n + i"
    and "8 - m < n \<Longrightarrow> n - (8 - m) \<le> i \<Longrightarrow>
      m + (n - 1 - i) < 8 \<and> 7 - (m + (n - 1 - i)) = i - (n - (8 - m))"
  using assms by linarith+

lemma mod_div_full:
  assumes "(p::nat) mod 8 + k = 8"
  shows "(p + k) mod 8 = 0" "(p + k) div 8 = p div 8 + 1"
proof -
  have "p + k = 8 * (p div 8 + 1)"
    using mult_div_mod_eq [of 8 p] assms by (simp only: distrib_left)
  then show "(p + k) mod 8 = 0" "(p + k) div 8 = p div 8 + 1" by simp_all
qed

lemma readChunk_all:
  assumes "0 < n" and "n \<le> remaining" and "remaining \<le> 8"
  shows "\<exists>val'. readChunk b n remaining val = Inr (0, remaining - n, val') \<and>
    (\<forall>i. bit val' i \<longleftrightarrow> bit val i \<or> (i < n \<and> bit b (remaining - n + i)))"
proof -
  let ?c = "drop_bit (remaining - n) ((ucast b :: i32) AND push_bit (remaining - n) (push_bit n 1 - 1))"
  have c: "bit ?c i \<longleftrightarrow> i < n \<and> bit b (remaining - n + i)" for i
    using assms by (auto simp: bit_drop_bit_eq bit_and_iff bit_push_bit_iff bit_mask_i32 bit_unsigned_iff
        dest: bit_imp_le_length)
  have n31: "\<not> bit ?c 31" unfolding c using assms by simp
  have "bit (scast ?c :: u64) i \<longleftrightarrow> i < n \<and> bit b (remaining - n + i)" for i
    unfolding bit_scast_nonneg [OF n31] by (rule c)
  then show ?thesis using assms by (simp add: readChunk_def Let_def bit_or_iff)
qed

lemma readChunk_part:
  assumes "remaining < n" and "remaining \<le> 8" and "n \<le> 31"
  shows "\<exists>val'. readChunk b n remaining val = Inr (n - remaining, 0, val') \<and>
    (\<forall>i. bit val' i \<longleftrightarrow> bit val i \<or> (n - remaining \<le> i \<and> i < n \<and> bit b (i - (n - remaining))))"
proof -
  let ?ch = "(ucast b :: i32) AND (push_bit remaining 1 - 1)"
  let ?c = "push_bit (n - remaining) ?ch"
  have ch: "bit ?ch i \<longleftrightarrow> i < remaining \<and> bit b i" for i
    using assms by (auto simp: bit_and_iff bit_mask_i32 bit_unsigned_iff dest: bit_imp_le_length)
  have c: "bit ?c i \<longleftrightarrow> n - remaining \<le> i \<and> i < n \<and> bit b (i - (n - remaining))" for i
    unfolding bit_push_bit_iff ch using assms by auto
  have n31: "\<not> bit ?c 31" unfolding c using assms by simp
  have sc: "bit (scast ?c :: u64) i \<longleftrightarrow> n - remaining \<le> i \<and> i < n \<and> bit b (i - (n - remaining))" for i
    unfolding bit_scast_nonneg [OF n31] by (rule c)
  have "?ch = take_bit remaining ?ch"
    unfolding bit_eq_iff bit_take_bit_iff ch by blast
  then have u: "unat ?ch = unat (take_bit remaining ?ch)" by (rule arg_cong)
  have "unat ?ch < 2 ^ remaining"
    by (subst u) (simp only: unsigned_take_bit_eq take_bit_nat_less_exp)
  then have "unat ?ch * 2 ^ (n - remaining) < 2 ^ remaining * 2 ^ (n - remaining)" by simp
  also have "\<dots> = 2 ^ n" using assms by (simp flip: power_add)
  also have "\<dots> \<le> (2::nat) ^ 31" using assms(3) by (rule power_increasing) simp
  finally have "\<not> unat ?ch * 2 ^ (n - remaining) \<ge> 2 ^ 32" by simp
  moreover have "\<not> n - remaining \<ge> 32" "\<not> remaining \<ge> n" using assms by simp_all
  ultimately show ?thesis using sc unfolding readChunk_def Let_def by (simp add: bit_or_iff)
qed

text \<open>
  From bit position \<open>pos\<close> of the stream the loop reads the \<open>n\<close> next bits into the low bits
  of the value; where the stream goes on afterwards, offset and remaining bits stand at
  \<open>pos + n\<close>.
\<close>

lemma readLoop_stream:
  assumes "0 < n" and "n \<le> fuel" and "n \<le> 31" and "pos + n \<le> 8 * (length b - 5)" and "5 \<le> length b"
  shows "\<exists>off rem val'. readLoop fuel b n (b ! (5 + pos div 8)) (5 + pos div 8) (8 - pos mod 8) val
      = Inr (off, rem, val') \<and>
    (\<forall>i. bit val' i \<longleftrightarrow> bit val i \<or> (i < n \<and> stream_bit b (pos + (n - 1 - i)))) \<and>
    (pos + n < 8 * (length b - 5) \<longrightarrow> off = 5 + (pos + n) div 8 \<and> rem = 8 - (pos + n) mod 8)"
  using assms
proof (induction fuel arbitrary: n pos val)
  case 0
  then show ?case by simp
next
  case (Suc fuel)
  let ?r = "8 - pos mod 8"
  have lt: "pos mod 8 < 8" by simp
  have r: "0 < ?r" "?r \<le> 8" using lt by linarith+
  show ?case
  proof (cases "n \<le> ?r")
    case True
    obtain val' where v: "readChunk (b ! (5 + pos div 8)) n ?r val = Inr (0, ?r - n, val')"
      "\<And>i. bit val' i \<longleftrightarrow> bit val i \<or> (i < n \<and> bit (b ! (5 + pos div 8)) (?r - n + i))"
      using readChunk_all [OF Suc.prems(1) True r(2)] by blast
    have sb: "bit (b ! (5 + pos div 8)) (?r - n + i) = stream_bit b (pos + (n - 1 - i))" if "i < n" for i
    proof -
      have a: "pos mod 8 + (n - 1 - i) < 8" and e: "7 - (pos mod 8 + (n - 1 - i)) = ?r - n + i"
        using read_index(1) [OF lt that True] by blast+
      show ?thesis unfolding stream_bit_def div_mod_add_small [OF a] e by (rule refl)
    qed
    have val: "bit val' i \<longleftrightarrow> bit val i \<or> (i < n \<and> stream_bit b (pos + (n - 1 - i)))" for i
      using v(2) sb by auto
    show ?thesis
    proof (cases "?r - n = 0")
      case full: True
      then have "pos mod 8 + n = 8" using True lt by linarith
      then have m: "(pos + n) mod 8 = 0" "(pos + n) div 8 = pos div 8 + 1"
        using mod_div_full [of pos n] by blast+
      show ?thesis
      proof (cases "5 + pos div 8 + 1 < length b")
        case True
        then show ?thesis using v(1) val full m by simp
      next
        case False
        have "8 * (length b - 5) \<le> 8 * (pos div 8 + 1)" using False by simp
        also have "\<dots> = pos + n" using m mult_div_mod_eq [of 8 "pos + n"] by (metis add_0_right)
        finally have "\<not> pos + n < 8 * (length b - 5)" by simp
        then show ?thesis using v(1) val full False by simp
      qed
    next
      case False
      then have "pos mod 8 + n < 8" using True lt by linarith
      then show ?thesis
        using v(1) val False div_mod_add_small [of pos n] by simp
    qed
  next
    case False
    then have "?r < n" by simp
    obtain val' where v: "readChunk (b ! (5 + pos div 8)) n ?r val = Inr (n - ?r, 0, val')"
      "\<And>i. bit val' i \<longleftrightarrow> bit val i \<or> (n - ?r \<le> i \<and> i < n \<and> bit (b ! (5 + pos div 8)) (i - (n - ?r)))"
      using readChunk_part [OF \<open>?r < n\<close> r(2) Suc.prems(3)] by blast
    have "pos mod 8 + ?r = 8" using lt by linarith
    then have m: "(pos + ?r) mod 8 = 0" "(pos + ?r) div 8 = pos div 8 + 1"
      using mod_div_full [of pos ?r] by blast+
    have room: "(pos + ?r) + (n - ?r) \<le> 8 * (length b - 5)" using Suc.prems(4) False by linarith
    have inb: "5 + pos div 8 + 1 < length b"
    proof -
      have "pos + ?r < 8 * (length b - 5)" using Suc.prems(4) False by linarith
      then have "(pos + ?r) div 8 < length b - 5"
        by (intro div_less_iff_less_mult [THEN iffD2]) (simp_all only: mult.commute zero_less_numeral)
      then show ?thesis unfolding m by linarith
    qed
    have "0 < n - ?r" "n - ?r \<le> fuel" "n - ?r \<le> 31" using False Suc.prems r by linarith+
    then obtain off rem val'' where rec: "readLoop fuel b (n - ?r) (b ! (5 + (pos + ?r) div 8))
        (5 + (pos + ?r) div 8) (8 - (pos + ?r) mod 8) val' = Inr (off, rem, val'')"
      "\<And>i. bit val'' i \<longleftrightarrow> bit val' i \<or> (i < n - ?r \<and> stream_bit b (pos + ?r + (n - ?r - 1 - i)))"
      "pos + ?r + (n - ?r) < 8 * (length b - 5) \<longrightarrow>
        off = 5 + (pos + ?r + (n - ?r)) div 8 \<and> rem = 8 - (pos + ?r + (n - ?r)) mod 8"
      using Suc.IH [OF _ _ _ room Suc.prems(5), of val'] by blast
    have sum: "pos + ?r + (n - ?r) = pos + n" using False by linarith
    have sb: "bit (b ! (5 + pos div 8)) (i - (n - ?r)) = stream_bit b (pos + (n - 1 - i))"
      if "n - ?r \<le> i" "i < n" for i
    proof -
      have a: "pos mod 8 + (n - 1 - i) < 8" and e: "7 - (pos mod 8 + (n - 1 - i)) = i - (n - ?r)"
        using read_index(2) [OF lt that(2) \<open>?r < n\<close> that(1)] by blast+
      show ?thesis unfolding stream_bit_def div_mod_add_small [OF a] e by (rule refl)
    qed
    have idx: "pos + ?r + (n - ?r - 1 - i) = pos + (n - 1 - i)" if "i < n - ?r" for i
      using that by linarith
    have "bit val'' i \<longleftrightarrow> bit val i \<or> (i < n \<and> stream_bit b (pos + (n - 1 - i)))" for i
      using rec(2) [of i] v(2) [of i] sb [of i] idx [of i] by (cases "i < n - ?r") auto
    then show ?thesis
      using v(1) rec(1,3) inb \<open>0 < n - ?r\<close> m unfolding sum by simp
  qed
qed

section \<open>Walking over the runs\<close>

text \<open>
  The payloads the encoder makes: \<open>w\<close> bits for each of the runs \<open>rs\<close>, which alternate, are not
  empty and sum up to the length the header announces.
\<close>

definition rl_payload :: "u8 list \<Rightarrow> MaskPayloadHeader \<Rightarrow> nat \<Rightarrow> (bool \<times> nat) list \<Rightarrow> bool" where
  "rl_payload b h w rs \<longleftrightarrow>
     decodeMaskPayloadHeader b = Inr h \<and>
     payloadFormat h = RunLength \<and> unat (runLengthNumBitsPerInt h) = w \<and> 1 \<le> w \<and> w \<le> 31 \<and>
     5 \<le> length b \<and> w * length rs \<le> 8 * (length b - 5) \<and>
     (\<forall>i<w * length rs. stream_bit b i = run_bits w rs ! i) \<and>
     numBits h = of_nat (sum_list (map snd rs)) \<and> sum_list (map snd rs) < 2 ^ 32 \<and>
     (\<forall>r\<in>set rs. 0 < snd r \<and> snd r - 1 < 2 ^ w) \<and>
     alternating (runLengthStartValue h) rs \<and> rs \<noteq> []"

lemma num_bits_nth: "t < w \<Longrightarrow> num_bits w v ! t = bit v (w - 1 - t)"
  by (simp add: num_bits_def)

lemma run_bits_nth:
  "j < length rs \<Longrightarrow> t < w \<Longrightarrow> run_bits w rs ! (j * w + t) = bit (of_nat (snd (rs ! j)) - 1 :: u64) (w - 1 - t)"
proof (induction rs arbitrary: j)
  case Nil
  then show ?case by simp
next
  case (Cons r rs)
  obtain s k where r: "r = (s, k)" by force
  show ?case
  proof (cases j)
    case 0
    then show ?thesis using Cons.prems r by (simp add: nth_append num_bits_nth)
  next
    case (Suc i)
    have "j * w + t = w + (i * w + t)" using Suc by simp
    then show ?thesis using Cons.IH [of i] Cons.prems Suc r by (simp add: nth_append)
  qed
qed

lemma bits_of_small: "unat (v :: u64) < 2 ^ w \<Longrightarrow> bit v i \<Longrightarrow> i < w"
proof (rule ccontr)
  assume a: "unat v < 2 ^ w" "bit v i" "\<not> i < w"
  then have "(2::nat) ^ w \<le> 2 ^ i" by (intro power_increasing) simp_all
  then have "unat v < 2 ^ i" using a(1) by (rule less_le_trans [rotated])
  then have "unat v div 2 ^ i = 0" by (rule div_less)
  then show False using a(2) unfolding bit_word_nat by (metis even_zero)
qed

lemma sum_take_less:
  assumes "j < length (ks :: nat list)" and "\<forall>k\<in>set ks. 0 < k"
  shows "sum_list (take j ks) < sum_list ks"
proof -
  have "sum_list ks = sum_list (take j ks) + sum_list (drop j ks)"
    by (metis append_take_drop_id sum_list_append)
  moreover have "drop j ks = ks ! j # drop (Suc j) ks" using assms(1) by (simp add: Cons_nth_drop_Suc)
  moreover have "0 < ks ! j" using assms by simp
  ultimately show ?thesis by simp
qed

lemma alternating_nth:
  "alternating c rs \<Longrightarrow> j < length rs \<Longrightarrow> fst (rs ! j) = (if even j then c else \<not> c)"
proof (induction rs arbitrary: c j)
  case Nil
  then show ?case by simp
next
  case (Cons r rs)
  then show ?case by (cases r; cases j) auto
qed

text \<open>Standing before run \<open>j\<close>, and standing on it.\<close>

definition before_run :: "u8 list \<Rightarrow> MaskPayloadHeader \<Rightarrow> nat \<Rightarrow> (bool \<times> nat) list \<Rightarrow> nat \<Rightarrow> RunLengthIterator \<Rightarrow> bool" where
  "before_run b h w rs j it \<longleftrightarrow>
     rlPayload it = b \<and> rlHeader it = h \<and>
     rlIndex it + snd (rlVal it) = of_nat (sum_list (map snd (take j rs))) \<and>
     fst (rlVal it) = (runLengthStartValue h \<longleftrightarrow> odd j) \<and>
     (j < length rs \<longrightarrow> rlOffset it = 5 + (j * w) div 8 \<and> rlRemainingBits it = 8 - (j * w) mod 8)"

definition on_run :: "u8 list \<Rightarrow> MaskPayloadHeader \<Rightarrow> nat \<Rightarrow> (bool \<times> nat) list \<Rightarrow> nat \<Rightarrow> RunLengthIterator \<Rightarrow> bool" where
  "on_run b h w rs j it \<longleftrightarrow>
     before_run b h w rs (Suc j) it \<and>
     rlIndex it = of_nat (sum_list (map snd (take j rs))) \<and>
     rlVal it = (fst (rs ! j), of_nat (snd (rs ! j)))"

lemma unat_sum_take:
  assumes "rl_payload b h w rs" and "j \<le> length rs"
  shows "unat (of_nat (sum_list (map snd (take j rs))) :: u64) = sum_list (map snd (take j rs))"
    and "j < length rs \<Longrightarrow> (of_nat (sum_list (map snd (take j rs))) :: u64) < numBits h"
    and "j < length rs \<Longrightarrow> sum_list (map snd (take j rs)) < sum_list (map snd rs)"
    and "unat (numBits h) = sum_list (map snd rs)"
proof -
  have pos: "\<forall>k\<in>set (map snd rs). 0 < k" using assms(1) by (auto simp: rl_payload_def)
  have lim: "sum_list (map snd rs) < 2 ^ 32" using assms(1) by (simp add: rl_payload_def)
  have le: "sum_list (map snd (take j rs)) < sum_list (map snd rs)" if "j < length rs"
    using sum_take_less [of j "map snd rs"] pos that by (simp add: take_map)
  then show "j < length rs \<Longrightarrow> sum_list (map snd (take j rs)) < sum_list (map snd rs)" .
  have "sum_list (map snd (take j rs)) \<le> sum_list (map snd rs)"
    using le assms(2) by (cases "j = length rs") (auto intro: less_imp_le)
  then have "sum_list (map snd (take j rs)) < 2 ^ 64" using lim by simp
  then show u: "unat (of_nat (sum_list (map snd (take j rs))) :: u64) = sum_list (map snd (take j rs))"
    by (rule unat_of_nat64)
  have "sum_list (map snd rs) < 2 ^ 64" using lim by simp
  then show n: "unat (numBits h) = sum_list (map snd rs)"
    using assms(1) unat_of_nat64 by (simp add: rl_payload_def)
  show "j < length rs \<Longrightarrow> (of_nat (sum_list (map snd (take j rs))) :: u64) < numBits h"
    using le unfolding word_less_nat_alt u n .
qed

lemma rlUpdateValue_reads:
  assumes p: "rl_payload b h w rs" and it: "before_run b h w rs j it" and j: "j < length rs"
  shows "\<exists>it'. rlUpdateValue it = Inr it' \<and> on_run b h w rs j it'"
proof -
  have pp: "1 \<le> w" "w \<le> 31" "5 \<le> length b" "w * length rs \<le> 8 * (length b - 5)"
    "unat (runLengthNumBitsPerInt h) = w" "alternating (runLengthStartValue h) rs"
    "\<And>i. i < w * length rs \<Longrightarrow> stream_bit b i = run_bits w rs ! i"
    using p by (simp_all add: rl_payload_def)
  have ii: "rlPayload it = b" "rlHeader it = h"
    "rlIndex it + snd (rlVal it) = of_nat (sum_list (map snd (take j rs)))"
    "fst (rlVal it) = (runLengthStartValue h \<longleftrightarrow> odd j)"
    "rlOffset it = 5 + (j * w) div 8" "rlRemainingBits it = 8 - (j * w) mod 8"
    using it j by (simp_all add: before_run_def)
  let ?k = "snd (rs ! j)"
  have k: "0 < ?k" "?k - 1 < 2 ^ w"
    using p nth_mem [OF j] by (simp_all add: rl_payload_def)
  have "Suc j * w \<le> length rs * w" using j by (intro mult_right_mono) auto
  then have room: "j * w + w \<le> w * length rs" by (simp add: mult.commute)
  have "j * w < 8 * (length b - 5)" using room pp(1,4) by linarith
  then have "(j * w) div 8 < length b - 5"
    by (intro div_less_iff_less_mult [THEN iffD2]) (simp_all only: mult.commute zero_less_numeral)
  then have inb: "5 + (j * w) div 8 < length b" by linarith
  have "0 < w" "w \<le> Suc w" "j * w + w \<le> 8 * (length b - 5)" using pp room by linarith+
  note rl = readLoop_stream [OF this(1,2) pp(2) this(3) pp(3), of 0]
  obtain off rem val where rd: "readLoop (Suc w) b w (b ! (5 + j * w div 8)) (5 + j * w div 8)
      (8 - j * w mod 8) 0 = Inr (off, rem, val)"
    "\<And>i. bit val i \<longleftrightarrow> bit (0::u64) i \<or> (i < w \<and> stream_bit b (j * w + (w - 1 - i)))"
    "j * w + w < 8 * (length b - 5) \<longrightarrow> off = 5 + (j * w + w) div 8 \<and> rem = 8 - (j * w + w) mod 8"
    using rl by blast
  have "?k < 2 ^ 64"
  proof -
    have "(2::nat) ^ w \<le> 2 ^ 31" using pp(2) by (intro power_increasing) simp_all
    then show ?thesis using k by simp
  qed
  then have "unat (of_nat ?k :: u64) = ?k" by (rule unat_of_nat64)
  then have ku: "unat (of_nat ?k - 1 :: u64) = ?k - 1"
    using k(1) by (subst unat_minus_one) auto
  have "val = of_nat ?k - 1"
  proof (rule bit_word_eqI)
    fix i
    have "stream_bit b (j * w + (w - 1 - i)) = bit (of_nat ?k - 1 :: u64) i" if "i < w"
      using that room pp(7) [of "j * w + (w - 1 - i)"] run_bits_nth [OF j, of "w - 1 - i" w] by simp
    then show "bit val i = bit (of_nat ?k - 1 :: u64) i"
      using rd(2) [of i] bits_of_small [of "of_nat ?k - 1" w i] ku k(2) by auto
  qed
  then have v: "val + 1 = of_nat ?k" by simp
  let ?it = "it\<lparr>rlIndex := of_nat (sum_list (map snd (take j rs))), rlOffset := off,
      rlRemainingBits := rem, rlVal := (\<not> fst (rlVal it), val + 1)\<rparr>"
  have upd: "rlUpdateValue it = Inr ?it"
    unfolding rlUpdateValue_def Let_def ii pp(5)
    using unat_sum_take(2) [OF p less_imp_le [OF j] j] inb rd(1) by (simp add: ii)
  have "take (Suc j) rs = take j rs @ [rs ! j]" using j by (rule take_Suc_conv_app_nth)
  moreover have "j * w + w < 8 * (length b - 5)" if "Suc j < length rs"
  proof -
    have "(j + 2) * w \<le> length rs * w" using that by (intro mult_right_mono) auto
    then show ?thesis using pp(1,4) by (simp add: algebra_simps)
  qed
  ultimately have "on_run b h w rs j ?it"
    using ii v rd(3) alternating_nth [OF pp(6) j]
    by (auto simp: on_run_def before_run_def add.commute)
  then show ?thesis using upd by blast
qed

lemma rlUpdateValue_last:
  assumes p: "rl_payload b h w rs" and it: "on_run b h w rs j it" and j: "Suc j = length rs"
  shows "rlUpdateValue it = Inr (it\<lparr>rlIndex := numBits h\<rparr>)"
proof -
  have "before_run b h w rs (length rs) it" using it unfolding j [symmetric] on_run_def by blast
  then have "rlIndex it + snd (rlVal it) = numBits h" "rlHeader it = h"
    using p by (simp_all add: before_run_def rl_payload_def)
  then show ?thesis by (simp add: rlUpdateValue_def)
qed

lemma rlUpdateValue_next:
  assumes "rl_payload b h w rs" and "on_run b h w rs j it" and "Suc j < length rs"
  shows "\<exists>it'. rlUpdateValue it = Inr it' \<and> on_run b h w rs (Suc j) it'"
  using assms rlUpdateValue_reads [of b h w rs "Suc j" it] by (simp add: on_run_def)

lemma rlIterator_first:
  assumes p: "rl_payload b h w rs"
  shows "\<exists>it. rlIterator b h False = Inr it \<and> on_run b h w rs 0 it"
proof -
  let ?it = "\<lparr>rlPayload = b, rlHeader = h, rlIndex = 0, rlOffset = MASK_PAYLOAD_HEADER_SIZE,
    rlRemainingBits = 8, rlVal = (\<not> runLengthStartValue h, 0)\<rparr>"
  have "before_run b h w rs 0 ?it"
    by (simp add: before_run_def MASK_PAYLOAD_HEADER_SIZE_def)
  moreover have "0 < length rs" "payloadFormat h = RunLength" using p by (simp_all add: rl_payload_def)
  ultimately show ?thesis
    using rlUpdateValue_reads [OF p] by (simp add: rlIterator_def)
qed

lemma rlCollect_runs:
  assumes p: "rl_payload b h w rs" and "on_run b h w rs j it" and "j < length rs"
    and "length rs - j < fuel" and e: "rlPayload end_it = b" "rlIndex end_it = numBits h"
  shows "rlCollect fuel it end_it = Some (Inr (map (\<lambda>(s, k). (s, of_nat k)) (drop j rs)))"
  using assms(2-4)
proof (induction fuel arbitrary: j it)
  case 0
  then show ?case by simp
next
  case (Suc fuel)
  have "rlIndex it = of_nat (sum_list (map snd (take j rs)))" "rlVal it = (fst (rs ! j), of_nat (snd (rs ! j)))"
    "rlPayload it = b"
    using Suc.prems by (simp_all add: on_run_def before_run_def)
  note it = this
  have ne: "\<not> rlEqual it end_it"
    using unat_sum_take(2) [OF p less_imp_le [OF Suc.prems(2)] Suc.prems(2)] it(1) e
    by (auto simp: rlEqual_def)
  have d: "drop j rs = rs ! j # drop (Suc j) rs" using Suc.prems(2) by (simp add: Cons_nth_drop_Suc)
  show ?case
  proof (cases "Suc j = length rs")
    case True
    obtain f where f: "fuel = Suc f" using Suc.prems(2,3) by (cases fuel) auto
    have "rlEqual (it\<lparr>rlIndex := numBits h\<rparr>) end_it" using it e by (simp add: rlEqual_def)
    then show ?thesis
      using ne rlUpdateValue_last [OF p Suc.prems(1) True] it(2) d True
      by (simp add: f case_prod_beta)
  next
    case False
    then have j: "Suc j < length rs" using Suc.prems(2) by simp
    obtain it' where it': "rlUpdateValue it = Inr it'" "on_run b h w rs (Suc j) it'"
      using rlUpdateValue_next [OF p Suc.prems(1) j] by blast
    have "length rs - Suc j < fuel" using Suc.prems(2,3) by linarith
    then show ?thesis
      using ne it'(1) Suc.IH [OF it'(2) j] it(2) d by (simp add: case_prod_beta)
  qed
qed

lemma runLengthPairs_payload:
  assumes p: "rl_payload b h w rs" and "length rs < fuel"
  shows "runLengthPairs fuel b = Some (Inr (map (\<lambda>(s, k). (s, of_nat k)) rs))"
proof -
  obtain it where it: "rlIterator b h False = Inr it" "on_run b h w rs 0 it"
    using rlIterator_first [OF p] by blast
  have h: "decodeMaskPayloadHeader b = Inr h" "payloadFormat h = RunLength" "0 < length rs"
    using p by (simp_all add: rl_payload_def)
  obtain e where e: "rlIterator b h True = Inr e" "rlPayload e = b" "rlIndex e = numBits h"
    using h by (auto simp: rlIterator_def Let_def)
  show ?thesis
    using rlCollect_runs [OF p it(2) h(3) _ e(2,3), of fuel] assms(2) it(1) e(1) h(1)
    by (simp add: runLengthPairs_def)
qed

section \<open>Walking over the values\<close>

lemma mpCollect_walk:
  assumes val: "\<And>i it. At i it \<Longrightarrow> i < length vs \<Longrightarrow>
      mpPayload it = b \<and> mpIndex it = of_nat i \<and> mpVal it = vs ! i"
    and nxt: "\<And>i it. At i it \<Longrightarrow> Suc i < length vs \<Longrightarrow> \<exists>it'. mpIncrement it = Inr it' \<and> At (Suc i) it'"
    and lst: "\<And>i it. At i it \<Longrightarrow> Suc i = length vs \<Longrightarrow>
      mpIncrement it = Inr (it\<lparr>mpIndex := of_nat (length vs)\<rparr>)"
    and n: "length vs < 2 ^ 32"
    and e: "mpPayload end_it = b" "mpIndex end_it = of_nat (length vs)"
    and "At i it" and "i < length vs" and "length vs - i < fuel"
  shows "mpCollect fuel it end_it = Some (Inr (drop i vs))"
  using assms(7-)
proof (induction fuel arbitrary: i it)
  case 0
  then show ?case by simp
next
  case (Suc fuel)
  note it = val [OF Suc.prems(1,2)]
  have u: "unat (of_nat j :: u64) = j" if "j \<le> length vs" for j
    using that n by (intro unat_of_nat64) simp
  have "(of_nat i :: u64) \<noteq> of_nat (length vs)"
    using u [of i] u [of "length vs"] Suc.prems(2) by (metis less_imp_le nat_less_le order_refl)
  then have ne: "\<not> mpEqual it end_it" using it e by (auto simp: mpEqual_def)
  have d: "drop i vs = vs ! i # drop (Suc i) vs" using Suc.prems(2) by (simp add: Cons_nth_drop_Suc)
  show ?case
  proof (cases "Suc i = length vs")
    case True
    obtain f where f: "fuel = Suc f" using Suc.prems(2,3) by (cases fuel) auto
    have "mpEqual (it\<lparr>mpIndex := of_nat (length vs)\<rparr>) end_it" using it e by (simp add: mpEqual_def)
    then show ?thesis
      using ne lst [OF Suc.prems(1) True] it d True by (simp add: f)
  next
    case False
    then have i: "Suc i < length vs" using Suc.prems(2) by simp
    obtain it' where it': "mpIncrement it = Inr it'" "At (Suc i) it'"
      using nxt [OF Suc.prems(1) i] by blast
    have "length vs - Suc i < fuel" using Suc.prems(2,3) by linarith
    then show ?thesis
      using ne it'(1) Suc.IH [OF it'(2) i] it d by simp
  qed
qed

text \<open>In the run-length format value \<open>i\<close> is the \<open>c\<close>-th of run \<open>j\<close>.\<close>

definition rl_at :: "u8 list \<Rightarrow> MaskPayloadHeader \<Rightarrow> nat \<Rightarrow> (bool \<times> nat) list \<Rightarrow> nat \<Rightarrow> MaskPayloadIterator \<Rightarrow> bool" where
  "rl_at b h w rs i it \<longleftrightarrow>
     (\<exists>j c r. j < length rs \<and> c < snd (rs ! j) \<and> i = sum_list (map snd (take j rs)) + c \<and>
       on_run b h w rs j r \<and>
       mpPayload it = b \<and> mpHeader it = h \<and> mpIndex it = of_nat i \<and> mpVal it = fst (rs ! j) \<and>
       mpRl it = Some (r, of_nat c))"

lemma length_unruns [simp]: "length (unruns rs) = sum_list (map snd rs)"
  by (induction rs) auto

lemma unruns_nth:
  "j < length rs \<Longrightarrow> c < snd (rs ! j) \<Longrightarrow> unruns rs ! (sum_list (map snd (take j rs)) + c) = fst (rs ! j)"
proof (induction rs arbitrary: j)
  case Nil
  then show ?case by simp
next
  case (Cons r rs)
  then show ?case by (cases r; cases j) (auto simp: nth_append)
qed

lemma sum_take_Suc:
  "j < length rs \<Longrightarrow> sum_list (map snd (take (Suc j) rs)) = sum_list (map snd (take j rs)) + snd (rs ! j)"
  by (simp add: take_Suc_conv_app_nth)

lemma sum_take_le:
  "j \<le> length rs \<Longrightarrow> sum_list (map snd (take j rs)) \<le> sum_list (map snd (rs :: (bool \<times> nat) list))"
  by (metis append_take_drop_id le_add1 map_append sum_list_append)

lemma rl_at_next:
  assumes p: "rl_payload b h w rs" and at: "rl_at b h w rs i it" and i: "Suc i < sum_list (map snd rs)"
  shows "\<exists>it'. mpIncrement it = Inr it' \<and> rl_at b h w rs (Suc i) it'"
proof -
  obtain j c r where a: "j < length rs" "c < snd (rs ! j)" "i = sum_list (map snd (take j rs)) + c"
    "on_run b h w rs j r" "mpPayload it = b" "mpHeader it = h" "mpIndex it = of_nat i"
    "mpVal it = fst (rs ! j)" "mpRl it = Some (r, of_nat c)"
    using at unfolding rl_at_def by blast
  have pp: "payloadFormat h = RunLength" "numBits h = of_nat (sum_list (map snd rs))"
    "sum_list (map snd rs) < 2 ^ 32"
    using p by (simp_all add: rl_payload_def)
  have n: "unat (numBits h) = sum_list (map snd rs)" using unat_sum_take(4) [OF p order_refl] .
  have si: "unat (of_nat i + 1 :: u64) = Suc i"
    using unat_of_nat64 [of "Suc i"] i pp(3) by (simp add: add.commute)
  have lt: "of_nat i + 1 < numBits h" unfolding word_less_nat_alt si n by (rule i)
  have "snd (rs ! j) \<le> sum_list (map snd (take (Suc j) rs))" using sum_take_Suc [OF a(1)] by simp
  also have "\<dots> \<le> sum_list (map snd rs)" using a(1) by (intro sum_take_le) simp
  finally have kl: "snd (rs ! j) < 2 ^ 64" using pp(3) by simp
  have rv: "rlVal r = (fst (rs ! j), of_nat (snd (rs ! j)))" using a(4) by (simp add: on_run_def)
  have uk: "unat (of_nat (snd (rs ! j)) :: u64) = snd (rs ! j)" using kl by (rule unat_of_nat64)
  have uc: "unat (of_nat c + 1 :: u64) = Suc c"
    using unat_of_nat64 [of "Suc c"] a(2) kl by (simp add: add.commute)
  show ?thesis
  proof (cases "Suc c < snd (rs ! j)")
    case True
    then have nc: "\<not> of_nat (snd (rs ! j)) \<le> (of_nat c + 1 :: u64)"
      unfolding word_le_nat_alt uk uc by simp
    let ?it = "it\<lparr>mpIndex := of_nat (Suc i), mpRl := Some (r, of_nat (Suc c))\<rparr>"
    have "mpIncrement it = Inr ?it"
      using a nc lt pp(1) rv
      by (simp add: mpIncrement_def Let_def add.commute)
    moreover have "rl_at b h w rs (Suc i) ?it"
      unfolding rl_at_def using a(1) True a(3-8)
      by (intro exI [of _ j] exI [of _ "Suc c"] exI [of _ r]) simp
    ultimately show ?thesis by blast
  next
    case False
    then have c: "Suc c = snd (rs ! j)" using a(2) by simp
    then have ge: "of_nat (snd (rs ! j)) \<le> (of_nat c + 1 :: u64)"
      unfolding word_le_nat_alt uk uc by simp
    have s: "Suc i = sum_list (map snd (take (Suc j) rs))"
      using a(3) c sum_take_Suc [OF a(1)] by simp
    have j: "Suc j < length rs"
    proof (rule ccontr)
      assume "\<not> Suc j < length rs"
      then have "take (Suc j) rs = rs" using a(1) by simp
      then show False using s i by simp
    qed
    obtain r' where r': "rlUpdateValue r = Inr r'" "on_run b h w rs (Suc j) r'"
      using rlUpdateValue_next [OF p a(4) j] by blast
    have nz: "of_nat i + 1 \<noteq> (0 :: u64)" using si by (metis nat.distinct(1) unat_0)
    have pos: "0 < snd (rs ! Suc j)" using p nth_mem [OF j] by (simp add: rl_payload_def)
    have v': "rlVal r' = (fst (rs ! Suc j), of_nat (snd (rs ! Suc j)))" using r'(2) by (simp add: on_run_def)
    let ?it = "it\<lparr>mpIndex := of_nat (Suc i), mpRl := Some (r', 0), mpVal := fst (rs ! Suc j)\<rparr>"
    have "mpIncrement it = Inr ?it"
      using a ge lt pp(1) rv r'(1) nz v'
      by (simp add: mpIncrement_def mpUpdateValue_def Let_def add.commute)
    moreover have "rl_at b h w rs (Suc i) ?it"
      unfolding rl_at_def using j pos s r'(2) a(5,6)
      by (intro exI [of _ "Suc j"] exI [of _ 0] exI [of _ r']) simp
    ultimately show ?thesis by blast
  qed
qed

lemma rl_at_last:
  assumes p: "rl_payload b h w rs" and at: "rl_at b h w rs i it" and i: "Suc i = sum_list (map snd rs)"
  shows "mpIncrement it = Inr (it\<lparr>mpIndex := of_nat (sum_list (map snd rs))\<rparr>)"
proof -
  have a: "mpHeader it = h" "mpIndex it = of_nat i" using at by (auto simp: rl_at_def)
  have pp: "payloadFormat h = RunLength" "numBits h = of_nat (sum_list (map snd rs))"
    using p by (simp_all add: rl_payload_def)
  have "of_nat i + 1 = numBits h" using pp(2) i by (metis add.commute of_nat_Suc)
  then show ?thesis using a pp by (simp add: mpIncrement_def)
qed

lemma rl_at_first:
  assumes p: "rl_payload b h w rs"
  shows "\<exists>it. mpIterator b h False = Inr it \<and> rl_at b h w rs 0 it"
proof -
  obtain r where r: "rlIterator b h False = Inr r" "on_run b h w rs 0 r"
    using rlIterator_first [OF p] by blast
  have pp: "payloadFormat h = RunLength" "0 < length rs" using p by (simp_all add: rl_payload_def)
  have "0 < snd (rs ! 0)" using p nth_mem [OF pp(2)] by (simp add: rl_payload_def)
  moreover have "rlVal r = (fst (rs ! 0), of_nat (snd (rs ! 0)))" using r(2) by (simp add: on_run_def)
  moreover let ?it = "\<lparr>mpPayload = b, mpHeader = h, mpIndex = 0, mpVal = fst (rs ! 0), mpRl = Some (r, 0)\<rparr>"
  have "rl_at b h w rs 0 ?it"
    unfolding rl_at_def using pp(2) \<open>0 < snd (rs ! 0)\<close> r(2)
    by (intro exI [of _ 0] exI [of _ r]) simp
  ultimately show ?thesis using pp r(1) by (simp add: mpIterator_def mpUpdateValue_def)
qed

lemma maskValues_runs:
  assumes p: "rl_payload b h w rs" and "sum_list (map snd rs) < fuel"
  shows "maskValues fuel b = Some (Inr (unruns rs))"
proof -
  obtain it where it: "mpIterator b h False = Inr it" "rl_at b h w rs 0 it"
    using rl_at_first [OF p] by blast
  have h: "decodeMaskPayloadHeader b = Inr h" "numBits h = of_nat (sum_list (map snd rs))"
    "sum_list (map snd rs) < 2 ^ 32" "0 < length rs"
    using p by (simp_all add: rl_payload_def)
  have pos: "0 < sum_list (map snd rs)" using unat_sum_take(3) [OF p _ h(4)] by simp
  obtain e where e: "mpIterator b h True = Inr e" "mpPayload e = b" "mpIndex e = numBits h"
    by (simp add: mpIterator_def Let_def)
  have "mpCollect fuel it e = Some (Inr (drop 0 (unruns rs)))"
  proof (rule mpCollect_walk [where At = "rl_at b h w rs" and b = b])
    show "mpPayload x = b \<and> mpIndex x = of_nat i \<and> mpVal x = unruns rs ! i" if "rl_at b h w rs i x" for i x
      using that unruns_nth by (auto simp: rl_at_def)
    show "\<exists>x'. mpIncrement x = Inr x' \<and> rl_at b h w rs (Suc i) x'"
      if "rl_at b h w rs i x" "Suc i < length (unruns rs)" for i x
      using rl_at_next [OF p that(1)] that(2) by simp
    show "mpIncrement x = Inr (x\<lparr>mpIndex := of_nat (length (unruns rs))\<rparr>)"
      if "rl_at b h w rs i x" "Suc i = length (unruns rs)" for i x
      using rl_at_last [OF p that(1)] that(2) by simp
  qed (use it e h pos assms(2) in simp_all)
  then show ?thesis using it(1) e(1) h(1) by (simp add: maskValues_def)
qed

text \<open>In the bit mask format value \<open>i\<close> is bit \<open>i mod 8\<close> of byte \<open>5 + i div 8\<close>.\<close>

definition bm_payload :: "u8 list \<Rightarrow> MaskPayloadHeader \<Rightarrow> bool list \<Rightarrow> bool" where
  "bm_payload b h m \<longleftrightarrow>
     decodeMaskPayloadHeader b = Inr h \<and> payloadFormat h = BitMask \<and>
     numBits h = of_nat (length m) \<and> length m < 2 ^ 32 \<and>
     length b = computeBufferSizeMaskBitMask (length m) \<and> (\<forall>k<length m. bits_at b k = m ! k)"

definition bm_at :: "u8 list \<Rightarrow> MaskPayloadHeader \<Rightarrow> bool list \<Rightarrow> nat \<Rightarrow> MaskPayloadIterator \<Rightarrow> bool" where
  "bm_at b h m i it \<longleftrightarrow>
     i < length m \<and> mpPayload it = b \<and> mpHeader it = h \<and> mpIndex it = of_nat i \<and> mpVal it = m ! i"

lemma drop_bit_and_1: "drop_bit n (b :: u8) AND 1 \<noteq> 0 \<longleftrightarrow> bit b n"
proof -
  have "drop_bit n b AND 1 = of_bool (bit b n)"
    by (rule bit_word_eqI) (auto simp: bit_simps)
  then show ?thesis by simp
qed

lemma bm_update:
  assumes p: "bm_payload b h m" and i: "i < length m"
    and it: "mpPayload it = b" "mpHeader it = h" "mpIndex it = of_nat i"
  shows "mpUpdateValue it = Inr (it\<lparr>mpVal := m ! i\<rparr>)"
proof -
  have pp: "payloadFormat h = BitMask" "length m < 2 ^ 32"
    "length b = computeBufferSizeMaskBitMask (length m)" "bits_at b i = m ! i"
    using p i by (simp_all add: bm_payload_def)
  have u: "unat (of_nat i :: u64) = i" using i pp(2) by (intro unat_of_nat64) simp
  have hi: "unat (drop_bit 3 (of_nat i :: u64)) = i div 8"
    unfolding unat_drop_bit_eq u by (simp add: drop_bit_eq_div)
  have "(push_bit 3 1 - 1 :: u64) = mask 3" by (simp add: mask_eq_exp_minus_1)
  then have lo: "unat ((of_nat i :: u64) AND (push_bit 3 1 - 1)) = i mod 8"
    by (simp only: take_bit_eq_mask [symmetric] unsigned_take_bit_eq u) (simp add: take_bit_eq_mod)
  have "i div 8 \<le> (length m - 1) div 8" using i by (intro div_le_mono) simp
  moreover have "length b = 5 + (length m + 7) div 8" using pp(3) by (simp add: computeBufferSizeMaskBitMask_eq)
  moreover have "(length m + 7) div 8 = (length m - 1) div 8 + 1" using i by (cases "length m") auto
  ultimately have "i div 8 + 5 < length b" by linarith
  then show ?thesis
    using pp(1,4) it lo hi
    by (simp add: mpUpdateValue_def MASK_PAYLOAD_HEADER_SIZE_def bits_at_def drop_bit_and_1 add.commute)
qed

lemma bm_at_next:
  assumes p: "bm_payload b h m" and at: "bm_at b h m i it" and i: "Suc i < length m"
  shows "\<exists>it'. mpIncrement it = Inr it' \<and> bm_at b h m (Suc i) it'"
proof -
  have pp: "payloadFormat h = BitMask" "length m < 2 ^ 32" "numBits h = of_nat (length m)"
    using p by (simp_all add: bm_payload_def)
  have "unat (of_nat i + 1 :: u64) = Suc i"
    using unat_of_nat64 [of "Suc i"] i pp(2) by (simp add: add.commute)
  moreover have "unat (of_nat (length m) :: u64) = length m" using pp(2) by (intro unat_of_nat64) simp
  ultimately have lt: "of_nat i + 1 < numBits h" unfolding word_less_nat_alt pp(3) using i by simp
  have upd: "mpUpdateValue (it\<lparr>mpIndex := of_nat (Suc i)\<rparr>) = Inr (it\<lparr>mpIndex := of_nat (Suc i), mpVal := m ! Suc i\<rparr>)"
    using bm_update [OF p i, of "it\<lparr>mpIndex := of_nat (Suc i)\<rparr>"] at by (simp add: bm_at_def)
  show ?thesis
    using at lt pp(1) upd i
    by (intro exI [of _ "it\<lparr>mpIndex := of_nat (Suc i), mpVal := m ! Suc i\<rparr>"])
      (simp add: mpIncrement_def bm_at_def add.commute)
qed

lemma bm_at_last:
  assumes p: "bm_payload b h m" and at: "bm_at b h m i it" and i: "Suc i = length m"
  shows "mpIncrement it = Inr (it\<lparr>mpIndex := of_nat (length m)\<rparr>)"
proof -
  have "of_nat i + 1 = (of_nat (length m) :: u64)" using i by (metis add.commute of_nat_Suc)
  then show ?thesis using p at by (simp add: mpIncrement_def bm_payload_def bm_at_def)
qed

lemma maskValues_bits:
  assumes p: "bm_payload b h m" and ne: "m \<noteq> []" and f: "length m < fuel"
  shows "maskValues fuel b = Some (Inr m)"
proof -
  have h: "decodeMaskPayloadHeader b = Inr h" "numBits h = of_nat (length m)" "payloadFormat h = BitMask"
    "length m < 2 ^ 32" "length b = computeBufferSizeMaskBitMask (length m)"
    using p by (simp_all add: bm_payload_def)
  have n: "unat (numBits h) = length m" unfolding h(2) using h(4) by (intro unat_of_nat64) simp
  let ?it0 = "\<lparr>mpPayload = b, mpHeader = h, mpIndex = 0, mpVal = runLengthStartValue h, mpRl = None\<rparr>"
  have it: "mpIterator b h False = Inr (?it0\<lparr>mpVal := m ! 0\<rparr>)"
    using bm_update [OF p, of 0 ?it0] ne h n by (simp add: mpIterator_def)
  have at: "bm_at b h m 0 (?it0\<lparr>mpVal := m ! 0\<rparr>)" using ne by (simp add: bm_at_def)
  obtain e where e: "mpIterator b h True = Inr e" "mpPayload e = b" "mpIndex e = numBits h"
    by (simp add: mpIterator_def Let_def)
  have "mpCollect fuel (?it0\<lparr>mpVal := m ! 0\<rparr>) e = Some (Inr (drop 0 m))"
  proof (rule mpCollect_walk [where At = "bm_at b h m" and b = b])
    show "mpPayload x = b \<and> mpIndex x = of_nat i \<and> mpVal x = m ! i" if "bm_at b h m i x" for i x
      using that by (simp add: bm_at_def)
    show "\<exists>x'. mpIncrement x = Inr x' \<and> bm_at b h m (Suc i) x'"
      if "bm_at b h m i x" "Suc i < length m" for i x
      using bm_at_next [OF p that] .
    show "mpIncrement x = Inr (x\<lparr>mpIndex := of_nat (length m)\<rparr>)"
      if "bm_at b h m i x" "Suc i = length m" for i x
      using bm_at_last [OF p that] .
  qed (use at e h ne f in simp_all)
  then show ?thesis using it e(1) h(1) by (simp add: maskValues_def)
qed

section \<open>What the encoder writes\<close>

lemma encodeMaskBitMask_payload:
  assumes "length m < 2 ^ 32"
  obtains b h where "encodeMaskBitMask uninit m = Inr b" "bm_payload b h m"
  using encodeMaskBitMask_correct [OF assms, of uninit] assms
  by (fastforce simp: bm_payload_def)

lemma encodeMaskRunLength_payload:
  assumes "length (v # vs) \<le> 2 ^ 31"
  obtains b h w where "encodeMaskRunLength uninit (v # vs) = Inr b" "rl_payload b h w (runs v 1 vs)"
proof -
  have l32: "length (v # vs) < 2 ^ 32" using assms by (rule le_less_trans) simp
  have "length (v # vs) < 2 ^ 62" using assms by (rule le_less_trans) simp
  note pr = props_of_runs [OF this]
  let ?p = "computeMaskRunLengthProperties (v # vs)"
  obtain b where b: "encodeMaskRunLength uninit (v # vs) = Inr b" "length b = bufSize ?p"
    "\<And>i. i < unat (numBitsPerInt ?p) * length (runs v 1 vs) \<Longrightarrow>
       stream_bit b i = run_bits (unat (numBitsPerInt ?p)) (runs v 1 vs) ! i"
    "decodeMaskPayloadHeader b = Inr \<lparr>payloadFormat = RunLength, numBits = of_nat (length (v # vs)),
      runLengthNumBitsPerInt = numBitsPerInt ?p, runLengthStartValue = v\<rparr>"
    using encodeMaskRunLength_correct [OF l32, of uninit] by blast
  have sum: "sum_list (map snd (runs v 1 vs)) = length (v # vs)"
    using length_unruns [of "runs v 1 vs"] by (simp add: unruns_runs)
  have "N \<le> 8 * ((N + 7) div 8)" for N :: nat by simp
  moreover have "\<forall>r\<in>set (runs v 1 vs). 0 < snd r \<and> snd r - 1 < 2 ^ unat (numBitsPerInt ?p)"
    using pr(6) runs_positive [of 1 _ _ v vs] by force
  moreover have "unat (numBitsPerInt ?p) \<le> 31" using pr(7) [OF assms] by simp
  ultimately have "rl_payload b \<lparr>payloadFormat = RunLength, numBits = of_nat (length (v # vs)),
      runLengthNumBitsPerInt = numBitsPerInt ?p, runLengthStartValue = v\<rparr>
      (unat (numBitsPerInt ?p)) (runs v 1 vs)"
    using b pr(3,4) l32 unfolding rl_payload_def sum by (simp add: runs_alternating)
  then show thesis using that b(1) by blast
qed

lemma encodeMask_cases:
  assumes "m \<noteq> []" and "length m \<le> 2 ^ 31"
  obtains (bits) b h where "encodeMask uninit m = Inr b" "bm_payload b h m"
  | (rl) b h w where "encodeMask uninit m = Inr b" "rl_payload b h w (runs (hd m) 1 (tl m))"
proof -
  obtain v vs where m: "m = v # vs" using assms(1) by (cases m) auto
  have l32: "length m < 2 ^ 32" using assms(2) by (rule le_less_trans) simp
  show thesis
  proof (cases "computeBufferSizeMaskBitMask (length m) < bufSize (computeMaskRunLengthProperties m)")
    case True
    then show ?thesis
      using encodeMaskBitMask_payload [OF l32, of uninit] bits by (auto simp: encodeMask_def encodeMask_props_def)
  next
    case False
    then show ?thesis
      using encodeMaskRunLength_payload [of v vs uninit] assms(2) rl m
      by (auto simp: encodeMask_def encodeMask_props_def encodeMaskRunLength_def)
  qed
qed

end
