(* ===== verification/Domains.thy ===== *)
theory Domains
  imports Messages MaskDecode
begin

text \<open>
  \<^verbatim>\<open>src/src/multio/domain/Domain.{h,cc}\<close>: the three kinds of partial domains and how they scatter a
  local field, a local mask or their indices into the global ones. The \<^verbatim>\<open>int32_t\<close> arithmetic on
  grid dimensions is checked: a result outside of the type is \<open>Inl UndefinedBehaviour\<close>; sizes in bytes
  are \<^verbatim>\<open>size_t\<close> and wrap.
\<close>

section \<open>Checked arithmetic and scattered writes\<close>

definition write_int :: "'a list \<Rightarrow> int \<Rightarrow> 'a \<Rightarrow> 'a list res" where
  "write_int b i v = (if 0 \<le> i then write_at b (nat i) v else Inl OutOfBounds)"

lemma write_int_Inr_iff: "write_int b i v = Inr b' \<longleftrightarrow> 0 \<le> i \<and> i < int (length b) \<and> b' = b[nat i := v]"
  by (auto simp: write_int_def write_at_Inr_iff nat_less_iff)

section \<open>Domain definitions\<close>

datatype Domain =
    Unstructured "int list" int
  | Structured "int list"
  | Spectral "int list"

text \<open>The twelve numbers of a structured domain.\<close>

definition ni_global :: "int list \<Rightarrow> int" where "ni_global def = def ! 0"
definition nj_global :: "int list \<Rightarrow> int" where "nj_global def = def ! 1"
definition ibegin :: "int list \<Rightarrow> int" where "ibegin def = def ! 2"
definition ni :: "int list \<Rightarrow> int" where "ni def = def ! 3"
definition jbegin :: "int list \<Rightarrow> int" where "jbegin def = def ! 4"
definition nj :: "int list \<Rightarrow> int" where "nj def = def ! 5"
definition data_ibegin :: "int list \<Rightarrow> int" where "data_ibegin def = def ! 7"
definition data_ni :: "int list \<Rightarrow> int" where "data_ni def = def ! 8"
definition data_jbegin :: "int list \<Rightarrow> int" where "data_jbegin def = def ! 9"
definition data_nj :: "int list \<Rightarrow> int" where "data_nj def = def ! 10"
definition data_partial_size :: "int list \<Rightarrow> int" where "data_partial_size def = def ! 11"

definition addPartialDomainSizeToDefinition :: "int list \<Rightarrow> int list res" where
  "addPartialDomainSizeToDefinition def =
     (if length def = 11 then bind_res (chk32 (def ! 0 * def ! 1)) (\<lambda>s. Inr (def @ [s])) else Inr def)"

definition new_structured :: "int list \<Rightarrow> Domain res" where
  "new_structured def =
     bind_res (addPartialDomainSizeToDefinition def)
       (\<lambda>def. if length def = 12 then Inr (Structured def) else Inl AssertionFailed)"

fun localSize :: "Domain \<Rightarrow> int res" where
  "localSize (Unstructured def globalSize) = Inr (int (length def))"
| "localSize (Structured def) = chk32 (ni def * nj def)"
| "localSize (Spectral def) = Inl NotImplemented"

fun globalSize :: "Domain \<Rightarrow> int res" where
  "globalSize (Unstructured def gs) = Inr gs"
| "globalSize (Structured def) = chk32 (ni_global def * nj_global def)"
| "globalSize (Spectral def) = Inl NotImplemented"

fun partialSize :: "Domain \<Rightarrow> int res" where
  "partialSize (Unstructured def gs) = Inr gs"
| "partialSize (Structured def) = Inr (data_partial_size def)"
| "partialSize (Spectral def) = Inl NotImplemented"

fun toLocal :: "Domain \<Rightarrow> 'v list \<Rightarrow> 'v list res" where
  "toLocal (Unstructured def gs) global =
     fold_res (\<lambda>i local. if 0 \<le> i then bind_res (read_at global (nat i)) (\<lambda>v. Inr (local @ [v]))
                          else Inl OutOfBounds) def []"
| "toLocal (Structured def) global = Inl NotImplemented"
| "toLocal (Spectral def) global = Inl NotImplemented"

section \<open>Fields\<close>

fun unstructuredLoop :: "int list \<Rightarrow> 'v list \<Rightarrow> 'v list \<Rightarrow> 'v list res" where
  "unstructuredLoop [] lit git = Inr git"
| "unstructuredLoop (i # is) [] git = Inl OutOfBounds"
| "unstructuredLoop (i # is) (v # lit) git = bind_res (write_int git i v) (unstructuredLoop is lit)"

definition unstructured_toGlobal :: "int list \<Rightarrow> 'v list \<Rightarrow> 'v list \<Rightarrow> 'v list res" where
  "unstructured_toGlobal def local global =
     (if length local = length def then unstructuredLoop def local global else Inl AssertionFailed)"

definition inRange :: "int \<Rightarrow> int \<Rightarrow> int \<Rightarrow> bool" where
  "inRange val low upp \<longleftrightarrow> low \<le> val \<and> val < upp"

text \<open>
  The two nested \<^verbatim>\<open>!=\<close> loops over the local grid with its halo: a negative extent would run
  through the whole range of the type.
\<close>

definition cells :: "int list \<Rightarrow> (int \<times> int) list res" where
  "cells def =
     (if data_nj def < 0 \<or> (data_nj def > 0 \<and> data_ni def < 0) then Inl UndefinedBehaviour
      else bind_res (chk32 (data_jbegin def + data_nj def)) (\<lambda>jend.
           bind_res (chk32 (data_ibegin def + data_ni def)) (\<lambda>iend.
           Inr [(i, j). j \<leftarrow> [data_jbegin def..jend - 1], i \<leftarrow> [data_ibegin def..iend - 1]])))"

definition gidx :: "int list \<Rightarrow> int \<Rightarrow> int \<Rightarrow> int res" where
  "gidx def i j =
     bind_res (chk32 (jbegin def + j)) (\<lambda>gj.
     bind_res (chk32 (gj * ni_global def)) (\<lambda>row.
     bind_res (chk32 (ibegin def + i)) (\<lambda>gi.
     chk32 (row + gi))))"

definition inner :: "int list \<Rightarrow> int \<Rightarrow> int \<Rightarrow> bool" where
  "inner def i j \<longleftrightarrow> inRange i 0 (ni def) \<and> inRange j 0 (nj def)"

fun structuredLoop :: "int list \<Rightarrow> (int \<times> int) list \<Rightarrow> 'v list \<Rightarrow> 'v list \<Rightarrow> 'v list res" where
  "structuredLoop def [] lit git = Inr git"
| "structuredLoop def ((i, j) # cs) lit git =
     bind_res
       (if inner def i j
        then bind_res (gidx def i j) (\<lambda>k.
             bind_res (read_at lit 0) (\<lambda>v. write_int git k v))
        else Inr git)
       (structuredLoop def cs (tl lit))"

definition size_is :: "PrecisionTag \<Rightarrow> int \<Rightarrow> int \<Rightarrow> nat \<Rightarrow> bool" where
  "size_is p a b n \<longleftrightarrow>
     (of_nat (precision_size p) * of_int a * of_int b :: u64) = of_nat (n * precision_size p)"

definition structured_toGlobal :: "PrecisionTag \<Rightarrow> int list \<Rightarrow> 'v list \<Rightarrow> 'v list \<Rightarrow> 'v list res" where
  "structured_toGlobal p def local global =
     (if \<not> size_is p (ni_global def) (nj_global def) (length global) then Inl AssertionFailed
      else if \<not> size_is p (data_ni def) (data_nj def) (length local) then Inl AssertionFailed
      else bind_res (cells def) (\<lambda>cs. structuredLoop def cs local global))"

fun scatter :: "PrecisionTag \<Rightarrow> Domain \<Rightarrow> 'v list \<Rightarrow> 'v list \<Rightarrow> 'v list res" where
  "scatter p (Unstructured def gs) local global = unstructured_toGlobal def local global"
| "scatter p (Structured def) local global = structured_toGlobal p def local global"
| "scatter p (Spectral def) local global = Inl NotImplemented"

definition toGlobal :: "Domain \<Rightarrow> 'v message \<Rightarrow> 'v message \<Rightarrow> 'v message res" where
  "toGlobal d local global =
     bind_res (msg_precision local) (\<lambda>p.
       case (payload local, payload global) of
         (Values l, Values g) \<Rightarrow> bind_res (scatter p d l g) (\<lambda>g'. Inr (global\<lparr>payload := Values g'\<rparr>))
       | _ \<Rightarrow> Inl UndefinedBehaviour)"

section \<open>Indices\<close>

definition unstructured_collect :: "int list \<Rightarrow> nat \<Rightarrow> int set \<Rightarrow> int set res" where
  "unstructured_collect def n glIndices =
     (if n \<noteq> length def then Inl SeriousBug else Inr (fold insert def glIndices))"

fun structuredCollectLoop :: "int list \<Rightarrow> (int \<times> int) list \<Rightarrow> int set \<Rightarrow> int set res" where
  "structuredCollectLoop def [] glIndices = Inr glIndices"
| "structuredCollectLoop def ((i, j) # cs) glIndices =
     bind_res
       (if inner def i j
        then bind_res (gidx def i j) (\<lambda>k.
             if k \<in> glIndices then Inl AssertionFailed else Inr (insert k glIndices))
        else Inr glIndices)
       (structuredCollectLoop def cs)"

definition structured_collect :: "int list \<Rightarrow> nat \<Rightarrow> int set \<Rightarrow> int set res" where
  "structured_collect def n glIndices =
     bind_res (chk32 (ni_global def * nj_global def)) (\<lambda>gs.
     if \<not> (of_nat (card glIndices) :: u64) < of_int gs then Inl AssertionFailed
     else bind_res (chk32 (data_ni def * data_nj def)) (\<lambda>ls.
     if int n \<noteq> ls then Inl SeriousBug
     else bind_res (cells def) (\<lambda>cs. structuredCollectLoop def cs glIndices)))"

fun collectIndices :: "Domain \<Rightarrow> nat \<Rightarrow> int set \<Rightarrow> int set res" where
  "collectIndices (Unstructured def gs) n glIndices = unstructured_collect def n glIndices"
| "collectIndices (Structured def) n glIndices = structured_collect def n glIndices"
| "collectIndices (Spectral def) n glIndices = Inl NotImplemented"

section \<open>Masks\<close>

fun bitmaskLoop :: "int list \<Rightarrow> (int \<times> int) list \<Rightarrow> MaskPayloadIterator \<Rightarrow> bool list \<Rightarrow> bool list res" where
  "bitmaskLoop def [] lit bmask = Inr bmask"
| "bitmaskLoop def ((i, j) # cs) lit bmask =
     bind_res
       (if inner def i j
        then bind_res (gidx def i j) (\<lambda>k. write_int bmask k (mpVal lit))
        else Inr bmask)
       (\<lambda>bmask. bind_res (mpIncrement lit) (\<lambda>lit. bitmaskLoop def cs lit bmask))"

definition structured_toBitmask :: "int list \<Rightarrow> u8 list \<Rightarrow> bool list \<Rightarrow> bool list res" where
  "structured_toBitmask def local bmask =
     bind_res (chk32 (ni_global def * nj_global def)) (\<lambda>gs.
     if \<not> data_partial_size def \<le> gs then Inl AssertionFailed
     else if (of_int gs :: u64) \<noteq> of_nat (length bmask) then Inl AssertionFailed
     else bind_res (decodeMaskPayloadHeader local) (\<lambda>h.
     bind_res (chk32 (data_nj def * data_ni def)) (\<lambda>ls.
     if numBits h \<noteq> of_int ls then Inl SeriousBug
     else bind_res (mpIterator local h False) (\<lambda>lit.
     bind_res (cells def) (\<lambda>cs. bitmaskLoop def cs lit bmask)))))"

fun toBitmask :: "Domain \<Rightarrow> u8 list \<Rightarrow> bool list \<Rightarrow> bool list res" where
  "toBitmask (Unstructured def gs) local bmask = Inl NotImplemented"
| "toBitmask (Structured def) local bmask = structured_toBitmask def local bmask"
| "toBitmask (Spectral def) local bmask = Inl NotImplemented"

section \<open>Scattering as a list of writes\<close>

definition in_bounds :: "(int \<times> 'v) list \<Rightarrow> 'v list \<Rightarrow> bool" where
  "in_bounds ps g \<longleftrightarrow> (\<forall>(k, v)\<in>set ps. 0 \<le> k \<and> k < int (length g))"

fun apply_pairs :: "(int \<times> 'v) list \<Rightarrow> 'v list \<Rightarrow> 'v list" where
  "apply_pairs [] g = g"
| "apply_pairs ((k, v) # ps) g = apply_pairs ps (g[nat k := v])"

lemma length_apply_pairs [simp]: "length (apply_pairs ps g) = length g"
  by (induction ps g rule: apply_pairs.induct) auto

lemma in_bounds_Cons [simp]:
  "in_bounds ((k, v) # ps) g \<longleftrightarrow> 0 \<le> k \<and> k < int (length g) \<and> in_bounds ps g"
  by (auto simp: in_bounds_def)

lemma in_bounds_Nil [simp]: "in_bounds [] g"
  by (simp add: in_bounds_def)

lemma in_bounds_append [simp]: "in_bounds (ps @ qs) g \<longleftrightarrow> in_bounds ps g \<and> in_bounds qs g"
  by (auto simp: in_bounds_def)

lemma in_bounds_length: "length g = length h \<Longrightarrow> in_bounds ps g = in_bounds ps h"
  by (simp add: in_bounds_def)

lemma apply_pairs_append: "apply_pairs (ps @ qs) g = apply_pairs qs (apply_pairs ps g)"
  by (induction ps g rule: apply_pairs.induct) auto

text \<open>The last write to an index counts; what is not written stays.\<close>

lemma apply_pairs_nth:
  "in_bounds ps g \<Longrightarrow> i < length g \<Longrightarrow>
     apply_pairs ps g ! i = (case map_of (rev ps) (int i) of Some v \<Rightarrow> v | None \<Rightarrow> g ! i)"
proof (induction ps g rule: apply_pairs.induct)
  case (1 g)
  then show ?case by simp
next
  case (2 k v ps g)
  have "in_bounds ps (g[nat k := v])" using 2(2) in_bounds_length [of g "g[nat k := v]" ps] by simp
  then show ?case
    using 2 by (auto simp: map_add_def nth_list_update split: option.splits)
qed

text \<open>
  What the code relies on of every kind of domain: scattering a local field is a list of writes that
  depends on the domain and the local field only, all of them inside of the global field.
\<close>

locale scattering =
  fixes scat :: "'d \<Rightarrow> 'v list \<Rightarrow> 'v list \<Rightarrow> 'v list res"
    and pairs :: "'d \<Rightarrow> 'v list \<Rightarrow> (int \<times> 'v) list"
  assumes scat_pairs: "scat d l g = Inr g' \<Longrightarrow> in_bounds (pairs d l) g \<and> g' = apply_pairs (pairs d l) g"
begin

lemma scat_length: "scat d l g = Inr g' \<Longrightarrow> length g' = length g"
  using scat_pairs by fastforce

lemma scat_frame:
  "scat d l g = Inr g' \<Longrightarrow> i < length g \<Longrightarrow> int i \<notin> fst ` set (pairs d l) \<Longrightarrow> g' ! i = g ! i"
  using scat_pairs [of d l g g'] apply_pairs_nth [of "pairs d l" g i] map_of_eq_None_iff [of "rev (pairs d l)" "int i"]
  by auto

lemma scat_value:
  assumes "scat d l g = Inr g'" and "i < length g" and "int i \<in> fst ` set (pairs d l)"
  shows "map_of (rev (pairs d l)) (int i) = Some (g' ! i)"
  using assms scat_pairs [of d l g g'] apply_pairs_nth [of "pairs d l" g i]
    map_of_eq_None_iff [of "rev (pairs d l)" "int i"]
  by (cases "map_of (rev (pairs d l)) (int i)") auto

text \<open>Scattering all parts one after the other.\<close>

lemma scat_parts:
  assumes "fold_res (\<lambda>(d, l) g. scat d l g) parts g = Inr g'"
  shows "in_bounds (concat (map (\<lambda>(d, l). pairs d l) parts)) g \<and>
    g' = apply_pairs (concat (map (\<lambda>(d, l). pairs d l) parts)) g"
  using assms
proof (induction parts arbitrary: g)
  case Nil
  then show ?case by simp
next
  case (Cons p parts)
  obtain d l where p: "p = (d, l)" by force
  obtain h where h: "scat d l g = Inr h" "fold_res (\<lambda>(d, l) g. scat d l g) parts h = Inr g'"
    using Cons.prems p by (auto simp: bind_res_Inr_iff)
  note sp = scat_pairs [OF h(1)] and ih = Cons.IH [OF h(2)]
  have "length h = length g" using sp by simp
  then show ?case
    using sp ih p in_bounds_length [of h g] by (simp add: apply_pairs_append)
qed

text \<open>
  Once the parts cover the whole field nothing of the initial content is left, whatever it was.
\<close>

lemma scat_parts_determined:
  assumes g: "fold_res (\<lambda>(d, l) g. scat d l g) parts g = Inr g'"
    and h: "fold_res (\<lambda>(d, l) g. scat d l g) parts h = Inr h'"
    and n: "length g = length h"
    and all: "\<And>i. i < length g \<Longrightarrow> \<exists>(d, l)\<in>set parts. int i \<in> fst ` set (pairs d l)"
  shows "g' = h'"
proof (rule nth_equalityI)
  let ?ps = "concat (map (\<lambda>(d, l). pairs d l) parts)"
  note pg = scat_parts [OF g] and ph = scat_parts [OF h]
  show "length g' = length h'" using pg ph n by simp
  fix i
  assume "i < length g'"
  then have i: "i < length g" "i < length h" using pg n by simp_all
  have "int i \<in> fst ` set ?ps" using all [OF i(1)] by force
  then have "map_of (rev ?ps) (int i) \<noteq> None" by (simp add: map_of_eq_None_iff)
  then show "g' ! i = h' ! i"
    using pg ph apply_pairs_nth [of ?ps g i] apply_pairs_nth [of ?ps h i] i by auto
qed

text \<open>
  When no index is written twice the order in which the parts arrive does not matter.
\<close>

lemma scat_parts_order:
  assumes g: "fold_res (\<lambda>(d, l) g. scat d l g) parts g = Inr g'"
    and h: "fold_res (\<lambda>(d, l) g. scat d l g) parts' g = Inr h'"
    and perm: "set parts' = set parts"
    and d1: "distinct (map fst (concat (map (\<lambda>(d, l). pairs d l) parts)))"
    and d2: "distinct (map fst (concat (map (\<lambda>(d, l). pairs d l) parts')))"
  shows "g' = h'"
proof (rule nth_equalityI)
  let ?ps = "concat (map (\<lambda>(d, l). pairs d l) parts)"
  let ?qs = "concat (map (\<lambda>(d, l). pairs d l) parts')"
  note pg = scat_parts [OF g] and ph = scat_parts [OF h]
  show "length g' = length h'" using pg ph by simp
  fix i
  assume "i < length g'"
  then have i: "i < length g" using pg by simp
  have "map_of (rev ?ps) = map_of (rev ?qs)"
  proof (rule map_of_inject_set [THEN iffD2])
    show "distinct (map fst (rev ?ps))" "distinct (map fst (rev ?qs))"
      using d1 d2 by (simp_all only: rev_map [symmetric] distinct_rev)
    show "set (rev ?ps) = set (rev ?qs)" using perm by simp
  qed
  then show "g' ! i = h' ! i"
    using pg ph apply_pairs_nth [of ?ps g i] apply_pairs_nth [of ?qs g i] i by auto
qed

end

text \<open>The writes of each kind of domain.\<close>

definition gix :: "int list \<Rightarrow> int \<Rightarrow> int \<Rightarrow> int" where
  "gix def i j = (jbegin def + j) * ni_global def + (ibegin def + i)"

fun structured_pairs :: "int list \<Rightarrow> (int \<times> int) list \<Rightarrow> 'v list \<Rightarrow> (int \<times> 'v) list" where
  "structured_pairs def [] lit = []"
| "structured_pairs def ((i, j) # cs) lit =
     (if inner def i j then [(gix def i j, hd lit)] else []) @ structured_pairs def cs (tl lit)"

fun domain_pairs :: "Domain \<Rightarrow> 'v list \<Rightarrow> (int \<times> 'v) list" where
  "domain_pairs (Unstructured def gs) l = zip def l"
| "domain_pairs (Structured def) l =
     (case cells def of Inr cs \<Rightarrow> structured_pairs def cs l | Inl _ \<Rightarrow> [])"
| "domain_pairs (Spectral def) l = []"

lemma gidx_Inr: "gidx def i j = Inr k \<Longrightarrow> k = gix def i j"
  by (auto simp: gidx_def gix_def bind_res_Inr_iff chk32_Inr_iff)

lemma unstructuredLoop_pairs:
  "unstructuredLoop is lit g = Inr g' \<Longrightarrow> in_bounds (zip is lit) g \<and> g' = apply_pairs (zip is lit) g"
proof (induction "is" lit g rule: unstructuredLoop.induct)
  case (3 i "is" v lit git)
  then obtain h where h: "write_int git i v = Inr h" "unstructuredLoop is lit h = Inr g'"
    by (auto simp: bind_res_Inr_iff)
  then show ?case using 3(1) [OF h(2)] in_bounds_length [of h git] by (auto simp: write_int_Inr_iff)
qed auto

lemma structuredLoop_pairs:
  "structuredLoop def cs lit g = Inr g' \<Longrightarrow>
     in_bounds (structured_pairs def cs lit) g \<and> g' = apply_pairs (structured_pairs def cs lit) g"
proof (induction def cs lit g rule: structuredLoop.induct)
  case (2 def i j cs lit git)
  show ?case
  proof (cases "inner def i j")
    case True
    then obtain k v h where h: "gidx def i j = Inr k" "read_at lit 0 = Inr v" "write_int git k v = Inr h"
      "structuredLoop def cs (tl lit) h = Inr g'"
      using 2(2) by (auto simp: bind_res_Inr_iff)
    have "v = hd lit" using h(2) by (cases lit) (auto simp: read_at_def split: if_splits)
    then show ?thesis
      using True 2(1) [OF h(4)] h(3) gidx_Inr [OF h(1)] in_bounds_length [of h git]
      by (auto simp: write_int_Inr_iff)
  next
    case False
    then show ?thesis using 2 by auto
  qed
qed auto

lemma scatter_pairs:
  "scatter p d l g = Inr g' \<Longrightarrow> in_bounds (domain_pairs d l) g \<and> g' = apply_pairs (domain_pairs d l) g"
  by (cases d)
    (auto simp: unstructured_toGlobal_def structured_toGlobal_def bind_res_Inr_iff
      dest: unstructuredLoop_pairs structuredLoop_pairs split: if_splits)

interpretation dom: scattering "scatter p" domain_pairs for p
  by unfold_locales (rule scatter_pairs)

section \<open>Well-formed structured domains\<close>

definition structured_wf :: "int list \<Rightarrow> bool" where
  "structured_wf def \<longleftrightarrow>
     length def = 12 \<and> 0 < ni_global def \<and> 0 < nj_global def \<and> ni_global def * nj_global def < 2 ^ 31 \<and>
     0 \<le> ibegin def \<and> 0 \<le> ni def \<and> ibegin def + ni def \<le> ni_global def \<and>
     0 \<le> jbegin def \<and> 0 \<le> nj def \<and> jbegin def + nj def \<le> nj_global def \<and>
     0 \<le> data_ni def \<and> 0 \<le> data_nj def \<and> data_ni def * data_nj def < 2 ^ 31 \<and>
     - (2 ^ 31) \<le> data_ibegin def \<and> data_ibegin def + data_ni def < 2 ^ 31 \<and>
     - (2 ^ 31) \<le> data_jbegin def \<and> data_jbegin def + data_nj def < 2 ^ 31"

lemma grid_index:
  fixes j n :: int
  assumes "0 \<le> j" "j < m" "0 \<le> i" "i < n"
  shows "0 \<le> j * n" "j * n + i < n * m" "j * n \<le> n * m" "i < n * m" "j < n * m"
proof -
  show "0 \<le> j * n" using assms by simp
  have "(j + 1) * n \<le> m * n" using assms by (intro mult_right_mono) auto
  then show a: "j * n + i < n * m" using assms by (simp add: algebra_simps)
  then show "j * n \<le> n * m" using assms by linarith
  show "i < n * m" using a \<open>0 \<le> j * n\<close> by linarith
  have "m \<le> m * n" using mult_left_mono [of 1 n m] assms by simp
  then show "j < n * m" using assms(2) unfolding mult.commute [of n m] by linarith
qed

lemma gidx_wf:
  assumes wf: "structured_wf def" and "in": "inner def i j"
  shows "gidx def i j = Inr (gix def i j)"
    and "0 \<le> gix def i j" and "gix def i j < ni_global def * nj_global def"
proof -
  have r: "0 \<le> jbegin def + j" "jbegin def + j < nj_global def"
    "0 \<le> ibegin def + i" "ibegin def + i < ni_global def"
    "ni_global def * nj_global def < 2 ^ 31"
    using assms by (auto simp: structured_wf_def inner_def inRange_def)
  note g = grid_index [OF r(1-4)]
  have "chk32 (jbegin def + j) = Inr (jbegin def + j)"
    "chk32 ((jbegin def + j) * ni_global def) = Inr ((jbegin def + j) * ni_global def)"
    "chk32 (ibegin def + i) = Inr (ibegin def + i)" "chk32 (gix def i j) = Inr (gix def i j)"
    using g r by (auto intro!: chk32_ok simp: gix_def simp del: chk32_ok)
  then show "gidx def i j = Inr (gix def i j)" by (simp add: gidx_def gix_def)
  show "0 \<le> gix def i j" "gix def i j < ni_global def * nj_global def"
    using g r by (simp_all add: gix_def)
qed

lemma grid_inj:
  fixes j n :: int
  assumes "j * n + i = j' * n + i'" "0 \<le> i" "i < n" "0 \<le> i'" "i' < n"
  shows "j = j' \<and> i = i'"
proof -
  have "n \<noteq> 0" using assms by simp
  then have "(j * n + i) div n = j" "(j' * n + i') div n = j'"
    using assms(2-) by (simp_all add: div_pos_pos_trivial)
  then show ?thesis using assms by auto
qed

lemma gix_inj:
  assumes "structured_wf def" "inner def i j" "inner def i' j'" "gix def i j = gix def i' j'"
  shows "i = i' \<and> j = j'"
proof -
  have "jbegin def + j = jbegin def + j' \<and> ibegin def + i = ibegin def + i'"
    using assms by (intro grid_inj [where n = "ni_global def"])
      (auto simp: structured_wf_def inner_def inRange_def gix_def)
  then show ?thesis by simp
qed

definition js_of :: "int list \<Rightarrow> int list" where
  "js_of def = [data_jbegin def..data_jbegin def + data_nj def - 1]"

definition is_of :: "int list \<Rightarrow> int list" where
  "is_of def = [data_ibegin def..data_ibegin def + data_ni def - 1]"

lemma cells_wf:
  assumes "structured_wf def"
  shows "cells def = Inr (map (\<lambda>(j, i). (i, j)) (List.product (js_of def) (is_of def)))"
proof -
  have "chk32 (data_jbegin def + data_nj def) = Inr (data_jbegin def + data_nj def)"
    "chk32 (data_ibegin def + data_ni def) = Inr (data_ibegin def + data_ni def)"
    "\<not> data_nj def < 0" "\<not> data_ni def < 0"
    using assms by (auto simp: chk32_Inr_iff structured_wf_def)
  then show ?thesis
    by (simp add: cells_def js_of_def is_of_def product_concat_map map_concat comp_def)
qed

lemma size_is_iff:
  assumes "0 \<le> a * b" "a * b < 2 ^ 31" "0 \<le> a" "0 \<le> b" "n < 2 ^ 32"
  shows "size_is p a b n \<longleftrightarrow> int n = a * b"
proof -
  define k where "k = nat (a * b)"
  have ab: "a * b = int k" using assms(1) by (simp add: k_def)
  have "(of_nat (precision_size p) * of_int a * of_int b :: u64) = of_nat (precision_size p) * of_int (a * b)"
    by (simp add: mult.assoc)
  also have "\<dots> = of_nat (k * precision_size p)" unfolding ab by (simp add: mult.commute)
  finally have "size_is p a b n \<longleftrightarrow> (of_nat (k * precision_size p) :: u64) = of_nat (n * precision_size p)"
    by (simp add: size_is_def)
  also have "\<dots> \<longleftrightarrow> k * precision_size p = n * precision_size p"
  proof -
    have "precision_size p \<le> 8" by (cases p) auto
    then have "k * precision_size p < 2 ^ 31 * 9" "n * precision_size p < 2 ^ 32 * 9"
      using assms(2,5) ab by (intro mult_strict_mono; simp)+
    then have "unat (of_nat (k * precision_size p) :: u64) = k * precision_size p"
      "unat (of_nat (n * precision_size p) :: u64) = n * precision_size p"
      by (intro unat_of_nat64; simp)+
    then show ?thesis by metis
  qed
  also have "\<dots> \<longleftrightarrow> int n = a * b" using ab by (cases p) auto
  finally show ?thesis .
qed

section \<open>Structured domains write what they say\<close>

lemma structuredLoop_total:
  assumes wf: "structured_wf def" and n: "int (length g) = ni_global def * nj_global def"
    and "length cs \<le> length lit"
  shows "\<exists>g'. structuredLoop def cs lit g = Inr g'"
  using n assms(3)
proof (induction cs arbitrary: lit g)
  case Nil
  then show ?case by simp
next
  case (Cons c cs)
  obtain i j where c: "c = (i, j)" by force
  obtain v lit' where lit: "lit = v # lit'" using Cons.prems(2) by (cases lit) auto
  show ?case
  proof (cases "inner def i j")
    case True
    note k = gidx_wf [OF wf True]
    have "write_int g (gix def i j) v = Inr (g[nat (gix def i j) := v])"
      using k Cons.prems(1) by (simp add: write_int_Inr_iff)
    then show ?thesis
      using Cons.IH [of "g[nat (gix def i j) := v]" lit'] Cons.prems k(1) True c lit by simp
  next
    case False
    then show ?thesis using Cons.IH [of g lit'] Cons.prems c lit by simp
  qed
qed

lemma structured_pairs_mem:
  "p < length cs \<Longrightarrow> p < length lit \<Longrightarrow> cs ! p = (i, j) \<Longrightarrow> inner def i j \<Longrightarrow>
     (gix def i j, lit ! p) \<in> set (structured_pairs def cs lit)"
proof (induction cs arbitrary: p lit)
  case Nil
  then show ?case by simp
next
  case (Cons c cs)
  obtain v lit' where lit: "lit = v # lit'" using Cons.prems(2) by (cases lit) auto
  obtain a b where c: "c = (a, b)" by force
  show ?case using Cons.prems Cons.IH [of "p - 1" lit'] c lit by (cases p) auto
qed

lemma structured_pairs_keys:
  "fst ` set (structured_pairs def cs lit) = {gix def i j |i j. (i, j) \<in> set cs \<and> inner def i j}"
proof (induction def cs lit rule: structured_pairs.induct)
  case (2 def i j cs lit)
  have "{gix def a b |a b. (a, b) \<in> set ((i, j) # cs) \<and> inner def a b} =
      (if inner def i j then {gix def i j} else {}) \<union> {gix def a b |a b. (a, b) \<in> set cs \<and> inner def a b}"
    by auto
  then show ?case using 2 by simp
qed simp

lemma structured_pairs_distinct:
  assumes "structured_wf def" and "distinct cs"
  shows "distinct (map fst (structured_pairs def cs lit))"
  using assms(2)
proof (induction cs arbitrary: lit)
  case Nil
  then show ?case by simp
next
  case (Cons c cs)
  obtain i j where c: "c = (i, j)" by force
  have "gix def i j \<notin> fst ` set (structured_pairs def cs (tl lit))" if "inner def i j"
    unfolding structured_pairs_keys using Cons.prems gix_inj [OF assms(1) that] c by force
  then show ?case using Cons c by auto
qed

definition cells_of :: "int list \<Rightarrow> (int \<times> int) list" where
  "cells_of def = map (\<lambda>(j, i). (i, j)) (List.product (js_of def) (is_of def))"

definition in_halo :: "int list \<Rightarrow> int \<Rightarrow> int \<Rightarrow> bool" where
  "in_halo def i j \<longleftrightarrow> data_ibegin def \<le> i \<and> i < data_ibegin def + data_ni def \<and>
     data_jbegin def \<le> j \<and> j < data_jbegin def + data_nj def"

definition local_pos :: "int list \<Rightarrow> int \<Rightarrow> int \<Rightarrow> nat" where
  "local_pos def i j = nat ((j - data_jbegin def) * data_ni def + (i - data_ibegin def))"

lemma cells_of_facts:
  assumes "structured_wf def"
  shows "int (length (cells_of def)) = data_ni def * data_nj def" and "distinct (cells_of def)"
    and "(i, j) \<in> set (cells_of def) \<longleftrightarrow> in_halo def i j"
proof -
  have n: "0 \<le> data_ni def" "0 \<le> data_nj def" using assms by (simp_all add: structured_wf_def)
  then show "int (length (cells_of def)) = data_ni def * data_nj def"
    by (simp add: cells_of_def js_of_def is_of_def)
  show "distinct (cells_of def)"
    by (auto simp: cells_of_def distinct_map js_of_def is_of_def distinct_product intro!: inj_onI)
  show "(i, j) \<in> set (cells_of def) \<longleftrightarrow> in_halo def i j"
    by (auto simp: cells_of_def js_of_def is_of_def in_halo_def)
qed

lemma cells_of_nth:
  assumes "structured_wf def" and "in_halo def i j"
  shows "local_pos def i j < length (cells_of def)" and "cells_of def ! local_pos def i j = (i, j)"
proof -
  define a where "a = nat (j - data_jbegin def)"
  define b where "b = nat (i - data_ibegin def)"
  define n where "n = nat (data_ni def)"
  define m where "m = nat (data_nj def)"
  have e: "j - data_jbegin def = int a" "i - data_ibegin def = int b" "data_ni def = int n" "data_nj def = int m"
    using assms by (simp_all add: a_def b_def n_def m_def in_halo_def structured_wf_def)
  have lt: "a < m" "b < n" using assms(2) e by (auto simp: in_halo_def)
  have p: "local_pos def i j = a * n + b"
    unfolding local_pos_def e by (metis nat_int of_nat_add of_nat_mult)
  have "Suc a * n \<le> m * n" using lt by (intro mult_right_mono) auto
  then have small: "a * n + b < m * n" using lt by simp
  have l: "length (js_of def) = m" "length (is_of def) = n" by (simp_all add: js_of_def is_of_def e)
  show "local_pos def i j < length (cells_of def)" using small by (simp add: p cells_of_def l)
  have "(a * n + b) div n = a" "(a * n + b) mod n = b" using lt by simp_all
  then show "cells_of def ! local_pos def i j = (i, j)"
    using small lt e by (simp add: p cells_of_def l product_nth js_of_def is_of_def)
qed

text \<open>The content of a field after the writes of a structured domain.\<close>

lemma structured_content:
  assumes wf: "structured_wf def" and lit: "int (length lit) = data_ni def * data_nj def"
    and b: "in_bounds (structured_pairs def (cells_of def) lit) g"
  defines "g' \<equiv> apply_pairs (structured_pairs def (cells_of def) lit) g"
  shows "inner def i j \<Longrightarrow> in_halo def i j \<Longrightarrow> g' ! nat (gix def i j) = lit ! local_pos def i j"
    and "k < length g \<Longrightarrow> (\<And>i j. inner def i j \<Longrightarrow> in_halo def i j \<Longrightarrow> gix def i j \<noteq> int k) \<Longrightarrow> g' ! k = g ! k"
proof -
  let ?ps = "structured_pairs def (cells_of def) lit"
  have len: "length lit = length (cells_of def)"
    using lit cells_of_facts(1) [OF wf] by (metis of_nat_eq_iff)
  have d: "distinct (map fst ?ps)" by (rule structured_pairs_distinct [OF wf cells_of_facts(2) [OF wf]])
  have rev: "map_of (rev ?ps) = map_of ?ps"
    using d by (intro map_of_inject_set [THEN iffD2]) (simp_all add: rev_map [symmetric])
  show "g' ! nat (gix def i j) = lit ! local_pos def i j" if "inner def i j" "in_halo def i j"
  proof -
    note c = cells_of_nth [OF wf that(2)]
    have mem: "(gix def i j, lit ! local_pos def i j) \<in> set ?ps"
      using structured_pairs_mem [OF c(1) _ c(2) that(1), of lit] c(1) len by simp
    then have "map_of ?ps (gix def i j) = Some (lit ! local_pos def i j)" using d by simp
    moreover have "0 \<le> gix def i j" "gix def i j < int (length g)" using mem b by (auto simp: in_bounds_def)
    ultimately show ?thesis
      unfolding g'_def using apply_pairs_nth [OF b, of "nat (gix def i j)"] rev by (simp add: nat_less_iff)
  qed
  show "g' ! k = g ! k" if k: "k < length g" "\<And>i j. inner def i j \<Longrightarrow> in_halo def i j \<Longrightarrow> gix def i j \<noteq> int k"
  proof -
    have "int k \<notin> fst ` set ?ps"
      unfolding structured_pairs_keys using k(2) cells_of_facts(3) [OF wf] by fastforce
    then have "map_of (rev ?ps) (int k) = None" by (simp add: map_of_eq_None_iff)
    then show ?thesis unfolding g'_def using apply_pairs_nth [OF b k(1)] by simp
  qed
qed

section \<open>Masks\<close>

text \<open>Walking with the iterator is described by what the rest of the walk collects.\<close>

lemma mpCollect_step:
  assumes "mpCollect f it e = Some (Inr (v # vs))"
  shows "mpVal it = v \<and> (\<exists>it' f'. mpIncrement it = Inr it' \<and> mpCollect f' it' e = Some (Inr vs))"
proof (cases f)
  case 0
  then show ?thesis using assms by simp
next
  case (Suc f')
  then show ?thesis using assms
    by (auto simp: bind_res_Inr_iff split: if_splits sum.splits)
qed

lemma bitmaskLoop_correct:
  assumes wf: "structured_wf def" and "int (length bmask) = ni_global def * nj_global def"
    and "mpCollect f it e = Some (Inr m)" and "length m = length cs"
  shows "bitmaskLoop def cs it bmask = Inr (apply_pairs (structured_pairs def cs m) bmask) \<and>
    in_bounds (structured_pairs def cs m) bmask"
  using assms(2-4)
proof (induction cs arbitrary: m it f bmask)
  case Nil
  then show ?case by simp
next
  case (Cons c cs)
  obtain i j where c: "c = (i, j)" by force
  obtain v m' where m: "m = v # m'" using Cons.prems(3) by (cases m) auto
  obtain it' f' where it: "mpVal it = v" "mpIncrement it = Inr it'" "mpCollect f' it' e = Some (Inr m')"
    using mpCollect_step Cons.prems(2) m by blast
  show ?case
  proof (cases "inner def i j")
    case True
    note k = gidx_wf [OF wf True]
    let ?b = "bmask[nat (gix def i j) := v]"
    have "write_int bmask (gix def i j) v = Inr ?b"
      using k Cons.prems(1) by (simp add: write_int_Inr_iff)
    then show ?thesis
      using Cons.IH [of ?b f' it' m'] Cons.prems k True c m it in_bounds_length [of ?b bmask] by simp
  next
    case False
    then show ?thesis using Cons.IH [of bmask f' it' m'] Cons.prems c m it by simp
  qed
qed

section \<open>Indices\<close>

lemma structuredCollectLoop_keys:
  "structuredCollectLoop def cs gl = Inr gl' \<Longrightarrow>
     gl' = gl \<union> {gix def i j |i j. (i, j) \<in> set cs \<and> inner def i j} \<and>
     gl \<inter> {gix def i j |i j. (i, j) \<in> set cs \<and> inner def i j} = {}"
proof (induction def cs gl rule: structuredCollectLoop.induct)
  case (1 def gl)
  then show ?case by simp
next
  case (2 def i j cs gl)
  show ?case
  proof (cases "inner def i j")
    case True
    then obtain k where k: "gidx def i j = Inr k" "k \<notin> gl"
      "structuredCollectLoop def cs (insert k gl) = Inr gl'"
      using 2(2) by (auto simp: bind_res_Inr_iff split: if_splits)
    note ih = 2(1) [OF k(3)] and e = gidx_Inr [OF k(1)]
    have "{gix def a b |a b. (a, b) \<in> set ((i, j) # cs) \<and> inner def a b} =
        insert k {gix def a b |a b. (a, b) \<in> set cs \<and> inner def a b}"
      using True e by auto
    then show ?thesis using ih k(2) by auto
  next
    case False
    then have "{gix def a b |a b. (a, b) \<in> set ((i, j) # cs) \<and> inner def a b} =
        {gix def a b |a b. (a, b) \<in> set cs \<and> inner def a b}"
      by auto
    then show ?thesis using False 2 by simp
  qed
qed

lemma fold_insert: "fold insert xs A = set xs \<union> A"
  by (induction xs arbitrary: A) auto

text \<open>The indices that are collected are the indices that are written.\<close>

lemma collectIndices_keys:
  assumes "collectIndices d (length l) gl = Inr gl'"
  shows "gl' = gl \<union> fst ` set (domain_pairs d l)"
proof (cases d)
  case (Unstructured def gs)
  then have "length def = length l" "gl' = set def \<union> gl"
    using assms by (auto simp: unstructured_collect_def fold_insert split: if_splits)
  moreover have "fst ` set (zip def l) = set def"
    using \<open>length def = length l\<close> by (metis list.set_map map_fst_zip)
  ultimately show ?thesis using Unstructured by auto
next
  case (Structured def)
  then obtain cs where "cells def = Inr cs" "structuredCollectLoop def cs gl = Inr gl'"
    using assms by (auto simp: structured_collect_def bind_res_Inr_iff split: if_splits)
  then show ?thesis using structuredCollectLoop_keys structured_pairs_keys [of def cs l] Structured by simp
next
  case (Spectral def)
  then show ?thesis using assms by simp
qed

section \<open>Properties\<close>

text \<open>
  Property C33. A well-formed structured domain scatters a local field with halo into the global field:
  the operation succeeds, every inner point of the halo grid lands at its global index with the value it has at its
  position in the local field, and no other global value changes.
\<close>

theorem structured_toGlobal_correct:
  assumes wf: "structured_wf def"
    and g: "int (length global) = ni_global def * nj_global def"
    and l: "int (length local) = data_ni def * data_nj def"
  shows "\<exists>g'. structured_toGlobal p def local global = Inr g' \<and> length g' = length global \<and>
    (\<forall>i j. inner def i j \<and> in_halo def i j \<longrightarrow> g' ! nat (gix def i j) = local ! local_pos def i j) \<and>
    (\<forall>k<length global. (\<forall>i j. inner def i j \<and> in_halo def i j \<longrightarrow> gix def i j \<noteq> int k) \<longrightarrow> g' ! k = global ! k)"
proof -
  have w: "0 \<le> ni_global def * nj_global def" "ni_global def * nj_global def < 2 ^ 31" "0 \<le> ni_global def"
    "0 \<le> nj_global def" "0 \<le> data_ni def * data_nj def" "data_ni def * data_nj def < 2 ^ 31"
    "0 \<le> data_ni def" "0 \<le> data_nj def"
    using wf by (simp_all add: structured_wf_def)
  have "length global < 2 ^ 32" "length local < 2 ^ 32" using g l w by simp_all
  then have s: "size_is p (ni_global def) (nj_global def) (length global)"
    "size_is p (data_ni def) (data_nj def) (length local)"
    using size_is_iff w g l by simp_all
  have c: "cells def = Inr (cells_of def)" using cells_wf [OF wf] by (simp add: cells_of_def)
  have "int (length (cells_of def)) = int (length local)" using cells_of_facts(1) [OF wf] l by simp
  then have "length (cells_of def) \<le> length local" by simp
  from structuredLoop_total [OF wf g this] obtain g' where g':
    "structuredLoop def (cells_of def) local global = Inr g'" by blast
  note ps = structuredLoop_pairs [OF g']
  have "structured_toGlobal p def local global = Inr g'" using s c g' by (simp add: structured_toGlobal_def)
  moreover have "length g' = length global" using ps by simp
  ultimately show ?thesis
    using structured_content(1) [OF wf l] structured_content(2) [OF wf l] ps by blast
qed

theorem structured_toGlobal_correct_witness:
  "\<exists>g'. structured_toGlobal Double [3, 2, 1, 2, 0, 1, 2, -1, 4, 0, 1, 6] [9, 1, 2, 9 :: nat] [0, 0, 0, 0, 0, 0] = Inr g' \<and>
     g' ! nat (gix [3, 2, 1, 2, 0, 1, 2, -1, 4, 0, 1, 6] 0 0) = 1"
proof -
  let ?d = "[3, 2, 1, 2, 0, 1, 2, -1, 4, 0, 1, 6] :: int list"
  note defs = structured_wf_def ni_global_def nj_global_def ibegin_def ni_def jbegin_def nj_def data_ibegin_def
    data_ni_def data_jbegin_def data_nj_def
  have "structured_wf ?d" by (simp add: defs)
  moreover have "int (length [0, 0, 0, 0, 0, 0 :: nat]) = ni_global ?d * nj_global ?d"
    "int (length [9, 1, 2, 9 :: nat]) = data_ni ?d * data_nj ?d" by (simp_all add: defs)
  moreover have "inner ?d 0 0" "in_halo ?d 0 0" by (simp_all add: inner_def inRange_def in_halo_def defs)
  moreover have "[9, 1, 2, 9 :: nat] ! local_pos ?d 0 0 = 1" by (simp add: local_pos_def defs)
  ultimately show ?thesis using structured_toGlobal_correct [of ?d] by metis
qed

text \<open>
  Property C34. The partial masks of a well-formed structured domain: a mask that was encoded by \<^verbatim>\<open>encodeMask\<close>
  is decoded on the fly and every inner point of the halo grid gets its value in the global bit mask.
\<close>

theorem structured_toBitmask_correct:
  assumes wf: "structured_wf def" and part: "data_partial_size def \<le> ni_global def * nj_global def"
    and g: "int (length bmask) = ni_global def * nj_global def"
    and m: "int (length m) = data_ni def * data_nj def" "m \<noteq> []"
    and b: "encodeMask uninit m = Inr b"
  shows "\<exists>b'. structured_toBitmask def b bmask = Inr b' \<and> length b' = length bmask \<and>
    (\<forall>i j. inner def i j \<and> in_halo def i j \<longrightarrow> b' ! nat (gix def i j) = m ! local_pos def i j) \<and>
    (\<forall>k<length bmask. (\<forall>i j. inner def i j \<and> in_halo def i j \<longrightarrow> gix def i j \<noteq> int k) \<longrightarrow> b' ! k = bmask ! k)"
proof -
  have w: "0 \<le> ni_global def * nj_global def" "ni_global def * nj_global def < 2 ^ 31"
    "0 \<le> data_ni def * data_nj def" "data_ni def * data_nj def < 2 ^ 31"
    using wf by (simp_all add: structured_wf_def)
  have lm: "length m \<le> 2 ^ 31" using m w by simp
  obtain h where h: "decodeMaskPayloadHeader b = Inr h" "numBits h = of_nat (length m)"
    "maskValues (Suc (length m)) b = Some (Inr m)"
    using m(2) lm
  proof (cases rule: encodeMask_cases [where uninit = uninit])
    case (bits b0 h)
    then show ?thesis using that b maskValues_bits [OF bits(2) m(2), of "Suc (length m)"]
      by (auto simp: bm_payload_def)
  next
    case (rl b0 h wd)
    have u: "unruns (runs (hd m) 1 (tl m)) = m" using m(2) by (simp add: unruns_runs)
    then have "sum_list (map snd (runs (hd m) 1 (tl m))) = length m" by (metis length_unruns)
    then show ?thesis using that b rl maskValues_runs [OF rl(2), of "Suc (length m)"] u
      by (auto simp: rl_payload_def)
  qed
  obtain it e where it: "mpIterator b h False = Inr it" "mpCollect (Suc (length m)) it e = Some (Inr m)"
    using h(3) h(1) by (auto simp: maskValues_def bind_res_def split: sum.splits)
  have "(of_nat (length m) :: u64) = of_int (data_ni def * data_nj def)" by (simp flip: m(1))
  then have n: "numBits h = of_int (data_nj def * data_ni def)" using h(2) by (simp add: mult.commute)
  have gb: "(of_int (ni_global def * nj_global def) :: u64) = of_nat (length bmask)" by (simp flip: g)
  have c: "cells def = Inr (cells_of def)" using cells_wf [OF wf] by (simp add: cells_of_def)
  have "int (length m) = int (length (cells_of def))" using cells_of_facts(1) [OF wf] m by simp
  then have len: "length m = length (cells_of def)" by simp
  note bl = bitmaskLoop_correct [OF wf g it(2) len]
  have "chk32 (ni_global def * nj_global def) = Inr (ni_global def * nj_global def)"
    "chk32 (data_nj def * data_ni def) = Inr (data_nj def * data_ni def)"
    using w by (simp_all add: chk32_Inr_iff mult.commute)
  then have "structured_toBitmask def b bmask = Inr (apply_pairs (structured_pairs def (cells_of def) m) bmask)"
    using part gb h(1) n it(1) c bl by (simp add: structured_toBitmask_def)
  then show ?thesis
    using structured_content(1) [OF wf m(1)] structured_content(2) [OF wf m(1)] bl
    by (metis length_apply_pairs)
qed

theorem structured_toBitmask_correct_witness:
  "\<exists>b b'. encodeMask (\<lambda>i. 0) [False, True, True, False] = Inr b \<and>
     structured_toBitmask [3, 2, 1, 2, 0, 1, 2, -1, 4, 0, 1, 6] b [False, False, False, False, False, False] = Inr b' \<and>
     b' ! nat (gix [3, 2, 1, 2, 0, 1, 2, -1, 4, 0, 1, 6] 0 0)"
proof -
  let ?d = "[3, 2, 1, 2, 0, 1, 2, -1, 4, 0, 1, 6] :: int list"
  let ?m = "[False, True, True, False]"
  note defs = structured_wf_def ni_global_def nj_global_def ibegin_def ni_def jbegin_def nj_def data_ibegin_def
    data_ni_def data_jbegin_def data_nj_def data_partial_size_def
  obtain b where b: "encodeMask (\<lambda>i. 0) ?m = Inr b"
    by (rule encodeMask_cases [of ?m "\<lambda>i. 0"]) auto
  have "structured_wf ?d" by (simp add: defs)
  moreover have "data_partial_size ?d \<le> ni_global ?d * nj_global ?d"
    "int (length [False, False, False, False, False, False]) = ni_global ?d * nj_global ?d"
    "int (length ?m) = data_ni ?d * data_nj ?d" "?m \<noteq> []" by (simp_all add: defs)
  moreover have "inner ?d 0 0" "in_halo ?d 0 0" by (simp_all add: inner_def inRange_def in_halo_def defs)
  moreover have "?m ! local_pos ?d 0 0" by (simp add: local_pos_def defs)
  ultimately show ?thesis using structured_toBitmask_correct [OF _ _ _ _ _ b] b by metis
qed

end
