(* ===== verification/MaskRoundTrip.thy ===== *)
theory MaskRoundTrip
  imports MaskDecode
begin

text \<open>
  What \<^verbatim>\<open>src/src/multio/domain/MaskCompression.{h,cc}\<close> promises to its callers: a mask that is
  encoded and then walked over with the iterators is the mask, whatever the buffer held
  before, in both formats and in the format \<open>encodeMask\<close> chooses; the run-length container
  yields the maximal runs; and the cases in which the code does not keep this promise.
\<close>

section \<open>Round trips\<close>

text \<open>
  Property C1. A non-empty mask of at most \<open>2 ^ 31\<close> values survives \<^verbatim>\<open>encodeMask\<close> followed by a
  range-for over \<^verbatim>\<open>EncodedBitMaskPayload\<close> / \<^verbatim>\<open>MaskPayloadIterator\<close>: the encoding succeeds with no
  write out of bounds, the loop ends after at most one round per value, and it sees exactly
  the values of the mask.
\<close>

theorem encodeMask_roundtrip:
  assumes "m \<noteq> []" and "length m \<le> 2 ^ 31" and "length m < fuel"
  shows "\<exists>b. encodeMask uninit m = Inr b \<and> maskValues fuel b = Some (Inr m)"
  using assms(1,2)
proof (cases rule: encodeMask_cases [where uninit = uninit])
  case (bits b h)
  then show ?thesis using maskValues_bits [OF bits(2) assms(1,3)] by blast
next
  case (rl b h w)
  have "unruns (runs (hd m) 1 (tl m)) = m" using assms(1) by (simp add: unruns_runs)
  then show ?thesis
    using maskValues_runs [OF rl(2), of fuel] assms(3) rl(1) by (metis length_unruns)
qed

theorem encodeMask_roundtrip_witness:
  "\<exists>b. encodeMask (\<lambda>i. 0xFF) [True, True, False] = Inr b \<and>
     maskValues 4 b = Some (Inr [True, True, False])"
  by (rule encodeMask_roundtrip) simp_all

text \<open>
  The run-length format: the range-for over \<^verbatim>\<open>EncodedRunLengthPayload\<close> sees the
  maximal runs of the mask, each with its value and its length, in order.
\<close>

theorem runLengthPairs_runs:
  assumes "length (v # vs) \<le> 2 ^ 31" and "length (runs v 1 vs) < fuel"
  shows "\<exists>b. encodeMaskRunLength uninit (v # vs) = Inr b \<and>
    runLengthPairs fuel b = Some (Inr (map (\<lambda>(s, k). (s, of_nat k)) (runs v 1 vs)))"
  using encodeMaskRunLength_payload [OF assms(1), of uninit] runLengthPairs_payload [OF _ assms(2)]
  by metis

theorem runLengthPairs_runs_witness:
  "\<exists>b. encodeMaskRunLength (\<lambda>i. 0xFF) [True, True, False] = Inr b \<and>
    runLengthPairs 3 b = Some (Inr [(True, 2), (False, 1)])"
  using runLengthPairs_runs [of True "[True, False]" 3 "\<lambda>i. 0xFF"] by simp

text \<open>
  Property C2. \<^verbatim>\<open>encodeMask\<close> takes the smaller of the two formats: for a mask of 1 to \<open>2 ^ 32 - 1\<close> values its buffer is as
  long as the shorter of the plain bit mask and the run-length encoding. An empty mask has no encoding: the run-length
  size of an empty mask is zero, so it is preferred to the bit mask, and the five header bytes are then copied past
  the end of the empty buffer.
\<close>

theorem encodeMask_smallest:
  assumes "length m < 2 ^ 32"
  shows "if m = [] then encodeMask uninit m = Inl OutOfBounds
    else \<exists>b. encodeMask uninit m = Inr b \<and>
      length b = min (computeBufferSizeMaskBitMask (length m)) (bufSize (computeMaskRunLengthProperties m))"
proof (cases m)
  case Nil
  then show ?thesis
    by (simp add: encodeMask_def encodeMask_props_def encodeMaskRunLength_props_def memcpy_front_def
        new_buffer_def encodeMaskPayloadHeader_def)
next
  case m: (Cons v vs)
  then show ?thesis
    using encodeMaskBitMask_correct [OF assms, of uninit]
      encodeMaskRunLength_correct [of v vs uninit] assms
    by (auto simp: encodeMask_def encodeMask_props_def encodeMaskRunLength_def min_def)
qed

theorem encodeMask_smallest_witness:
  "(\<exists>b. encodeMask (\<lambda>i. 7) [True, False] = Inr b \<and>
    length b = min (computeBufferSizeMaskBitMask (length [True, False]))
      (bufSize (computeMaskRunLengthProperties [True, False]))) \<and>
   encodeMask (\<lambda>i. 7) [] = Inl OutOfBounds"
  using encodeMask_smallest [of "[True, False]" "\<lambda>i. 7"] encodeMask_smallest [of "[]" "\<lambda>i. 7"] by simp

text \<open>
  The header round trip: a header whose numbers fit (fewer than \<open>2 ^ 32\<close> values and, in the
  run-length format, 1 to 64 bits per run) is read back from its five bytes, whatever follows them.
\<close>

theorem decode_encode_header:
  assumes "header_wf h"
  shows "\<exists>b. encodeMaskPayloadHeader h = Inr b \<and> length b = MASK_PAYLOAD_HEADER_SIZE \<and>
    decodeMaskPayloadHeader (b @ rest) = Inr h"
  using header_roundtrip [OF assms] by (auto simp: MASK_PAYLOAD_HEADER_SIZE_def)

theorem decode_encode_header_witness:
  "\<exists>b. encodeMaskPayloadHeader \<lparr>payloadFormat = RunLength, numBits = 77, runLengthNumBitsPerInt = 64,
       runLengthStartValue = True\<rparr> = Inr b \<and> length b = MASK_PAYLOAD_HEADER_SIZE \<and>
     decodeMaskPayloadHeader (b @ [1, 2]) = Inr \<lparr>payloadFormat = RunLength, numBits = 77,
       runLengthNumBitsPerInt = 64, runLengthStartValue = True\<rparr>"
  by (rule decode_encode_header) (simp add: header_wf_def)

section \<open>Where the promise is not kept\<close>

text \<open>
  Reading a payload that is shorter than the header is refused with
  \<^verbatim>\<open>MaskCompressionException\<close> by both iterations and by \<^verbatim>\<open>getEncodedMaskPayload\<close>.
\<close>

theorem maskValues_refuses:
  assumes "length b < MASK_PAYLOAD_HEADER_SIZE"
  shows "maskValues fuel b = Some (Inl MaskCompressionException) \<and>
    runLengthPairs fuel b = Some (Inl MaskCompressionException) \<and>
    getEncodedMaskPayload b = Inl MaskCompressionException"
  using assms
  by (simp add: maskValues_def runLengthPairs_def getEncodedMaskPayload_def decodeMaskPayloadHeader_def)

theorem maskValues_refuses_witness:
  "maskValues 0 [0x80] = Some (Inl MaskCompressionException) \<and>
    runLengthPairs 0 [0x80] = Some (Inl MaskCompressionException) \<and>
    getEncodedMaskPayload [0x80] = Inl MaskCompressionException"
  by (rule maskValues_refuses) (simp add: MASK_PAYLOAD_HEADER_SIZE_def)

end
