(* ===== verification/Numerals.thy ===== *)
theory Numerals
  imports Prelude
begin

text \<open>
  Decimal numbers as the C++ library writes and reads them: \<^verbatim>\<open>std::to_string\<close> and \<^verbatim>\<open>std::stol\<close>, which skips white
  space, takes a sign and the digits that follow, ignores the rest, and throws without a digit and for a number that
  does not fit into a \<^verbatim>\<open>long\<close>.
\<close>

fun digits :: "nat \<Rightarrow> string" where
  "digits n = (if n < 10 then [char_of (48 + n)] else digits (n div 10) @ [char_of (48 + n mod 10)])"

declare digits.simps [simp del]

definition int_to_string :: "int \<Rightarrow> string" where
  "int_to_string i = (if i < 0 then ''-'' @ digits (nat (- i)) else digits (nat i))"

definition is_digit :: "char \<Rightarrow> bool" where
  "is_digit c \<longleftrightarrow> 48 \<le> (of_char c :: nat) \<and> (of_char c :: nat) \<le> 57"

definition digits_value :: "string \<Rightarrow> nat" where
  "digits_value ds = foldl (\<lambda>a c. 10 * a + (of_char c - 48)) 0 ds"

definition is_space :: "char \<Rightarrow> bool" where
  "is_space c \<longleftrightarrow> (of_char c :: nat) \<in> {9, 10, 11, 12, 13, 32}"

fun stol_sign :: "string \<Rightarrow> int \<times> string" where
  "stol_sign [] = (1, [])"
| "stol_sign (c # cs) = (if c = CHR ''-'' then (- 1, cs) else if c = CHR ''+'' then (1, cs) else (1, c # cs))"

definition stol :: "string \<Rightarrow> int res" where
  "stol str =
     (let (sign, cs) = stol_sign (dropWhile is_space str); ds = takeWhile is_digit cs; v = sign * int (digits_value ds)
      in if ds = [] then Inl ForeignException
         else if - (2 ^ 63) \<le> v \<and> v < 2 ^ 63 then Inr v
         else Inl ForeignException)"

lemma digits_chars: "c \<in> set (digits n) \<Longrightarrow> c \<noteq> CHR '','' \<and> c \<noteq> CHR ''-''"
proof (induction n rule: digits.induct)
  case (1 n)
  have "char_of (48 + k) \<noteq> CHR '','' \<and> char_of (48 + k) \<noteq> CHR ''-''" if "k < 10" for k :: nat
  proof -
    have "k \<in> {0, 1, 2, 3, 4, 5, 6, 7, 8, 9}" using that by auto
    then show ?thesis by (auto simp: char_of_def)
  qed
  moreover have "n mod 10 < 10" by simp
  ultimately show ?case using 1 by (subst (asm) (2) digits.simps) (auto split: if_splits)
qed

lemma digit_inj:
  assumes "k < 10" "l < 10" "(char_of (48 + k) :: char) = char_of (48 + l)"
  shows "k = (l :: nat)"
proof -
  have "of_char (char_of (48 + k) :: char) = (of_char (char_of (48 + l) :: char) :: nat)"
    using assms(3) by simp
  then show ?thesis using assms(1,2) by simp
qed

lemma digits_not_Nil [simp]: "digits n \<noteq> []"
  by (subst digits.simps) simp

lemmas digits_not_Nil' [simp] = digits_not_Nil [symmetric]

lemma digits_small: "n < 10 \<Longrightarrow> digits n = [char_of (48 + n)]"
  by (subst digits.simps) simp

lemma digits_big: "\<not> n < 10 \<Longrightarrow> digits n = digits (n div 10) @ [char_of (48 + n mod 10)]"
  by (subst digits.simps) simp

lemma digits_inj: "digits m = digits n \<Longrightarrow> m = n"
proof (induction m arbitrary: n rule: digits.induct)
  case (1 m)
  show ?case
  proof (cases "m < 10")
    case True
    then have "n < 10" using 1(2) by (cases "n < 10") (auto simp: digits_small digits_big)
    then show ?thesis using True 1(2) digit_inj by (simp add: digits_small)
  next
    case False
    then have n: "\<not> n < 10" using 1(2) by (cases "n < 10") (auto simp: digits_small digits_big)
    then have d: "digits (m div 10) = digits (n div 10)"
      "(char_of (48 + m mod 10) :: char) = char_of (48 + n mod 10)"
      using 1(2) False by (simp_all add: digits_big)
    have "m div 10 = n div 10" using 1(1) [OF False d(1)] .
    moreover have "m mod 10 = n mod 10" using digit_inj [OF _ _ d(2)] by simp
    ultimately show ?thesis by (metis div_mult_mod_eq)
  qed
qed

lemma int_to_string_chars: "c \<in> set (int_to_string i) \<Longrightarrow> c \<noteq> CHR '',''"
  using digits_chars by (auto simp: int_to_string_def split: if_splits)

lemma int_to_string_inj: "int_to_string i = int_to_string j \<Longrightarrow> i = j"
proof -
  assume a: "int_to_string i = int_to_string j"
  have neg: "digits n \<noteq> CHR ''-'' # xs" for n xs
    using digits_chars [of "CHR ''-''" n] by (metis list.set_intros(1))
  show "i = j"
    using a neg [of "nat i"] neg [of "nat j"] digits_inj [of "nat i" "nat j"] digits_inj [of "nat (- i)" "nat (- j)"]
    by (auto simp: int_to_string_def split: if_splits dest: sym)
qed

lemma digits_value_snoc: "digits_value (ds @ [c]) = 10 * digits_value ds + (of_char c - 48)"
  by (simp add: digits_value_def)

lemma digits_value_mono: "digits_value ds \<le> digits_value (ds @ es)"
proof (induction es rule: rev_induct)
  case Nil
  then show ?case by simp
next
  case (snoc e es)
  then show ?case using digits_value_snoc [of "ds @ es" e] by simp
qed

lemma of_char_0: "(of_char CHR ''0'' :: nat) = 48"
  by simp

lemma digits_value_pos:
  assumes "ds \<noteq> []" "is_digit (hd ds)" "hd ds \<noteq> CHR ''0''"
  shows "0 < digits_value ds"
proof -
  have "(of_char (hd ds) :: nat) \<noteq> of_char CHR ''0''" using assms(3) by (simp only: of_char_eq_iff not_False_eq_True)
  then have "0 < digits_value [hd ds]"
    using assms(2) by (simp add: digits_value_def is_digit_def)
  also have "\<dots> \<le> digits_value ([hd ds] @ tl ds)" by (rule digits_value_mono)
  finally show ?thesis using assms(1) by simp
qed


lemma is_digit_not_space: "is_digit c \<Longrightarrow> \<not> is_space c"
  by (auto simp: is_digit_def is_space_def)

lemma is_digit_not_sign: "is_digit c \<Longrightarrow> c \<noteq> CHR ''-'' \<and> c \<noteq> CHR ''+''"
  by (auto simp: is_digit_def)

lemma stol_digits:
  assumes "ds \<noteq> []" "list_all is_digit ds" "rest = [] \<or> \<not> is_digit (hd rest)"
  shows "stol (ds @ rest) =
    (if digits_value ds < 2 ^ 63 then Inr (int (digits_value ds)) else Inl ForeignException)"
proof -
  obtain d ds' where d: "ds = d # ds'" using assms(1) by (cases ds) auto
  have sign: "stol_sign (ds @ rest) = (1, ds @ rest)"
    using assms(2) is_digit_not_sign [of d] by (auto simp: d)
  have "dropWhile is_space (ds @ rest) = ds @ rest" using assms(2) is_digit_not_space [of d] by (auto simp: d)
  moreover have "takeWhile is_digit (ds @ rest) = ds"
    using assms(2,3) by (cases rest) (auto simp: list_all_iff takeWhile_append2)
  ultimately show ?thesis using assms(1) sign by (auto simp: stol_def)
qed

lemma digits_all: "list_all is_digit (digits n)"
proof (induction n rule: digits.induct)
  case (1 n)
  have "is_digit (char_of (48 + k))" if "k < 10" for k :: nat using that by (simp add: is_digit_def)
  then show ?case using 1 by (cases "n < 10") (simp_all add: digits_small digits_big)
qed

lemma digits_value_digits [simp]: "digits_value (digits n) = n"
proof (induction n rule: digits.induct)
  case (1 n)
  show ?case
  proof (cases "n < 10")
    case True
    then show ?thesis by (simp add: digits_small digits_value_def)
  next
    case False
    then show ?thesis using 1 by (simp add: digits_big digits_value_snoc)
  qed
qed

lemma stol_int_to_string:
  assumes "- (2 ^ 63) \<le> i" "i < 2 ^ 63" "rest = [] \<or> \<not> is_digit (hd rest)"
  shows "stol (int_to_string i @ rest) = Inr i"
proof (cases "i < 0")
  case True
  have "takeWhile is_digit (digits (nat (- i)) @ rest) = digits (nat (- i))"
    using digits_all [of "nat (- i)"] assms(3) by (cases rest) (auto simp: list_all_iff takeWhile_append2)
  then show ?thesis using True assms(1,2) by (simp add: int_to_string_def stol_def is_space_def)
next
  case False
  then show ?thesis
    using stol_digits [OF digits_not_Nil digits_all assms(3), of "nat i"] assms(2) by (simp add: int_to_string_def)
qed

end
