(* ===== verification/Mappings.thy ===== *)
theory Mappings
  imports Domains MaskRoundTrip Numerals
begin

text \<open>
  \<^verbatim>\<open>src/src/multio/domain/Mappings.{h,cc}\<close> and \<^verbatim>\<open>Mask.{h,cc}\<close>: the domain maps the clients announce, the
  consistency check, and the store of global masks that are put together from partial masks.
  An operation that can throw half way through returns the state it leaves behind with its result.
\<close>

section \<open>Domain maps\<close>

text \<open>\<^verbatim>\<open>std::map<Peer, Domain>\<close>: entries in the order of the peers.\<close>

record DomainMap =
  domainMap :: "(Peer \<times> Domain) list"
  consistent :: bool

definition empty_DomainMap :: DomainMap where
  "empty_DomainMap = \<lparr>domainMap = [], consistent = False\<rparr>"

definition dm_at :: "DomainMap \<Rightarrow> Peer \<Rightarrow> Domain res" where
  "dm_at m p = (case map_of (domainMap m) p of Some d \<Rightarrow> Inr d | None \<Rightarrow> Inl OutOfRange)"

definition dm_contains :: "DomainMap \<Rightarrow> Peer \<Rightarrow> bool" where
  "dm_contains m p \<longleftrightarrow> map_of (domainMap m) p \<noteq> None"

fun emplace_sorted :: "Peer \<Rightarrow> Domain \<Rightarrow> (Peer \<times> Domain) list \<Rightarrow> (Peer \<times> Domain) list" where
  "emplace_sorted p d [] = [(p, d)]"
| "emplace_sorted p d ((q, e) # m) =
     (if p < q then (p, d) # (q, e) # m else if p = q then (q, e) # m else (q, e) # emplace_sorted p d m)"

definition dm_emplace :: "Peer \<Rightarrow> Domain \<Rightarrow> DomainMap \<Rightarrow> DomainMap" where
  "dm_emplace p d m = m\<lparr>domainMap := emplace_sorted p d (domainMap m)\<rparr>"

text \<open>The total is an \<^verbatim>\<open>int\<close>: each sum is converted back to 32 bits.\<close>

definition to_int32 :: "int \<Rightarrow> int" where
  "to_int32 x = signed_take_bit 31 x"

definition dm_isComplete :: "DomainMap \<Rightarrow> bool res" where
  "dm_isComplete m =
     (if consistent m then Inr True
      else bind_res (fold_res (\<lambda>(_, d) total. bind_res (localSize d) (\<lambda>s. Inr (to_int32 (total + s)))) (domainMap m) 0)
        (\<lambda>totalSize. case domainMap m of
           [] \<Rightarrow> Inl UndefinedBehaviour
         | (_, d) # _ \<Rightarrow> bind_res (partialSize d) (\<lambda>ps. Inr (totalSize = ps))))"

definition dm_size :: "DomainMap \<Rightarrow> nat res" where
  "dm_size m = bind_res (dm_isComplete m) (\<lambda>c. if \<not> c then Inl SeriousBug else Inr (length (domainMap m)))"

section \<open>Mappings\<close>

type_synonym Mappings = "string \<Rightarrow> DomainMap option"

definition mappings_get :: "Mappings \<Rightarrow> string \<Rightarrow> DomainMap res" where
  "mappings_get st name = (case st name of Some m \<Rightarrow> Inr m | None \<Rightarrow> Inl AssertionFailed)"

definition new_domain :: "'v message \<Rightarrow> int list \<Rightarrow> Domain res" where
  "new_domain msg local_map =
     bind_res (md_get as_string ''representation'' (metadata msg)) (\<lambda>r.
       if r = ''unstructured'' then bind_res (msg_globalSize msg) (\<lambda>gs. Inr (Unstructured local_map gs))
       else if r = ''structured'' then new_structured local_map
       else Inl AssertionFailed)"

definition mappings_add :: "'v message \<Rightarrow> Mappings \<Rightarrow> Mappings \<times> unit res" where
  "mappings_add msg st =
     (case msg_name msg of
        Inl e \<Rightarrow> (st, Inl e)
      | Inr name \<Rightarrow>
          let m = (case st name of Some m \<Rightarrow> m | None \<Rightarrow> empty_DomainMap);
              st' = st(name \<mapsto> m)
          in if dm_contains m (source msg) then (st', Inr ())
             else case payload msg of
               Indices local_map \<Rightarrow>
                 (case new_domain msg local_map of
                    Inl e \<Rightarrow> (st', Inl e)
                  | Inr d \<Rightarrow> (st'(name \<mapsto> dm_emplace (source msg) d m), Inr ()))
             | _ \<Rightarrow> (st', Inl UndefinedBehaviour))"

definition payload_length :: "'v payload \<Rightarrow> nat" where
  "payload_length p = (case p of Bytes b \<Rightarrow> length b | Indices is \<Rightarrow> length is | Values vs \<Rightarrow> length vs)"

definition checkDomainConsistency :: "'v message list \<Rightarrow> Mappings \<Rightarrow> Mappings res" where
  "checkDomainConsistency localDomains st =
     (if localDomains = [] then Inl UndefinedBehaviour
      else
        bind_res (msg_domain (last localDomains)) (\<lambda>name.
        bind_res (mappings_get st name) (\<lambda>m.
        if consistent m then Inr st
        else
          bind_res (fold_res (\<lambda>local glIndices.
              bind_res (msg_domain local) (\<lambda>n.
              bind_res (mappings_get st n) (\<lambda>dm.
              bind_res (dm_at dm (source local)) (\<lambda>d.
              collectIndices d (payload_length (payload local)) glIndices)))) localDomains {}) (\<lambda>globalIndices.
          bind_res (msg_globalSize (last localDomains)) (\<lambda>gs.
          if (of_nat (card globalIndices) :: u64) \<noteq> of_int gs then Inl SeriousBug
          else Inr (st(name \<mapsto> m\<lparr>consistent := True\<rparr>)))))))"

section \<open>The mask store\<close>

definition mask_key_of :: "string \<Rightarrow> int \<Rightarrow> string" where
  "mask_key_of domain level = ''('' @ domain @ '','' @ int_to_string level @ '')''"

definition mask_key :: "BaseMetadata \<Rightarrow> string res" where
  "mask_key md =
     bind_res (md_get as_string ''domain'' md) (\<lambda>d.
     bind_res (md_get as_integer ''level'' md) (\<lambda>l. Inr (mask_key_of d l)))"

record 'v MaskStore =
  messages :: "string \<Rightarrow> 'v message list option"
  bitmasks :: "string \<Rightarrow> u8 list option"

definition addPartialMask :: "(BaseMetadata \<Rightarrow> string) \<Rightarrow> 'v message \<Rightarrow> 'v MaskStore \<Rightarrow> 'v MaskStore" where
  "addPartialMask toJSON msg st =
     (let fid = toJSON (metadata msg);
          msgList = (case messages st fid of Some ms \<Rightarrow> ms | None \<Rightarrow> [])
      in st\<lparr>messages := (messages st)(fid \<mapsto> msgList @ [msg])\<rparr>)"

definition mask_allPartsArrived :: "(BaseMetadata \<Rightarrow> string) \<Rightarrow> Mappings \<Rightarrow> 'v message \<Rightarrow> 'v MaskStore \<Rightarrow> bool res" where
  "mask_allPartsArrived toJSON maps msg st =
     bind_res (msg_domain msg) (\<lambda>n.
     bind_res (mappings_get maps n) (\<lambda>dm.
     bind_res (dm_isComplete dm) (\<lambda>c.
     if \<not> c then Inr False
     else case messages st (toJSON (metadata msg)) of
       None \<Rightarrow> Inl OutOfRange
     | Some ms \<Rightarrow> bind_res (dm_size dm) (\<lambda>n. Inr (length ms = n)))))"

definition mask_part :: "Mappings \<Rightarrow> 'v message \<Rightarrow> bool list \<Rightarrow> bool list res" where
  "mask_part maps msg bitmask =
     bind_res (msg_domain msg) (\<lambda>n.
     bind_res (mappings_get maps n) (\<lambda>dm.
     bind_res (dm_at dm (source msg)) (\<lambda>d.
     case payload msg of Bytes b \<Rightarrow> toBitmask d b bitmask | _ \<Rightarrow> Inl UndefinedBehaviour)))"

definition createBitmask ::
    "(nat \<Rightarrow> u8) \<Rightarrow> (BaseMetadata \<Rightarrow> string) \<Rightarrow> Mappings \<Rightarrow> 'v message \<Rightarrow> 'v MaskStore \<Rightarrow> 'v MaskStore res" where
  "createBitmask uninit toJSON maps inMsg st =
     (let fid = toJSON (metadata inMsg) in
      bind_res (msg_globalSize inMsg) (\<lambda>gs.
      if gs < 0 then Inl ForeignException
      else case messages st fid of
        None \<Rightarrow> Inl OutOfRange
      | Some ms \<Rightarrow>
          bind_res (fold_res (mask_part maps) ms (replicate (nat gs) False)) (\<lambda>bitmask.
          bind_res (mask_key (metadata inMsg)) (\<lambda>bkey.
          bind_res (encodeMaskRunLength uninit bitmask) (\<lambda>b.
          Inr (st\<lparr>bitmasks := (bitmasks st)(bkey \<mapsto> b), messages := (messages st)(fid \<mapsto> [])\<rparr>))))))"

definition mask_add ::
    "(nat \<Rightarrow> u8) \<Rightarrow> (BaseMetadata \<Rightarrow> string) \<Rightarrow> Mappings \<Rightarrow> 'v message \<Rightarrow> 'v MaskStore \<Rightarrow> 'v MaskStore \<times> unit res" where
  "mask_add uninit toJSON maps msg st =
     (let st1 = addPartialMask toJSON msg st
      in case mask_allPartsArrived toJSON maps msg st1 of
        Inl e \<Rightarrow> (st1, Inl e)
      | Inr False \<Rightarrow> (st1, Inr ())
      | Inr True \<Rightarrow> (case createBitmask uninit toJSON maps msg st1 of
            Inl e \<Rightarrow> (st1, Inl e)
          | Inr st2 \<Rightarrow> (st2, Inr ())))"

definition mask_get :: "'v MaskStore \<Rightarrow> string \<Rightarrow> (u8 list \<times> MaskPayloadHeader) res" where
  "mask_get st bkey =
     (case bitmasks st bkey of
        None \<Rightarrow> Inl AssertionFailed
      | Some b \<Rightarrow> bind_res (decodeMaskPayloadHeader b) (\<lambda>h. Inr (b, h)))"

section \<open>Lemmas on domain maps\<close>

abbreviation dm_sorted :: "(Peer \<times> Domain) list \<Rightarrow> bool" where
  "dm_sorted m \<equiv> sorted_wrt (<) (map fst m)"

lemma emplace_sorted_keys: "fst ` set (emplace_sorted p d m) = insert p (fst ` set m)"
  by (induction p d m rule: emplace_sorted.induct) auto

lemma emplace_sorted_sorted: "dm_sorted m \<Longrightarrow> dm_sorted (emplace_sorted p d m)"
proof (induction p d m rule: emplace_sorted.induct)
  case (2 p d q e m)
  have "q < x" if "x \<in> fst ` set (emplace_sorted p d m)" "\<not> p < q" "p \<noteq> q" for x
    using that 2(2) unfolding emplace_sorted_keys by auto
  then show ?case using 2 by (auto intro: order_less_trans)
qed simp

lemma emplace_sorted_find:
  "dm_sorted m \<Longrightarrow> map_of (emplace_sorted p d m) q =
     (case map_of m q of Some e \<Rightarrow> Some e | None \<Rightarrow> if q = p then Some d else None)"
proof (induction p d m rule: emplace_sorted.induct)
  case (2 p d q' e m)
  have "map_of m p = None" if "p < q'"
  proof -
    have "p \<notin> fst ` set m" using 2(2) that by (auto dest: order_less_trans)
    then show ?thesis by (simp add: map_of_eq_None_iff)
  qed
  then show ?case using 2 by (auto split: option.splits)
qed simp

definition mappings_wf :: "Mappings \<Rightarrow> bool" where
  "mappings_wf st \<longleftrightarrow> (\<forall>n m. st n = Some m \<longrightarrow> dm_sorted (domainMap m) \<and>
     (\<forall>(p, d)\<in>set (domainMap m). (\<exists>def gs. d = Unstructured def gs) \<or> (\<exists>def. d = Structured def \<and> length def = 12)))"

lemma new_domain_kind:
  "new_domain msg l = Inr d \<Longrightarrow> (\<exists>gs. d = Unstructured l gs) \<or> (\<exists>def. d = Structured def \<and> length def = 12)"
  by (auto simp: new_domain_def new_structured_def bind_res_Inr_iff split: if_splits)

lemma emplace_sorted_set: "set (emplace_sorted p d m) \<subseteq> insert (p, d) (set m)"
  by (induction p d m rule: emplace_sorted.induct) auto

lemma last_separator:
  "xs @ x # ys = xs' @ x # ys' \<Longrightarrow> x \<notin> set ys \<Longrightarrow> x \<notin> set ys' \<Longrightarrow> xs = xs' \<and> ys = ys'"
proof (induction xs arbitrary: xs')
  case Nil
  then show ?case by (cases xs') auto
next
  case (Cons a xs)
  then show ?case by (cases xs') auto
qed

section \<open>Properties\<close>

text \<open>
  \<^verbatim>\<open>Mappings::add\<close> keeps the invariant of the mappings, whether it throws or not: the domains of a map are
  ordered by peer with one entry per peer, and they are unstructured, or structured with twelve numbers.
\<close>

theorem mappings_add_wf:
  assumes "mappings_wf st" and "mappings_add msg st = (st', r)"
  shows "mappings_wf st'"
proof -
  have e: "mappings_wf (st(n \<mapsto> (case st n of Some m \<Rightarrow> m | None \<Rightarrow> empty_DomainMap)))" for n
    using assms(1) by (auto simp: mappings_wf_def empty_DomainMap_def split: option.splits)
  have "mappings_wf (st(n \<mapsto> dm_emplace p d (case st n of Some m \<Rightarrow> m | None \<Rightarrow> empty_DomainMap)))"
    if "new_domain msg l = Inr d" for n p d l
  proof -
    let ?m = "case st n of Some m \<Rightarrow> m | None \<Rightarrow> empty_DomainMap"
    have m: "dm_sorted (domainMap ?m)" "\<forall>(p, d)\<in>set (domainMap ?m).
        (\<exists>def gs. d = Unstructured def gs) \<or> (\<exists>def. d = Structured def \<and> length def = 12)"
      using assms(1) by (auto simp: mappings_wf_def empty_DomainMap_def split: option.splits)
    from m(1) have "dm_sorted (domainMap (dm_emplace p d ?m))"
      by (simp add: dm_emplace_def emplace_sorted_sorted)
    moreover have "(\<exists>def gs. e = Unstructured def gs) \<or> (\<exists>def. e = Structured def \<and> length def = 12)"
      if "(q, e) \<in> set (domainMap (dm_emplace p d ?m))" for q e
    proof -
      have "(q, e) = (p, d) \<or> (q, e) \<in> set (domainMap ?m)"
        using that emplace_sorted_set [of p d "domainMap ?m"] by (auto simp: dm_emplace_def)
      then show ?thesis
        using new_domain_kind [OF \<open>new_domain msg l = Inr d\<close>] m(2) by fastforce
    qed
    ultimately show ?thesis using assms(1) unfolding mappings_wf_def by auto
  qed
  then show ?thesis
    using assms e by (auto simp: mappings_add_def Let_def split: sum.splits if_splits payload.splits)
qed

theorem mappings_add_wf_witness:
  "mappings_wf (fst (mappings_add \<lparr>tag = Tag.Domain, source = default_peer, destination = default_peer,
     metadata = [(''name'', MString ''t''), (''representation'', MString ''unstructured''),
                 (''misc-globalSize'', MInteger 2)], payload = Indices [0, 1]\<rparr> (\<lambda>_. None)))"
  by (rule mappings_add_wf [OF _ prod.collapse [symmetric]]) (simp add: mappings_wf_def)

text \<open>
  A domain that is known is never replaced: whatever \<^verbatim>\<open>Mappings::add\<close> is called with, a peer that has a
  domain keeps it.
\<close>

theorem mappings_add_keeps:
  assumes "mappings_wf st" and "st n = Some m" and "map_of (domainMap m) p = Some d"
    and "mappings_add msg st = (st', r)"
  shows "\<exists>m'. st' n = Some m' \<and> map_of (domainMap m') p = Some d"
proof -
  have "dm_sorted (domainMap m)" using assms(1,2) by (auto simp: mappings_wf_def)
  then have "map_of (domainMap (dm_emplace q e m)) p = Some d" for q e
    using assms(3) by (simp add: dm_emplace_def emplace_sorted_find)
  then show ?thesis
    using assms(2-4)
    by (auto simp: mappings_add_def Let_def split: sum.splits if_splits payload.splits option.splits)
qed

theorem mappings_add_keeps_witness:
  "\<exists>m'. fst (mappings_add \<lparr>tag = Tag.Domain, source = default_peer, destination = default_peer,
       metadata = [(''name'', MString ''t'')], payload = Indices [0, 1]\<rparr>
       [''t'' \<mapsto> \<lparr>domainMap = [(default_peer, Unstructured [3] 1)], consistent = False\<rparr>]) ''t'' = Some m' \<and>
     map_of (domainMap m') default_peer = Some (Unstructured [3] 1)"
  by (rule mappings_add_keeps [where m = "\<lparr>domainMap = [(default_peer, Unstructured [3] 1)], consistent = False\<rparr>",
        OF _ _ _ prod.collapse [symmetric]]) (simp_all add: mappings_wf_def)

text \<open>
  A domain message with an unknown representation is refused, but only after an empty domain map has been
  created for its name; asking this map whether it is complete dereferences the beginning of an
  empty map.
\<close>

theorem unknown_representation_leaves_empty_map:
  assumes "msg_name msg = Inr n" and "st n = None" and "payload msg = Indices l"
    and "md_get as_string ''representation'' (metadata msg) = Inr r"
    and "r \<noteq> ''unstructured''" and "r \<noteq> ''structured''"
  shows "\<exists>st' m. mappings_add msg st = (st', Inl AssertionFailed) \<and> mappings_get st' n = Inr m \<and>
    dm_isComplete m = Inl UndefinedBehaviour"
  using assms
  by (simp add: mappings_add_def dm_contains_def empty_DomainMap_def new_domain_def mappings_get_def
      dm_isComplete_def)

theorem unknown_representation_leaves_empty_map_witness:
  "\<exists>st' m. mappings_add \<lparr>tag = Tag.Domain, source = default_peer, destination = default_peer,
       metadata = [(''name'', MString ''t''), (''representation'', MString ''spectral'')],
       payload = Indices [0, 1]\<rparr> (\<lambda>_. None) = (st', Inl AssertionFailed) \<and> mappings_get st' ''t'' = Inr m \<and>
    dm_isComplete m = Inl UndefinedBehaviour"
  by (rule unknown_representation_leaves_empty_map [where r = "''spectral''"])
    (simp_all add: msg_name_def required_def md_getOpt_def md_get_def getter_def md_find_def)

text \<open>
  Masks of different domains or levels are never confused: \<^verbatim>\<open>Mask::key\<close> is injective, also when the
  domain's name has commas in it.
\<close>

theorem mask_key_injective:
  assumes "mask_key_of d l = mask_key_of d' l'"
  shows "d = d' \<and> l = l'"
proof -
  have "(d @ CHR '','' # int_to_string l) @ '')'' = (d' @ CHR '','' # int_to_string l') @ '')''"
    using assms by (simp add: mask_key_of_def)
  then have "d @ CHR '','' # int_to_string l = d' @ CHR '','' # int_to_string l'" by simp
  from last_separator [OF this] show ?thesis
    using int_to_string_chars int_to_string_inj by metis
qed

theorem mask_key_injective_witness: "''a,1'' = ''a,1'' \<and> (2::int) = 2"
  by (rule mask_key_injective) (rule refl)

end
