(* ===== verification/Aggregation.thy ===== *)
theory Aggregation
  imports Mappings
begin

text \<open>
  \<^verbatim>\<open>src/src/multio/action/aggregate\<close>: \<^verbatim>\<open>AggregationCatalogue\<close> and the \<^verbatim>\<open>Aggregate\<close> action. A new
  buffer has unspecified content, the parameter \<open>uninit\<close>; the metadata of the message that passes a
  flush on is parsed from the field id, the parameter \<open>fromYAML\<close>. An execution returns the state it
  leaves and the messages it passes to the next action, or the exception.
\<close>

section \<open>The catalogue\<close>

record 'v AggregationCatalogue =
  messageMap :: "string \<Rightarrow> 'v message option"
  processedParts :: "string \<Rightarrow> Peer set option"

definition cat_contains :: "'v AggregationCatalogue \<Rightarrow> string \<Rightarrow> bool" where
  "cat_contains c key \<longleftrightarrow> messageMap c key \<noteq> None \<and> processedParts c key \<noteq> None"

definition cat_getMessage :: "'v AggregationCatalogue \<Rightarrow> string \<Rightarrow> 'v message res" where
  "cat_getMessage c key = (case messageMap c key of Some m \<Rightarrow> Inr m | None \<Rightarrow> Inl OutOfRange)"

definition cat_partsCount :: "'v AggregationCatalogue \<Rightarrow> string \<Rightarrow> nat res" where
  "cat_partsCount c key =
     (if \<not> cat_contains c key then Inl AssertionFailed
      else case processedParts c key of Some ps \<Rightarrow> Inr (card ps) | None \<Rightarrow> Inl OutOfRange)"

definition cat_bookProcessedPart :: "string \<Rightarrow> Peer \<Rightarrow> 'v AggregationCatalogue \<Rightarrow> 'v AggregationCatalogue res" where
  "cat_bookProcessedPart key peer c =
     (if \<not> cat_contains c key then Inl AssertionFailed
      else case processedParts c key of
        Some ps \<Rightarrow> Inr (c\<lparr>processedParts := (processedParts c)(key \<mapsto> insert peer ps)\<rparr>)
      | None \<Rightarrow> Inl OutOfRange)"

definition cat_addNew ::
    "(nat \<Rightarrow> 'v) \<Rightarrow> (BaseMetadata \<Rightarrow> string) \<Rightarrow> 'v message \<Rightarrow> 'v AggregationCatalogue \<Rightarrow> 'v AggregationCatalogue res" where
  "cat_addNew uninit toJSON msg c =
     (let fid = toJSON (metadata msg) in
      if cat_contains c fid then Inl AssertionFailed
      else bind_res (msg_precision msg) (\<lambda>p.
           bind_res (msg_globalSize msg) (\<lambda>gs.
           if gs < 0 then Inl ForeignException
           else Inr (c\<lparr>
             messageMap := (case messageMap c fid of
                 None \<Rightarrow> (messageMap c)(fid \<mapsto>
                   \<lparr>tag = tag msg, source = destination msg, destination = destination msg,
                    metadata = metadata msg, payload = Values (map uninit [0..<nat gs])\<rparr>)
               | Some _ \<Rightarrow> messageMap c),
             processedParts := (case processedParts c fid of
                 None \<Rightarrow> (processedParts c)(fid \<mapsto> {})
               | Some _ \<Rightarrow> processedParts c)\<rparr>))))"

definition cat_extract :: "string \<Rightarrow> 'v AggregationCatalogue \<Rightarrow> ('v message \<times> 'v AggregationCatalogue) res" where
  "cat_extract fid c =
     (case messageMap c fid of
        None \<Rightarrow> Inl AssertionFailed
      | Some m \<Rightarrow> Inr (m, c\<lparr>messageMap := (messageMap c)(fid := None),
                             processedParts := (processedParts c)(fid := None)\<rparr>))"

section \<open>The action\<close>

record 'v Aggregate =
  aggCatalogue :: "'v AggregationCatalogue"
  flushes :: "string \<Rightarrow> Peer set option"

definition agg_allPartsArrived ::
    "(BaseMetadata \<Rightarrow> string) \<Rightarrow> Mappings \<Rightarrow> 'v message \<Rightarrow> 'v AggregationCatalogue \<Rightarrow> bool res" where
  "agg_allPartsArrived toJSON maps msg c =
     bind_res (msg_domain msg) (\<lambda>n.
     bind_res (mappings_get maps n) (\<lambda>dm.
     bind_res (dm_isComplete dm) (\<lambda>complete.
     if \<not> complete then Inr False
     else bind_res (cat_partsCount c (toJSON (metadata msg))) (\<lambda>k.
          bind_res (dm_size dm) (\<lambda>n. Inr (k = n))))))"

text \<open>
  The steps of \<^verbatim>\<open>handleField\<close> after the entry exists; an exception leaves the catalogue as it was.
\<close>

definition agg_part ::
    "(BaseMetadata \<Rightarrow> string) \<Rightarrow> Mappings \<Rightarrow> 'v message \<Rightarrow> 'v AggregationCatalogue \<Rightarrow> 'v AggregationCatalogue res" where
  "agg_part toJSON maps msg c =
     (let fid = toJSON (metadata msg) in
      bind_res (msg_domain msg) (\<lambda>n.
      bind_res (mappings_get maps n) (\<lambda>dm.
      bind_res (dm_at dm (source msg)) (\<lambda>d.
      bind_res (cat_getMessage c fid) (\<lambda>global.
      bind_res (toGlobal d msg global) (\<lambda>global'.
      cat_bookProcessedPart fid (source msg) (c\<lparr>messageMap := (messageMap c)(fid \<mapsto> global')\<rparr>)))))))"

definition agg_handleField ::
    "(nat \<Rightarrow> 'v) \<Rightarrow> (BaseMetadata \<Rightarrow> string) \<Rightarrow> Mappings \<Rightarrow> 'v message \<Rightarrow> 'v AggregationCatalogue \<Rightarrow>
     'v AggregationCatalogue \<times> bool res" where
  "agg_handleField uninit toJSON maps msg c =
     (case (if cat_contains c (toJSON (metadata msg)) then Inr c else cat_addNew uninit toJSON msg c) of
        Inl e \<Rightarrow> (c, Inl e)
      | Inr c1 \<Rightarrow> (case agg_part toJSON maps msg c1 of
            Inl e \<Rightarrow> (c1, Inl e)
          | Inr c2 \<Rightarrow> (c2, agg_allPartsArrived toJSON maps msg c2)))"

definition agg_flushCount ::
    "(BaseMetadata \<Rightarrow> string) \<Rightarrow> 'v message \<Rightarrow> 'v Aggregate \<Rightarrow> 'v Aggregate \<times> nat res" where
  "agg_flushCount toJSON msg st =
     (let fid = toJSON (metadata msg);
          ps = (case flushes st fid of Some ps \<Rightarrow> ps | None \<Rightarrow> {});
          st' = st\<lparr>flushes := (flushes st)(fid \<mapsto> insert (source msg) ps)\<rparr>
      in if source msg \<in> ps then (st', Inl UserError)
         else (st', Inr (card (insert (source msg) ps))))"

definition agg_handleFlush ::
    "(BaseMetadata \<Rightarrow> string) \<Rightarrow> Mappings \<Rightarrow> 'v message \<Rightarrow> 'v Aggregate \<Rightarrow> 'v Aggregate \<times> bool res" where
  "agg_handleFlush toJSON maps msg st =
     (case md_get as_string ''domain'' (metadata msg) of
        Inl e \<Rightarrow> (st, Inl e)
      | Inr domain \<Rightarrow>
          if domain = ''global'' then (st, Inr True)
          else case mappings_get maps domain of
            Inl e \<Rightarrow> (st, Inl e)
          | Inr dm \<Rightarrow>
              (case agg_flushCount toJSON msg st of
                 (st', Inl e) \<Rightarrow> (st', Inl e)
               | (st', Inr flCount) \<Rightarrow>
                   (case bind_res (dm_isComplete dm) (\<lambda>c. if \<not> c then Inr False
                           else bind_res (dm_size dm) (\<lambda>n. Inr (flCount = n))) of
                      Inl e \<Rightarrow> (st', Inl e)
                    | Inr False \<Rightarrow> (st', Inr False)
                    | Inr True \<Rightarrow>
                        (st'\<lparr>flushes := (flushes st')(toJSON (metadata msg) := None)\<rparr>, Inr True))))"

definition agg_globalFlush ::
    "(string \<Rightarrow> BaseMetadata) \<Rightarrow> string \<Rightarrow> 'v Aggregate \<Rightarrow> 'v message \<times> 'v Aggregate" where
  "agg_globalFlush fromYAML fid st =
     (\<lparr>tag = Flush, source = default_peer, destination = default_peer, metadata = fromYAML fid,
       payload = Bytes []\<rparr>,
      st\<lparr>flushes := (flushes st)(fid := None)\<rparr>)"

definition agg_field ::
    "(nat \<Rightarrow> 'v) \<Rightarrow> (BaseMetadata \<Rightarrow> string) \<Rightarrow> Mappings \<Rightarrow> 'v message \<Rightarrow> 'v Aggregate \<Rightarrow>
     'v Aggregate \<times> 'v message list res" where
  "agg_field uninit toJSON maps msg st =
     (case agg_handleField uninit toJSON maps msg (aggCatalogue st) of
        (c, Inl e) \<Rightarrow> (st\<lparr>aggCatalogue := c\<rparr>, Inl e)
      | (c, Inr False) \<Rightarrow> (st\<lparr>aggCatalogue := c\<rparr>, Inr [])
      | (c, Inr True) \<Rightarrow> (case cat_extract (toJSON (metadata msg)) c of
            Inl e \<Rightarrow> (st\<lparr>aggCatalogue := c\<rparr>, Inl e)
          | Inr (out, c') \<Rightarrow> (st\<lparr>aggCatalogue := c'\<rparr>, Inr [out])))"

definition agg_flush ::
    "(BaseMetadata \<Rightarrow> string) \<Rightarrow> (string \<Rightarrow> BaseMetadata) \<Rightarrow> Mappings \<Rightarrow> 'v message \<Rightarrow> 'v Aggregate \<Rightarrow>
     'v Aggregate \<times> 'v message list res" where
  "agg_flush toJSON fromYAML maps msg st =
     (case agg_handleFlush toJSON maps msg st of
        (st', Inl e) \<Rightarrow> (st', Inl e)
      | (st', Inr False) \<Rightarrow> (st', Inr [])
      | (st', Inr True) \<Rightarrow>
          (case agg_globalFlush fromYAML (toJSON (metadata msg)) st' of (out, st'') \<Rightarrow> (st'', Inr [out])))"

definition agg_executeImpl ::
    "(nat \<Rightarrow> 'v) \<Rightarrow> (BaseMetadata \<Rightarrow> string) \<Rightarrow> (string \<Rightarrow> BaseMetadata) \<Rightarrow> Mappings \<Rightarrow> 'v message \<Rightarrow>
     'v Aggregate \<Rightarrow> 'v Aggregate \<times> 'v message list res" where
  "agg_executeImpl uninit toJSON fromYAML maps msg st =
     (if tag msg = Field then agg_field uninit toJSON maps msg st
      else if tag msg = Flush then agg_flush toJSON fromYAML maps msg st
      else (st, Inr []))"

section \<open>One part after the other\<close>

definition pending :: "string \<Rightarrow> 'v message \<Rightarrow> 'v list \<Rightarrow> Peer set \<Rightarrow> 'v Aggregate \<Rightarrow> bool" where
  "pending fid m g ps st \<longleftrightarrow>
     messageMap (aggCatalogue st) fid = Some (m\<lparr>payload := Values g\<rparr>) \<and>
     processedParts (aggCatalogue st) fid = Some ps"

definition absent :: "string \<Rightarrow> 'v Aggregate \<Rightarrow> bool" where
  "absent fid st \<longleftrightarrow> messageMap (aggCatalogue st) fid = None \<and> processedParts (aggCatalogue st) fid = None"

definition field_part ::
    "(BaseMetadata \<Rightarrow> string) \<Rightarrow> Mappings \<Rightarrow> string \<Rightarrow> DomainMap \<Rightarrow> PrecisionTag \<Rightarrow> 'v message \<Rightarrow>
     Domain \<times> 'v list \<Rightarrow> bool" where
  "field_part toJSON maps fid dm p msg part \<longleftrightarrow>
     tag msg = Field \<and> toJSON (metadata msg) = fid \<and> (\<exists>n. msg_domain msg = Inr n \<and> maps n = Some dm) \<and>
     map_of (domainMap dm) (source msg) = Some (fst part) \<and> msg_precision msg = Inr p \<and>
     payload msg = Values (snd part)"

lemma dm_size_complete: "dm_isComplete dm = Inr True \<Longrightarrow> dm_size dm = Inr (length (domainMap dm))"
  by (simp add: dm_size_def)

lemma agg_part_ok:
  assumes "field_part toJSON maps fid dm p msg (d, l)" and "pending fid m g ps st"
    and "scatter p d l g = Inr g'"
  shows "\<exists>c. agg_part toJSON maps msg (aggCatalogue st) = Inr c \<and>
    pending fid m g' (insert (source msg) ps) (st\<lparr>aggCatalogue := c\<rparr>)"
  using assms
  by (auto simp: field_part_def pending_def agg_part_def mappings_get_def dm_at_def cat_getMessage_def
      toGlobal_def cat_bookProcessedPart_def cat_contains_def)

lemma agg_field_step:
  assumes part: "field_part toJSON maps fid dm p msg (d, l)" and pend: "pending fid m g ps st"
    and sc: "scatter p d l g = Inr g'" and complete: "dm_isComplete dm = Inr True"
  shows "card (insert (source msg) ps) = length (domainMap dm) \<Longrightarrow>
      \<exists>st'. agg_executeImpl uninit toJSON fromYAML maps msg st = (st', Inr [m\<lparr>payload := Values g'\<rparr>]) \<and> absent fid st'"
    and "card (insert (source msg) ps) \<noteq> length (domainMap dm) \<Longrightarrow>
      \<exists>st'. agg_executeImpl uninit toJSON fromYAML maps msg st = (st', Inr []) \<and>
        pending fid m g' (insert (source msg) ps) st'"
proof -
  obtain c where c: "agg_part toJSON maps msg (aggCatalogue st) = Inr c"
    "pending fid m g' (insert (source msg) ps) (st\<lparr>aggCatalogue := c\<rparr>)"
    using agg_part_ok [OF part pend sc] by blast
  have k: "cat_partsCount c fid = Inr (card (insert (source msg) ps))"
    using c(2) by (simp add: pending_def cat_partsCount_def cat_contains_def)
  have f: "tag msg = Field" "toJSON (metadata msg) = fid" using part by (simp_all add: field_part_def)
  have "cat_contains (aggCatalogue st) fid" using pend by (simp add: pending_def cat_contains_def)
  then have h: "agg_handleField uninit toJSON maps msg (aggCatalogue st) =
      (c, Inr (card (insert (source msg) ps) = length (domainMap dm)))"
    using c(1) k f complete dm_size_complete [OF complete] part
    by (auto simp: agg_handleField_def agg_allPartsArrived_def field_part_def mappings_get_def)
  have x: "cat_extract fid c = Inr (m\<lparr>payload := Values g'\<rparr>, c\<lparr>messageMap := (messageMap c)(fid := None),
      processedParts := (processedParts c)(fid := None)\<rparr>)"
    using c(2) by (simp add: pending_def cat_extract_def)
  show "\<exists>st'. agg_executeImpl uninit toJSON fromYAML maps msg st = (st', Inr [m\<lparr>payload := Values g'\<rparr>]) \<and> absent fid st'"
    if "card (insert (source msg) ps) = length (domainMap dm)"
    using that h x f by (simp add: agg_executeImpl_def agg_field_def absent_def)
  show "\<exists>st'. agg_executeImpl uninit toJSON fromYAML maps msg st = (st', Inr []) \<and>
        pending fid m g' (insert (source msg) ps) st'"
    if "card (insert (source msg) ps) \<noteq> length (domainMap dm)"
    using that h x f c(2) by (simp add: agg_executeImpl_def agg_field_def)
qed

text \<open>The first part creates the entry.\<close>

lemma agg_first:
  assumes part: "field_part toJSON maps fid dm p msg (d, l)" and abs: "absent fid st"
    and gs: "msg_globalSize msg = Inr gs" "0 \<le> gs"
  defines "m \<equiv> \<lparr>tag = tag msg, source = destination msg, destination = destination msg,
      metadata = metadata msg, payload = Values []\<rparr>"
  shows "\<exists>st'. pending fid m (map uninit [0..<nat gs]) {} st' \<and>
    agg_executeImpl uninit toJSON fromYAML maps msg st = agg_executeImpl uninit toJSON fromYAML maps msg st'"
proof -
  have f: "tag msg = Field" "toJSON (metadata msg) = fid" "msg_precision msg = Inr p"
    using part by (simp_all add: field_part_def)
  obtain c where c: "cat_addNew uninit toJSON msg (aggCatalogue st) = Inr c"
    "pending fid m (map uninit [0..<nat gs]) {} (st\<lparr>aggCatalogue := c\<rparr>)"
    using f gs abs by (auto simp: cat_addNew_def absent_def cat_contains_def pending_def m_def)
  have "cat_contains c fid" "\<not> cat_contains (aggCatalogue st) fid"
    using c(2) abs by (auto simp: pending_def cat_contains_def absent_def)
  then have "agg_executeImpl uninit toJSON fromYAML maps msg st =
      agg_executeImpl uninit toJSON fromYAML maps msg (st\<lparr>aggCatalogue := c\<rparr>)"
    using f c(1)
    by (simp add: agg_executeImpl_def agg_field_def agg_handleField_def split: sum.split bool.split prod.split)
  then show ?thesis using c(2) by blast
qed

section \<open>A whole field\<close>

text \<open>The messages passed on while a list of messages is executed.\<close>

fun agg_run ::
    "(nat \<Rightarrow> 'v) \<Rightarrow> (BaseMetadata \<Rightarrow> string) \<Rightarrow> (string \<Rightarrow> BaseMetadata) \<Rightarrow> Mappings \<Rightarrow> 'v message list \<Rightarrow>
     'v Aggregate \<Rightarrow> 'v Aggregate \<times> 'v message list res" where
  "agg_run uninit toJSON fromYAML maps [] st = (st, Inr [])"
| "agg_run uninit toJSON fromYAML maps (msg # msgs) st =
     (case agg_executeImpl uninit toJSON fromYAML maps msg st of
        (st', Inl e) \<Rightarrow> (st', Inl e)
      | (st', Inr out) \<Rightarrow> (case agg_run uninit toJSON fromYAML maps msgs st' of
            (st'', Inl e) \<Rightarrow> (st'', Inl e)
          | (st'', Inr out') \<Rightarrow> (st'', Inr (out @ out'))))"

lemma agg_run_pending:
  assumes "list_all2 (field_part toJSON maps fid dm p) msgs parts" and "pending fid m g ps st"
    and "fold_res (\<lambda>(d, l). scatter p d l) parts g = Inr g'" and complete: "dm_isComplete dm = Inr True"
    and "distinct (map source msgs)" and "set (map source msgs) \<inter> ps = {}" and "finite ps"
    and "card ps + length msgs = length (domainMap dm)" and "msgs \<noteq> []"
  shows "\<exists>st'. agg_run uninit toJSON fromYAML maps msgs st = (st', Inr [m\<lparr>payload := Values g'\<rparr>]) \<and> absent fid st'"
  using assms(1-3,5-)
proof (induction msgs parts arbitrary: g ps st rule: list_all2_induct)
  case Nil
  then show ?case by simp
next
  case (Cons msg msgs part parts)
  obtain d l where dl: "part = (d, l)" by force
  obtain h where h: "scatter p d l g = Inr h" "fold_res (\<lambda>(d, l). scatter p d l) parts h = Inr g'"
    using Cons.prems(2) dl by (auto simp: bind_res_Inr_iff)
  have card: "card (insert (source msg) ps) = Suc (card ps)" using Cons.prems(4,5) by simp
  note step = agg_field_step [OF Cons.hyps(1) [unfolded dl] Cons.prems(1) h(1) complete, of uninit fromYAML]
  show ?case
  proof (cases "msgs = []")
    case True
    then have "parts = []" using Cons.hyps(2) by simp
    then show ?thesis using step(1) card Cons.prems(6) True h(2) by auto
  next
    case False
    then have "card (insert (source msg) ps) \<noteq> length (domainMap dm)"
      using card Cons.prems(6) by (cases msgs) auto
    then obtain st1 where st1: "agg_executeImpl uninit toJSON fromYAML maps msg st = (st1, Inr [])"
      "pending fid m h (insert (source msg) ps) st1"
      using step(2) by blast
    have "card (insert (source msg) ps) + length msgs = length (domainMap dm)"
      using card Cons.prems(6) by simp
    then obtain st2 where "agg_run uninit toJSON fromYAML maps msgs st1 = (st2, Inr [m\<lparr>payload := Values g'\<rparr>])"
      "absent fid st2"
      using Cons.IH [OF st1(2) h(2)] Cons.prems False by auto
    then show ?thesis using st1(1) by simp
  qed
qed

lemma agg_run_Cons_cong:
  assumes "agg_executeImpl uninit toJSON fromYAML maps msg st = agg_executeImpl uninit toJSON fromYAML maps msg st'"
  shows "agg_run uninit toJSON fromYAML maps (msg # msgs) st = agg_run uninit toJSON fromYAML maps (msg # msgs) st'"
  using assms by simp

section \<open>Properties\<close>

text \<open>
  Property C3. The aggregation of a field: once every peer of a complete domain map has sent its part, in any order,
  the action has passed on exactly one message, with the metadata of the first part and the payload
  that the scattered parts make, and it has forgotten the field. Until the last part nothing is passed on.
\<close>

theorem aggregate_complete_field:
  assumes parts: "list_all2 (field_part toJSON maps fid dm p) msgs parts"
    and abs: "absent fid st" and complete: "dm_isComplete dm = Inr True"
    and src: "distinct (map source msgs)" "length msgs = length (domainMap dm)" "msgs \<noteq> []"
    and gs: "msg_globalSize (hd msgs) = Inr gs" "0 \<le> gs"
    and fields: "fold_res (\<lambda>(d, l). scatter p d l) parts (map uninit [0..<nat gs]) = Inr g"
  shows "\<exists>st' out. agg_run uninit toJSON fromYAML maps msgs st = (st', Inr [out]) \<and>
    payload out = Values g \<and> metadata out = metadata (hd msgs) \<and> source out = destination (hd msgs) \<and>
    absent fid st'"
proof -
  obtain msg msgs' where msgs: "msgs = msg # msgs'" using src(3) by (cases msgs) auto
  then obtain d l where "field_part toJSON maps fid dm p msg (d, l)"
    using parts by (auto simp: list_all2_Cons1)
  from agg_first [OF this abs, of gs uninit fromYAML] obtain st1 where st1:
    "pending fid \<lparr>tag = tag msg, source = destination msg, destination = destination msg,
      metadata = metadata msg, payload = Values []\<rparr> (map uninit [0..<nat gs]) {} st1"
    "agg_executeImpl uninit toJSON fromYAML maps msg st = agg_executeImpl uninit toJSON fromYAML maps msg st1"
    using gs msgs by auto
  from agg_run_pending [OF parts st1(1) fields complete src(1), of uninit fromYAML] src(2,3)
  show ?thesis unfolding msgs agg_run_Cons_cong [OF st1(2)] by auto
qed

theorem aggregate_complete_field_witness:
  "\<exists>st' out. agg_run (\<lambda>i. 0 :: nat) (\<lambda>md. ''x'') (\<lambda>s. [])
     [''d'' \<mapsto> \<lparr>domainMap = [(Peer ''c'' 0, Unstructured [1] 2), (Peer ''c'' 1, Unstructured [0] 2)], consistent = True\<rparr>]
     [\<lparr>tag = Field, source = Peer ''c'' 1, destination = Peer ''s'' 0, metadata = [(''domain'', MString ''d''),
        (''misc-precision'', MString ''double''), (''misc-globalSize'', MInteger 2)], payload = Values [7]\<rparr>,
      \<lparr>tag = Field, source = Peer ''c'' 0, destination = Peer ''s'' 0, metadata = [(''domain'', MString ''d''),
        (''misc-precision'', MString ''double''), (''misc-globalSize'', MInteger 2)], payload = Values [8]\<rparr>]
     \<lparr>aggCatalogue = \<lparr>messageMap = \<lambda>_. None, processedParts = \<lambda>_. None\<rparr>, flushes = \<lambda>_. None\<rparr> = (st', Inr [out]) \<and>
     payload out = Values [7, 8]"
proof -
  let ?md = "[(''domain'', MString ''d''), (''misc-precision'', MString ''double''), (''misc-globalSize'', MInteger 2)]"
  let ?dm = "\<lparr>domainMap = [(Peer ''c'' 0, Unstructured [1] 2), (Peer ''c'' 1, Unstructured [0] 2)], consistent = True\<rparr>"
  let ?m1 = "\<lparr>tag = Field, source = Peer ''c'' 1, destination = Peer ''s'' 0, metadata = ?md, payload = Values [7 :: nat]\<rparr>"
  let ?m2 = "\<lparr>tag = Field, source = Peer ''c'' 0, destination = Peer ''s'' 0, metadata = ?md, payload = Values [8 :: nat]\<rparr>"
  let ?st = "\<lparr>aggCatalogue = \<lparr>messageMap = \<lambda>_. None, processedParts = \<lambda>_. None\<rparr>, flushes = \<lambda>_. None\<rparr>"
  note acc = msg_domain_def msg_precision_def msg_globalSize_def required_def md_getOpt_def getter_def md_find_def
    decodePrecisionTag_def
  have "list_all2 (field_part (\<lambda>md. ''x'') [''d'' \<mapsto> ?dm] ''x'' ?dm Double) [?m1, ?m2]
      [(Unstructured [0] 2, [7]), (Unstructured [1] 2, [8])]"
    by (simp add: field_part_def acc)
  moreover have "absent ''x'' ?st" "dm_isComplete ?dm = Inr True" "msg_globalSize (hd [?m1, ?m2]) = Inr 2"
    by (simp_all add: absent_def dm_isComplete_def acc)
  moreover have "fold_res (\<lambda>(d, l). scatter Double d l) [(Unstructured [0] 2, [7]), (Unstructured [1] 2, [8])]
      (map (\<lambda>i. 0) [0..<nat 2]) = Inr [7, 8 :: nat]"
    by (simp add: unstructured_toGlobal_def write_int_def upt_rec)
  ultimately show ?thesis
    using aggregate_complete_field [of "\<lambda>md. ''x''" "[''d'' \<mapsto> ?dm]" "''x''" ?dm Double "[?m1, ?m2]"
        "[(Unstructured [0] 2, [7]), (Unstructured [1] 2, [8])]" ?st 2 "\<lambda>i. 0" "[7, 8]" "\<lambda>s. []"]
    by auto
qed

lemma in_bounds_keys: "in_bounds ps g \<Longrightarrow> k \<in> fst ` set ps \<Longrightarrow> 0 \<le> k \<and> k < int (length g)"
  by (auto simp: in_bounds_def)

text \<open>The index set a consistency check collects.\<close>

lemma collect_parts:
  assumes "list_all2 (\<lambda>msg (d, l). \<exists>n dm. msg_domain msg = Inr n \<and> st n = Some dm \<and>
      map_of (domainMap dm) (source msg) = Some d \<and> payload msg = Values l) msgs parts"
    and "fold_res (\<lambda>local glIndices.
              bind_res (msg_domain local) (\<lambda>n.
              bind_res (mappings_get st n) (\<lambda>dm.
              bind_res (dm_at dm (source local)) (\<lambda>d.
              collectIndices d (payload_length (payload local)) glIndices)))) msgs gl = Inr gl'"
  shows "gl' = gl \<union> fst ` set (concat (map (\<lambda>(d, l). domain_pairs d l) parts))"
  using assms
proof (induction msgs parts arbitrary: gl rule: list_all2_induct)
  case Nil
  then show ?case by simp
next
  case (Cons msg msgs part parts)
  obtain d l where dl: "part = (d, l)" by force
  obtain n dm where m: "msg_domain msg = Inr n" "st n = Some dm" "map_of (domainMap dm) (source msg) = Some d"
    "payload msg = Values l"
    using Cons.hyps(1) dl by auto
  then obtain gl1 where g: "collectIndices d (length l) gl = Inr gl1"
    "fold_res (\<lambda>local glIndices.
              bind_res (msg_domain local) (\<lambda>n.
              bind_res (mappings_get st n) (\<lambda>dm.
              bind_res (dm_at dm (source local)) (\<lambda>d.
              collectIndices d (payload_length (payload local)) glIndices)))) msgs gl1 = Inr gl'"
    using Cons.prems by (auto simp: bind_res_Inr_iff mappings_get_def dm_at_def payload_length_def)
  show ?case using Cons.IH [OF g(2)] collectIndices_keys [OF g(1)] dl by auto
qed

text \<open>
  Property C35. What the consistency check is for: if the domain map has not been marked consistent yet (a marked map is
  not checked again), the check accepts the parts and the parts can be scattered, then the aggregated field is determined
  by the parts alone: nothing of the unspecified initial content of the buffer is left in it. The aggregate action
  itself does not call the check (the call in \<^verbatim>\<open>Aggregate.cc\<close> is commented out).
\<close>

theorem consistent_parts_determine_field:
  assumes check: "checkDomainConsistency msgs st = Inr st'"
    and last: "msg_domain (last msgs) = Inr n" "st n = Some m" "\<not> consistent m"
    and parts: "list_all2 (\<lambda>msg (d, l). \<exists>n dm. msg_domain msg = Inr n \<and> st n = Some dm \<and>
      map_of (domainMap dm) (source msg) = Some d \<and> payload msg = Values l) msgs parts"
    and size: "msg_globalSize (last msgs) = Inr (int (length g))" "length g < 2 ^ 32"
    and g: "fold_res (\<lambda>(d, l). scatter p d l) parts g = Inr g'"
    and h: "fold_res (\<lambda>(d, l). scatter p d l) parts h = Inr h'" "length h = length g"
  shows "g' = h'"
proof -
  let ?ps = "concat (map (\<lambda>(d, l). domain_pairs d l) parts)"
  let ?keys = "fst ` set ?ps"
  have "msgs \<noteq> []" using check by (auto simp: checkDomainConsistency_def)
  then obtain gl where gl: "fold_res (\<lambda>local glIndices.
              bind_res (msg_domain local) (\<lambda>n.
              bind_res (mappings_get st n) (\<lambda>dm.
              bind_res (dm_at dm (source local)) (\<lambda>d.
              collectIndices d (payload_length (payload local)) glIndices)))) msgs {} = Inr gl"
    "(of_nat (card gl) :: u64) = of_nat (length g)"
    using check last size
    by (auto simp: checkDomainConsistency_def bind_res_Inr_iff mappings_get_def split: if_splits)
  have keys: "gl = ?keys" using collect_parts [OF parts gl(1)] by simp
  have "in_bounds ?ps g" using dom.scat_parts [OF g] by (rule conjunct1)
  then have "\<forall>k\<in>?keys. 0 \<le> k \<and> k < int (length g)" using in_bounds_keys by blast
  then have sub: "?keys \<subseteq> {0..<int (length g)}" unfolding subset_iff atLeastLessThan_iff by blast
  then have "card ?keys \<le> length g" using card_mono [OF _ sub] by simp
  then have "unat (of_nat (card ?keys) :: u64) = card ?keys" "unat (of_nat (length g) :: u64) = length g"
    using size(2) by (intro unat_of_nat64; simp)+
  then have "card ?keys = card {0..<int (length g)}" using gl(2) keys by (metis card_atLeastLessThan_int diff_zero nat_int)
  then have all: "?keys = {0..<int (length g)}" using sub by (intro card_subset_eq) simp_all
  show ?thesis
  proof (rule dom.scat_parts_determined [OF g h(1)])
    show "length g = length h" using h(2) by simp
    fix i
    assume "i < length g"
    then have "int i \<in> ?keys" unfolding all by simp
    then show "\<exists>(d, l)\<in>set parts. int i \<in> fst ` set (domain_pairs d l)" by force
  qed
qed

abbreviation part_of :: "u64 \<Rightarrow> nat list \<Rightarrow> nat message" where
  "part_of c l \<equiv> \<lparr>tag = Field, source = Peer ''c'' c, destination = Peer ''s'' 0,
     metadata = [(''domain'', MString ''d''), (''misc-globalSize'', MInteger 3)], payload = Values l\<rparr>"

abbreviation two_parts_map :: DomainMap where
  "two_parts_map \<equiv> \<lparr>domainMap = [(Peer ''c'' 0, Unstructured [2, 0] 3), (Peer ''c'' 1, Unstructured [1] 3)],
     consistent = False\<rparr>"

theorem consistent_parts_determine_field_witness:
  "checkDomainConsistency [part_of 0 [9, 7], part_of 1 [8]] [''d'' \<mapsto> two_parts_map] =
     Inr [''d'' \<mapsto> two_parts_map\<lparr>consistent := True\<rparr>] \<and>
   fold_res (\<lambda>(d, l). scatter Double d l) [(Unstructured [2, 0] 3, [9, 7]), (Unstructured [1] 3, [8])] [0, 0, 0] =
     Inr [7, 8, 9 :: nat] \<and>
   fold_res (\<lambda>(d, l). scatter Double d l) [(Unstructured [2, 0] 3, [9, 7]), (Unstructured [1] 3, [8])] [4, 5, 6] =
     Inr [7, 8, 9 :: nat]"
proof -
  let ?msgs = "[part_of 0 [9, 7], part_of 1 [8]]"
  let ?st = "[''d'' \<mapsto> two_parts_map]"
  let ?parts = "[(Unstructured [2, 0] 3, [9, 7]), (Unstructured [1] 3, [8 :: nat])]"
  note acc = msg_domain_def msg_globalSize_def required_def md_getOpt_def getter_def md_find_def
  have check: "checkDomainConsistency ?msgs ?st = Inr (?st(''d'' \<mapsto> two_parts_map\<lparr>consistent := True\<rparr>))"
    by (simp add: checkDomainConsistency_def acc mappings_get_def dm_at_def payload_length_def
        unstructured_collect_def)
  have last: "msg_domain (last ?msgs) = Inr ''d''" "?st ''d'' = Some two_parts_map" "\<not> consistent two_parts_map"
    by (simp_all add: acc)
  have parts: "list_all2 (\<lambda>msg (d, l). \<exists>n dm. msg_domain msg = Inr n \<and> ?st n = Some dm \<and>
      map_of (domainMap dm) (source msg) = Some d \<and> payload msg = Values l) ?msgs ?parts"
    by (simp add: acc)
  have size: "msg_globalSize (last ?msgs) = Inr (int (length [0, 0, 0 :: nat]))" "length [0, 0, 0 :: nat] < 2 ^ 32"
    by (simp_all add: acc)
  have g: "fold_res (\<lambda>(d, l). scatter Double d l) ?parts [0, 0, 0] = Inr [7, 8, 9]"
    by (simp add: unstructured_toGlobal_def write_int_def)
  obtain h where h: "fold_res (\<lambda>(d, l). scatter Double d l) ?parts [4, 5, 6] = Inr h"
    by (simp add: unstructured_toGlobal_def write_int_def)
  have "[7, 8, 9] = h"
    by (rule consistent_parts_determine_field [OF check last parts size g h]) simp
  then show ?thesis using check g h by simp
qed

text \<open>
  A second flush from a peer whose flush has been counted, for a domain that is not global, is a \<^verbatim>\<open>UserError\<close>, and
  nothing is passed on.
\<close>

theorem duplicate_flush_refused:
  assumes "tag msg = Flush" and "md_get as_string ''domain'' (metadata msg) = Inr d" and "d \<noteq> ''global''"
    and "maps d = Some dm" and "flushes st (toJSON (metadata msg)) = Some ps" and "source msg \<in> ps"
  shows "snd (agg_executeImpl uninit toJSON fromYAML maps msg st) = Inl UserError"
  using assms
  by (simp add: agg_executeImpl_def agg_flush_def agg_handleFlush_def mappings_get_def agg_flushCount_def Let_def)

theorem duplicate_flush_refused_witness:
  "snd (agg_executeImpl (\<lambda>i. 0 :: nat) (\<lambda>md. ''x'') (\<lambda>s. []) [''d'' \<mapsto> empty_DomainMap]
     \<lparr>tag = Flush, source = default_peer, destination = default_peer, metadata = [(''domain'', MString ''d'')],
      payload = Bytes []\<rparr>
     \<lparr>aggCatalogue = \<lparr>messageMap = \<lambda>_. None, processedParts = \<lambda>_. None\<rparr>,
      flushes = [''x'' \<mapsto> {default_peer}]\<rparr>) = Inl UserError"
  by (rule duplicate_flush_refused [where d = "''d''" and ps = "{default_peer}"])
    (simp_all add: md_get_def getter_def md_find_def)

end
