(* ===== verification/Server.thy ===== *)
theory Server
  imports Failures Aggregation
begin

text \<open>
  \<^verbatim>\<open>src/src/multio/server/Listener.cc\<close> and \<^verbatim>\<open>Dispatcher.cc\<close>: the receiving loop, the dispatching loop and the
  server they make: two threads that share the message queue, as a step relation. The transport is the list
  of messages it will deliver; \<^verbatim>\<open>eckit::Queue\<close> is a first-in first-out list with a closed and an
  interrupted state. What the dispatcher does with a message can fail, which the parameter \<open>ok\<close> tells.
\<close>

section \<open>The listener\<close>

record Listener =
  connections :: "Peer set"
  openedCount :: nat
  clientCount :: nat
  syncCount :: nat

definition new_Listener :: "nat \<Rightarrow> Listener" where
  "new_Listener n = \<lparr>connections = {}, openedCount = 0, clientCount = n, syncCount = 0\<rparr>"

definition moreConnections :: "Listener \<Rightarrow> bool" where
  "moreConnections l \<longleftrightarrow> connections l \<noteq> {} \<or> openedCount l \<noteq> clientCount l"

definition checkConnection :: "Listener \<Rightarrow> Peer \<Rightarrow> unit res" where
  "checkConnection l conn = (if conn \<in> connections l then Inr () else Inl SeriousBug)"

text \<open>
  The body of the loop: the new state and the message that is put into the queue, if any. Erasing the
  \<^verbatim>\<open>end\<close> iterator, for a peer that is not connected, has no defined result.
\<close>

definition listenerHandle :: "'v message \<Rightarrow> Listener \<Rightarrow> (Listener \<times> 'v message list) res" where
  "listenerHandle msg l =
     (case tag msg of
        Open \<Rightarrow> Inr (l\<lparr>connections := insert (source msg) (connections l), openedCount := openedCount l + 1\<rparr>, [])
      | Close \<Rightarrow>
          if source msg \<notin> connections l then Inl UndefinedBehaviour
          else Inr (l\<lparr>connections := connections l - {source msg}\<rparr>, [])
      | Synchronization \<Rightarrow>
          bind_res (checkConnection l (source msg)) (\<lambda>_.
            if syncCount l + 1 = clientCount l then Inr (l\<lparr>syncCount := 0\<rparr>, [msg])
            else Inr (l\<lparr>syncCount := syncCount l + 1\<rparr>, []))
      | t \<Rightarrow>
          if t \<in> {Domain, Parametrization, Mask, Notification, Flush, Field}
          then bind_res (checkConnection l (source msg)) (\<lambda>_. Inr (l, [msg]))
          else Inl SeriousBug)"

text \<open>The loop on the messages to come; \<open>None\<close> is a loop that waits for another message.\<close>

fun listenerLoop :: "'v message list \<Rightarrow> Listener \<Rightarrow> (Listener \<times> 'v message list \<times> 'v message list) res option" where
  "listenerLoop [] l = None"
| "listenerLoop (msg # msgs) l =
     (case listenerHandle msg l of
        Inl e \<Rightarrow> Some (Inl e)
      | Inr (l', q) \<Rightarrow>
          if moreConnections l'
          then map_option (\<lambda>r. bind_res r (\<lambda>(l'', q', rest). Inr (l'', q @ q', rest))) (listenerLoop msgs l')
          else Some (Inr (l', q, msgs)))"

section \<open>The dispatcher\<close>

record ('v, 'p) DispatcherState =
  dMappings :: Mappings
  dMasks :: "'v MaskStore"
  dParametrization :: BaseMetadata
  dSynchronized :: nat
  dPlans :: 'p

fun processPlans :: "('v message \<Rightarrow> 'p \<Rightarrow> 'p \<times> unit res) list \<Rightarrow> 'v message \<Rightarrow> 'p \<Rightarrow> 'p \<times> unit res" where
  "processPlans [] msg st = (st, Inr ())"
| "processPlans (process # plans) msg st =
     (case process msg st of
        (st', Inl e) \<Rightarrow> (st', Inl e)
      | (st', Inr _) \<Rightarrow> processPlans plans msg st')"

definition dispatcherHandle ::
    "(nat \<Rightarrow> u8) \<Rightarrow> (BaseMetadata \<Rightarrow> string) \<Rightarrow> byte_view \<Rightarrow> ('v message \<Rightarrow> 'p \<Rightarrow> 'p \<times> unit res) list \<Rightarrow>
     'v message \<Rightarrow> ('v, 'p) DispatcherState \<Rightarrow> ('v, 'p) DispatcherState \<times> unit res" where
  "dispatcherHandle uninit toJSON view plans msg st =
     (case tag msg of
        Domain \<Rightarrow> (case mappings_add msg (dMappings st) of (m, r) \<Rightarrow> (st\<lparr>dMappings := m\<rparr>, r))
      | Mask \<Rightarrow> (case mask_add uninit toJSON (dMappings st) msg (dMasks st) of (m, r) \<Rightarrow> (st\<lparr>dMasks := m\<rparr>, r))
      | Parametrization \<Rightarrow>
          (case payload msg of
             Bytes b \<Rightarrow> (case param_update_msg view (metadata msg) b (dParametrization st) of
                 Inl e \<Rightarrow> (st, Inl e)
               | Inr d \<Rightarrow> (st\<lparr>dParametrization := d\<rparr>, Inr ()))
           | _ \<Rightarrow> (st, Inl UndefinedBehaviour))
      | Synchronization \<Rightarrow> (st\<lparr>dSynchronized := dSynchronized st + 1\<rparr>, Inr ())
      | _ \<Rightarrow> (case processPlans plans msg (dPlans st) of (p, r) \<Rightarrow> (st\<lparr>dPlans := p\<rparr>, r)))"

section \<open>The two threads\<close>

record 'v Server =
  inbox :: "'v message list"
  listener :: Listener
  listening :: bool
  queue :: "'v message list"
  closed :: bool
  interrupted :: bool
  dispatching :: bool
  handled :: "'v message list"
  failed :: "'v message list"

definition new_Server :: "nat \<Rightarrow> 'v message list \<Rightarrow> 'v Server" where
  "new_Server n msgs =
     \<lparr>inbox = msgs, listener = new_Listener n, listening = True, queue = [], closed = False, interrupted = False,
      dispatching = True, handled = [], failed = []\<rparr>"

text \<open>
  The listener receives a message, and then goes on, ends and closes the queue, or stops because the queue
  was interrupted; an exception interrupts the queue. The dispatcher takes the first message, ends when the
  queue is closed and empty, or fails, which interrupts the queue.
\<close>

inductive serverStep :: "('v message \<Rightarrow> bool) \<Rightarrow> 'v Server \<Rightarrow> 'v Server \<Rightarrow> bool" for ok where
  receive: "listening s \<Longrightarrow> inbox s = msg # rest \<Longrightarrow> listenerHandle msg (listener s) = Inr (l, q) \<Longrightarrow>
    moreConnections l \<Longrightarrow> \<not> interrupted s \<Longrightarrow>
    serverStep ok s (s\<lparr>inbox := rest, listener := l, queue := queue s @ q\<rparr>)"
| receive_last: "listening s \<Longrightarrow> inbox s = msg # rest \<Longrightarrow> listenerHandle msg (listener s) = Inr (l, q) \<Longrightarrow>
    \<not> moreConnections l \<Longrightarrow>
    serverStep ok s (s\<lparr>inbox := rest, listener := l, queue := queue s @ q, listening := False, closed := True\<rparr>)"
| receive_interrupted: "listening s \<Longrightarrow> inbox s = msg # rest \<Longrightarrow> listenerHandle msg (listener s) = Inr (l, q) \<Longrightarrow>
    moreConnections l \<Longrightarrow> interrupted s \<Longrightarrow>
    serverStep ok s (s\<lparr>inbox := rest, listener := l, queue := queue s @ q, listening := False\<rparr>)"
| receive_error: "listening s \<Longrightarrow> inbox s = msg # rest \<Longrightarrow> listenerHandle msg (listener s) = Inl e \<Longrightarrow>
    serverStep ok s (s\<lparr>listening := False, interrupted := True\<rparr>)"
| dispatch: "dispatching s \<Longrightarrow> \<not> interrupted s \<Longrightarrow> queue s = msg # q \<Longrightarrow> ok msg \<Longrightarrow>
    serverStep ok s (s\<lparr>queue := q, handled := handled s @ [msg]\<rparr>)"
| dispatch_error: "dispatching s \<Longrightarrow> \<not> interrupted s \<Longrightarrow> queue s = msg # q \<Longrightarrow> \<not> ok msg \<Longrightarrow>
    serverStep ok s (s\<lparr>queue := q, failed := [msg], dispatching := False, interrupted := True\<rparr>)"
| dispatch_end: "dispatching s \<Longrightarrow> \<not> interrupted s \<Longrightarrow> queue s = [] \<Longrightarrow> closed s \<Longrightarrow>
    serverStep ok s (s\<lparr>dispatching := False\<rparr>)"
| dispatch_interrupted: "dispatching s \<Longrightarrow> interrupted s \<Longrightarrow>
    serverStep ok s (s\<lparr>dispatching := False\<rparr>)"

inductive_cases serverStepE: "serverStep ok s s'"

definition reaches :: "('v message \<Rightarrow> bool) \<Rightarrow> 'v Server \<Rightarrow> 'v Server \<Rightarrow> bool" where
  "reaches ok s s' \<longleftrightarrow> (serverStep ok)\<^sup>*\<^sup>* s s'"

section \<open>What the listener accepts\<close>

fun acceptedRun :: "'v message list \<Rightarrow> Listener \<Rightarrow> (Listener \<times> 'v message list) res" where
  "acceptedRun [] l = Inr (l, [])"
| "acceptedRun (msg # msgs) l =
     bind_res (listenerHandle msg l) (\<lambda>(l', q). bind_res (acceptedRun msgs l') (\<lambda>(l'', q'). Inr (l'', q @ q')))"

lemma acceptedRun_snoc:
  assumes "acceptedRun msgs l = Inr (l', q)" and "listenerHandle msg l' = Inr (l'', q')"
  shows "acceptedRun (msgs @ [msg]) l = Inr (l'', q @ q')"
  using assms
proof (induction msgs arbitrary: l q)
  case Nil
  then show ?case by simp
next
  case (Cons m msgs)
  then show ?case by (fastforce simp: bind_res_Inr_iff)
qed

section \<open>The invariant of the server\<close>

definition server_inv :: "nat \<Rightarrow> 'v message list \<Rightarrow> 'v Server \<Rightarrow> bool" where
  "server_inv n msgs s \<longleftrightarrow>
     (\<exists>done. msgs = done @ inbox s \<and>
        acceptedRun done (new_Listener n) = Inr (listener s, handled s @ failed s @ queue s)) \<and>
     (failed s \<noteq> [] \<longrightarrow> interrupted s \<and> \<not> dispatching s) \<and>
     (\<not> dispatching s \<and> \<not> interrupted s \<longrightarrow> queue s = [] \<and> closed s) \<and>
     (closed s \<longrightarrow> \<not> listening s \<and> \<not> moreConnections (listener s)) \<and>
     (\<not> listening s \<and> \<not> interrupted s \<longrightarrow> closed s)"

lemma server_inv_init: "server_inv n msgs (new_Server n msgs)"
  by (auto simp: server_inv_def new_Server_def intro: exI [of _ "[]"])

lemma acceptedRun_extend:
  assumes "\<exists>done. msgs = done @ m # rest \<and> acceptedRun done l0 = Inr (l, q)" and "listenerHandle m l = Inr (l', q')"
  shows "\<exists>done. msgs = done @ rest \<and> acceptedRun done l0 = Inr (l', q @ q')"
proof -
  obtain "done" where d: "msgs = done @ m # rest" "acceptedRun done l0 = Inr (l, q)" using assms(1) by blast
  show ?thesis
    using d(1) acceptedRun_snoc [OF d(2) assms(2)] by (intro exI [of _ "done @ [m]"]) simp
qed

lemma server_inv_step: "serverStep ok s s' \<Longrightarrow> server_inv n msgs s \<Longrightarrow> server_inv n msgs s'"
proof (induction rule: serverStep.induct)
  case (receive s msg rest l q)
  then show ?case using acceptedRun_extend [of msgs msg rest _ "listener s" _ l q] by (auto simp: server_inv_def)
next
  case (receive_last s msg rest l q)
  then show ?case using acceptedRun_extend [of msgs msg rest _ "listener s" _ l q] by (auto simp: server_inv_def)
next
  case (receive_interrupted s msg rest l q)
  then show ?case using acceptedRun_extend [of msgs msg rest _ "listener s" _ l q] by (auto simp: server_inv_def)
qed (auto simp: server_inv_def)

lemma server_inv_reaches: "reaches ok (new_Server n msgs) s \<Longrightarrow> server_inv n msgs s"
  unfolding reaches_def
  by (induction rule: rtranclp_induct) (simp_all add: server_inv_init server_inv_step)

section \<open>Invariants of the listener\<close>

lemma listenerHandle_sync:
  assumes "listenerHandle msg l = Inr (l', q)" and "syncCount l < clientCount l"
  shows "clientCount l' = clientCount l" and "syncCount l' < clientCount l"
    and "clientCount l * length (filter (\<lambda>m. tag m = Synchronization) q) + syncCount l' =
         syncCount l + (if tag msg = Synchronization then 1 else 0)"
  using assms by (auto simp: listenerHandle_def bind_res_Inr_iff split: Tag.splits if_splits)

lemma acceptedRun_sync:
  assumes "acceptedRun msgs l = Inr (l', q)" and "syncCount l < clientCount l"
  shows "clientCount l' = clientCount l \<and> syncCount l' < clientCount l \<and>
    clientCount l * length (filter (\<lambda>m. tag m = Synchronization) q) + syncCount l' =
      syncCount l + length (filter (\<lambda>m. tag m = Synchronization) msgs)"
  using assms
proof (induction msgs arbitrary: l q)
  case Nil
  then show ?case by simp
next
  case (Cons msg msgs)
  then obtain l1 q1 q2 where r: "listenerHandle msg l = Inr (l1, q1)" "acceptedRun msgs l1 = Inr (l', q2)" "q = q1 @ q2"
    by (auto simp: bind_res_Inr_iff)
  note h = listenerHandle_sync [OF r(1) Cons.prems(2)]
  show ?case using Cons.IH [OF r(2)] h r(3) by (auto simp: algebra_simps)
qed

text \<open>Everything but the synchronization messages is put into the queue unchanged.\<close>

definition is_data :: "'v message \<Rightarrow> bool" where
  "is_data m \<longleftrightarrow> tag m \<in> {Domain, Parametrization, Mask, Notification, Flush, Field}"

lemma listenerHandle_data:
  "listenerHandle msg l = Inr (l', q) \<Longrightarrow> filter is_data q = (if is_data msg then [msg] else [])"
  by (auto simp: listenerHandle_def bind_res_Inr_iff is_data_def split: Tag.splits if_splits)

lemma acceptedRun_data: "acceptedRun msgs l = Inr (l', q) \<Longrightarrow> filter is_data q = filter is_data msgs"
  by (induction msgs arbitrary: l q) (auto simp: bind_res_Inr_iff listenerHandle_data)

section \<open>Traces that keep the protocol\<close>

text \<open>
  Every client of the set opens its connection once, sends while it is open, and closes it once; \<open>oc\<close> is the
  set of the clients that have opened, \<open>cc\<close> of those that have closed.
\<close>

fun conform :: "Peer set \<Rightarrow> Peer set \<Rightarrow> Peer set \<Rightarrow> 'v message list \<Rightarrow> bool" where
  "conform clients oc cc [] \<longleftrightarrow> oc = clients \<and> cc = clients"
| "conform clients oc cc (m # ms) \<longleftrightarrow>
     (if tag m = Open then source m \<in> clients - oc \<and> conform clients (insert (source m) oc) cc ms
      else if tag m = Close then source m \<in> oc - cc \<and> conform clients oc (insert (source m) cc) ms
      else (is_data m \<or> tag m = Synchronization) \<and> source m \<in> oc - cc \<and> conform clients oc cc ms)"

lemma conform_subset: "conform clients oc cc ms \<Longrightarrow> oc \<subseteq> clients \<and> cc \<subseteq> clients"
proof (induction ms arbitrary: oc cc)
  case (Cons m ms)
  then show ?case by (auto split: if_splits)
qed simp

lemma conform_nonempty: "conform clients oc cc ms \<Longrightarrow> oc - cc \<noteq> {} \<or> oc \<noteq> clients \<Longrightarrow> ms \<noteq> []"
  by auto

lemma listenerHandle_other:
  assumes "is_data m \<or> tag m = Synchronization" and "source m \<in> connections l"
  obtains l' q where "listenerHandle m l = Inr (l', q)" "connections l' = connections l"
    "openedCount l' = openedCount l" "clientCount l' = clientCount l"
  using assms that
  by (cases "Suc (syncCount l) = clientCount l") (auto simp: listenerHandle_def checkConnection_def is_data_def)

lemma listenerLoop_conform:
  assumes "conform clients oc cc ms" and "finite clients" and "cc \<subseteq> oc" and "ms \<noteq> []"
    and "connections l = oc - cc" and "openedCount l = card oc" and "clientCount l = card clients"
  shows "\<exists>l' q. listenerLoop ms l = Some (Inr (l', q, [])) \<and> acceptedRun ms l = Inr (l', q)"
  using assms
proof (induction ms arbitrary: oc cc l)
  case Nil
  then show ?case by simp
next
  case (Cons m ms)
  have sub: "oc \<subseteq> clients" "cc \<subseteq> clients" using conform_subset [OF Cons.prems(1)] by auto
  have fin: "finite oc" using sub(1) Cons.prems(2) by (rule finite_subset)
  obtain oc' cc' l' q where h: "listenerHandle m l = Inr (l', q)" "conform clients oc' cc' ms"
    "cc' \<subseteq> oc'" "connections l' = oc' - cc'" "openedCount l' = card oc'" "clientCount l' = card clients"
  proof (cases "tag m = Open")
    case True
    then have "source m \<notin> cc" using Cons.prems by auto
    then show ?thesis
      using that [of _ "[]" "insert (source m) oc" cc] Cons.prems sub fin True
      by (auto simp: listenerHandle_def insert_Diff_if)
  next
    case False
    show ?thesis
    proof (cases "tag m = Close")
      case True
      then show ?thesis
        using that [of _ "[]" oc "insert (source m) cc"] Cons.prems False
        by (auto simp: listenerHandle_def)
    next
      case other: False
      then have c: "conform clients oc cc ms" "source m \<in> connections l" "is_data m \<or> tag m = Synchronization"
        using Cons.prems False by auto
      obtain l' q where "listenerHandle m l = Inr (l', q)" "connections l' = connections l"
        "openedCount l' = openedCount l" "clientCount l' = clientCount l"
        using listenerHandle_other [OF c(3,2)] .
      then show ?thesis using that [of l' q oc cc] Cons.prems c(1) by simp
    qed
  qed
  have sub': "oc' \<subseteq> clients" "cc' \<subseteq> clients" using conform_subset [OF h(2)] by auto
  have fin': "finite oc'" using sub'(1) Cons.prems(2) by (rule finite_subset)
  have more: "moreConnections l' \<longleftrightarrow> ms \<noteq> []"
  proof
    assume "ms \<noteq> []"
    then obtain m' ms' where ms: "ms = m' # ms'" by (cases ms) auto
    have "oc' - cc' \<noteq> {} \<or> oc' \<noteq> clients" using h(2) ms by (auto split: if_splits)
    then show "moreConnections l'"
      using h(4-6) sub' Cons.prems(2) card_subset_eq [OF Cons.prems(2) sub'(1)] by (auto simp: moreConnections_def)
  next
    assume "moreConnections l'"
    then show "ms \<noteq> []" using h(2,4-6) by (auto simp: moreConnections_def)
  qed
  show ?case
  proof (cases "ms = []")
    case True
    then show ?thesis using h(1) more by simp
  next
    case False
    then show ?thesis using Cons.IH [OF h(2) Cons.prems(2) h(3) False h(4-6)] h(1) more by auto
  qed
qed

text \<open>
  What the connections say of the messages accepted: an open connection stays until its peer closes it, and the
  opened connections are counted.
\<close>

lemma acceptedRun_append:
  "acceptedRun (ms @ ms') l =
     bind_res (acceptedRun ms l) (\<lambda>(l', q). bind_res (acceptedRun ms' l') (\<lambda>(l'', q'). Inr (l'', q @ q')))"
proof (induction ms arbitrary: l)
  case Nil
  then show ?case by (cases "acceptedRun ms' l") auto
next
  case (Cons m ms)
  show ?case
  proof (cases "listenerHandle m l")
    case (Inr p)
    obtain l1 q1 where p: "p = (l1, q1)" by force
    show ?thesis
    proof (cases "acceptedRun ms l1")
      case (Inr r)
      obtain l2 q2 where r: "r = (l2, q2)" by force
      show ?thesis
        using Cons.IH [of l1] \<open>listenerHandle m l = Inr p\<close> Inr p r by (cases "acceptedRun ms' l2") auto
    qed (use Cons.IH [of l1] Inr p in simp)
  qed simp
qed

lemma listenerHandle_opened:
  "listenerHandle m l = Inr (l', q) \<Longrightarrow>
   clientCount l' = clientCount l \<and> openedCount l' = openedCount l + (if tag m = Open then 1 else 0)"
  by (auto simp: listenerHandle_def bind_res_Inr_iff split: Tag.splits if_splits)

lemma acceptedRun_opened:
  "acceptedRun ms l = Inr (l', q) \<Longrightarrow>
   clientCount l' = clientCount l \<and> openedCount l' = openedCount l + length (filter (\<lambda>m. tag m = Open) ms)"
proof (induction ms arbitrary: l q)
  case (Cons m ms)
  then show ?case by (fastforce simp: bind_res_Inr_iff dest: listenerHandle_opened)
qed simp

lemma listenerHandle_connections:
  "listenerHandle m l = Inr (l', q) \<Longrightarrow>
   connections l' = (if tag m = Open then insert (source m) (connections l)
     else if tag m = Close then connections l - {source m} else connections l)"
  by (auto simp: listenerHandle_def bind_res_Inr_iff split: Tag.splits if_splits)

lemma acceptedRun_stays_open:
  assumes "acceptedRun ms l = Inr (l', q)" "p \<in> connections l" "\<And>m. m \<in> set ms \<Longrightarrow> tag m = Close \<Longrightarrow> source m \<noteq> p"
  shows "p \<in> connections l'"
  using assms
proof (induction ms arbitrary: l q)
  case (Cons m ms)
  obtain l1 q1 q2 where r: "listenerHandle m l = Inr (l1, q1)" "acceptedRun ms l1 = Inr (l', q2)"
    using Cons.prems(1) by (auto simp: bind_res_Inr_iff)
  have "p \<in> connections l1"
    using listenerHandle_connections [OF r(1)] Cons.prems(2) Cons.prems(3) [of m] by auto
  then show ?case using Cons.IH [OF r(2)] Cons.prems(3) by simp
qed simp

lemma acceptedRun_closes:
  assumes "acceptedRun (ms @ m # ms') l = Inr (l', q)" "tag m = Open" "connections l' = {}"
  shows "\<exists>m'\<in>set ms'. tag m' = Close \<and> source m' = source m"
proof -
  obtain l1 l2 q1 q2 where r: "listenerHandle m l1 = Inr (l2, q1)" "acceptedRun ms' l2 = Inr (l', q2)"
    using assms(1) by (auto simp: acceptedRun_append bind_res_Inr_iff)
  have "source m \<in> connections l2" using listenerHandle_connections [OF r(1)] assms(2) by simp
  then show ?thesis using acceptedRun_stays_open [OF r(2)] assms(3) by blast
qed

section \<open>Properties\<close>

text \<open>A client that opens its connection, sends two fields and closes it, for the concrete runs.\<close>

abbreviation client_msg :: "u64 \<Rightarrow> Tag \<Rightarrow> nat list \<Rightarrow> nat message" where
  "client_msg i t vs \<equiv>
     \<lparr>tag = t, source = Peer ''client'' i, destination = default_peer, metadata = [], payload = Values vs\<rparr>"

abbreviation one_client :: "nat message list" where
  "one_client \<equiv> [client_msg 0 Open [], client_msg 0 Field [1], client_msg 0 Field [2], client_msg 0 Close []]"

abbreviation one_listener :: Listener where
  "one_listener \<equiv> \<lparr>connections = {Peer ''client'' 0}, openedCount = 1, clientCount = 1, syncCount = 0\<rparr>"

text \<open>The server after the first three messages, which all are still in the queue.\<close>

abbreviation server_queued :: "nat message list \<Rightarrow> nat Server" where
  "server_queued rest \<equiv> (new_Server 1 one_client)\<lparr>inbox := rest, listener := one_listener,
     queue := [client_msg 0 Field [1], client_msg 0 Field [2]]\<rparr>"

lemma server_receives: "(serverStep ok)\<^sup>*\<^sup>* (new_Server 1 one_client) (server_queued [client_msg 0 Close []])"
proof -
  let ?s1 = "(new_Server 1 one_client)\<lparr>inbox := tl one_client, listener := one_listener, queue := []\<rparr>"
  let ?s2 = "(new_Server 1 one_client)\<lparr>inbox := tl (tl one_client), listener := one_listener, queue := [client_msg 0 Field [1]]\<rparr>"
  note defs = new_Server_def new_Listener_def listenerHandle_def moreConnections_def checkConnection_def
  have "serverStep ok (new_Server 1 one_client) ?s1"
    using serverStep.receive [of "new_Server 1 one_client" "hd one_client" "tl one_client" one_listener "[]" ok]
    by (simp add: defs)
  moreover have "serverStep ok ?s1 ?s2"
    using serverStep.receive [of ?s1 "client_msg 0 Field [1]" "tl (tl one_client)" one_listener "[client_msg 0 Field [1]]" ok]
    by (simp add: defs)
  moreover have "serverStep ok ?s2 (server_queued [client_msg 0 Close []])"
    using serverStep.receive [of ?s2 "client_msg 0 Field [2]" "[client_msg 0 Close []]" one_listener "[client_msg 0 Field [2]]" ok]
    by (simp add: defs)
  ultimately show ?thesis by (meson converse_rtranclp_into_rtranclp rtranclp.rtrancl_refl)
qed

text \<open>
  Property C5. No message is lost, duplicated or reordered between the two threads: in every reachable state of the
  server, however the threads interleave and whatever fails, the messages the dispatcher has handled, the one it has
  failed on and those in the queue are, in this order, exactly what the listener accepted of the messages received.
\<close>

theorem server_fifo:
  assumes "reaches ok (new_Server n msgs) s"
  shows "\<exists>done. msgs = done @ inbox s \<and>
    acceptedRun done (new_Listener n) = Inr (listener s, handled s @ failed s @ queue s)"
  using server_inv_reaches [OF assms] by (simp add: server_inv_def)

text \<open>Three messages are received, the first field is handled, the dispatcher fails on the second.\<close>

theorem server_fifo_witness:
  "\<exists>s. reaches (\<lambda>m. payload m = Values [1]) (new_Server 1 one_client) s \<and>
    handled s = [client_msg 0 Field [1]] \<and> failed s = [client_msg 0 Field [2]] \<and> inbox s = [client_msg 0 Close []] \<and>
    (\<exists>done. one_client = done @ inbox s \<and>
      acceptedRun done (new_Listener 1) = Inr (listener s, handled s @ failed s @ queue s))"
proof -
  let ?ok = "\<lambda>m :: nat message. payload m = Values [1]"
  let ?s0 = "server_queued [client_msg 0 Close []]"
  let ?s1 = "?s0\<lparr>queue := [client_msg 0 Field [2]], handled := [client_msg 0 Field [1]]\<rparr>"
  let ?s2 = "?s1\<lparr>queue := [], failed := [client_msg 0 Field [2]], dispatching := False, interrupted := True\<rparr>"
  have "serverStep ?ok ?s0 ?s1"
    using serverStep.dispatch [of ?s0 "client_msg 0 Field [1]" "[client_msg 0 Field [2]]" ?ok] by (simp add: new_Server_def)
  moreover have "serverStep ?ok ?s1 ?s2"
    using serverStep.dispatch_error [of ?s1 "client_msg 0 Field [2]" "[]" ?ok] by (simp add: new_Server_def)
  ultimately have r: "reaches ?ok (new_Server 1 one_client) ?s2"
    unfolding reaches_def using server_receives by (meson rtranclp.rtrancl_into_rtrancl)
  show ?thesis
    using server_fifo [OF r] r by (intro exI [of _ ?s2]) (simp add: new_Server_def)
qed

text \<open>
  Property C4. An orderly end is complete: when both threads have ended and nothing was interrupted, of the messages received
  as many have opened a connection as there are clients, so that all clients have if none of them opened twice; every one that
  has opened has closed again after it, and no connection is left; and the dispatcher has handled all field, flush, domain,
  mask, notification and parametrization messages that were received, in order.
\<close>

theorem server_orderly_end:
  assumes "reaches ok (new_Server n msgs) s"
    and "\<not> listening s" and "\<not> dispatching s" and "\<not> interrupted s"
  shows "connections (listener s) = {} \<and>
    (\<exists>done. msgs = done @ inbox s \<and> filter is_data (handled s) = filter is_data done \<and>
      length (filter (\<lambda>m. tag m = Open) done) = n \<and>
      (distinct (map source (filter (\<lambda>m. tag m = Open) done)) \<longrightarrow> card (source ` {m \<in> set done. tag m = Open}) = n) \<and>
      (\<forall>before m after. done = before @ m # after \<longrightarrow> tag m = Open \<longrightarrow>
         (\<exists>m'\<in>set after. tag m' = Close \<and> source m' = source m)))"
proof -
  have inv: "server_inv n msgs s" using server_inv_reaches [OF assms(1)] .
  then obtain "done" where d: "msgs = done @ inbox s"
    "acceptedRun done (new_Listener n) = Inr (listener s, handled s @ failed s @ queue s)"
    by (auto simp: server_inv_def)
  have e: "queue s = []" "failed s = []" "\<not> moreConnections (listener s)"
    using inv assms(2-4) by (auto simp: server_inv_def)
  then have none: "connections (listener s) = {}" by (simp add: moreConnections_def)
  have "filter is_data (handled s) = filter is_data done" using acceptedRun_data [OF d(2)] e by simp
  moreover have opens: "length (filter (\<lambda>m. tag m = Open) done) = n"
    using acceptedRun_opened [OF d(2)] e(3) by (simp add: moreConnections_def new_Listener_def)
  moreover have "card (source ` {m \<in> set done. tag m = Open}) = n"
    if "distinct (map source (filter (\<lambda>m. tag m = Open) done))"
    using distinct_card [OF that] opens by simp
  moreover have "\<exists>m'\<in>set after. tag m' = Close \<and> source m' = source m"
    if "done = before @ m # after" "tag m = Open" for before m after
    using acceptedRun_closes [OF d(2) [unfolded that(1)] that(2) none] .
  ultimately show ?thesis using none d(1) by blast
qed

theorem server_orderly_end_witness:
  "\<exists>s. reaches (\<lambda>_. True) (new_Server 1 one_client) s \<and> connections (listener s) = {} \<and>
    filter is_data (handled s) = [client_msg 0 Field [1], client_msg 0 Field [2]] \<and> inbox s = [] \<and>
    (\<exists>done. one_client = done @ inbox s \<and> length (filter (\<lambda>m. tag m = Open) done) = 1)"
proof -
  let ?step = "serverStep (\<lambda>_ :: nat message. True)"
  let ?s0 = "server_queued [client_msg 0 Close []]"
  let ?s1 = "?s0\<lparr>queue := [client_msg 0 Field [2]], handled := [client_msg 0 Field [1]]\<rparr>"
  let ?s2 = "?s1\<lparr>inbox := [], listener := one_listener\<lparr>connections := {}\<rparr>, listening := False, closed := True\<rparr>"
  let ?s3 = "?s2\<lparr>queue := [], handled := [client_msg 0 Field [1], client_msg 0 Field [2]]\<rparr>"
  let ?s4 = "?s3\<lparr>dispatching := False\<rparr>"
  have "?step ?s0 ?s1"
    using serverStep.dispatch [of ?s0 "client_msg 0 Field [1]" "[client_msg 0 Field [2]]" "\<lambda>_. True"] by (simp add: new_Server_def)
  moreover have "?step ?s1 ?s2"
    using serverStep.receive_last [of ?s1 "client_msg 0 Close []" "[]" "one_listener\<lparr>connections := {}\<rparr>" "[]" "\<lambda>_. True"]
    by (simp add: new_Server_def listenerHandle_def moreConnections_def)
  moreover have "?step ?s2 ?s3"
    using serverStep.dispatch [of ?s2 "client_msg 0 Field [2]" "[]" "\<lambda>_. True"] by (simp add: new_Server_def)
  moreover have "?step ?s3 ?s4"
    by (rule serverStep.dispatch_end) (simp_all add: new_Server_def)
  ultimately have r: "reaches (\<lambda>_. True) (new_Server 1 one_client) ?s4"
    unfolding reaches_def using server_receives by (meson rtranclp.rtrancl_into_rtrancl)
  have "\<not> listening ?s4" "\<not> dispatching ?s4" "\<not> interrupted ?s4" by (simp_all add: new_Server_def)
  from server_orderly_end [OF r this] have "connections (listener ?s4) = {}"
    and "\<exists>done. one_client = done @ inbox ?s4 \<and> length (filter (\<lambda>m. tag m = Open) done) = 1"
    by blast+
  moreover have "filter is_data (handled ?s4) = [client_msg 0 Field [1], client_msg 0 Field [2]]" "inbox ?s4 = []"
    by (simp_all add: is_data_def)
  ultimately show ?thesis using r by blast
qed

text \<open>
  Property C6. The listener ends when it should: if every one of the clients it waits for opens its connection once,
  sends while it is open and closes it once, interleaved in any way, the loop accepts every message, ends with
  the last one and not before, and has put all the data messages into the queue, in order.
\<close>

theorem listener_accepts_protocol:
  assumes "conform clients {} {} msgs" and "finite clients" and "clients \<noteq> {}"
  shows "\<exists>l q. listenerLoop msgs (new_Listener (card clients)) = Some (Inr (l, q, [])) \<and>
    filter is_data q = filter is_data msgs"
proof -
  have "msgs \<noteq> []" using assms(1,3) by auto
  then show ?thesis
    using listenerLoop_conform [OF assms(1,2), of "new_Listener (card clients)"] acceptedRun_data
    by (auto simp: new_Listener_def)
qed

theorem listener_accepts_protocol_witness:
  "\<exists>l q. listenerLoop
      [\<lparr>tag = Open, source = default_peer, destination = default_peer, metadata = [], payload = Bytes [] :: nat payload\<rparr>,
       \<lparr>tag = Field, source = default_peer, destination = default_peer, metadata = [], payload = Values [1]\<rparr>,
       \<lparr>tag = Close, source = default_peer, destination = default_peer, metadata = [], payload = Bytes []\<rparr>]
      (new_Listener (card {default_peer})) = Some (Inr (l, q, [])) \<and>
    filter is_data q = filter is_data
      [\<lparr>tag = Open, source = default_peer, destination = default_peer, metadata = [], payload = Bytes [] :: nat payload\<rparr>,
       \<lparr>tag = Field, source = default_peer, destination = default_peer, metadata = [], payload = Values [1]\<rparr>,
       \<lparr>tag = Close, source = default_peer, destination = default_peer, metadata = [], payload = Bytes []\<rparr>]"
  by (rule listener_accepts_protocol) (simp_all add: is_data_def)

text \<open>
  Property C37. Synchronization is a barrier: after any accepted messages exactly one synchronization message has been
  put into the queue for every \<^verbatim>\<open>clientCount\<close> that were received, and the rest are still counted.
\<close>

theorem listener_synchronization_barrier:
  assumes "acceptedRun msgs (new_Listener n) = Inr (l, q)" and "0 < n"
  shows "length (filter (\<lambda>m. tag m = Synchronization) q) = length (filter (\<lambda>m. tag m = Synchronization) msgs) div n \<and>
    syncCount l = length (filter (\<lambda>m. tag m = Synchronization) msgs) mod n"
proof -
  have "n * length (filter (\<lambda>m. tag m = Synchronization) q) + syncCount l =
      length (filter (\<lambda>m. tag m = Synchronization) msgs)" "syncCount l < n"
    using acceptedRun_sync [OF assms(1)] assms(2) by (simp_all add: new_Listener_def)
  then show ?thesis by (metis add.commute div_mult_self4 div_less mod_mult_self4 mod_less add_0 assms(2) less_not_refl)
qed

text \<open>Two clients of which the first is already at its second synchronization.\<close>

theorem listener_synchronization_barrier_witness:
  "\<exists>l q. acceptedRun [client_msg 0 Open [], client_msg 1 Open [], client_msg 0 Synchronization [],
       client_msg 1 Synchronization [], client_msg 0 Synchronization []] (new_Listener 2) = Inr (l, q) \<and>
    length (filter (\<lambda>m. tag m = Synchronization) q) = 1 \<and> syncCount l = 1"
proof -
  let ?msgs = "[client_msg 0 Open [], client_msg 1 Open [], client_msg 0 Synchronization [],
       client_msg 1 Synchronization [], client_msg 0 Synchronization []]"
  obtain l q where run: "acceptedRun ?msgs (new_Listener 2) = Inr (l, q)"
    by (simp add: listenerHandle_def checkConnection_def new_Listener_def)
  from listener_synchronization_barrier [OF this] run show ?thesis by (intro exI [of _ l] exI [of _ q]) simp
qed

text \<open>
  A close from a peer that is not connected is not refused: it erases the end of the set of connections.
\<close>

theorem close_without_open:
  assumes "tag msg = Close" and "source msg \<notin> connections l"
  shows "listenerHandle msg l = Inl UndefinedBehaviour"
  using assms by (simp add: listenerHandle_def)

theorem close_without_open_witness:
  "listenerHandle \<lparr>tag = Close, source = default_peer, destination = default_peer, metadata = [],
     payload = Bytes [] :: nat payload\<rparr> (new_Listener 1) = Inl UndefinedBehaviour"
  by (rule close_without_open) (simp_all add: new_Listener_def)

end
