(* ===== verification/DateTimes.thy ===== *)
theory DateTimes
  imports Prelude "HOL-Library.Signed_Division"
begin

text \<open>
  Dates and times: \<^verbatim>\<open>util/DateTime.{h,cc}\<close> and the date helpers of
  \<^verbatim>\<open>action/statistics/OperationWindow.cc\<close>.

  The calendar itself is the one of \<^verbatim>\<open>eckit\<close>, which is not part of the repository: the
  record \<open>calendar\<close> holds what the code asks of it, the constructors of a date from its
  year, month and day and from their packed form (they may throw), the fields of a date, and what the constructor of a
  clock time does on values that are not on the clock. An \<^verbatim>\<open>eckit::DateTime\<close> is an instant,
  counted in seconds from the midnight of day 0 of the calendar; the code only adds seconds
  to instants, subtracts and compares them, and reads their date and clock fields.

  \<^verbatim>\<open>std::int64_t\<close> values are integers here: every quantity is a date, a clock time or a
  difference of two dates, far below the limits of 64 bits. C++ division truncates, which
  is \<open>sdiv\<close> and \<open>smod\<close>.
\<close>

section \<open>The calendar of eckit\<close>

type_synonym DateTime = int

record calendar =
  mk_date :: "int \<Rightarrow> int \<Rightarrow> int \<Rightarrow> int res"
  mk_packed_date :: "int \<Rightarrow> int res"
  civil :: "int \<Rightarrow> int \<times> int \<times> int"
  off_clock :: "int \<Rightarrow> int \<Rightarrow> int \<Rightarrow> int res"

definition day_seconds :: int where "day_seconds = 86400"

definition on_clock :: "int \<Rightarrow> int \<Rightarrow> int \<Rightarrow> bool" where
  "on_clock h m s \<longleftrightarrow> 0 \<le> h \<and> h < 24 \<and> 0 \<le> m \<and> m < 60 \<and> 0 \<le> s \<and> s < 60"

definition mk_time :: "calendar \<Rightarrow> int \<Rightarrow> int \<Rightarrow> int \<Rightarrow> int res" where
  "mk_time C h m s = (if on_clock h m s then Inr (h * 3600 + m * 60 + s) else off_clock C h m s)"

definition mk_datetime :: "calendar \<Rightarrow> int \<Rightarrow> int \<Rightarrow> int \<Rightarrow> int \<Rightarrow> int \<Rightarrow> int \<Rightarrow> DateTime res" where
  "mk_datetime C y mo d h m s =
     bind_res (mk_date C y mo d) (\<lambda>day. bind_res (mk_time C h m s) (\<lambda>sec. Inr (day * day_seconds + sec)))"

definition dt_day :: "DateTime \<Rightarrow> int" where "dt_day t = t div day_seconds"
definition dt_secs :: "DateTime \<Rightarrow> int" where "dt_secs t = t mod day_seconds"
definition dt_hours :: "DateTime \<Rightarrow> int" where "dt_hours t = dt_secs t div 3600"
definition dt_minutes :: "DateTime \<Rightarrow> int" where "dt_minutes t = dt_secs t mod 3600 div 60"
definition dt_seconds :: "DateTime \<Rightarrow> int" where "dt_seconds t = dt_secs t mod 60"
definition dt_year :: "calendar \<Rightarrow> DateTime \<Rightarrow> int" where "dt_year C t = fst (civil C (dt_day t))"
definition dt_month :: "calendar \<Rightarrow> DateTime \<Rightarrow> int" where "dt_month C t = fst (snd (civil C (dt_day t)))"
definition dt_mday :: "calendar \<Rightarrow> DateTime \<Rightarrow> int" where "dt_mday C t = snd (snd (civil C (dt_day t)))"

definition yyyymmdd :: "calendar \<Rightarrow> DateTime \<Rightarrow> int" where
  "yyyymmdd C t = dt_year C t * 10000 + dt_month C t * 100 + dt_mday C t"

definition hhmmss :: "DateTime \<Rightarrow> int" where
  "hhmmss t = dt_hours t * 10000 + dt_minutes t * 100 + dt_seconds t"

lemma dt_clock:
  "0 \<le> dt_hours t" "dt_hours t < 24" "0 \<le> dt_minutes t" "dt_minutes t < 60"
  "0 \<le> dt_seconds t" "dt_seconds t < 60"
  by (auto simp: dt_hours_def dt_minutes_def dt_seconds_def dt_secs_def day_seconds_def
      intro!: div_int_pos_iff [THEN iffD2])

lemma dt_secs_eq: "dt_secs t = dt_hours t * 3600 + dt_minutes t * 60 + dt_seconds t"
proof -
  let ?n = "dt_secs t"
  have "?n mod 60 = ?n mod 3600 mod 60" by (simp add: mod_mod_cancel)
  then have "?n mod 3600 div 60 * 60 + ?n mod 60 = ?n mod 3600"
    by (simp only: div_mult_mod_eq)
  then show ?thesis
    unfolding dt_hours_def dt_minutes_def dt_seconds_def using div_mult_mod_eq [of ?n 3600] by linarith
qed

lemma dt_split: "t = dt_day t * day_seconds + dt_secs t"
  by (simp add: dt_day_def dt_secs_def)

lemma mk_time_clock: "mk_time C (dt_hours t) (dt_minutes t) (dt_seconds t) = Inr (dt_secs t)"
  by (simp add: mk_time_def on_clock_def dt_clock dt_secs_eq)

section \<open>Broken-down dates and times\<close>

record DateInts =
  d_year :: int
  d_month :: int
  d_day :: int

record TimeInts =
  t_hour :: int
  t_minute :: int
  t_second :: int

record DateTimeInts =
  dti_date :: DateInts
  dti_time :: TimeInts

text \<open>
  \<^verbatim>\<open>toDateInts\<close> scales with floating point factors and truncates on the assignment to an
  integer. For the numbers that are eight digit dates and six digit times the product
  with \<^verbatim>\<open>1e-4\<close> and \<^verbatim>\<open>1e-2\<close> truncates to the quotient, which is what is written here.
\<close>

definition toDateInts :: "int \<Rightarrow> DateInts" where
  "toDateInts date =
     (let y = date sdiv 10000; rem = date - y * 10000; m = rem sdiv 100; d = rem - m * 100
      in \<lparr>d_year = y, d_month = m, d_day = d\<rparr>)"

definition toTimeInts :: "int \<Rightarrow> TimeInts" where
  "toTimeInts time =
     (let h = time sdiv 10000; rem = time - h * 10000; m = rem sdiv 100; s = rem - m * 100
      in \<lparr>t_hour = h, t_minute = m, t_second = s\<rparr>)"

definition fromDateInts :: "DateInts \<Rightarrow> int" where
  "fromDateInts i = d_year i * 10000 + d_month i * 100 + d_day i"

definition fromTimeInts :: "TimeInts \<Rightarrow> int" where
  "fromTimeInts i = t_hour i * 10000 + t_minute i * 100 + t_second i"

definition seconds_of :: "TimeInts \<Rightarrow> int" where
  "seconds_of t = (t_hour t * 60 + t_minute t) * 60 + t_second t"

definition wrapDateTime :: "calendar \<Rightarrow> DateTimeInts \<Rightarrow> DateTimeInts res" where
  "wrapDateTime C i =
     (if t_hour (dti_time i) \<ge> 24 \<or> t_minute (dti_time i) \<ge> 60 \<or> t_second (dti_time i) \<ge> 60
      then bind_res (mk_datetime C (d_year (dti_date i)) (d_month (dti_date i)) (d_day (dti_date i)) 0 0 0)
             (\<lambda>midnight. let wrapped = midnight + seconds_of (dti_time i)
                in Inr \<lparr>dti_date = toDateInts (yyyymmdd C wrapped), dti_time = toTimeInts (hhmmss wrapped)\<rparr>)
      else Inr i)"

subsection \<open>Packing and unpacking\<close>

lemma sdiv_nonneg: "0 \<le> (a::int) \<Longrightarrow> 0 < b \<Longrightarrow> a sdiv b = a div b"
  by (cases "a = 0") (simp_all add: signed_divide_int_def)

lemma smod_nonneg: "0 \<le> (a::int) \<Longrightarrow> 0 < b \<Longrightarrow> a smod b = a mod b"
  by (cases "a = 0") (simp_all add: signed_modulo_int_def)

lemma packed_div_mod:
  fixes a r k :: int
  assumes "0 \<le> r" "r < k"
  shows "(a * k + r) div k = a" and "(a * k + r) mod k = r"
  using assms by (simp_all add: mod_pos_pos_trivial div_pos_pos_trivial)

lemma packed_fields:
  fixes a b c :: int
  assumes "0 \<le> b" "b < 100" "0 \<le> c" "c < 100"
  shows "(a * 10000 + b * 100 + c) div 10000 = a"
    and "(b * 100 + c) div 100 = b"
    and "(a * 10000 + b * 100 + c) mod 10000 = b * 100 + c"
    and "(a * 10000 + b * 100 + c) mod 100 = c"
proof -
  have r: "0 \<le> b * 100 + c" "b * 100 + c < 10000" using assms by linarith+
  show "(a * 10000 + b * 100 + c) div 10000 = a" "(a * 10000 + b * 100 + c) mod 10000 = b * 100 + c"
    using packed_div_mod [OF r, of a] by (simp_all only: add.assoc)
  show "(b * 100 + c) div 100 = b" by (rule packed_div_mod) (use assms in auto)
  have "a * 10000 + b * 100 + c = (a * 100 + b) * 100 + c" by simp
  then show "(a * 10000 + b * 100 + c) mod 100 = c"
    by (simp only: packed_div_mod(2) [OF assms(3,4)])
qed

definition datefields_ok :: "DateInts \<Rightarrow> bool" where
  "datefields_ok d \<longleftrightarrow> 0 \<le> d_year d \<and> 0 \<le> d_month d \<and> d_month d < 100 \<and> 0 \<le> d_day d \<and> d_day d < 100"

definition timefields_ok :: "TimeInts \<Rightarrow> bool" where
  "timefields_ok t \<longleftrightarrow> 0 \<le> t_hour t \<and> 0 \<le> t_minute t \<and> t_minute t < 100 \<and> 0 \<le> t_second t \<and> t_second t < 100"

lemma toDateInts_fromDateInts: "datefields_ok d \<Longrightarrow> toDateInts (fromDateInts d) = d"
  by (cases d) (simp add: datefields_ok_def toDateInts_def fromDateInts_def Let_def sdiv_nonneg packed_fields)

lemma toTimeInts_fromTimeInts: "timefields_ok t \<Longrightarrow> toTimeInts (fromTimeInts t) = t"
  by (cases t) (simp add: timefields_ok_def toTimeInts_def fromTimeInts_def Let_def sdiv_nonneg packed_fields)

lemma toTimeInts_hhmmss:
  "toTimeInts (hhmmss t) = \<lparr>t_hour = dt_hours t, t_minute = dt_minutes t, t_second = dt_seconds t\<rparr>"
  using toTimeInts_fromTimeInts [of "\<lparr>t_hour = dt_hours t, t_minute = dt_minutes t, t_second = dt_seconds t\<rparr>"]
    dt_clock [of t]
  by (simp add: fromTimeInts_def hhmmss_def timefields_ok_def)

lemma seconds_of_hhmmss: "seconds_of (toTimeInts (hhmmss t)) = dt_secs t"
  by (simp add: toTimeInts_hhmmss seconds_of_def dt_secs_eq [of t])

section \<open>Units of time\<close>

datatype TimeUnit = Year | Month | Day | Hour | Minute | Second

definition timeUnitToChar :: "TimeUnit \<Rightarrow> char" where
  "timeUnitToChar u = (case u of
     Year \<Rightarrow> CHR ''Y'' | Month \<Rightarrow> CHR ''m'' | Day \<Rightarrow> CHR ''d''
   | Hour \<Rightarrow> CHR ''H'' | Minute \<Rightarrow> CHR ''M'' | Second \<Rightarrow> CHR ''S'')"

definition timeUnitFromChar :: "char \<Rightarrow> TimeUnit option" where
  "timeUnitFromChar c =
     (if c = CHR ''Y'' then Some Year else if c = CHR ''m'' then Some Month
      else if c = CHR ''d'' then Some Day else if c = CHR ''H'' then Some Hour
      else if c = CHR ''M'' then Some Minute else if c = CHR ''S'' then Some Second else None)"

definition timeUnitFromString :: "string \<Rightarrow> TimeUnit option" where
  "timeUnitFromString sv = (if length sv = 1 then timeUnitFromChar (sv ! 0) else None)"

lemma timeUnitFromChar_iff: "timeUnitFromChar c = Some u \<longleftrightarrow> c = timeUnitToChar u"
  by (cases u) (auto simp: timeUnitFromChar_def timeUnitToChar_def)

lemma timeUnitFromString_iff: "timeUnitFromString s = Some u \<longleftrightarrow> s = [timeUnitToChar u]"
  by (auto simp: timeUnitFromString_def timeUnitFromChar_iff length_Suc_conv)

section \<open>Months\<close>

definition lastDayOfTheMonth :: "int \<Rightarrow> int \<Rightarrow> int" where
  "lastDayOfTheMonth y m =
     (let i = m - 1
      in 31 - max 0 (i smod 6 - i sdiv 6) smod 2
           - max 0 (2 - i * (i smod 2)) smod 2 *
             (if y smod 4 = 0 then if y smod 100 = 0 then if y smod 400 = 0 then 1 else 2 else 1 else 2))"

text \<open>The Gregorian calendar's months.\<close>

definition leap_year :: "int \<Rightarrow> bool" where
  "leap_year y \<longleftrightarrow> 4 dvd y \<and> (100 dvd y \<longrightarrow> 400 dvd y)"

definition month_length :: "int \<Rightarrow> int \<Rightarrow> int" where
  "month_length y m = (if m = 2 then if leap_year y then 29 else 28 else if m \<in> {4, 6, 9, 11} then 30 else 31)"

lemma smod_eq_0_iff: "(y::int) smod k = 0 \<longleftrightarrow> k dvd y"
  by (cases "y = 0") (auto simp: signed_modulo_int_def sgn_if mod_eq_0_iff_dvd)

lemma months_enum:
  fixes m :: int
  assumes "1 \<le> m" "m \<le> 12"
  shows "m \<in> {1, 2, 3, 4, 5, 6, 7, 8, 9, 10, 11, 12}"
  using assms by simp presburger

lemma lastDayOfTheMonth_values:
  assumes "1 \<le> m" "m \<le> 12"
  shows "lastDayOfTheMonth y m = month_length y m"
proof -
  have leap: "(if y smod 4 = 0 then if y smod 100 = 0 then if y smod 400 = 0 then 1 else 2 else 1 else (2::int)) =
      (if leap_year y then 1 else 2)"
    unfolding smod_eq_0_iff leap_year_def by auto
  show ?thesis
    using months_enum [OF assms] unfolding lastDayOfTheMonth_def leap Let_def
    by (elim insertE emptyE) (simp_all add: month_length_def signed_modulo_int_def signed_divide_int_def)
qed

section \<open>Checked dates\<close>

definition yyyymmdd2ymd :: "int \<Rightarrow> (int \<times> int \<times> int) res" where
  "yyyymmdd2ymd date =
     (let d = date smod 100; m = (date smod 10000) sdiv 100; y = (date smod 100000000) sdiv 10000
      in if m < 1 \<or> m > 12 then Inl SeriousBug
         else if d < 1 \<or> d > lastDayOfTheMonth y m then Inl SeriousBug
         else Inr (y, m, d))"

definition hhmmss2hms :: "int \<Rightarrow> (int \<times> int \<times> int) res" where
  "hhmmss2hms time =
     (let s = time smod 100; m = (time smod 10000) sdiv 100; h = (time smod 1000000) sdiv 10000
      in if s < 0 \<or> s > 59 then Inl SeriousBug
         else if m < 0 \<or> m > 59 then Inl SeriousBug
         else if h < 0 \<or> h > 23 then Inl SeriousBug
         else Inr (h, m, s))"

definition yyyymmdd_hhmmss2DateTime :: "calendar \<Rightarrow> int \<Rightarrow> int \<Rightarrow> DateTime res" where
  "yyyymmdd_hhmmss2DateTime C date time =
     bind_res (yyyymmdd2ymd date) (\<lambda>(dy, dm, dd).
     bind_res (hhmmss2hms time) (\<lambda>(th, tm, ts).
     mk_datetime C dy dm dd th tm ts))"

definition civil_ok :: "calendar \<Rightarrow> int \<Rightarrow> bool" where
  "civil_ok C day \<longleftrightarrow> (case civil C day of (y, m, d) \<Rightarrow>
      0 \<le> y \<and> y < 10000 \<and> 1 \<le> m \<and> m \<le> 12 \<and> 1 \<le> d \<and> d \<le> month_length y m \<and> mk_date C y m d = Inr day)"

lemma month_length_le: "month_length y m \<le> 31"
  by (simp add: month_length_def)

lemma yyyymmdd2ymd_pack:
  assumes "0 \<le> y" "y < 10000" "1 \<le> m" "m \<le> 12" "1 \<le> d" "d \<le> month_length y m"
  shows "yyyymmdd2ymd (y * 10000 + m * 100 + d) = Inr (y, m, d)"
proof -
  let ?n = "y * 10000 + m * 100 + d"
  have d: "d < 100" using assms(6) month_length_le [of y m] by linarith
  have n: "0 \<le> ?n" "?n < 100000000" using assms d by linarith+
  have f: "?n div 10000 = y" "(m * 100 + d) div 100 = m" "?n mod 10000 = m * 100 + d" "?n mod 100 = d"
    by (rule packed_fields; use assms d in linarith)+
  have g: "?n smod 100 = d" "(?n smod 10000) sdiv 100 = m" "(?n smod 100000000) sdiv 10000 = y"
    using n assms d f by (simp_all add: smod_nonneg sdiv_nonneg)
  show ?thesis
    unfolding yyyymmdd2ymd_def Let_def g using assms lastDayOfTheMonth_values [of m y] by simp
qed

lemma hhmmss2hms_pack:
  assumes "0 \<le> h" "h < 24" "0 \<le> m" "m < 60" "0 \<le> s" "s < 60"
  shows "hhmmss2hms (h * 10000 + m * 100 + s) = Inr (h, m, s)"
proof -
  let ?n = "h * 10000 + m * 100 + s"
  have n: "0 \<le> ?n" "?n < 1000000" using assms by linarith+
  have f: "?n div 10000 = h" "(m * 100 + s) div 100 = m" "?n mod 10000 = m * 100 + s" "?n mod 100 = s"
    by (rule packed_fields; use assms in linarith)+
  have g: "?n smod 100 = s" "(?n smod 10000) sdiv 100 = m" "(?n smod 1000000) sdiv 10000 = h"
    using n assms f by (simp_all add: smod_nonneg sdiv_nonneg)
  show ?thesis
    unfolding hhmmss2hms_def Let_def g using assms by simp
qed

lemma DateTime_round_trip:
  assumes "civil_ok C (dt_day t)"
  shows "yyyymmdd_hhmmss2DateTime C (yyyymmdd C t) (hhmmss t) = Inr t"
proof -
  obtain y m d where c: "civil C (dt_day t) = (y, m, d)" by (cases "civil C (dt_day t)") auto
  have "yyyymmdd2ymd (yyyymmdd C t) = Inr (y, m, d)"
    using assms by (auto simp: yyyymmdd_def dt_year_def dt_month_def dt_mday_def c civil_ok_def intro!: yyyymmdd2ymd_pack)
  moreover have "hhmmss2hms (hhmmss t) = Inr (dt_hours t, dt_minutes t, dt_seconds t)"
    unfolding hhmmss_def by (rule hhmmss2hms_pack) (simp_all add: dt_clock)
  moreover have "mk_date C y m d = Inr (dt_day t)" using assms by (simp add: civil_ok_def c)
  ultimately show ?thesis
    using dt_split [of t] by (simp add: yyyymmdd_hhmmss2DateTime_def mk_datetime_def mk_time_clock)
qed

section \<open>Differences of dates\<close>

record DateTimeDiff =
  diff :: int
  diff_unit :: TimeUnit

definition dateTimeDiffInSeconds ::
  "calendar \<Rightarrow> DateInts \<Rightarrow> TimeInts \<Rightarrow> DateInts \<Rightarrow> TimeInts \<Rightarrow> int res" where
  "dateTimeDiffInSeconds C lD lT rD rT =
     bind_res (mk_datetime C (d_year lD) (d_month lD) (d_day lD) 0 0 0) (\<lambda>l.
     bind_res (mk_datetime C (d_year rD) (d_month rD) (d_day rD) 0 0 0) (\<lambda>r.
     Inr ((l - r) + (seconds_of lT - seconds_of rT))))"

definition scaled_diff :: "int \<Rightarrow> TimeUnit \<Rightarrow> int res \<Rightarrow> DateTimeDiff res" where
  "scaled_diff k u s = bind_res s (\<lambda>d. Inr \<lparr>diff = d sdiv k, diff_unit = u\<rparr>)"

definition dateTimeDiff ::
  "calendar \<Rightarrow> DateInts \<Rightarrow> TimeInts \<Rightarrow> DateInts \<Rightarrow> TimeInts \<Rightarrow> DateTimeDiff res" where
  "dateTimeDiff C lD lT rD rT =
     (let s = dateTimeDiffInSeconds C lD lT rD rT
      in if t_second lT \<noteq> t_second rT then scaled_diff 1 Second s
         else if t_minute lT \<noteq> t_minute rT then scaled_diff 60 Minute s
         else if t_hour lT \<noteq> t_hour rT then scaled_diff 3600 Hour s
         else if d_day lD \<noteq> d_day rD then scaled_diff 86400 Day s
         else if d_month lD \<noteq> d_month rD
           then Inr \<lparr>diff = (d_year lD - d_year rD) * 12 + (d_month lD - d_month rD), diff_unit = Month\<rparr>
         else if d_year lD \<noteq> d_year rD then Inr \<lparr>diff = d_year lD - d_year rD, diff_unit = Year\<rparr>
         else Inr \<lparr>diff = 0, diff_unit = Second\<rparr>)"

text \<open>How many seconds a unit of fixed length has.\<close>

definition unit_seconds :: "TimeUnit \<Rightarrow> int" where
  "unit_seconds u = (case u of Day \<Rightarrow> 86400 | Hour \<Rightarrow> 3600 | Minute \<Rightarrow> 60 | _ \<Rightarrow> 1)"

lemma unit_seconds_pos: "0 < unit_seconds u"
  by (cases u) (simp_all add: unit_seconds_def)

lemma sdiv_exact: "0 < k \<Longrightarrow> k dvd (a::int) \<Longrightarrow> k * (a sdiv k) = a"
  by (auto elim!: dvdE simp: signed_divide_int_def abs_mult sgn_mult mult_sgn_abs)

lemma midnight: "mk_datetime C y m d 0 0 0 = bind_res (mk_date C y m d) (\<lambda>day. Inr (day * 86400))"
  by (simp add: mk_datetime_def mk_time_def on_clock_def day_seconds_def)

lemma dateTimeDiffInSeconds_value:
  assumes "dateTimeDiffInSeconds C lD lT rD rT = Inr s"
  shows "\<exists>k. s = k * 86400 + (seconds_of lT - seconds_of rT)"
proof -
  obtain l r where "s = (l * 86400 - r * 86400) + (seconds_of lT - seconds_of rT)"
    using assms by (auto simp: dateTimeDiffInSeconds_def midnight bind_res_Inr_iff)
  then show ?thesis by (intro exI [of _ "l - r"]) simp
qed

lemma scaled_diff_exact:
  assumes "scaled_diff (unit_seconds u) u s = Inr d" "\<And>n. s = Inr n \<Longrightarrow> unit_seconds u dvd n"
  shows "diff_unit d = u" and "s = Inr (unit_seconds u * diff d)"
  using assms by (auto simp: scaled_diff_def bind_res_Inr_iff sdiv_exact unit_seconds_pos)

text \<open>
  The difference of two instants in the unit chosen by \<^verbatim>\<open>dateTimeDiff\<close> loses
  nothing: when the unit is the second, the minute, the hour or the day and the two instants
  are not the same, the number of units times the length of the unit is exactly the difference
  in seconds, although the code divides floating point numbers and truncates. This is for every
  calendar and every pair of dates, also for times that are past the end of the clock.
\<close>

theorem dateTimeDiff_exact:
  assumes "dateTimeDiff C lD lT rD rT = Inr d"
    and "diff_unit d \<in> {Second, Minute, Hour, Day}"
    and "(lD, lT) \<noteq> (rD, rT)"
  shows "dateTimeDiffInSeconds C lD lT rD rT = Inr (unit_seconds (diff_unit d) * diff d)"
proof -
  let ?s = "dateTimeDiffInSeconds C lD lT rD rT"
  have neq: "d_day lD \<noteq> d_day rD \<or> d_month lD \<noteq> d_month rD \<or> d_year lD \<noteq> d_year rD \<or>
      t_second lT \<noteq> t_second rT \<or> t_minute lT \<noteq> t_minute rT \<or> t_hour lT \<noteq> t_hour rT"
    using assms(3) by (cases lD; cases rD; cases lT; cases rT) auto
  consider
      (sec) "scaled_diff (unit_seconds Second) Second ?s = Inr d"
    | (min) "scaled_diff (unit_seconds Minute) Minute ?s = Inr d" "t_second lT = t_second rT"
    | (hour) "scaled_diff (unit_seconds Hour) Hour ?s = Inr d" "t_second lT = t_second rT" "t_minute lT = t_minute rT"
    | (day) "scaled_diff (unit_seconds Day) Day ?s = Inr d" "t_second lT = t_second rT" "t_minute lT = t_minute rT"
        "t_hour lT = t_hour rT"
    using assms(1,2) neq by (auto simp: dateTimeDiff_def unit_seconds_def Let_def split: if_splits)
  then show ?thesis
  proof cases
    case sec
    then show ?thesis using scaled_diff_exact [OF sec] by (simp add: unit_seconds_def)
  next
    case min
    have "60 dvd n" if "?s = Inr n" for n
      using dateTimeDiffInSeconds_value [OF that] min(2) by (auto simp: seconds_of_def)
    then show ?thesis using scaled_diff_exact [OF min(1)] by (simp add: unit_seconds_def)
  next
    case hour
    have "3600 dvd n" if "?s = Inr n" for n
      using dateTimeDiffInSeconds_value [OF that] hour(2,3) by (auto simp: seconds_of_def)
    then show ?thesis using scaled_diff_exact [OF hour(1)] by (simp add: unit_seconds_def)
  next
    case day
    have "86400 dvd n" if "?s = Inr n" for n
      using dateTimeDiffInSeconds_value [OF that] day(2-4) by (auto simp: seconds_of_def)
    then show ?thesis using scaled_diff_exact [OF day(1)] by (simp add: unit_seconds_def)
  qed
qed

theorem dateTimeDiff_exact_witness:
  "\<exists>C lD lT rD rT d. dateTimeDiff C lD lT rD rT = Inr d \<and> diff_unit d = Hour \<and> diff d = 30 \<and>
     dateTimeDiffInSeconds C lD lT rD rT = Inr (unit_seconds (diff_unit d) * diff d)"
proof -
  let ?C = "\<lparr>mk_date = (\<lambda>y m d. if (y, m) = (2000, 1) then Inr d else Inl BadValue),
     mk_packed_date = (\<lambda>d. Inl BadValue),
     civil = (\<lambda>d. (2000, 1, d)), off_clock = (\<lambda>h m s. Inl BadValue)\<rparr>"
  let ?l = "\<lparr>d_year = 2000, d_month = 1, d_day = 2\<rparr>" and ?r = "\<lparr>d_year = 2000, d_month = 1, d_day = 1\<rparr>"
  let ?t = "\<lparr>t_hour = 6, t_minute = 0, t_second = 0\<rparr>" and ?u = "\<lparr>t_hour = 0, t_minute = 0, t_second = 0\<rparr>"
  let ?d = "\<lparr>diff = 30, diff_unit = Hour\<rparr>"
  have d: "dateTimeDiff ?C ?l ?t ?r ?u = Inr ?d"
    by (simp add: dateTimeDiff_def dateTimeDiffInSeconds_def midnight seconds_of_def scaled_diff_def
        signed_divide_int_def)
  then have "dateTimeDiffInSeconds ?C ?l ?t ?r ?u = Inr (unit_seconds (diff_unit ?d) * diff ?d)"
    by (rule dateTimeDiff_exact) simp_all
  with d show ?thesis by (intro exI [of _ ?C] exI [of _ ?l] exI [of _ ?t] exI [of _ ?r] exI [of _ ?u] exI [of _ ?d]) simp
qed

text \<open>
  The two branch-free copies of \<^verbatim>\<open>lastDayOfTheMonth\<close> agree with the calendar: for
  every year and every month from 1 to 12 the result is the length of the Gregorian month,
  leap years included.
\<close>

theorem lastDayOfTheMonth_gregorian:
  "\<forall>m \<in> {1..12}. lastDayOfTheMonth y m = month_length y m"
  by (simp add: lastDayOfTheMonth_values)

theorem lastDayOfTheMonth_gregorian_witness:
  "lastDayOfTheMonth 2000 2 = 29 \<and> lastDayOfTheMonth 1900 2 = 28 \<and> lastDayOfTheMonth 2023 11 = 30"
  using lastDayOfTheMonth_gregorian [of 2000] lastDayOfTheMonth_gregorian [of 1900] lastDayOfTheMonth_gregorian [of 2023]
  by (simp add: month_length_def leap_year_def)

end
