(* ===== verification/Windows.thy ===== *)
theory Windows
  imports DateTimes
begin

text \<open>
  The time windows of the statistics action: the restart buffer \<^verbatim>\<open>IOBuffer\<close> of
  \<^verbatim>\<open>action/statistics/StatisticsIO.cc\<close>, the class \<^verbatim>\<open>OperationWindow\<close>, and the period updaters
  that move a window (\<^verbatim>\<open>period-updaters/*.h\<close>, \<^verbatim>\<open>PeriodUpdaters.cc\<close>).
\<close>

section \<open>The restart buffer\<close>

text \<open>
  An \<^verbatim>\<open>IOBuffer\<close> is a view of the first \<^verbatim>\<open>size_\<close> words of a vector: here the list of these
  words. The checksum of a view of size 0 would run over the whole address space.
\<close>

definition checksum_step :: "u64 \<Rightarrow> u64 \<Rightarrow> u64" where
  "checksum_step c b = (push_bit 1 c * 31) XOR b"

definition checksum_words :: "u64 list \<Rightarrow> u64" where
  "checksum_words ws = foldl checksum_step 1979339339 ws"

definition io_checksum :: "u64 list \<Rightarrow> u64 res" where
  "io_checksum buf = (if buf = [] then Inl OutOfBounds else Inr (checksum_words (butlast buf)))"

definition io_get :: "u64 list \<Rightarrow> nat \<Rightarrow> u64 res" where
  "io_get buf idx = (if idx \<ge> length buf then Inl SeriousBug else Inr (buf ! idx))"

definition io_put :: "u64 list \<Rightarrow> nat \<Rightarrow> u64 \<Rightarrow> u64 list res" where
  "io_put buf idx w = (if idx \<ge> length buf then Inl SeriousBug else Inr (buf[idx := w]))"

definition io_zero :: "u64 list \<Rightarrow> u64 list" where
  "io_zero buf = map (\<lambda>v. 0) buf"

definition computeChecksum :: "u64 list \<Rightarrow> u64 list res" where
  "computeChecksum buf = bind_res (io_checksum buf) (\<lambda>c. write_at buf (length buf - 1) c)"

definition checkChecksum :: "u64 list \<Rightarrow> unit res" where
  "checkChecksum buf = bind_res (io_checksum buf) (\<lambda>c.
     bind_res (read_at buf (length buf - 1)) (\<lambda>w. if w \<noteq> c then Inl SeriousBug else Inr ()))"

subsection \<open>What the checksum sees\<close>

lemma computeChecksum_snoc: "computeChecksum (ws @ [w]) = Inr (ws @ [checksum_words ws])"
  by (simp add: computeChecksum_def io_checksum_def)

lemma checkChecksum_snoc: "checkChecksum (ws @ [c]) = Inr () \<longleftrightarrow> c = checksum_words ws"
  by (simp add: checkChecksum_def io_checksum_def)

lemma checksum_words_append:
  "checksum_words (xs @ ys) = foldl checksum_step (checksum_words xs) ys"
  by (simp add: checksum_words_def)

text \<open>Two states that agree on their lowest bits agree on one bit more after a word.\<close>

lemma take_bit_word_mult:
  fixes a b :: "'a::len word"
  shows "take_bit n (take_bit n a * b) = take_bit n (a * b)"
  by transfer (simp add: take_bit_eq_mod min_def mod_mult_left_eq mod_simps)

lemma checksum_step_agree:
  assumes "take_bit k c = take_bit k (d :: u64)"
  shows "take_bit (Suc k) (checksum_step c b) = take_bit (Suc k) (checksum_step d b)"
proof -
  have shift: "take_bit (Suc k) (push_bit 1 c) = take_bit (Suc k) (push_bit 1 d)"
    unfolding take_bit_push_bit using assms by simp
  have "take_bit (Suc k) (push_bit 1 c * 31) = take_bit (Suc k) (take_bit (Suc k) (push_bit 1 c) * 31)"
    by (rule take_bit_word_mult [symmetric])
  also have "\<dots> = take_bit (Suc k) (push_bit 1 d * 31)"
    unfolding shift by (rule take_bit_word_mult)
  finally show ?thesis unfolding checksum_step_def take_bit_xor by simp
qed

lemma checksum_foldl_agree:
  "take_bit k c = take_bit k d \<Longrightarrow>
     take_bit (k + length ys) (foldl checksum_step c ys) = take_bit (k + length ys) (foldl checksum_step d ys)"
proof (induction ys arbitrary: k c d)
  case Nil
  then show ?case by simp
next
  case (Cons y ys)
  from Cons.IH [OF checksum_step_agree [OF Cons.prems], of y] show ?case by simp
qed

lemma checksum_forgets:
  assumes "length ys \<ge> 64"
  shows "foldl checksum_step c ys = foldl checksum_step (d :: u64) ys"
proof -
  have "take_bit (0 + length ys) (foldl checksum_step c ys) = take_bit (0 + length ys) (foldl checksum_step d ys)"
    by (rule checksum_foldl_agree) simp
  then show ?thesis using assms by (simp add: take_bit_word_eq_self)
qed

lemma checksum_step_inj: "checksum_step c a = checksum_step c b \<longleftrightarrow> a = b"
proof
  let ?v = "push_bit 1 c * 31"
  assume "checksum_step c a = checksum_step c b"
  then have "?v XOR (?v XOR a) = ?v XOR (?v XOR b)" by (simp only: checksum_step_def)
  then show "a = b" by (simp only: xor.assoc [symmetric] xor_self_eq xor.left_neutral)
qed simp

text \<open>
  The checksum of a restart file sees its last 64 words only: every step shifts
  the state by one bit and multiplies it, so whatever the earlier words were has left the
  64-bit state after 64 more words. A file that differs from the one that was written only
  before its last 64 words is accepted with the old checksum.
\<close>

theorem checksum_ignores_early_words:
  assumes "length ys \<ge> 64" and "checkChecksum (xs @ ys @ [c]) = Inr ()"
  shows "checkChecksum (zs @ ys @ [c]) = Inr ()"
proof -
  have "checksum_words (zs @ ys) = checksum_words (xs @ ys)"
    unfolding checksum_words_append by (rule checksum_forgets [OF assms(1)])
  then show ?thesis
    using assms(2) checkChecksum_snoc [of "xs @ ys" c] checkChecksum_snoc [of "zs @ ys" c] by simp
qed

theorem checksum_ignores_early_words_witness:
  "\<exists>c. checkChecksum ([1] @ replicate 64 5 @ [c]) = Inr () \<and> checkChecksum ([2] @ replicate 64 5 @ [c]) = Inr ()"
proof -
  let ?ws = "[1 :: u64] @ replicate 64 5"
  have ok: "checkChecksum ([1] @ replicate 64 5 @ [checksum_words ?ws]) = Inr ()"
    using checkChecksum_snoc [of ?ws] by simp
  have "checkChecksum ([2] @ replicate 64 5 @ [checksum_words ?ws]) = Inr ()"
    by (rule checksum_ignores_early_words [OF _ ok]) simp
  with ok show ?thesis by blast
qed

section \<open>The operation window\<close>

text \<open>
  \<^verbatim>\<open>OperationWindowType\<close> is an enumeration over \<^verbatim>\<open>std::int64_t\<close> into which a restart file may
  cast any number, so that a type is an integer here and the code's \<^verbatim>\<open>else\<close> branches are
  reachable.
\<close>

definition FORWARD_OFFSET :: int where "FORWARD_OFFSET = 0"
definition BACKWARD_OFFSET :: int where "BACKWARD_OFFSET = 1"

record OperationWindow =
  epochPoint :: DateTime
  startPoint :: DateTime
  creationPoint :: DateTime
  currPoint :: DateTime
  prevPoint :: DateTime
  endPoint :: DateTime
  lastFlush :: DateTime
  timeStepInSeconds :: int
  wcount :: int
  wcounts :: "int list"
  wtype :: int

definition new_window :: "DateTime \<Rightarrow> DateTime \<Rightarrow> DateTime \<Rightarrow> DateTime \<Rightarrow> int \<Rightarrow> int \<Rightarrow> OperationWindow" where
  "new_window epoch start creation fin timeStep type =
     \<lparr>epochPoint = epoch, startPoint = start, creationPoint = creation, currPoint = creation,
      prevPoint = creation, endPoint = fin, lastFlush = epoch, timeStepInSeconds = timeStep,
      wcount = 0, wcounts = [], wtype = type\<rparr>"

definition gtLowerBound :: "OperationWindow \<Rightarrow> DateTime \<Rightarrow> bool \<Rightarrow> bool res" where
  "gtLowerBound w dt throw_error =
     (if throw_error \<and> creationPoint w \<ge> dt then Inl SeriousBug else Inr (dt > creationPoint w))"

definition geLowerBound :: "OperationWindow \<Rightarrow> DateTime \<Rightarrow> bool \<Rightarrow> bool res" where
  "geLowerBound w dt throw_error =
     (if throw_error \<and> creationPoint w > dt then Inl SeriousBug else Inr (dt \<ge> creationPoint w))"

definition leUpperBound :: "OperationWindow \<Rightarrow> DateTime \<Rightarrow> bool \<Rightarrow> bool res" where
  "leUpperBound w dt throw_error =
     (if throw_error \<and> dt > endPoint w then Inl SeriousBug else Inr (dt \<le> endPoint w))"

definition ltUpperBound :: "OperationWindow \<Rightarrow> DateTime \<Rightarrow> bool \<Rightarrow> bool res" where
  "ltUpperBound w dt throw_error =
     (if throw_error \<and> dt \<ge> endPoint w then Inl SeriousBug else Inr (dt < endPoint w))"

definition and_res :: "bool res \<Rightarrow> bool res \<Rightarrow> bool res" where
  "and_res a b = bind_res a (\<lambda>x. if x then b else Inr False)"

definition isWithin :: "OperationWindow \<Rightarrow> DateTime \<Rightarrow> bool res" where
  "isWithin w dt =
     (if wtype w = FORWARD_OFFSET then and_res (gtLowerBound w dt False) (leUpperBound w dt False)
      else if wtype w = BACKWARD_OFFSET then and_res (geLowerBound w dt False) (ltUpperBound w dt False)
      else Inl SeriousBug)"

definition windowType :: "OperationWindow \<Rightarrow> string res" where
  "windowType w =
     (if wtype w = FORWARD_OFFSET then Inr ''forward-offset''
      else if wtype w = BACKWARD_OFFSET then Inr ''backward-offset''
      else Inl SeriousBug)"

definition win_updateData :: "OperationWindow \<Rightarrow> DateTime \<Rightarrow> OperationWindow res" where
  "win_updateData w currentPoint =
     bind_res (gtLowerBound w currentPoint True) (\<lambda>_.
     bind_res (leUpperBound w currentPoint True) (\<lambda>_.
     Inr (w\<lparr>prevPoint := currPoint w, currPoint := currentPoint, wcount := wcount w + 1\<rparr>)))"

definition win_updateWindow :: "OperationWindow \<Rightarrow> DateTime \<Rightarrow> DateTime \<Rightarrow> OperationWindow" where
  "win_updateWindow w start fin =
     w\<lparr>startPoint := start, creationPoint := start, currPoint := start, prevPoint := start,
       endPoint := fin, wcount := 0, wcounts := []\<rparr>"

definition updateFlush :: "OperationWindow \<Rightarrow> OperationWindow" where
  "updateFlush w = w\<lparr>lastFlush := currPoint w\<rparr>"

definition initCountsLazy :: "OperationWindow \<Rightarrow> nat \<Rightarrow> OperationWindow res" where
  "initCountsLazy w n =
     (if length (wcounts w) = n then Inr w
      else if length (wcounts w) = 0 then Inr (w\<lparr>wcounts := replicate n 0\<rparr>)
      else Inl SeriousBug)"

text \<open>
  The points of the window in seconds, hours and steps, relative to the epoch or to a given
  point: the five accessors of each group differ in the member they read, the argument \<open>p\<close>.
  Differences of instants are whole seconds; hours and steps are truncated quotients. A
  time step of 0 divides by zero.
\<close>

definition pointInSecondsFrom :: "(OperationWindow \<Rightarrow> DateTime) \<Rightarrow> OperationWindow \<Rightarrow> DateTime \<Rightarrow> int" where
  "pointInSecondsFrom p w refPoint = p w - refPoint"

definition pointInHoursFrom :: "(OperationWindow \<Rightarrow> DateTime) \<Rightarrow> OperationWindow \<Rightarrow> DateTime \<Rightarrow> int" where
  "pointInHoursFrom p w refPoint = pointInSecondsFrom p w refPoint sdiv 3600"

definition div_res :: "int \<Rightarrow> int \<Rightarrow> int res" where
  "div_res a b = (if b = 0 then Inl UndefinedBehaviour else Inr (a sdiv b))"

definition pointInStepsFrom :: "(OperationWindow \<Rightarrow> DateTime) \<Rightarrow> OperationWindow \<Rightarrow> DateTime \<Rightarrow> int res" where
  "pointInStepsFrom p w refPoint = div_res (pointInSecondsFrom p w refPoint) (timeStepInSeconds w)"

definition pointInSeconds :: "(OperationWindow \<Rightarrow> DateTime) \<Rightarrow> OperationWindow \<Rightarrow> int" where
  "pointInSeconds p w = p w - epochPoint w"

definition pointInHours :: "(OperationWindow \<Rightarrow> DateTime) \<Rightarrow> OperationWindow \<Rightarrow> int" where
  "pointInHours p w = pointInSeconds p w sdiv 3600"

definition pointInSteps :: "(OperationWindow \<Rightarrow> DateTime) \<Rightarrow> OperationWindow \<Rightarrow> int res" where
  "pointInSteps p w = div_res (pointInSeconds p w) (timeStepInSeconds w)"

definition timeSpanInSeconds :: "OperationWindow \<Rightarrow> int" where
  "timeSpanInSeconds w = endPoint w - creationPoint w"

definition timeSpanInHours :: "OperationWindow \<Rightarrow> int" where
  "timeSpanInHours w = (endPoint w - creationPoint w) sdiv 3600"

definition timeSpanInSteps :: "OperationWindow \<Rightarrow> int res" where
  "timeSpanInSteps w = div_res (timeSpanInSeconds w) (timeStepInSeconds w)"

definition lastPointsDiffInSeconds :: "OperationWindow \<Rightarrow> int" where
  "lastPointsDiffInSeconds w = currPoint w - prevPoint w"

definition lastPointsDiff :: "calendar \<Rightarrow> OperationWindow \<Rightarrow> DateTimeDiff res" where
  "lastPointsDiff C w =
     dateTimeDiff C (toDateInts (yyyymmdd C (currPoint w))) (toTimeInts (hhmmss (currPoint w)))
       (toDateInts (yyyymmdd C (prevPoint w))) (toTimeInts (hhmmss (prevPoint w)))"

definition lastFlushInSteps :: "OperationWindow \<Rightarrow> int res" where
  "lastFlushInSteps w = div_res (lastFlush w - epochPoint w) (timeStepInSeconds w)"

section \<open>Dump and load of a window\<close>

definition window_words :: "calendar \<Rightarrow> OperationWindow \<Rightarrow> u64 list" where
  "window_words C w =
     concat (map (\<lambda>p. [word_of_int (yyyymmdd C (p w)), word_of_int (hhmmss (p w))])
       [epochPoint, startPoint, endPoint, creationPoint, prevPoint, currPoint, lastFlush])
     @ [word_of_int (timeStepInSeconds w), word_of_int (wcount w), word_of_int (wtype w),
        of_nat (length (wcounts w))]
     @ map word_of_int (wcounts w)"

definition io_write :: "u64 list \<Rightarrow> u64 list \<Rightarrow> u64 list res" where
  "io_write ws buf = fold_res (\<lambda>(i, w) b. io_put b i w) (enumerate 0 ws) buf"

definition win_serialize :: "calendar \<Rightarrow> OperationWindow \<Rightarrow> u64 list \<Rightarrow> u64 list res" where
  "win_serialize C w buf = bind_res (io_write (window_words C w) buf) computeChecksum"

definition restartSize :: "OperationWindow \<Rightarrow> nat" where
  "restartSize w = 18 + length (wcounts w) + 1"

definition win_dump :: "calendar \<Rightarrow> OperationWindow \<Rightarrow> u64 list \<Rightarrow> u64 list res" where
  "win_dump C w backing =
     (let buf = io_zero (take (restartSize w) backing) in win_serialize C w buf)"

definition io_get_int :: "u64 list \<Rightarrow> nat \<Rightarrow> int res" where
  "io_get_int buf i = bind_res (io_get buf i) (\<lambda>w. Inr (sint w))"

definition io_get_point :: "calendar \<Rightarrow> u64 list \<Rightarrow> nat \<Rightarrow> DateTime res" where
  "io_get_point C buf i =
     bind_res (io_get_int buf i) (\<lambda>d. bind_res (io_get_int buf (i + 1)) (\<lambda>t. yyyymmdd_hhmmss2DateTime C d t))"

fun io_get_ints :: "u64 list \<Rightarrow> nat list \<Rightarrow> int list res" where
  "io_get_ints buf [] = Inr []"
| "io_get_ints buf (i # is) =
     bind_res (io_get_int buf i) (\<lambda>v. bind_res (io_get_ints buf is) (\<lambda>vs. Inr (v # vs)))"

definition win_deserialize :: "calendar \<Rightarrow> u64 list \<Rightarrow> OperationWindow res" where
  "win_deserialize C buf =
     bind_res (checkChecksum buf) (\<lambda>_.
     bind_res (io_get_point C buf 0) (\<lambda>epoch.
     bind_res (io_get_point C buf 2) (\<lambda>start.
     bind_res (io_get_point C buf 4) (\<lambda>fin.
     bind_res (io_get_point C buf 6) (\<lambda>creation.
     bind_res (io_get_point C buf 8) (\<lambda>prev.
     bind_res (io_get_point C buf 10) (\<lambda>curr.
     bind_res (io_get_point C buf 12) (\<lambda>flush.
     bind_res (io_get_int buf 14) (\<lambda>timeStep.
     bind_res (io_get_int buf 15) (\<lambda>cnt.
     bind_res (io_get_int buf 16) (\<lambda>type.
     bind_res (io_get buf 17) (\<lambda>countsSize.
     bind_res (io_get_ints buf (map (\<lambda>i. i + 18) [0..<unat countsSize])) (\<lambda>counts.
     Inr \<lparr>epochPoint = epoch, startPoint = start, creationPoint = creation, currPoint = curr,
          prevPoint = prev, endPoint = fin, lastFlush = flush, timeStepInSeconds = timeStep,
          wcount = cnt, wcounts = counts, wtype = type\<rparr>)))))))))))))"

lemma io_get_ok: "i < length buf \<Longrightarrow> io_get buf i = Inr (buf ! i)"
  by (simp add: io_get_def)

lemma io_write_fill:
  assumes "n + length ws \<le> length buf"
  shows "fold_res (\<lambda>(i, w) b. io_put b i w) (enumerate n ws) buf =
     Inr (take n buf @ ws @ drop (n + length ws) buf)"
  using assms
proof (induction ws arbitrary: n buf)
  case Nil
  then show ?case by simp
next
  case (Cons w ws)
  have n: "n < length buf" using Cons.prems by simp
  have "fold_res (\<lambda>(i, w) b. io_put b i w) (enumerate (Suc n) ws) (buf[n := w]) =
      Inr (take (Suc n) (buf[n := w]) @ ws @ drop (Suc n + length ws) (buf[n := w]))"
    by (rule Cons.IH) (use Cons.prems in simp)
  then show ?case
    using n Cons.prems by (simp add: io_put_def take_Suc_conv_app_nth drop_update_cancel)
qed

lemma length_window_words: "length (window_words C w) = 18 + length (wcounts w)"
  by (simp add: window_words_def)

lemma win_dump_value:
  assumes "restartSize w \<le> length backing"
  shows "win_dump C w backing = Inr (window_words C w @ [checksum_words (window_words C w)])"
proof -
  let ?buf = "io_zero (take (restartSize w) backing)"
  have len: "length ?buf = Suc (length (window_words C w))"
    using assms by (simp add: io_zero_def restartSize_def length_window_words)
  obtain x where x: "drop (length (window_words C w)) ?buf = [x]"
    using len by (metis Cons_nth_drop_Suc drop_all lessI order_refl)
  have "io_write (window_words C w) ?buf = Inr (window_words C w @ [x])"
    unfolding io_write_def using io_write_fill [of 0 "window_words C w" ?buf] len x by simp
  then show ?thesis by (simp add: win_dump_def Let_def win_serialize_def computeChecksum_snoc)
qed

subsection \<open>Loading what was dumped\<close>

definition int64 :: "int \<Rightarrow> bool" where
  "int64 v \<longleftrightarrow> - (2 ^ 63) \<le> v \<and> v < 2 ^ 63"

lemma sint_of_int64: "int64 v \<Longrightarrow> sint (word_of_int v :: u64) = v"
  by (simp add: int64_def signed_of_int signed_take_bit_int_eq_self)

definition window_ok :: "calendar \<Rightarrow> OperationWindow \<Rightarrow> bool" where
  "window_ok C w \<longleftrightarrow>
     list_all (\<lambda>p. civil_ok C (dt_day (p w)))
       [epochPoint, startPoint, endPoint, creationPoint, prevPoint, currPoint, lastFlush]
     \<and> int64 (timeStepInSeconds w) \<and> int64 (wcount w) \<and> int64 (wtype w)
     \<and> list_all int64 (wcounts w) \<and> length (wcounts w) < 2 ^ 64"

lemma date_int64:
  assumes "civil_ok C (dt_day t)"
  shows "int64 (yyyymmdd C t)"
proof -
  obtain y m d where c: "civil C (dt_day t) = (y, m, d)" by (cases "civil C (dt_day t)") auto
  then have "0 \<le> y" "y < 10000" "1 \<le> m" "m \<le> 12" "1 \<le> d" "d \<le> 31"
    using assms month_length_le [of y m] by (auto simp: civil_ok_def)
  then show ?thesis by (simp add: c int64_def yyyymmdd_def dt_year_def dt_month_def dt_mday_def)
qed

lemma time_int64: "int64 (hhmmss t)"
  using dt_clock [of t] by (simp add: int64_def hhmmss_def)

lemma io_get_int_word:
  "buf ! i = word_of_int v \<Longrightarrow> i < length buf \<Longrightarrow> int64 v \<Longrightarrow> io_get_int buf i = Inr v"
  by (simp add: io_get_int_def io_get_def sint_of_int64)

lemma io_get_point_word:
  assumes "buf ! i = word_of_int (yyyymmdd C t)" "buf ! Suc i = word_of_int (hhmmss t)" "Suc i < length buf"
    "civil_ok C (dt_day t)"
  shows "io_get_point C buf i = Inr t"
  using assms DateTime_round_trip [OF assms(4)]
  by (simp add: io_get_point_def io_get_int_word [OF assms(1)] io_get_int_word [OF assms(2)] date_int64 time_int64)

lemma io_get_ints_words:
  assumes "\<And>k. k < length vs \<Longrightarrow> buf ! (n + k) = word_of_int (vs ! k)" "n + length vs \<le> length buf" "list_all int64 vs"
  shows "io_get_ints buf (map (\<lambda>i. i + n) [0..<length vs]) = Inr vs"
  using assms
proof (induction vs arbitrary: n)
  case Nil
  then show ?case by simp
next
  case (Cons v vs)
  have "map (\<lambda>i. i + n) [0..<length (v # vs)] = n # map (\<lambda>i. i + Suc n) [0..<length vs]"
    by (simp add: upt_conv_Cons map_Suc_upt [symmetric] del: upt_Suc)
  moreover have "io_get_int buf n = Inr v"
    by (rule io_get_int_word) (use Cons.prems(1) [of 0] Cons.prems(2,3) in auto)
  moreover have "io_get_ints buf (map (\<lambda>i. i + Suc n) [0..<length vs]) = Inr vs"
    by (rule Cons.IH) (use Cons.prems(1) [of "Suc _"] Cons.prems(2,3) in auto)
  ultimately show ?case by simp
qed

text \<open>
  Property C38. A restart file restores the window: loading the words that \<^verbatim>\<open>dump\<close> wrote gives
  the window back, all seven instants, the time step, the counters and the type, whatever was in
  the buffer before. Only that the instants are dates of the calendar is needed, years 0 to 9999,
  and that the counters are 64-bit integers; in particular the checksum that \<^verbatim>\<open>dump\<close> stores is the
  one that \<^verbatim>\<open>load\<close> computes.
\<close>

theorem window_restart_round_trip:
  assumes "window_ok C w" and "restartSize w \<le> length backing"
  shows "bind_res (win_dump C w backing) (win_deserialize C) = Inr w"
proof -
  let ?ws = "window_words C w"
  let ?buf = "?ws @ [checksum_words ?ws]"
  have len: "length ?buf = 19 + length (wcounts w)" by (simp add: length_window_words)
  have nth: "?buf ! 0 = word_of_int (yyyymmdd C (epochPoint w))" "?buf ! Suc 0 = word_of_int (hhmmss (epochPoint w))"
    "?buf ! 2 = word_of_int (yyyymmdd C (startPoint w))" "?buf ! Suc 2 = word_of_int (hhmmss (startPoint w))"
    "?buf ! 4 = word_of_int (yyyymmdd C (endPoint w))" "?buf ! Suc 4 = word_of_int (hhmmss (endPoint w))"
    "?buf ! 6 = word_of_int (yyyymmdd C (creationPoint w))" "?buf ! Suc 6 = word_of_int (hhmmss (creationPoint w))"
    "?buf ! 8 = word_of_int (yyyymmdd C (prevPoint w))" "?buf ! Suc 8 = word_of_int (hhmmss (prevPoint w))"
    "?buf ! 10 = word_of_int (yyyymmdd C (currPoint w))" "?buf ! Suc 10 = word_of_int (hhmmss (currPoint w))"
    "?buf ! 12 = word_of_int (yyyymmdd C (lastFlush w))" "?buf ! Suc 12 = word_of_int (hhmmss (lastFlush w))"
    "?buf ! 14 = word_of_int (timeStepInSeconds w)" "?buf ! 15 = word_of_int (wcount w)"
    "?buf ! 16 = word_of_int (wtype w)" "?buf ! 17 = of_nat (length (wcounts w))"
    by (simp_all add: window_words_def)
  have counts: "?buf ! (18 + k) = word_of_int (wcounts w ! k)" if "k < length (wcounts w)" for k
    using that by (simp add: window_words_def nth_append)
  have points: "civil_ok C (dt_day (epochPoint w))" "civil_ok C (dt_day (startPoint w))" "civil_ok C (dt_day (endPoint w))"
    "civil_ok C (dt_day (creationPoint w))" "civil_ok C (dt_day (prevPoint w))" "civil_ok C (dt_day (currPoint w))"
    "civil_ok C (dt_day (lastFlush w))"
    and ints: "int64 (timeStepInSeconds w)" "int64 (wcount w)" "int64 (wtype w)" "list_all int64 (wcounts w)"
    and n: "length (wcounts w) < 2 ^ 64"
    using assms(1) by (simp_all add: window_ok_def)
  have "unat (of_nat (length (wcounts w)) :: u64) = length (wcounts w)"
    using n by (simp add: unat_of_nat take_bit_nat_eq_self)
  then have "io_get_ints ?buf (map (\<lambda>i. i + 18) [0..<unat (of_nat (length (wcounts w)) :: u64)]) = Inr (wcounts w)"
    using io_get_ints_words [of "wcounts w" ?buf 18] counts len ints(4) by simp
  moreover have "checkChecksum ?buf = Inr ()" by (simp add: checkChecksum_snoc)
  moreover have "io_get_point C ?buf 0 = Inr (epochPoint w)" "io_get_point C ?buf 2 = Inr (startPoint w)"
    "io_get_point C ?buf 4 = Inr (endPoint w)" "io_get_point C ?buf 6 = Inr (creationPoint w)"
    "io_get_point C ?buf 8 = Inr (prevPoint w)" "io_get_point C ?buf 10 = Inr (currPoint w)"
    "io_get_point C ?buf 12 = Inr (lastFlush w)"
    by (rule io_get_point_word; (rule nth points | (simp add: length_window_words; fail)))+
  moreover have "io_get_int ?buf 14 = Inr (timeStepInSeconds w)" "io_get_int ?buf 15 = Inr (wcount w)"
    "io_get_int ?buf 16 = Inr (wtype w)"
    by (rule io_get_int_word; (rule nth ints | (simp add: length_window_words; fail)))+
  moreover have "io_get ?buf 17 = Inr (of_nat (length (wcounts w)))"
    using io_get_ok [of 17 ?buf] len nth(18) by simp
  ultimately have "win_deserialize C ?buf = Inr w"
    unfolding win_deserialize_def by simp
  then show ?thesis by (simp add: win_dump_value [OF assms(2)])
qed

theorem window_restart_round_trip_witness:
  "\<exists>C w. wcounts w = [3, 4] \<and> wtype w = BACKWARD_OFFSET \<and>
     bind_res (win_dump C w (replicate 64 7)) (win_deserialize C) = Inr w"
proof -
  let ?C = "\<lparr>mk_date = (\<lambda>y m d. if (y, m) = (2000, 1) then Inr d else Inl BadValue),
     mk_packed_date = (\<lambda>d. Inl BadValue),
     civil = (\<lambda>d. (2000, 1, d)), off_clock = (\<lambda>h m s. Inl BadValue)\<rparr>"
  let ?w = "\<lparr>epochPoint = 86400, startPoint = 90000, creationPoint = 90000, currPoint = 93600, prevPoint = 90000,
     endPoint = 172800, lastFlush = 86400, timeStepInSeconds = 3600, wcount = 1, wcounts = [3, 4],
     wtype = BACKWARD_OFFSET\<rparr>"
  have "bind_res (win_dump ?C ?w (replicate 64 7)) (win_deserialize ?C) = Inr ?w"
    by (rule window_restart_round_trip)
      (simp_all add: window_ok_def civil_ok_def month_length_def dt_day_def day_seconds_def int64_def
        BACKWARD_OFFSET_def restartSize_def)
  then show ?thesis by (intro exI [of _ ?C] exI [of _ ?w]) simp
qed

end
