(* ===== verification/Periods.thy ===== *)
theory Periods
  imports Windows Numerals
begin

text \<open>
  The times of a statistics step: the period updaters (\<^verbatim>\<open>PeriodUpdaters.cc\<close> and
  \<^verbatim>\<open>period-updaters/*.h\<close>), the instants that \<^verbatim>\<open>StatisticsConfiguration\<close> computes from a
  message, and \<^verbatim>\<open>make_window\<close>.
\<close>

section \<open>Period updaters\<close>

datatype PeriodUpdater =
    HourPeriodUpdater (period_span: int)
  | DayPeriodUpdater (period_span: int)
  | MonthPeriodUpdater (period_span: int)

definition timeUnit :: "PeriodUpdater \<Rightarrow> string" where
  "timeUnit u = (case u of HourPeriodUpdater n \<Rightarrow> ''hour'' | DayPeriodUpdater n \<Rightarrow> ''day'' | MonthPeriodUpdater n \<Rightarrow> ''month'')"

definition hour_start :: "calendar \<Rightarrow> DateTime \<Rightarrow> DateTime res" where
  "hour_start C t = bind_res (mk_time C (dt_hours t) 0 0) (\<lambda>s. Inr (dt_day t * day_seconds + s))"

definition hour_end :: "calendar \<Rightarrow> int \<Rightarrow> DateTime \<Rightarrow> DateTime res" where
  "hour_end C n start = (let tmp = start + 3600 * n in
     bind_res (mk_time C (dt_hours tmp) 0 0) (\<lambda>s. Inr (dt_day tmp * day_seconds + s)))"

definition day_start :: "calendar \<Rightarrow> DateTime \<Rightarrow> DateTime res" where
  "day_start C t = bind_res (mk_time C 0 0 0) (\<lambda>s. Inr (dt_day t * day_seconds + s))"

definition day_end :: "calendar \<Rightarrow> int \<Rightarrow> DateTime \<Rightarrow> DateTime res" where
  "day_end C n start = (let tmp = start + 86400 * n in
     bind_res (mk_time C 0 0 0) (\<lambda>s. Inr (dt_day tmp * day_seconds + s)))"

definition month_start :: "calendar \<Rightarrow> DateTime \<Rightarrow> DateTime res" where
  "month_start C t = mk_datetime C (dt_year C t) (dt_month C t) 1 0 0 0"

definition month_end :: "calendar \<Rightarrow> int \<Rightarrow> DateTime \<Rightarrow> DateTime res" where
  "month_end C n start =
     (let totalSpan = dt_month C start + n - 1;
          endYear = dt_year C start + totalSpan sdiv 12;
          endMonth = totalSpan smod 12 + 1
      in mk_datetime C endYear endMonth 1 0 0 0)"

definition computeWinStartTime :: "calendar \<Rightarrow> PeriodUpdater \<Rightarrow> DateTime \<Rightarrow> DateTime res" where
  "computeWinStartTime C u t = (case u of
     HourPeriodUpdater n \<Rightarrow> hour_start C t | DayPeriodUpdater n \<Rightarrow> day_start C t | MonthPeriodUpdater n \<Rightarrow> month_start C t)"

definition updateWinEndTime :: "calendar \<Rightarrow> PeriodUpdater \<Rightarrow> DateTime \<Rightarrow> DateTime res" where
  "updateWinEndTime C u start = (case u of
     HourPeriodUpdater n \<Rightarrow> hour_end C n start | DayPeriodUpdater n \<Rightarrow> day_end C n start | MonthPeriodUpdater n \<Rightarrow> month_end C n start)"

definition computeWinCreationTime :: "DateTime \<Rightarrow> DateTime" where
  "computeWinCreationTime t = t"

definition computeWinEndTime :: "calendar \<Rightarrow> PeriodUpdater \<Rightarrow> DateTime \<Rightarrow> DateTime res" where
  "computeWinEndTime C u t = updateWinEndTime C u t"

text \<open>The span of a period updater in a restart file: one word and the checksum.\<close>

definition updater_serialize :: "int \<Rightarrow> u64 list \<Rightarrow> u64 list res" where
  "updater_serialize n buf = bind_res (io_put buf 0 (word_of_int n)) computeChecksum"

definition updater_deserialize :: "u64 list \<Rightarrow> int res" where
  "updater_deserialize buf = bind_res (checkChecksum buf) (\<lambda>_. io_get_int buf 0)"

definition updater_dump :: "int \<Rightarrow> u64 list \<Rightarrow> u64 list res" where
  "updater_dump n backing = updater_serialize n (io_zero (take 2 backing))"

subsection \<open>The grammar of an output frequency\<close>

definition is_lower :: "char \<Rightarrow> bool" where
  "is_lower c \<longleftrightarrow> 97 \<le> (of_char c :: nat) \<and> (of_char c :: nat) \<le> 122"

definition parsePeriodGrammar :: "string \<Rightarrow> (int \<times> string) res" where
  "parsePeriodGrammar s =
     (let ds = takeWhile is_digit s; kind = dropWhile is_digit s
      in if ds \<noteq> [] \<and> hd ds \<noteq> CHR ''0'' \<and> kind \<noteq> [] \<and> list_all is_lower kind
         then bind_res (stol ds) (\<lambda>n. Inr (n, kind))
         else Inl SeriousBug)"

definition make_period_updater :: "string \<Rightarrow> PeriodUpdater res" where
  "make_period_updater output_freq =
     bind_res (parsePeriodGrammar output_freq) (\<lambda>(n, kind).
     if kind = ''hour'' \<or> kind = ''h'' then Inr (HourPeriodUpdater n)
     else if kind = ''day'' \<or> kind = ''d'' then Inr (DayPeriodUpdater n)
     else if kind = ''month'' \<or> kind = ''m'' then Inr (MonthPeriodUpdater n)
     else Inl SeriousBug)"

lemma parsePeriodGrammar_span: "parsePeriodGrammar s = Inr (n, k) \<Longrightarrow> 0 < n \<and> n < 2 ^ 63"
proof -
  assume ok: "parsePeriodGrammar s = Inr (n, k)"
  let ?ds = "takeWhile is_digit s"
  have "?ds \<noteq> []" "hd ?ds \<noteq> CHR ''0''" "stol ?ds = Inr n"
    using ok by (auto simp: parsePeriodGrammar_def Let_def bind_res_Inr_iff split: if_splits)
  moreover from this have "is_digit (hd ?ds)" by (cases s) (auto split: if_splits)
  moreover have "list_all is_digit ?ds" by (auto simp: list_all_iff dest: set_takeWhileD)
  ultimately show ?thesis using digits_value_pos [of ?ds] stol_digits [of ?ds "[]"] by (simp split: if_splits)
qed

lemma make_period_updater_span: "make_period_updater s = Inr u \<Longrightarrow> 0 < period_span u \<and> period_span u < 2 ^ 63"
proof -
  assume ok: "make_period_updater s = Inr u"
  then obtain n k where g: "parsePeriodGrammar s = Inr (n, k)"
    by (cases "parsePeriodGrammar s") (auto simp: make_period_updater_def)
  have choice: "u \<in> {a, b, c}"
    if "(if p then Inr a else if q then Inr b else if r then Inr c else Inl e) = Inr u" for p q r a b c e
    using that by (auto split: if_splits)
  have "u \<in> {HourPeriodUpdater n, DayPeriodUpdater n, MonthPeriodUpdater n}"
    by (rule choice) (rule ok [unfolded make_period_updater_def g bind_res_simps prod.case])
  then have "period_span u = n" by auto
  then show ?thesis using parsePeriodGrammar_span [OF g] by simp
qed

lemma updater_restart:
  assumes "int64 n" "2 \<le> length backing"
  shows "bind_res (updater_dump n backing) updater_deserialize = Inr n"
proof -
  obtain a b r where "backing = a # b # r" using assms(2) by (cases backing; cases "tl backing") auto
  then have "updater_dump n backing = Inr ([word_of_int n] @ [checksum_words [word_of_int n]])"
    using computeChecksum_snoc [of "[word_of_int n]" 0]
    by (simp add: updater_dump_def io_zero_def updater_serialize_def io_put_def)
  moreover have "checkChecksum ([word_of_int n] @ [checksum_words [word_of_int n]]) = Inr ()"
    by (simp only: checkChecksum_snoc)
  moreover have "io_get_int ([word_of_int n] @ [checksum_words [word_of_int n]]) 0 = Inr n"
    by (rule io_get_int_word) (use assms in auto)
  ultimately show ?thesis by (simp add: updater_deserialize_def)
qed

section \<open>Periods of a fixed length\<close>

text \<open>
  What the windows need of an updater whose period is a multiple of a fixed unit: a window
  starts on a multiple of the unit that is at most one unit before the given instant, and
  from such an instant it ends exactly its span later.
\<close>

locale fixed_period =
  fixes unit_len :: int
    and start_of :: "calendar \<Rightarrow> DateTime \<Rightarrow> DateTime res"
    and end_of :: "calendar \<Rightarrow> int \<Rightarrow> DateTime \<Rightarrow> DateTime res"
  assumes unit_pos: "0 < unit_len"
    and start_value: "start_of C t = Inr (t - t mod unit_len)"
    and end_value: "unit_len dvd s \<Longrightarrow> end_of C n s = Inr (s + unit_len * n)"
begin

lemma start_aligned: "\<exists>s. start_of C t = Inr s \<and> unit_len dvd s \<and> s \<le> t \<and> t < s + unit_len"
  using unit_pos by (simp add: start_value dvd_minus_mod)

lemma end_aligned: "unit_len dvd s \<Longrightarrow> \<exists>e. end_of C n s = Inr e \<and> unit_len dvd e \<and> e = s + unit_len * n"
  by (simp add: end_value)

lemma first_window:
  assumes "0 < n"
  shows "\<exists>s e. start_of C t = Inr s \<and> end_of C n s = Inr e \<and> s \<le> t \<and> t < e \<and> unit_len dvd e"
proof -
  obtain s where s: "start_of C t = Inr s" "unit_len dvd s" "s \<le> t" "t < s + unit_len"
    using start_aligned by blast
  have "unit_len * 1 \<le> unit_len * n" using assms unit_pos by (intro mult_left_mono) auto
  then have "t < s + unit_len * n" using s(4) by linarith
  then show ?thesis using s by (auto simp: end_value)
qed

text \<open>A step that is not longer than the period reaches into the next window, not past it.\<close>

lemma next_window:
  assumes "unit_len dvd e" "t \<le> e" "e < t + d" "d \<le> unit_len * n"
  shows "\<exists>e'. end_of C n e = Inr e' \<and> unit_len dvd e' \<and> e' = e + unit_len * n \<and> t + d \<le> e'"
  using assms by (simp add: end_value)

end

lemma mk_time_whole_hour: "mk_time C (dt_hours t) 0 0 = Inr (dt_hours t * 3600)"
  by (simp add: mk_time_def on_clock_def dt_clock)

lemma whole_hours: "dt_day t * day_seconds + dt_hours t * 3600 = t - t mod 3600"
proof -
  have "dt_secs t mod 3600 = t mod 3600" by (simp add: dt_secs_def day_seconds_def mod_mod_cancel)
  then have "dt_hours t * 3600 = dt_secs t - t mod 3600"
    using minus_mod_eq_div_mult [of "dt_secs t" 3600] by (simp add: dt_hours_def)
  then show ?thesis using dt_split [of t] by simp
qed

lemma whole_days: "dt_day t * day_seconds = t - t mod 86400"
  by (simp add: dt_day_def day_seconds_def minus_mod_eq_div_mult)

interpretation hourly: fixed_period 3600 hour_start hour_end
proof unfold_locales
  show "hour_start C t = Inr (t - t mod 3600)" for C t
    by (simp add: hour_start_def mk_time_whole_hour whole_hours)
  show "hour_end C n s = Inr (s + 3600 * n)" if "3600 dvd s" for C n s
    using that by (simp add: hour_end_def mk_time_whole_hour whole_hours)
qed simp

interpretation daily: fixed_period 86400 day_start day_end
proof unfold_locales
  show "day_start C t = Inr (t - t mod 86400)" for C t
    by (simp add: day_start_def mk_time_def on_clock_def whole_days)
  show "day_end C n s = Inr (s + 86400 * n)" if "86400 dvd s" for C n s
    using that by (simp add: day_end_def mk_time_def on_clock_def whole_days)
qed simp

text \<open>The length of the period of an updater, for those of a fixed length.\<close>

fun period_unit :: "PeriodUpdater \<Rightarrow> int option" where
  "period_unit (HourPeriodUpdater n) = Some 3600"
| "period_unit (DayPeriodUpdater n) = Some 86400"
| "period_unit (MonthPeriodUpdater n) = None"

lemma updater_first_window:
  assumes "period_unit u = Some l" "0 < period_span u"
  shows "\<exists>s e. computeWinStartTime C u t = Inr s \<and> computeWinEndTime C u s = Inr e \<and> s \<le> t \<and> t < e \<and> l dvd e"
  using assms hourly.first_window [of "period_span u" C t] daily.first_window [of "period_span u" C t]
  by (cases u) (auto simp: computeWinStartTime_def computeWinEndTime_def updateWinEndTime_def)

lemma updater_next_window:
  assumes "period_unit u = Some l" "l dvd e" "t \<le> e" "e < t + d" "d \<le> l * period_span u"
  shows "\<exists>e'. updateWinEndTime C u e = Inr e' \<and> l dvd e' \<and> e' = e + l * period_span u \<and> t + d \<le> e'"
  using assms hourly.next_window [of e t d "period_span u" C] daily.next_window [of e t d "period_span u" C]
  by (cases u) (auto simp: updateWinEndTime_def)

text \<open>
  A month window ends with the month that the span says: from a start in month \<open>m\<close> of
  year \<open>y\<close>, a window of \<open>n\<close> months ends at midnight of the first day of the \<open>n\<close>-th month after it,
  the year counted on when the months pass December. The code's truncated quotient and remainder
  give a month between 1 and 12 for every positive span.
\<close>

theorem month_window_end:
  assumes "civil C (dt_day start) = (y, m, d)" "1 \<le> m" "m \<le> 12" "0 < n"
  shows "\<exists>ey em. 12 * ey + em = 12 * y + m + n \<and> 1 \<le> em \<and> em \<le> 12 \<and>
     updateWinEndTime C (MonthPeriodUpdater n) start = mk_datetime C ey em 1 0 0 0"
proof -
  let ?t = "m + n - 1"
  obtain q r where q: "?t div 12 = q" "?t mod 12 = r" by blast
  have r: "12 * q + r = ?t" "0 \<le> r" "r < 12"
    using mult_div_mod_eq [of 12 ?t] pos_mod_sign [of 12 ?t] pos_mod_bound [of 12 ?t] by (simp_all only: q)
  have "updateWinEndTime C (MonthPeriodUpdater n) start = mk_datetime C (y + q) (r + 1) 1 0 0 0"
    using assms q by (simp add: updateWinEndTime_def month_end_def dt_month_def dt_year_def sdiv_nonneg smod_nonneg Let_def)
  moreover have "12 * (y + q) + (r + 1) = 12 * y + m + n" "1 \<le> r + 1" "r + 1 \<le> 12"
    unfolding distrib_left using r by linarith+
  ultimately show ?thesis by (intro exI [of _ "y + q"] exI [of _ "r + 1"]) simp
qed

theorem month_window_end_witness:
  "\<exists>C. updateWinEndTime C (MonthPeriodUpdater 3) 0 = mk_datetime C 2024 2 1 0 0 0"
proof -
  let ?C = "\<lparr>mk_date = (\<lambda>y m d. if (y, m, d) = (2023, 11, 1) then Inr 0 else Inl BadValue),
     mk_packed_date = (\<lambda>d. Inl BadValue),
     civil = (\<lambda>d. (2023, 11, 1)), off_clock = (\<lambda>h m s. Inl BadValue)\<rparr>"
  have "civil ?C (dt_day 0) = (2023, 11, 1)" by simp
  then obtain ey em where e: "12 * ey + em = 12 * 2023 + 11 + 3" "1 \<le> em" "em \<le> 12"
    "updateWinEndTime ?C (MonthPeriodUpdater 3) 0 = mk_datetime ?C ey em 1 0 0 0"
    using month_window_end [of ?C 0 2023 11 1 3] by auto
  then have "ey = 2024" "em = 2" by presburger+
  with e show ?thesis by blast
qed

section \<open>The instants of a message\<close>

text \<open>
  What \<^verbatim>\<open>StatisticsConfiguration\<close> holds of a message and of the options for the computation of
  times. Its members cache an instant after the first computation; the model recomputes it.
\<close>

record StatTimes =
  sc_date :: int
  sc_time :: int
  sc_step :: int
  sc_stepFreq :: int
  sc_timeStep :: int

definition sc_epoch :: "calendar \<Rightarrow> 'a StatTimes_scheme \<Rightarrow> DateTime res" where
  "sc_epoch C c =
     bind_res (mk_packed_date C (sc_date c)) (\<lambda>startDate.
     let hour = sc_time c sdiv 10000; minute = (sc_time c smod 10000) sdiv 100
     in bind_res (mk_time C hour minute 0) (\<lambda>s. Inr (startDate * day_seconds + s)))"

definition sc_prev :: "calendar \<Rightarrow> 'a StatTimes_scheme \<Rightarrow> DateTime res" where
  "sc_prev C c = bind_res (sc_epoch C c) (\<lambda>e. Inr (e + max (sc_step c - sc_stepFreq c) 0 * sc_timeStep c))"

definition sc_curr :: "calendar \<Rightarrow> 'a StatTimes_scheme \<Rightarrow> DateTime res" where
  "sc_curr C c = bind_res (sc_epoch C c) (\<lambda>e. Inr (e + max (sc_step c) 0 * sc_timeStep c))"

definition sc_next :: "calendar \<Rightarrow> 'a StatTimes_scheme \<Rightarrow> DateTime res" where
  "sc_next C c = bind_res (sc_epoch C c) (\<lambda>e. Inr (e + (sc_step c + sc_stepFreq c) * sc_timeStep c))"

definition sc_winStart :: "calendar \<Rightarrow> bool \<Rightarrow> 'a StatTimes_scheme \<Rightarrow> DateTime res" where
  "sc_winStart C send_initial c = (if send_initial then sc_curr C c else sc_prev C c)"

definition currentDateTime :: "calendar \<Rightarrow> 'a StatTimes_scheme \<Rightarrow> DateTime res" where
  "currentDateTime C c = bind_res (sc_epoch C c) (\<lambda>e. Inr (e + sc_step c * sc_timeStep c))"

definition nextDateTime :: "calendar \<Rightarrow> 'a StatTimes_scheme \<Rightarrow> DateTime res" where
  "nextDateTime C c = bind_res (sc_epoch C c) (\<lambda>e. Inr (e + (sc_step c + sc_stepFreq c) * sc_timeStep c))"

definition isBeginningOfHour :: "calendar \<Rightarrow> 'a StatTimes_scheme \<Rightarrow> bool res" where
  "isBeginningOfHour C c = bind_res (currentDateTime C c) (\<lambda>now. Inr (dt_minutes now = 0 \<and> dt_seconds now = 0))"

definition isBeginningOfDay :: "calendar \<Rightarrow> 'a StatTimes_scheme \<Rightarrow> bool res" where
  "isBeginningOfDay C c = bind_res (currentDateTime C c) (\<lambda>now.
     Inr (dt_hours now = 0 \<and> dt_minutes now = 0 \<and> dt_seconds now = 0))"

definition isBeginningOfMonth :: "calendar \<Rightarrow> 'a StatTimes_scheme \<Rightarrow> bool res" where
  "isBeginningOfMonth C c = bind_res (currentDateTime C c) (\<lambda>now.
     Inr (dt_mday C now = 1 \<and> dt_hours now = 0 \<and> dt_minutes now = 0 \<and> dt_seconds now = 0))"

definition isBeginningOfYear :: "calendar \<Rightarrow> 'a StatTimes_scheme \<Rightarrow> bool res" where
  "isBeginningOfYear C c = bind_res (currentDateTime C c) (\<lambda>now.
     Inr (dt_month C now = 1 \<and> dt_mday C now = 1 \<and> dt_hours now = 0 \<and> dt_minutes now = 0 \<and> dt_seconds now = 0))"

section \<open>Making a window\<close>

definition make_window :: "calendar \<Rightarrow> PeriodUpdater \<Rightarrow> bool \<Rightarrow> string \<Rightarrow> 'a StatTimes_scheme \<Rightarrow> OperationWindow res" where
  "make_window C u send_initial window_type c =
     bind_res (sc_epoch C c) (\<lambda>epoch.
     bind_res (bind_res (sc_winStart C send_initial c) (computeWinStartTime C u)) (\<lambda>start.
     bind_res (bind_res (sc_winStart C send_initial c) (\<lambda>t. Inr (computeWinCreationTime t))) (\<lambda>creation.
     bind_res (computeWinEndTime C u start) (\<lambda>fin.
     if window_type = ''forward-offset''
     then Inr (new_window epoch start creation fin (sc_timeStep c) FORWARD_OFFSET)
     else if window_type = ''backward-offset''
     then Inr (new_window epoch start creation fin (sc_timeStep c) BACKWARD_OFFSET)
     else Inl SeriousBug))))"

lemma make_window_forward:
  assumes "period_unit u = Some l" "0 < period_span u" "sc_epoch C c = Inr e" "sc_winStart C si c = Inr t"
  shows "\<exists>s f. make_window C u si ''forward-offset'' c = Inr (new_window e s t f (sc_timeStep c) FORWARD_OFFSET) \<and>
     s \<le> t \<and> t < f \<and> l dvd f"
proof -
  obtain s f where "computeWinStartTime C u t = Inr s" "computeWinEndTime C u s = Inr f" "s \<le> t" "t < f" "l dvd f"
    using updater_first_window [OF assms(1,2), of C t] by blast
  then show ?thesis using assms(3,4)
    by (intro exI [of _ s] exI [of _ f]) (simp add: make_window_def computeWinCreationTime_def)
qed

end
