(* ===== verification/Operations.thy ===== *)
theory Operations
  imports Periods Messages Complex_Main
begin

text \<open>
  The operations of the statistics action, \<^verbatim>\<open>action/statistics/operations/*.h\<close> and
  \<^verbatim>\<open>Operations.{h,cc}\<close>. The class template's argument, \<^verbatim>\<open>float\<close> or \<^verbatim>\<open>double\<close>, enters through
  its limits; the arithmetic of the values is that of the real numbers, rounding is not
  modelled. A data pointer and its size in bytes are the list of the values.
\<close>

section \<open>The configuration of an operation\<close>

record StatCfg = StatTimes +
  sc_bitmapPresent :: bool
  sc_missingValue :: real
  sc_threshold :: "int option"
  sc_reset_every :: string
  sc_send_initial :: bool

section \<open>State\<close>

datatype opkind =
    Instant | Average | FluxAverage | Minimum | Maximum | Accumulate
  | Difference | InverseDifference | DeAccumulate | FixedWindowFluxAverage

text \<open>
  \<^verbatim>\<open>OperationWithData\<close> and \<^verbatim>\<open>OperationWithDeaccumulatedData\<close> in one record: the second class has
  the values at the start of the window, \<open>initValues\<close>, and resets its values to 0.
\<close>

record Operation =
  okind :: opkind
  oname :: string
  ooperation :: string
  ovalues :: "real list"
  initValues :: "real list"
  initialValue :: real

definition deaccumulated :: "opkind \<Rightarrow> bool" where
  "deaccumulated k \<longleftrightarrow> k \<in> {Difference, InverseDifference, DeAccumulate, FixedWindowFluxAverage}"

text \<open>\<^verbatim>\<open>numeric_limits<T>::min()\<close> is the smallest positive normalised number.\<close>

definition limits_min :: "PrecisionTag \<Rightarrow> real" where
  "limits_min T = (case T of Float \<Rightarrow> 1 / 2 ^ 126 | Double \<Rightarrow> 1 / 2 ^ 1022)"

definition limits_max :: "PrecisionTag \<Rightarrow> real" where
  "limits_max T = (case T of Float \<Rightarrow> (2 - 1 / 2 ^ 23) * 2 ^ 127 | Double \<Rightarrow> (2 - 1 / 2 ^ 52) * 2 ^ 1023)"

definition operation_string :: "opkind \<Rightarrow> string" where
  "operation_string k = (case k of
     Instant \<Rightarrow> ''instant'' | Average \<Rightarrow> ''average'' | FluxAverage \<Rightarrow> ''average''
   | Minimum \<Rightarrow> ''minimum'' | Maximum \<Rightarrow> ''maximum'' | Accumulate \<Rightarrow> ''accumulate''
   | Difference \<Rightarrow> ''difference'' | InverseDifference \<Rightarrow> ''inverse-difference''
   | DeAccumulate \<Rightarrow> ''accumulate'' | FixedWindowFluxAverage \<Rightarrow> ''average'')"

definition initial_value :: "PrecisionTag \<Rightarrow> opkind \<Rightarrow> real" where
  "initial_value T k = (if k = Minimum then limits_max T else if k = Maximum then limits_min T else 0)"

definition new_operation :: "PrecisionTag \<Rightarrow> opkind \<Rightarrow> string \<Rightarrow> nat \<Rightarrow> Operation" where
  "new_operation T k name n =
     \<lparr>okind = k, oname = name, ooperation = operation_string k,
      ovalues = replicate n (initial_value T k),
      initValues = (if deaccumulated k then replicate n 0 else []),
      initialValue = initial_value T k\<rparr>"

definition kind_of_name :: "string \<Rightarrow> opkind res" where
  "kind_of_name s =
     (if s = ''instant'' then Inr Instant
      else if s = ''average'' then Inr Average
      else if s = ''difference'' then Inr Difference
      else if s = ''inverse-difference'' then Inr InverseDifference
      else if s = ''flux-average'' then Inr FluxAverage
      else if s = ''minimum'' then Inr Minimum
      else if s = ''maximum'' then Inr Maximum
      else if s = ''accumulate'' then Inr Accumulate
      else if s = ''de-accumulate'' then Inr DeAccumulate
      else if s = ''fixed-window-flux-average'' then Inr FixedWindowFluxAverage
      else Inl UserError)"

definition make_operation :: "PrecisionTag \<Rightarrow> string \<Rightarrow> nat \<Rightarrow> Operation res" where
  "make_operation T opname n = bind_res (kind_of_name opname) (\<lambda>k. Inr (new_operation T k opname n))"

section \<open>Checks\<close>

definition op_checkSize :: "Operation \<Rightarrow> real list \<Rightarrow> unit res" where
  "op_checkSize p data = (if length (ovalues p) \<noteq> length data then Inl AssertionFailed else Inr ())"

definition op_checkTimeInterval :: "OperationWindow \<Rightarrow> StatCfg \<Rightarrow> unit res" where
  "op_checkTimeInterval w c =
     (if wcount w * sc_stepFreq c * sc_timeStep c = 0 then Inl SeriousBug else Inr ())"

definition solverResetAccumulatedFields :: "calendar \<Rightarrow> StatCfg \<Rightarrow> bool res" where
  "solverResetAccumulatedFields C c =
     (if sc_reset_every c = ''hour'' then isBeginningOfHour C c
      else if sc_reset_every c = ''day'' then isBeginningOfDay C c
      else if sc_reset_every c = ''month'' then isBeginningOfMonth C c
      else if sc_reset_every c = ''year'' then isBeginningOfYear C c
      else if sc_reset_every c = ''never'' then Inr False
      else Inl UserError)"

section \<open>Counting valid values\<close>

definition updateCounts :: "OperationWindow \<Rightarrow> real list \<Rightarrow> real \<Rightarrow> OperationWindow res" where
  "updateCounts w data missing =
     bind_res (initCountsLazy w (length data)) (\<lambda>w.
     Inr (w\<lparr>wcounts := map2 (\<lambda>c v. if v = missing then c else c + 1) (wcounts w) data\<rparr>))"

section \<open>Updating the data\<close>

text \<open>The quotient by 0 of the floating point numbers has no counterpart in the reals.\<close>

definition icntpp :: "int \<Rightarrow> real res" where
  "icntpp c = (if c = 0 then Inl UndefinedBehaviour else Inr (1 / of_int c))"

definition sc_factor :: "real \<Rightarrow> int \<Rightarrow> real" where
  "sc_factor v c = of_int (c - 1) * v"

definition with_missing :: "real \<Rightarrow> (real \<Rightarrow> real \<Rightarrow> real) \<Rightarrow> real \<Rightarrow> real \<Rightarrow> real" where
  "with_missing m f v1 v2 = (if m = v1 \<or> m = v2 then m else f v1 v2)"

definition skip_missing :: "real \<Rightarrow> (real \<Rightarrow> real \<Rightarrow> real) \<Rightarrow> real \<Rightarrow> real \<Rightarrow> real" where
  "skip_missing m f v1 v2 = (if m = v2 then v1 else f v1 v2)"

definition average_step :: "real \<Rightarrow> real \<Rightarrow> real \<Rightarrow> real \<Rightarrow> real" where
  "average_step c1 c2 v1 v2 = v1 * c1 + v2 * c2"

fun average_counted :: "real \<Rightarrow> int list \<Rightarrow> real list \<Rightarrow> real list \<Rightarrow> real list res" where
  "average_counted m counts vals [] = Inr []"
| "average_counted m (c # counts) (v # vals) (x # data) =
     (if x = m then bind_res (average_counted m counts vals data) (\<lambda>r. Inr (v # r))
      else bind_res (icntpp c) (\<lambda>c2.
           bind_res (average_counted m counts vals data) (\<lambda>r. Inr (average_step (sc_factor c2 c) c2 v x # r))))"
| "average_counted m counts vals data = Inl OutOfBounds"

definition average_update ::
  "StatCfg \<Rightarrow> real list \<Rightarrow> Operation \<Rightarrow> OperationWindow \<Rightarrow> (real list \<times> OperationWindow) res" where
  "average_update c data p w =
     (if sc_bitmapPresent c \<and> sc_threshold c \<noteq> None then
        bind_res (updateCounts w data (sc_missingValue c)) (\<lambda>w.
        bind_res (average_counted (sc_missingValue c) (wcounts w) (ovalues p) data) (\<lambda>vs. Inr (vs, w)))
      else bind_res (icntpp (wcount w)) (\<lambda>c2.
        let f = average_step (sc_factor c2 (wcount w)) c2
        in Inr (map2 (if sc_bitmapPresent c then with_missing (sc_missingValue c) f else f) (ovalues p) data, w)))"

definition extremum_update ::
  "(real \<Rightarrow> real \<Rightarrow> real) \<Rightarrow> StatCfg \<Rightarrow> real list \<Rightarrow> Operation \<Rightarrow> OperationWindow \<Rightarrow> (real list \<times> OperationWindow) res" where
  "extremum_update f c data p w =
     (if sc_bitmapPresent c then
        if sc_threshold c = None then Inr (map2 (with_missing (sc_missingValue c) f) (ovalues p) data, w)
        else bind_res (updateCounts w data (sc_missingValue c)) (\<lambda>w.
             Inr (map2 (skip_missing (sc_missingValue c) f) (ovalues p) data, w))
      else Inr (map2 f (ovalues p) data, w))"

definition larger :: "real \<Rightarrow> real \<Rightarrow> real" where "larger v1 v2 = (if v1 > v2 then v1 else v2)"
definition smaller :: "real \<Rightarrow> real \<Rightarrow> real" where "smaller v1 v2 = (if v1 < v2 then v1 else v2)"

definition accumulate_update :: "StatCfg \<Rightarrow> real list \<Rightarrow> Operation \<Rightarrow> real list" where
  "accumulate_update c data p =
     map2 (if sc_bitmapPresent c then with_missing (sc_missingValue c) (+) else (+)) (ovalues p) data"

text \<open>
  \<^verbatim>\<open>updateData\<close> of every class: the size is checked first. The classes without an update of
  their own copy the field.
\<close>

definition set_values :: "Operation \<Rightarrow> real list \<times> OperationWindow \<Rightarrow> (Operation \<times> OperationWindow) res" where
  "set_values p vw = Inr (p\<lparr>ovalues := fst vw\<rparr>, snd vw)"

definition Instant_updateData :: "StatCfg \<Rightarrow> real list \<Rightarrow> Operation \<Rightarrow> OperationWindow \<Rightarrow> (Operation \<times> OperationWindow) res" where
  "Instant_updateData c data p w = bind_res (op_checkSize p data) (\<lambda>_. set_values p (data, w))"

definition Average_updateData :: "StatCfg \<Rightarrow> real list \<Rightarrow> Operation \<Rightarrow> OperationWindow \<Rightarrow> (Operation \<times> OperationWindow) res" where
  "Average_updateData c data p w = bind_res (op_checkSize p data) (\<lambda>_. bind_res (average_update c data p w) (set_values p))"

definition FluxAverage_updateData :: "StatCfg \<Rightarrow> real list \<Rightarrow> Operation \<Rightarrow> OperationWindow \<Rightarrow> (Operation \<times> OperationWindow) res" where
  "FluxAverage_updateData c data p w = bind_res (op_checkSize p data) (\<lambda>_. set_values p (data, w))"

definition Minimum_updateData :: "StatCfg \<Rightarrow> real list \<Rightarrow> Operation \<Rightarrow> OperationWindow \<Rightarrow> (Operation \<times> OperationWindow) res" where
  "Minimum_updateData c data p w = bind_res (op_checkSize p data) (\<lambda>_. bind_res (extremum_update smaller c data p w) (set_values p))"

definition Maximum_updateData :: "StatCfg \<Rightarrow> real list \<Rightarrow> Operation \<Rightarrow> OperationWindow \<Rightarrow> (Operation \<times> OperationWindow) res" where
  "Maximum_updateData c data p w = bind_res (op_checkSize p data) (\<lambda>_. bind_res (extremum_update larger c data p w) (set_values p))"

definition Accumulate_updateData :: "StatCfg \<Rightarrow> real list \<Rightarrow> Operation \<Rightarrow> OperationWindow \<Rightarrow> (Operation \<times> OperationWindow) res" where
  "Accumulate_updateData c data p w = bind_res (op_checkSize p data) (\<lambda>_. set_values p (accumulate_update c data p, w))"

definition Difference_updateData :: "StatCfg \<Rightarrow> real list \<Rightarrow> Operation \<Rightarrow> OperationWindow \<Rightarrow> (Operation \<times> OperationWindow) res" where
  "Difference_updateData c data p w = bind_res (op_checkSize p data) (\<lambda>_. set_values p (data, w))"

definition InverseDifference_updateData :: "StatCfg \<Rightarrow> real list \<Rightarrow> Operation \<Rightarrow> OperationWindow \<Rightarrow> (Operation \<times> OperationWindow) res" where
  "InverseDifference_updateData c data p w = bind_res (op_checkSize p data) (\<lambda>_. set_values p (data, w))"

definition DeAccumulate_updateData :: "StatCfg \<Rightarrow> real list \<Rightarrow> Operation \<Rightarrow> OperationWindow \<Rightarrow> (Operation \<times> OperationWindow) res" where
  "DeAccumulate_updateData c data p w = bind_res (op_checkSize p data) (\<lambda>_. set_values p (data, w))"

definition FixedWindowFluxAverage_updateData :: "StatCfg \<Rightarrow> real list \<Rightarrow> Operation \<Rightarrow> OperationWindow \<Rightarrow> (Operation \<times> OperationWindow) res" where
  "FixedWindowFluxAverage_updateData c data p w = bind_res (op_checkSize p data) (\<lambda>_. set_values p (data, w))"

lemmas updateData_defs = Instant_updateData_def Average_updateData_def FluxAverage_updateData_def Minimum_updateData_def Maximum_updateData_def Accumulate_updateData_def Difference_updateData_def InverseDifference_updateData_def DeAccumulate_updateData_def FixedWindowFluxAverage_updateData_def

definition op_updateData :: "StatCfg \<Rightarrow> real list \<Rightarrow> Operation \<Rightarrow> OperationWindow \<Rightarrow> (Operation \<times> OperationWindow) res" where
  "op_updateData c data p w = (case okind p of
     Instant \<Rightarrow> Instant_updateData c data p w
   | Average \<Rightarrow> Average_updateData c data p w
   | FluxAverage \<Rightarrow> FluxAverage_updateData c data p w
   | Minimum \<Rightarrow> Minimum_updateData c data p w
   | Maximum \<Rightarrow> Maximum_updateData c data p w
   | Accumulate \<Rightarrow> Accumulate_updateData c data p w
   | Difference \<Rightarrow> Difference_updateData c data p w
   | InverseDifference \<Rightarrow> InverseDifference_updateData c data p w
   | DeAccumulate \<Rightarrow> DeAccumulate_updateData c data p w
   | FixedWindowFluxAverage \<Rightarrow> FixedWindowFluxAverage_updateData c data p w)"

lemma op_updateData_eq:
  "op_updateData c data p w =
     bind_res (op_checkSize p data) (\<lambda>_.
     bind_res (case okind p of
         Average \<Rightarrow> average_update c data p w
       | Minimum \<Rightarrow> extremum_update smaller c data p w
       | Maximum \<Rightarrow> extremum_update larger c data p w
       | Accumulate \<Rightarrow> Inr (accumulate_update c data p, w)
       | _ \<Rightarrow> Inr (data, w))
     (\<lambda>(vs, w). Inr (p\<lparr>ovalues := vs\<rparr>, w)))"
proof -
  have "set_values p = (\<lambda>(vs, w). Inr (p\<lparr>ovalues := vs\<rparr>, w))" by (auto simp: set_values_def fun_eq_iff)
  then show ?thesis by (cases "okind p") (simp_all add: op_updateData_def updateData_defs)
qed

section \<open>Computing the result\<close>

fun apply_threshold :: "int \<Rightarrow> real \<Rightarrow> real list \<Rightarrow> int list \<Rightarrow> real list res" where
  "apply_threshold t m [] counts = Inr []"
| "apply_threshold t m (v # vs) (c # counts) =
     bind_res (apply_threshold t m vs counts) (\<lambda>r. Inr ((if c < t then m else v) # r))"
| "apply_threshold t m (v # vs) [] = Inl OutOfBounds"

definition thresholded :: "StatCfg \<Rightarrow> Operation \<Rightarrow> OperationWindow \<Rightarrow> real list res" where
  "thresholded c p w =
     (case (sc_bitmapPresent c, sc_threshold c) of
        (True, Some t) \<Rightarrow> apply_threshold t (sc_missingValue c) (ovalues p) (wcounts w)
      | _ \<Rightarrow> Inr (ovalues p))"

definition time_factor :: "StatCfg \<Rightarrow> OperationWindow \<Rightarrow> real" where
  "time_factor c w = 1 / of_int (wcount w * sc_stepFreq c * sc_timeStep c)"

definition scaled_values :: "StatCfg \<Rightarrow> Operation \<Rightarrow> OperationWindow \<Rightarrow> real list" where
  "scaled_values c p w =
     map (\<lambda>v. if sc_bitmapPresent c \<and> sc_missingValue c = v then sc_missingValue c else v * time_factor c w) (ovalues p)"

definition differences :: "StatCfg \<Rightarrow> (real \<Rightarrow> real \<Rightarrow> real) \<Rightarrow> Operation \<Rightarrow> real list" where
  "differences c f p =
     map2 (if sc_bitmapPresent c then with_missing (sc_missingValue c) f else f) (ovalues p) (initValues p)"

text \<open>\<^verbatim>\<open>compute\<close> of every class: the time interval is checked first.\<close>

definition Instant_compute :: "StatCfg \<Rightarrow> Operation \<Rightarrow> OperationWindow \<Rightarrow> real list res" where
  "Instant_compute c p w = bind_res (op_checkTimeInterval w c) (\<lambda>_. Inr (ovalues p))"

definition Average_compute :: "StatCfg \<Rightarrow> Operation \<Rightarrow> OperationWindow \<Rightarrow> real list res" where
  "Average_compute c p w = bind_res (op_checkTimeInterval w c) (\<lambda>_. thresholded c p w)"

definition FluxAverage_compute :: "StatCfg \<Rightarrow> Operation \<Rightarrow> OperationWindow \<Rightarrow> real list res" where
  "FluxAverage_compute c p w = bind_res (op_checkTimeInterval w c) (\<lambda>_. Inr (scaled_values c p w))"

definition Minimum_compute :: "StatCfg \<Rightarrow> Operation \<Rightarrow> OperationWindow \<Rightarrow> real list res" where
  "Minimum_compute c p w = bind_res (op_checkTimeInterval w c) (\<lambda>_. thresholded c p w)"

definition Maximum_compute :: "StatCfg \<Rightarrow> Operation \<Rightarrow> OperationWindow \<Rightarrow> real list res" where
  "Maximum_compute c p w = bind_res (op_checkTimeInterval w c) (\<lambda>_. thresholded c p w)"

definition Accumulate_compute :: "StatCfg \<Rightarrow> Operation \<Rightarrow> OperationWindow \<Rightarrow> real list res" where
  "Accumulate_compute c p w = bind_res (op_checkTimeInterval w c) (\<lambda>_. Inr (ovalues p))"

definition Difference_compute :: "StatCfg \<Rightarrow> Operation \<Rightarrow> OperationWindow \<Rightarrow> real list res" where
  "Difference_compute c p w = bind_res (op_checkTimeInterval w c) (\<lambda>_. Inr (differences c (\<lambda>v1 v2. v1 - v2) p))"

definition InverseDifference_compute :: "StatCfg \<Rightarrow> Operation \<Rightarrow> OperationWindow \<Rightarrow> real list res" where
  "InverseDifference_compute c p w = bind_res (op_checkTimeInterval w c) (\<lambda>_. Inr (differences c (\<lambda>v1 v2. v2 - v1) p))"

definition DeAccumulate_compute :: "StatCfg \<Rightarrow> Operation \<Rightarrow> OperationWindow \<Rightarrow> real list res" where
  "DeAccumulate_compute c p w = bind_res (op_checkTimeInterval w c) (\<lambda>_. Inr (differences c (\<lambda>v1 v2. v1 - v2) p))"

definition FixedWindowFluxAverage_compute :: "StatCfg \<Rightarrow> Operation \<Rightarrow> OperationWindow \<Rightarrow> real list res" where
  "FixedWindowFluxAverage_compute c p w = bind_res (op_checkTimeInterval w c) (\<lambda>_. Inr (differences c (\<lambda>v1 v2. (v1 - v2) * time_factor c w) p))"

lemmas compute_defs = Instant_compute_def Average_compute_def FluxAverage_compute_def Minimum_compute_def Maximum_compute_def Accumulate_compute_def Difference_compute_def InverseDifference_compute_def DeAccumulate_compute_def FixedWindowFluxAverage_compute_def

definition op_compute :: "StatCfg \<Rightarrow> Operation \<Rightarrow> OperationWindow \<Rightarrow> real list res" where
  "op_compute c p w = (case okind p of
     Instant \<Rightarrow> Instant_compute c p w
   | Average \<Rightarrow> Average_compute c p w
   | FluxAverage \<Rightarrow> FluxAverage_compute c p w
   | Minimum \<Rightarrow> Minimum_compute c p w
   | Maximum \<Rightarrow> Maximum_compute c p w
   | Accumulate \<Rightarrow> Accumulate_compute c p w
   | Difference \<Rightarrow> Difference_compute c p w
   | InverseDifference \<Rightarrow> InverseDifference_compute c p w
   | DeAccumulate \<Rightarrow> DeAccumulate_compute c p w
   | FixedWindowFluxAverage \<Rightarrow> FixedWindowFluxAverage_compute c p w)"

lemma op_compute_eq:
  "op_compute c p w =
     bind_res (op_checkTimeInterval w c) (\<lambda>_. case okind p of
         Average \<Rightarrow> thresholded c p w
       | Minimum \<Rightarrow> thresholded c p w
       | Maximum \<Rightarrow> thresholded c p w
       | FluxAverage \<Rightarrow> Inr (scaled_values c p w)
       | Difference \<Rightarrow> Inr (differences c (\<lambda>v1 v2. v1 - v2) p)
       | DeAccumulate \<Rightarrow> Inr (differences c (\<lambda>v1 v2. v1 - v2) p)
       | InverseDifference \<Rightarrow> Inr (differences c (\<lambda>v1 v2. v2 - v1) p)
       | FixedWindowFluxAverage \<Rightarrow> Inr (differences c (\<lambda>v1 v2. (v1 - v2) * time_factor c w) p)
       | _ \<Rightarrow> Inr (ovalues p))"
  by (cases "okind p") (simp_all add: op_compute_def compute_defs)

section \<open>Starting a window\<close>

definition op_start :: "calendar \<Rightarrow> StatCfg \<Rightarrow> real list \<Rightarrow> Operation \<Rightarrow> Operation res" where
  "op_start C c data p =
     bind_res (op_checkSize p data) (\<lambda>_.
     bind_res (solverResetAccumulatedFields C c) (\<lambda>reset.
     Inr (p\<lparr>initValues := (if reset then map (\<lambda>v. 0) (initValues p) else map2 (\<lambda>v1 v2. v2) (initValues p) data),
            ovalues := map (\<lambda>v. 0) (ovalues p)\<rparr>)))"

definition op_updateWindow :: "calendar \<Rightarrow> StatCfg \<Rightarrow> real list \<Rightarrow> Operation \<Rightarrow> Operation res" where
  "op_updateWindow C c data p =
     (if deaccumulated (okind p) then op_start C c data p
      else Inr (p\<lparr>ovalues := map (\<lambda>v. initialValue p) (ovalues p)\<rparr>))"

definition op_init :: "calendar \<Rightarrow> StatCfg \<Rightarrow> real list \<Rightarrow> Operation \<Rightarrow> Operation res" where
  "op_init C c data p = (if deaccumulated (okind p) then op_start C c data p else Inr p)"

definition needStepZero :: "Operation \<Rightarrow> bool" where
  "needStepZero p \<longleftrightarrow> deaccumulated (okind p)"

definition make_initialised :: "calendar \<Rightarrow> StatCfg \<Rightarrow> PrecisionTag \<Rightarrow> real list \<Rightarrow> string \<Rightarrow> Operation res" where
  "make_initialised C c T data opname =
     bind_res (make_operation T opname (length data)) (\<lambda>p.
     if sc_send_initial c then op_init C c data p
     else if needStepZero p then Inl UserError else Inr p)"

fun make_operations :: "calendar \<Rightarrow> StatCfg \<Rightarrow> PrecisionTag \<Rightarrow> real list \<Rightarrow> string list \<Rightarrow> Operation list res" where
  "make_operations C c T data [] = Inr []"
| "make_operations C c T data (n # ns) =
     bind_res (make_initialised C c T data n) (\<lambda>p.
     bind_res (make_operations C c T data ns) (\<lambda>ps. Inr (p # ps)))"

section \<open>Names of restart files\<close>

definition restartFileName :: "PrecisionTag \<Rightarrow> Operation \<Rightarrow> string" where
  "restartFileName T p = oname p @ ''_'' @ (case T of Float \<Rightarrow> ''single'' | Double \<Rightarrow> ''double'')"

definition parse_file_name :: "string \<Rightarrow> (string \<times> string) res" where
  "parse_file_name file =
     (let opname = takeWhile is_lower file; rest = dropWhile is_lower file
      in if opname \<noteq> [] \<and> rest \<noteq> [] \<and> hd rest = CHR ''_'' \<and> tl rest \<noteq> [] \<and> list_all is_lower (tl rest)
         then Inr (opname, tl rest) else Inl SeriousBug)"

end
