(* ===== verification/Statistics.thy ===== *)
theory Statistics
  imports Operations Mappings Failures
begin

text \<open>
  The statistics action, \<^verbatim>\<open>action/statistics/Statistics.cc\<close>, with its options
  (\<^verbatim>\<open>cfg/StatisticsOptions.cc\<close>), what it reads from a message
  (\<^verbatim>\<open>cfg/StatisticsConfiguration.cc\<close>), the mapping of parameters (\<^verbatim>\<open>RemapParamID.cc\<close>) and
  \<^verbatim>\<open>TemporalStatistics\<close>, which holds a window and the operations over it.

  Writing and reading restart files is not part of this theory: a key whose statistics are in
  a restart directory is given by the argument \<open>restart\<close>. The message passed on to the next
  action is an output. After an exception the state is not used further.
\<close>

section \<open>Options\<close>

record StatisticsOptions =
  so_stepFreq :: int
  so_timeStep :: int
  so_send_initial :: bool
  so_readRestart :: bool
  so_useDateTime :: bool
  so_windowType :: string
  so_reset_every :: string
  so_threshold :: "int option"

text \<open>
  \<^verbatim>\<open>util::parseBool\<close>: a string is translated by \<^verbatim>\<open>eckit\<close>, the argument \<open>to_bool\<close>; a value that
  is neither a string nor a Boolean gives nothing.
\<close>

definition parseBool :: "(string \<Rightarrow> bool res) \<Rightarrow> Config \<Rightarrow> string \<Rightarrow> bool \<Rightarrow> bool option res" where
  "parseBool to_bool c k d =
     (if cfg_has c k then
        case cfg_find c k of
          Some (CString s) \<Rightarrow> bind_res (to_bool s) (\<lambda>b. Inr (Some b))
        | Some (CBool b) \<Rightarrow> Inr (Some b)
        | _ \<Rightarrow> Inr None
      else Inr (Some d))"

definition parseReadRestart :: "(string \<Rightarrow> bool res) \<Rightarrow> Config \<Rightarrow> bool res" where
  "parseReadRestart to_bool c = bind_res (parseBool to_bool c ''read-restart'' False) (\<lambda>r.
     case r of Some b \<Rightarrow> Inr b | None \<Rightarrow> Inl SeriousBug)"

definition parseWindowType :: "Config \<Rightarrow> string res" where
  "parseWindowType c = bind_res (getString_default c ''window-type'' ''forward-offset'') (\<lambda>t.
     if t \<noteq> ''forward-offset'' \<and> t \<noteq> ''backward-offset'' then Inl UserError else Inr t)"

definition parseSolverResetAccumulatedFields :: "Config \<Rightarrow> string res" where
  "parseSolverResetAccumulatedFields c =
     bind_res (getString_default c ''solver-reset-accumulate-fields-every'' ''month'') (\<lambda>t.
     if t \<noteq> ''hour'' \<and> t \<noteq> ''day'' \<and> t \<noteq> ''month'' \<and> t \<noteq> ''year'' \<and> t \<noteq> ''never''
     then Inl UserError else Inr t)"

definition parseValueCountThreshold :: "Config \<Rightarrow> int option res" where
  "parseValueCountThreshold c = bind_res (getLong_default c ''value-count-threshold'' (- 1)) (\<lambda>t.
     if t = - 1 then Inr None else if t > 0 then Inr (Some t) else Inl UserError)"

definition default_options :: StatisticsOptions where
  "default_options = \<lparr>so_stepFreq = 1, so_timeStep = 3600, so_send_initial = False, so_readRestart = False,
     so_useDateTime = False, so_windowType = ''forward-offset'', so_reset_every = ''month'', so_threshold = None\<rparr>"

definition parse_options :: "(string \<Rightarrow> bool res) \<Rightarrow> Config \<Rightarrow> StatisticsOptions res" where
  "parse_options to_bool parsedConfig =
     (if cfg_has parsedConfig ''help'' then Inl UserError
      else if \<not> cfg_has parsedConfig ''options'' then Inr default_options
      else let opts = cfg_getSubConfiguration parsedConfig ''options'' in
        bind_res (getLong_default opts ''use-current-time'' 0) (\<lambda>useDateTime.
        bind_res (getLong_default opts ''step-frequency'' 1) (\<lambda>stepFreq.
        bind_res (getLong_default opts ''time-step'' 3600) (\<lambda>timeStep.
        bind_res (getBool_default opts ''initial-condition-present'' False) (\<lambda>init.
        bind_res (parseReadRestart to_bool opts) (\<lambda>readRestart.
        bind_res (parseWindowType opts) (\<lambda>windowType.
        bind_res (parseSolverResetAccumulatedFields opts) (\<lambda>reset.
        bind_res (parseValueCountThreshold opts) (\<lambda>threshold.
        Inr \<lparr>so_stepFreq = stepFreq, so_timeStep = timeStep, so_send_initial = init, so_readRestart = readRestart,
             so_useDateTime = (useDateTime \<noteq> 0), so_windowType = windowType, so_reset_every = reset,
             so_threshold = threshold\<rparr>)))))))))"

section \<open>What is read from a message\<close>

definition first_of :: "'a option res list \<Rightarrow> 'a res \<Rightarrow> 'a res" where
  "first_of gets none = fold (\<lambda>g rest. bind_res g (\<lambda>x. case x of Some v \<Rightarrow> Inr v | None \<Rightarrow> rest)) (rev gets) none"

definition readStartDate :: "StatisticsOptions \<Rightarrow> BaseMetadata \<Rightarrow> int res" where
  "readStartDate opt md =
     first_of [md_getOpt as_integer (if so_useDateTime opt then ''date'' else ''startDate'') md] (Inl SeriousBug)"

definition readStartTime :: "StatisticsOptions \<Rightarrow> BaseMetadata \<Rightarrow> int res" where
  "readStartTime opt md =
     first_of [md_getOpt as_integer (if so_useDateTime opt then ''time'' else ''startTime'') md] (Inl SeriousBug)"

definition readStep :: "BaseMetadata \<Rightarrow> int res" where
  "readStep md = first_of [md_getOpt as_integer ''endStep'' md, md_getOpt as_integer ''step'' md] (Inl SeriousBug)"

definition readTimeStep :: "StatisticsOptions \<Rightarrow> BaseMetadata \<Rightarrow> int res" where
  "readTimeStep opt md = first_of [md_getOpt as_integer ''timeStep'' md] (Inr (so_timeStep opt))"

definition readStepFrequency :: "StatisticsOptions \<Rightarrow> BaseMetadata \<Rightarrow> int res" where
  "readStepFrequency opt md = first_of [md_getOpt as_integer ''step-frequency'' md] (Inr (so_stepFreq opt))"

definition readLevel :: "BaseMetadata \<Rightarrow> int res" where
  "readLevel md = first_of [md_getOpt as_integer ''level'' md, md_getOpt as_integer ''levelist'' md] (Inl SeriousBug)"

definition readParam :: "BaseMetadata \<Rightarrow> string res" where
  "readParam md =
     first_of [md_getOpt as_string ''param'' md,
               bind_res (md_getOpt as_integer ''paramId'' md) (\<lambda>i. Inr (map_option int_to_string i))] (Inl SeriousBug)"

definition readLevType :: "BaseMetadata \<Rightarrow> string res" where
  "readLevType md = first_of [md_getOpt as_string ''levtype'' md, md_getOpt as_string ''category'' md] (Inl SeriousBug)"

definition readGridType :: "BaseMetadata \<Rightarrow> string res" where
  "readGridType md = first_of [md_getOpt as_string ''gridType'' md] (Inl SeriousBug)"

definition readPrecision :: "BaseMetadata \<Rightarrow> string res" where
  "readPrecision md = first_of [md_getOpt as_string ''misc-precision'' md] (Inl SeriousBug)"

text \<open>Without a bitmap the missing value is a NaN that nothing reads; here it is 0.\<close>

definition readMissingValue :: "BaseMetadata \<Rightarrow> (bool \<times> real) res" where
  "readMissingValue md =
     bind_res (md_getOpt as_double ''missingValue'' md) (\<lambda>missingVal.
     bind_res (md_getOpt as_bool ''bitmapPresent'' md) (\<lambda>bitMapPresent.
     Inr (case (missingVal, bitMapPresent) of (Some m, Some True) \<Rightarrow> (True, m) | _ \<Rightarrow> (False, 0))))"

definition generateKey :: "string \<Rightarrow> int \<Rightarrow> string \<Rightarrow> string \<Rightarrow> string \<Rightarrow> string \<Rightarrow> string" where
  "generateKey param level levType gridType precision src =
     param @ ''-'' @ int_to_string level @ ''-'' @ levType @ ''-'' @ gridType @ ''-'' @ precision @ ''-'' @ src"

text \<open>The hash of the source, printed, is the argument \<open>hash_source\<close>.\<close>

definition read_config :: "(Peer \<Rightarrow> string) \<Rightarrow> StatisticsOptions \<Rightarrow> real message \<Rightarrow> (StatCfg \<times> string) res" where
  "read_config hash_source opt msg =
     (let md = metadata msg in
      bind_res (readStartDate opt md) (\<lambda>date.
      bind_res (readStartTime opt md) (\<lambda>time.
      bind_res (readStep md) (\<lambda>step.
      bind_res (readTimeStep opt md) (\<lambda>timeStep.
      bind_res (readStepFrequency opt md) (\<lambda>stepFreq.
      bind_res (readLevel md) (\<lambda>level.
      bind_res (readParam md) (\<lambda>param.
      bind_res (readLevType md) (\<lambda>levType.
      bind_res (readGridType md) (\<lambda>gridType.
      bind_res (readPrecision md) (\<lambda>precision.
      bind_res (readMissingValue md) (\<lambda>(bitmap, missing).
      Inr (\<lparr>sc_date = date, sc_time = time, sc_step = step, sc_stepFreq = stepFreq, sc_timeStep = timeStep,
            sc_bitmapPresent = bitmap, sc_missingValue = missing, sc_threshold = so_threshold opt,
            sc_reset_every = so_reset_every opt, sc_send_initial = so_send_initial opt\<rparr>,
           generateKey param level levType gridType precision (hash_source (source msg)))))))))))))))"

section \<open>Temporal statistics\<close>

record TemporalStatistics =
  ts_updater :: PeriodUpdater
  ts_window :: OperationWindow
  ts_ops :: "Operation list"

definition new_statistics ::
  "calendar \<Rightarrow> string \<Rightarrow> string list \<Rightarrow> string \<Rightarrow> StatCfg \<Rightarrow> PrecisionTag \<Rightarrow> real list \<Rightarrow> TemporalStatistics res" where
  "new_statistics C output_freq operations window_type c T data =
     bind_res (make_period_updater output_freq) (\<lambda>u.
     bind_res (make_window C u (sc_send_initial c) window_type c) (\<lambda>w.
     bind_res (make_operations C c T data operations) (\<lambda>ps.
     Inr \<lparr>ts_updater = u, ts_window = w, ts_ops = ps\<rparr>)))"

text \<open>Every operation sees the window that the operations before it have left: its counts are shared.\<close>

fun update_ops :: "StatCfg \<Rightarrow> real list \<Rightarrow> Operation list \<Rightarrow> OperationWindow \<Rightarrow> (Operation list \<times> OperationWindow) res" where
  "update_ops c data [] w = Inr ([], w)"
| "update_ops c data (p # ps) w =
     bind_res (op_updateData c data p w) (\<lambda>(p, w).
     bind_res (update_ops c data ps w) (\<lambda>(ps, w). Inr (p # ps, w)))"

definition ts_updateData :: "calendar \<Rightarrow> StatCfg \<Rightarrow> real list \<Rightarrow> TemporalStatistics \<Rightarrow> TemporalStatistics res" where
  "ts_updateData C c data ts =
     bind_res (currentDateTime C c) (\<lambda>t.
     bind_res (win_updateData (ts_window ts) t) (\<lambda>w.
     bind_res (update_ops c data (ts_ops ts) w) (\<lambda>(ps, w). Inr (ts\<lparr>ts_window := w, ts_ops := ps\<rparr>))))"

fun restart_ops :: "calendar \<Rightarrow> StatCfg \<Rightarrow> real list \<Rightarrow> Operation list \<Rightarrow> Operation list res" where
  "restart_ops C c data [] = Inr []"
| "restart_ops C c data (p # ps) =
     bind_res (op_updateWindow C c data p) (\<lambda>p. bind_res (restart_ops C c data ps) (\<lambda>ps. Inr (p # ps)))"

definition ts_updateWindow :: "calendar \<Rightarrow> StatCfg \<Rightarrow> real list \<Rightarrow> TemporalStatistics \<Rightarrow> TemporalStatistics res" where
  "ts_updateWindow C c data ts =
     bind_res (updateWinEndTime C (ts_updater ts) (endPoint (ts_window ts))) (\<lambda>fin.
     bind_res (restart_ops C c data (ts_ops ts)) (\<lambda>ps.
     Inr (ts\<lparr>ts_window := win_updateWindow (ts_window ts) (endPoint (ts_window ts)) fin, ts_ops := ps\<rparr>)))"

definition ts_isEndOfWindow :: "calendar \<Rightarrow> StatCfg \<Rightarrow> TemporalStatistics \<Rightarrow> bool res" where
  "ts_isEndOfWindow C c ts =
     bind_res (bind_res (nextDateTime C c) (isWithin (ts_window ts))) (\<lambda>b. Inr (\<not> b))"

section \<open>Mapping of parameters\<close>

text \<open>
  \<^verbatim>\<open>paramIDMap_\<close> with its textual keys; \<open>None\<close> when there is no mapping. The C function
  \<^verbatim>\<open>atol\<close> of the new parameter is the argument \<open>atol\<close>.
\<close>

definition remap_key :: "string \<Rightarrow> string \<Rightarrow> string \<Rightarrow> string" where
  "remap_key param operation freq = param @ ''_'' @ operation @ ''_'' @ freq @ [CHR 0x0A]"

definition remap_entry :: "Config \<Rightarrow> (string \<times> string) res" where
  "remap_entry mapping =
     (let matcher = cfg_getSubConfiguration mapping ''where'' in
      bind_res (cfg_getString matcher ''param-is'') (\<lambda>param.
      bind_res (cfg_getString matcher ''operation-is'') (\<lambda>operation.
      bind_res (cfg_getString matcher ''output-frequency-is'') (\<lambda>freq.
      bind_res (cfg_getString mapping ''map-to-param'') (\<lambda>newParam.
      Inr (remap_key param operation freq, newParam))))))"

definition RemapParamID :: "Config list \<Rightarrow> (string \<rightharpoonup> string) option res" where
  "RemapParamID mappings =
     (if mappings = [] then Inr None
      else bind_res (fold_res (\<lambda>mapping m. bind_res (remap_entry mapping) (\<lambda>(k, v). Inr (m(k \<mapsto> v)))) mappings Map.empty)
             (\<lambda>m. Inr (Some m)))"

definition ApplyRemap ::
  "(string \<Rightarrow> int) \<Rightarrow> (string \<rightharpoonup> string) option \<Rightarrow> string \<Rightarrow> string \<Rightarrow> BaseMetadata \<Rightarrow> BaseMetadata res" where
  "ApplyRemap atol remap opname freq md =
     (case remap of
        None \<Rightarrow> Inr md
      | Some m \<Rightarrow>
          bind_res (md_getOpt as_string ''param'' md) (\<lambda>param.
          bind_res (md_getOpt as_integer ''paramId'' md) (\<lambda>paramId.
          case paramId of
            None \<Rightarrow> Inl SeriousBug
          | Some i \<Rightarrow> (case m (remap_key (int_to_string i) opname freq) of
              None \<Rightarrow> Inr md
            | Some new \<Rightarrow> Inr (md_set ''param'' (MString new) (md_set ''paramId'' (MInteger (atol new)) md))))))"

section \<open>The action\<close>

record Statistics =
  st_opt :: StatisticsOptions
  st_operations :: "string list"
  st_outputFrequency :: string
  st_remap :: "(string \<rightharpoonup> string) option"
  fieldStats :: "string \<rightharpoonup> TemporalStatistics"
  lastDateTime :: string
  needRestart :: bool

text \<open>What the action gets from outside: the calendar, the C library, and the restart directory.\<close>

record stat_env =
  env_calendar :: calendar
  env_hash :: "Peer \<Rightarrow> string"
  env_atol :: "string \<Rightarrow> int"
  env_restart :: "(string \<Rightarrow> TemporalStatistics res option) option"

definition zero_padded :: "nat \<Rightarrow> int \<Rightarrow> string" where
  "zero_padded n i = (let s = int_to_string i in replicate (n - length s) (CHR ''0'') @ s)"

definition datetime_name :: "calendar \<Rightarrow> DateTime \<Rightarrow> string" where
  "datetime_name C t = zero_padded 8 (yyyymmdd C t) @ ''-'' @ zero_padded 6 (hhmmss t)"

definition updateLatestDateTime :: "calendar \<Rightarrow> DateTime \<Rightarrow> Statistics \<Rightarrow> Statistics" where
  "updateLatestDateTime C now st = st\<lparr>lastDateTime := datetime_name C now, needRestart := True\<rparr>"

definition outputMetadata :: "calendar \<Rightarrow> OperationWindow \<Rightarrow> BaseMetadata \<Rightarrow> BaseMetadata res" where
  "outputMetadata C win md =
     bind_res (timeSpanInSteps win) (\<lambda>steps.
     Inr (fold (\<lambda>(k, v). md_set k (MInteger v))
       [(''sampleIntervalInSeconds'', lastPointsDiffInSeconds win),
        (''startDate'', yyyymmdd C (epochPoint win)), (''startTime'', hhmmss (epochPoint win)),
        (''step-frequency'', steps),
        (''previousDate'', yyyymmdd C (creationPoint win)), (''previousTime'', hhmmss (creationPoint win)),
        (''currentDate'', yyyymmdd C (endPoint win)), (''currentTime'', hhmmss (endPoint win)),
        (''startStepInHours'', pointInHours creationPoint win),
        (''endStepInHours'', pointInHours endPoint win)] md))"

text \<open>
  The loop over the operations at the end of a window. The metadata \<open>md\<close> is one object for the
  whole loop: what \<^verbatim>\<open>ApplyRemap\<close> sets for an operation is there for the next one.
\<close>

fun emit_operations ::
  "(string \<Rightarrow> int) \<Rightarrow> (string \<rightharpoonup> string) option \<Rightarrow> string \<Rightarrow> StatCfg \<Rightarrow> OperationWindow \<Rightarrow> real message \<Rightarrow>
   BaseMetadata \<Rightarrow> Operation list \<Rightarrow> real message list res" where
  "emit_operations atol remap freq c w msg md [] = Inr []"
| "emit_operations atol remap freq c w msg md (p # ps) =
     bind_res (ApplyRemap atol remap (ooperation p) freq
       (md_set ''operation-frequency'' (MString freq) (md_set ''operation'' (MString (ooperation p)) md))) (\<lambda>md.
     bind_res (op_compute c p w) (\<lambda>vs.
     bind_res (emit_operations atol remap freq c w msg md ps) (\<lambda>outs.
     Inr (\<lparr>tag = Field, source = source msg, destination = destination msg, metadata = md, payload = Values vs\<rparr> # outs))))"

definition find_or_make ::
  "stat_env \<Rightarrow> Statistics \<Rightarrow> StatCfg \<Rightarrow> string \<Rightarrow> PrecisionTag res \<Rightarrow> real list \<Rightarrow> TemporalStatistics res" where
  "find_or_make E st c key prec data =
     (case fieldStats st key of
        Some ts \<Rightarrow> Inr ts
      | None \<Rightarrow>
          let made = bind_res prec (\<lambda>T. new_statistics (env_calendar E) (st_outputFrequency st) (st_operations st)
                       (so_windowType (st_opt st)) c T data)
          in if so_readRestart (st_opt st)
             then (case env_restart E of
                     None \<Rightarrow> made
                   | Some files \<Rightarrow> (case files key of Some loaded \<Rightarrow> loaded | None \<Rightarrow> made))
             else made)"

text \<open>After the update of the data: the end of the window is checked, the results are sent.\<close>

definition finish_step ::
  "stat_env \<Rightarrow> Statistics \<Rightarrow> StatCfg \<Rightarrow> real message \<Rightarrow> real list \<Rightarrow> TemporalStatistics \<Rightarrow>
   (TemporalStatistics \<times> real message list) res" where
  "finish_step E st c msg data ts =
     bind_res (ts_isEndOfWindow (env_calendar E) c ts) (\<lambda>atEnd.
     if atEnd then
       bind_res (outputMetadata (env_calendar E) (ts_window ts) (metadata msg)) (\<lambda>md.
       bind_res (emit_operations (env_atol E) (st_remap st) (st_outputFrequency st) c (ts_window ts) msg md (ts_ops ts)) (\<lambda>outs.
       bind_res (ts_updateWindow (env_calendar E) c data ts) (\<lambda>ts. Inr (ts, outs))))
     else Inr (ts, []))"

definition execute_field :: "stat_env \<Rightarrow> Statistics \<Rightarrow> real message \<Rightarrow> real list \<Rightarrow> (Statistics \<times> real message list) res" where
  "execute_field E st msg data =
     bind_res (read_config (env_hash E) (st_opt st) msg) (\<lambda>(c, key).
     bind_res (sc_curr (env_calendar E) c) (\<lambda>now.
     let st = updateLatestDateTime (env_calendar E) now st in
     if so_readRestart (st_opt st) \<and> env_restart E = None then Inl SeriousBug
     else
       bind_res (find_or_make E st c key (msg_precision msg) data) (\<lambda>ts.
       let st = st\<lparr>fieldStats := (fieldStats st)(key \<mapsto> ts)\<rparr> in
       if now = currPoint (ts_window ts) \<and> so_send_initial (st_opt st) then Inr (st, [])
       else if now \<le> currPoint (ts_window ts) then Inl SeriousBug
       else
         bind_res (ts_updateData (env_calendar E) c data ts) (\<lambda>ts.
         bind_res (finish_step E st c msg data ts) (\<lambda>(ts, outs).
         Inr (st\<lparr>fieldStats := (fieldStats st)(key \<mapsto> ts)\<rparr>, outs))))))"

text \<open>Messages that are not fields are passed on; a flush may write restart files first.\<close>

definition executeImpl :: "stat_env \<Rightarrow> Statistics \<Rightarrow> real message \<Rightarrow> (Statistics \<times> real message list) res" where
  "executeImpl E st msg =
     (if tag msg \<noteq> Field then Inr (st, [msg])
      else case payload msg of Values data \<Rightarrow> execute_field E st msg data | _ \<Rightarrow> Inl UndefinedBehaviour)"

section \<open>Well-formed statistics\<close>

definition op_ok :: "nat \<Rightarrow> Operation \<Rightarrow> bool" where
  "op_ok n p \<longleftrightarrow> length (ovalues p) = n \<and> (deaccumulated (okind p) \<longrightarrow> length (initValues p) = n)"

definition counts_ok :: "nat \<Rightarrow> OperationWindow \<Rightarrow> bool" where
  "counts_ok n w \<longleftrightarrow> (wcounts w = [] \<or> length (wcounts w) = n) \<and> list_all (\<lambda>c. 0 \<le> c) (wcounts w)"

definition counts_full :: "nat \<Rightarrow> OperationWindow \<Rightarrow> bool" where
  "counts_full n w \<longleftrightarrow> length (wcounts w) = n \<and> list_all (\<lambda>c. 0 \<le> c) (wcounts w)"

definition counting :: "StatCfg \<Rightarrow> opkind \<Rightarrow> bool" where
  "counting c k \<longleftrightarrow> sc_bitmapPresent c \<and> sc_threshold c \<noteq> None \<and> k \<in> {Average, Minimum, Maximum}"

lemma op_ok_new: "op_ok n (new_operation T k name n)"
  by (simp add: op_ok_def new_operation_def)

lemma counts_full_ok: "counts_full n w \<Longrightarrow> counts_ok n w"
  by (simp add: counts_full_def counts_ok_def)

text \<open>The counts after an update: at the values that are present they are positive.\<close>

lemma updateCounts_ok:
  assumes "counts_ok n w" "length data = n"
  shows "\<exists>w'. updateCounts w data m = Inr w' \<and> counts_full n w' \<and> w' = w\<lparr>wcounts := wcounts w'\<rparr> \<and>
    (\<forall>i < n. data ! i \<noteq> m \<longrightarrow> 0 < wcounts w' ! i)"
proof -
  obtain cs where cs: "initCountsLazy w (length data) = Inr (w\<lparr>wcounts := cs\<rparr>)" "length cs = n" "\<forall>c \<in> set cs. 0 \<le> c"
  proof (cases "length (wcounts w) = n")
    case True
    then show ?thesis using that [of "wcounts w"] assms by (simp add: initCountsLazy_def counts_ok_def list_all_iff)
  next
    case False
    then show ?thesis using that [of "replicate n 0"] assms by (simp add: initCountsLazy_def counts_ok_def)
  qed
  let ?new = "map2 (\<lambda>c v. if v = m then c else c + 1) cs data"
  have "0 \<le> ?new ! i" if "i < n" for i
    using that cs assms(2) by (simp add: nth_mem)
  then have "list_all (\<lambda>c. 0 \<le> c) ?new" using cs(2) assms(2) by (simp add: list_all_length)
  moreover have "0 < ?new ! i" if "i < n" "data ! i \<noteq> m" for i
    using that cs nth_mem [of i cs] assms(2) by auto
  ultimately show ?thesis using cs assms(2)
    by (auto simp: updateCounts_def counts_full_def)
qed

lemma average_counted_ok:
  assumes "length counts = length data" "length vals = length data"
    "\<And>i. i < length data \<Longrightarrow> data ! i \<noteq> m \<Longrightarrow> 0 < counts ! i"
  shows "\<exists>r. average_counted m counts vals data = Inr r \<and> length r = length data"
  using assms
proof (induction data arbitrary: counts vals)
  case Nil
  then show ?case by simp
next
  case (Cons x data)
  obtain c cs v vs where *: "counts = c # cs" "vals = v # vs"
    using Cons.prems(1,2) by (cases counts; cases vals) auto
  have "\<exists>r. average_counted m cs vs data = Inr r \<and> length r = length data"
    by (rule Cons.IH) (use Cons.prems(1,2) Cons.prems(3) [of "Suc _"] * in auto)
  moreover have "x \<noteq> m \<Longrightarrow> c \<noteq> 0" using Cons.prems(3) [of 0] * by auto
  ultimately show ?case by (auto simp: * icntpp_def)
qed

lemma op_updateData_ok:
  assumes "op_ok n p" "length data = n" "0 < wcount w" "counts_ok n w"
  shows "\<exists>p' w'. op_updateData c data p w = Inr (p', w') \<and> op_ok n p' \<and> counts_ok n w' \<and> okind p' = okind p \<and>
    w' = w\<lparr>wcounts := wcounts w'\<rparr> \<and> (counts_full n w \<or> counting c (okind p) \<longrightarrow> counts_full n w')"
proof -
  have len: "length (ovalues p) = n" "op_checkSize p data = Inr ()"
    using assms by (simp_all add: op_ok_def op_checkSize_def)
  obtain w' where w': "updateCounts w data (sc_missingValue c) = Inr w'" "counts_full n w'" "w' = w\<lparr>wcounts := wcounts w'\<rparr>"
    "\<forall>i < n. data ! i \<noteq> sc_missingValue c \<longrightarrow> 0 < wcounts w' ! i"
    using updateCounts_ok [OF assms(4,2)] by blast
  obtain r where r: "average_counted (sc_missingValue c) (wcounts w') (ovalues p) data = Inr r" "length r = n"
    using average_counted_ok [of "wcounts w'" data "ovalues p"] w' len assms(2) by (auto simp: counts_full_def)
  have keep: "w = w\<lparr>wcounts := wcounts w\<rparr>" by simp
  have "\<exists>vs w''. (case okind p of
         Average \<Rightarrow> average_update c data p w | Minimum \<Rightarrow> extremum_update smaller c data p w
       | Maximum \<Rightarrow> extremum_update larger c data p w | Accumulate \<Rightarrow> Inr (accumulate_update c data p, w)
       | _ \<Rightarrow> Inr (data, w)) = Inr (vs, w'') \<and> length vs = n \<and>
       (w'' = w' \<or> w'' = w \<and> \<not> counting c (okind p))"
    using assms(2,3) w'(1) r len(1)
    by (cases "okind p") (auto simp: average_update_def extremum_update_def accumulate_update_def counting_def icntpp_def Let_def)
  then obtain vs w'' where u: "op_updateData c data p w = Inr (p\<lparr>ovalues := vs\<rparr>, w'')" "length vs = n"
    "w'' = w' \<or> w'' = w \<and> \<not> counting c (okind p)"
    by (auto simp: op_updateData_eq len(2))
  then show ?thesis
    using assms(1,4) w'(2,3) keep counts_full_ok by (auto simp: op_ok_def)
qed

lemma update_ops_ok:
  assumes "list_all (op_ok n) ps" "length data = n" "0 < wcount w" "counts_ok n w"
  shows "\<exists>ps' w'. update_ops c data ps w = Inr (ps', w') \<and> list_all (op_ok n) ps' \<and> counts_ok n w' \<and>
    map okind ps' = map okind ps \<and> w' = w\<lparr>wcounts := wcounts w'\<rparr> \<and>
    (counts_full n w \<or> list_ex (\<lambda>p. counting c (okind p)) ps \<longrightarrow> counts_full n w')"
  using assms
proof (induction ps arbitrary: w)
  case Nil
  then show ?case by simp
next
  case (Cons p ps)
  obtain p' w1 where 1: "op_updateData c data p w = Inr (p', w1)" "op_ok n p'" "counts_ok n w1" "okind p' = okind p"
    "w1 = w\<lparr>wcounts := wcounts w1\<rparr>" "counts_full n w \<or> counting c (okind p) \<longrightarrow> counts_full n w1"
    using op_updateData_ok [of n p data w c] Cons.prems by auto
  have "wcount w1 = wcount w" by (subst 1(5)) simp
  then have pos: "0 < wcount w1" using Cons.prems(3) by simp
  have ops: "list_all (op_ok n) ps" using Cons.prems(1) by simp
  obtain ps' w2 where 2: "update_ops c data ps w1 = Inr (ps', w2)" "list_all (op_ok n) ps'" "counts_ok n w2"
    "map okind ps' = map okind ps" "w2 = w1\<lparr>wcounts := wcounts w2\<rparr>"
    "counts_full n w1 \<or> list_ex (\<lambda>p. counting c (okind p)) ps \<longrightarrow> counts_full n w2"
    using Cons.IH [OF ops Cons.prems(2) pos 1(3)] by blast
  have "w2 = w\<lparr>wcounts := wcounts w2\<rparr>" by (subst 2(5), subst 1(5)) simp
  then show ?case using 1 2 by auto
qed

lemma restart_ops_ok:
  assumes "list_all (op_ok n) ps" "length data = n" "solverResetAccumulatedFields C c = Inr b"
  shows "\<exists>ps'. restart_ops C c data ps = Inr ps' \<and> list_all (op_ok n) ps' \<and> map okind ps' = map okind ps"
  using assms(1)
proof (induction ps)
  case Nil
  then show ?case by simp
next
  case (Cons p ps)
  then have "op_checkSize p data = Inr ()" using assms(2) by (simp add: op_ok_def op_checkSize_def)
  then have "\<exists>p'. op_updateWindow C c data p = Inr p' \<and> op_ok n p' \<and> okind p' = okind p"
    using Cons.prems assms(2,3) by (auto simp: op_updateWindow_def op_start_def op_ok_def)
  then show ?case using Cons by auto
qed

lemma apply_threshold_ok: "length vs = length cs \<Longrightarrow> \<exists>r. apply_threshold t m vs cs = Inr r"
  by (induction t m vs cs rule: apply_threshold.induct) auto

lemma op_compute_ok:
  assumes "op_ok n p" "wcount w * sc_stepFreq c * sc_timeStep c \<noteq> 0"
    and "counting c (okind p) \<Longrightarrow> counts_full n w"
  shows "\<exists>r. op_compute c p w = Inr r"
proof -
  have "\<exists>r. thresholded c p w = Inr r" if "okind p \<in> {Average, Minimum, Maximum}"
    using that assms(1,3) apply_threshold_ok [of "ovalues p" "wcounts w"]
    by (auto simp: thresholded_def counting_def counts_full_def op_ok_def split: bool.split option.split)
  then show ?thesis
    using assms(2) by (cases "okind p") (auto simp: op_compute_eq op_checkTimeInterval_def)
qed

end
