(* ===== verification/StatisticsRuns.thy ===== *)
theory StatisticsRuns
  imports Statistics
begin

text \<open>
  Runs of the statistics action: a steady sequence of fields is accepted window by window, and
  what the operations compute over a window. Also the places where the action does not do
  what it is for: the other window type, the shared counters, the metadata that the mapping of
  parameters leaves behind, and the restart files of some operations.
\<close>

section \<open>A steady sequence of fields\<close>

text \<open>
  The statistics of a key are ready for a field at time \<open>t\<close> when steps have the length \<open>d\<close>: the
  window is open for \<open>t\<close>, its end is on a boundary of the period, a step is not longer than the
  period, and the operations and the counters have the size of the field.
\<close>

definition ts_ready :: "nat \<Rightarrow> int \<Rightarrow> DateTime \<Rightarrow> TemporalStatistics \<Rightarrow> bool" where
  "ts_ready n d t ts \<longleftrightarrow>
     (let w = ts_window ts; u = ts_updater ts
      in (\<exists>l. period_unit u = Some l \<and> d \<le> l * period_span u \<and> l dvd endPoint w) \<and>
         wtype w = FORWARD_OFFSET \<and> creationPoint w \<le> currPoint w \<and> currPoint w < t \<and> t \<le> endPoint w \<and>
         0 \<le> wcount w \<and> counts_ok n w \<and> list_all (op_ok n) (ts_ops ts) \<and> timeStepInSeconds w \<noteq> 0)"

lemma list_ex_kinds: "list_ex (\<lambda>p. P (okind p)) ps \<longleftrightarrow> list_ex P (map okind ps)"
  by (induction ps) simp_all

lemma counting_kinds:
  "map okind ps = map okind qs \<Longrightarrow> list_ex (\<lambda>p. counting c (okind p)) ps \<longleftrightarrow> list_ex (\<lambda>p. counting c (okind p)) qs"
  by (simp only: list_ex_kinds [of "counting c"])

lemma win_updateData_ok:
  assumes "creationPoint w < t" "t \<le> endPoint w"
  shows "win_updateData w t = Inr (w\<lparr>prevPoint := currPoint w, currPoint := t, wcount := wcount w + 1\<rparr>)"
  using assms by (simp add: win_updateData_def gtLowerBound_def leUpperBound_def)

lemma ts_updateData_ok:
  assumes "ts_ready n d t ts" "currentDateTime C c = Inr t" "length data = n"
  shows "\<exists>ts'. ts_updateData C c data ts = Inr ts' \<and> ts_updater ts' = ts_updater ts \<and>
     length (ts_ops ts') = length (ts_ops ts) \<and>
     endPoint (ts_window ts') = endPoint (ts_window ts) \<and> wtype (ts_window ts') = FORWARD_OFFSET \<and>
     creationPoint (ts_window ts') = creationPoint (ts_window ts) \<and> currPoint (ts_window ts') = t \<and>
     wcount (ts_window ts') = wcount (ts_window ts) + 1 \<and> counts_ok n (ts_window ts') \<and>
     timeStepInSeconds (ts_window ts') \<noteq> 0 \<and> list_all (op_ok n) (ts_ops ts') \<and>
     (list_ex (\<lambda>p. counting c (okind p)) (ts_ops ts') \<longrightarrow> counts_full n (ts_window ts'))"
proof -
  let ?w = "ts_window ts"
  let ?w1 = "?w\<lparr>prevPoint := currPoint ?w, currPoint := t, wcount := wcount ?w + 1\<rparr>"
  have ready: "creationPoint ?w < t" "t \<le> endPoint ?w" "0 < wcount ?w1" "counts_ok n ?w1" "list_all (op_ok n) (ts_ops ts)"
    "wtype ?w = FORWARD_OFFSET" "timeStepInSeconds ?w \<noteq> 0"
    using assms(1) by (auto simp: ts_ready_def Let_def counts_ok_def)
  obtain ps w2 where u: "update_ops c data (ts_ops ts) ?w1 = Inr (ps, w2)" "list_all (op_ok n) ps" "counts_ok n w2"
    "map okind ps = map okind (ts_ops ts)" "w2 = ?w1\<lparr>wcounts := wcounts w2\<rparr>"
    "counts_full n ?w1 \<or> list_ex (\<lambda>p. counting c (okind p)) (ts_ops ts) \<longrightarrow> counts_full n w2"
    using update_ops_ok [OF ready(5) assms(3) ready(3,4), of c] by blast
  have "endPoint w2 = endPoint ?w" "wtype w2 = wtype ?w" "creationPoint w2 = creationPoint ?w" "currPoint w2 = t"
    "wcount w2 = wcount ?w + 1" "timeStepInSeconds w2 = timeStepInSeconds ?w"
    by (subst u(5), simp)+
  moreover have "ts_updateData C c data ts = Inr (ts\<lparr>ts_window := w2, ts_ops := ps\<rparr>)"
    using assms(2) by (simp add: ts_updateData_def win_updateData_ok [OF ready(1,2)] u(1))
  ultimately show ?thesis
    using u counting_kinds [OF u(4), of c] ready map_eq_imp_length_eq [OF u(4)] by (intro exI [of _ "ts\<lparr>ts_window := w2, ts_ops := ps\<rparr>"]) simp
qed

lemma emit_operations_ok:
  assumes "list_all (op_ok n) ps" "wcount w * sc_stepFreq c * sc_timeStep c \<noteq> 0"
    "list_ex (\<lambda>p. counting c (okind p)) ps \<longrightarrow> counts_full n w"
  shows "\<exists>outs. emit_operations atol None freq c w msg md ps = Inr outs \<and> length outs = length ps"
  using assms
proof (induction ps arbitrary: md)
  case Nil
  then show ?case by simp
next
  case (Cons p ps)
  obtain r where "op_compute c p w = Inr r" using op_compute_ok [of n p w c] Cons.prems by auto
  moreover obtain outs where "emit_operations atol None freq c w msg
      (md_set ''operation-frequency'' (MString freq) (md_set ''operation'' (MString (ooperation p)) md)) ps = Inr outs"
    "length outs = length ps"
    using Cons.IH [of "md_set ''operation-frequency'' (MString freq) (md_set ''operation'' (MString (ooperation p)) md)"]
      Cons.prems by auto
  ultimately show ?case by (simp add: ApplyRemap_def)
qed

lemma finish_step_ok:
  assumes "ts_ready n d t ts0" "ts_updateData C c data ts0 = Inr ts"
    "currentDateTime C c = Inr t" "nextDateTime C c = Inr (t + d)" "0 < d" "length data = n"
    "sc_stepFreq c * sc_timeStep c \<noteq> 0" "solverResetAccumulatedFields C c = Inr b"
    "env_calendar E = C" "st_remap st = None"
  shows "\<exists>ts' outs. finish_step E st c msg data ts = Inr (ts', outs) \<and> ts_ready n d (t + d) ts' \<and>
     ts_updater ts' = ts_updater ts0 \<and> length (ts_ops ts') = length (ts_ops ts) \<and>
     (if endPoint (ts_window ts0) < t + d
      then length outs = length (ts_ops ts) \<and> creationPoint (ts_window ts') = endPoint (ts_window ts0) \<and>
           (\<forall>l. period_unit (ts_updater ts0) = Some l \<longrightarrow>
              endPoint (ts_window ts') = endPoint (ts_window ts0) + l * period_span (ts_updater ts0))
      else outs = [] \<and> creationPoint (ts_window ts') = creationPoint (ts_window ts0) \<and>
           endPoint (ts_window ts') = endPoint (ts_window ts0))"
proof -
  let ?w = "ts_window ts"
  obtain l where l: "period_unit (ts_updater ts0) = Some l" "d \<le> l * period_span (ts_updater ts0)" "l dvd endPoint (ts_window ts0)"
    and ready0: "t \<le> endPoint (ts_window ts0)" "creationPoint (ts_window ts0) < t" "0 \<le> wcount (ts_window ts0)"
    using assms(1) by (auto simp: ts_ready_def Let_def)
  have ts: "ts_updater ts = ts_updater ts0" "endPoint ?w = endPoint (ts_window ts0)" "wtype ?w = FORWARD_OFFSET"
    "creationPoint ?w = creationPoint (ts_window ts0)" "currPoint ?w = t" "wcount ?w = wcount (ts_window ts0) + 1"
    "counts_ok n ?w" "timeStepInSeconds ?w \<noteq> 0" "list_all (op_ok n) (ts_ops ts)"
    "list_ex (\<lambda>p. counting c (okind p)) (ts_ops ts) \<longrightarrow> counts_full n ?w"
    using ts_updateData_ok [OF assms(1,3,6)] assms(2) by auto
  have within: "isWithin ?w (t + d) = Inr (t + d \<le> endPoint ?w)"
    using ts ready0(2) assms(5) by (simp add: isWithin_def and_res_def gtLowerBound_def leUpperBound_def)
  show ?thesis
  proof (cases "t + d \<le> endPoint ?w")
    case True
    then have "finish_step E st c msg data ts = Inr (ts, [])"
      by (simp add: finish_step_def ts_isEndOfWindow_def assms(4,9) within)
    moreover have "ts_ready n d (t + d) ts"
      using ts l ready0 assms(5) True by (auto simp: ts_ready_def Let_def)
    ultimately show ?thesis using True ts(1,2,4) by simp
  next
    case False
    obtain e where e: "updateWinEndTime C (ts_updater ts) (endPoint ?w) = Inr e" "l dvd e" "t + d \<le> e"
      "e = endPoint ?w + l * period_span (ts_updater ts0)"
      using updater_next_window [OF l(1), of "endPoint ?w" t d C] l ready0 ts False by auto
    obtain md where md: "outputMetadata C ?w (metadata msg) = Inr md"
      using ts(8) by (auto simp: outputMetadata_def timeSpanInSteps_def div_res_def)
    have "wcount ?w * sc_stepFreq c * sc_timeStep c \<noteq> 0" using ts(6) ready0(3) assms(7) by simp
    then obtain outs where outs: "emit_operations (env_atol E) None (st_outputFrequency st) c ?w msg md (ts_ops ts) = Inr outs"
      "length outs = length (ts_ops ts)"
      using emit_operations_ok [OF ts(9) _ ts(10)] by blast
    obtain ps where ps: "restart_ops C c data (ts_ops ts) = Inr ps" "list_all (op_ok n) ps" "length ps = length (ts_ops ts)"
      using restart_ops_ok [OF ts(9) assms(6,8)] by (metis length_map)
    let ?ts' = "ts\<lparr>ts_window := win_updateWindow ?w (endPoint ?w) e, ts_ops := ps\<rparr>"
    have "finish_step E st c msg data ts = Inr (?ts', outs)"
      using False by (simp add: finish_step_def ts_isEndOfWindow_def assms(4,9,10) within md outs ts_updateWindow_def e ps)
    moreover have "ts_ready n d (t + d) ?ts'"
      using ts l e ps False by (simp add: ts_ready_def Let_def win_updateWindow_def counts_ok_def)
    ultimately show ?thesis using outs False ts(1,2) e(4) l(1) ps(3) by (simp add: win_updateWindow_def)
  qed
qed

text \<open>One field, when the statistics of its key are ready for it.\<close>

definition at_time :: "calendar \<Rightarrow> StatCfg \<Rightarrow> DateTime \<Rightarrow> int \<Rightarrow> bool" where
  "at_time C c t d \<longleftrightarrow> sc_curr C c = Inr t \<and> currentDateTime C c = Inr t \<and> nextDateTime C c = Inr (t + d) \<and>
     0 < d \<and> sc_stepFreq c * sc_timeStep c = d \<and> (\<exists>b. solverResetAccumulatedFields C c = Inr b)"

lemma execute_ready:
  assumes "find_or_make E st c key (msg_precision msg) data = Inr ts" "ts_ready n d t ts"
    "read_config (env_hash E) (st_opt st) msg = Inr (c, key)" "at_time (env_calendar E) c t d"
    "tag msg = Field" "payload msg = Values data" "length data = n"
    "st_remap st = None" "\<not> so_readRestart (st_opt st)"
    "period_unit (ts_updater ts) = Some l"
  shows "\<exists>st' outs ts'. executeImpl E st msg = Inr (st', outs) \<and> fieldStats st' key = Some ts' \<and>
     ts_ready n d (t + d) ts' \<and> ts_updater ts' = ts_updater ts \<and> length (ts_ops ts') = length (ts_ops ts) \<and>
     st_opt st' = st_opt st \<and> st_remap st' = None \<and>
     (if endPoint (ts_window ts) < t + d
      then length outs = length (ts_ops ts) \<and> creationPoint (ts_window ts') = endPoint (ts_window ts) \<and>
           endPoint (ts_window ts') = endPoint (ts_window ts) + l * period_span (ts_updater ts)
      else outs = [] \<and> creationPoint (ts_window ts') = creationPoint (ts_window ts) \<and>
           endPoint (ts_window ts') = endPoint (ts_window ts))"
proof -
  let ?C = "env_calendar E"
  let ?st0 = "(updateLatestDateTime ?C t st)"
  let ?st1 = "?st0\<lparr>fieldStats := (fieldStats ?st0)(key \<mapsto> ts)\<rparr>"
  have late: "currPoint (ts_window ts) < t" using assms(2) by (simp add: ts_ready_def Let_def)
  have find: "find_or_make E ?st0 c key (msg_precision msg) data = Inr ts"
    using assms(1) by (cases "fieldStats st key") (simp_all add: find_or_make_def updateLatestDateTime_def)
  obtain b where time: "sc_curr ?C c = Inr t" "currentDateTime ?C c = Inr t" "nextDateTime ?C c = Inr (t + d)" "0 < d"
    "sc_stepFreq c * sc_timeStep c = d" "solverResetAccumulatedFields ?C c = Inr b"
    using assms(4) by (auto simp: at_time_def)
  obtain ts1 where u: "ts_updateData ?C c data ts = Inr ts1" "length (ts_ops ts1) = length (ts_ops ts)"
    using ts_updateData_ok [OF assms(2) time(2) assms(7)] by blast
  have "sc_stepFreq c * sc_timeStep c \<noteq> 0" using time(4,5) by simp
  moreover have "st_remap ?st1 = None" using assms(8) by (simp add: updateLatestDateTime_def)
  ultimately obtain ts' outs where f: "finish_step E ?st1 c msg data ts1 = Inr (ts', outs)" "ts_ready n d (t + d) ts'"
    "ts_updater ts' = ts_updater ts" "length (ts_ops ts') = length (ts_ops ts1)"
    "if endPoint (ts_window ts) < t + d
      then length outs = length (ts_ops ts1) \<and> creationPoint (ts_window ts') = endPoint (ts_window ts) \<and>
           (\<forall>l. period_unit (ts_updater ts) = Some l \<longrightarrow>
              endPoint (ts_window ts') = endPoint (ts_window ts) + l * period_span (ts_updater ts))
      else outs = [] \<and> creationPoint (ts_window ts') = creationPoint (ts_window ts) \<and>
           endPoint (ts_window ts') = endPoint (ts_window ts)"
    using finish_step_ok [OF assms(2) u(1) time(2,3,4) assms(7) _ time(6) refl, of ?st1 msg] by blast
  have "executeImpl E st msg = Inr (?st1\<lparr>fieldStats := (fieldStats ?st1)(key \<mapsto> ts')\<rparr>, outs)"
    using late assms(9)
    by (simp add: executeImpl_def execute_field_def assms(3,5,6) time(1) find u(1) f(1) Let_def) (simp add: updateLatestDateTime_def)
  then show ?thesis using f u(2) assms(8,10)
    by (intro exI [of _ "?st1\<lparr>fieldStats := (fieldStats ?st1)(key \<mapsto> ts')\<rparr>"] exI [of _ outs] exI [of _ ts'])
      (simp add: updateLatestDateTime_def)
qed

definition run_fields ::
  "stat_env \<Rightarrow> real message list \<Rightarrow> Statistics \<Rightarrow> real message list \<Rightarrow> (Statistics \<times> real message list) res" where
  "run_fields E msgs st outs =
     fold_res (\<lambda>m (st, outs). bind_res (executeImpl E st m) (\<lambda>(st, new). Inr (st, outs @ new))) msgs (st, outs)"

lemma run_fields_Nil [simp]: "run_fields E [] st outs = Inr (st, outs)"
  by (simp add: run_fields_def)

lemma run_fields_Cons:
  "executeImpl E st m = Inr (st', new) \<Longrightarrow> run_fields E (m # ms) st outs = run_fields E ms st' (outs @ new)"
  by (simp add: run_fields_def)

text \<open>
  A steady sequence: fields of \<open>n\<close> values, all of the same key and configuration, one after the
  other a step frequency apart.
\<close>

definition step_cfg :: "StatCfg \<Rightarrow> nat \<Rightarrow> StatCfg" where
  "step_cfg c i = c\<lparr>sc_step := sc_step c + int i * sc_stepFreq c\<rparr>"

definition field_of :: "stat_env \<Rightarrow> StatisticsOptions \<Rightarrow> nat \<Rightarrow> StatCfg \<Rightarrow> string \<Rightarrow> real message \<Rightarrow> bool" where
  "field_of E opt n c key msg \<longleftrightarrow>
     tag msg = Field \<and> (\<exists>data. payload msg = Values data \<and> length data = n) \<and>
     (\<exists>T. msg_precision msg = Inr T) \<and> read_config (env_hash E) opt msg = Inr (c, key)"

definition steady_input ::
  "stat_env \<Rightarrow> StatisticsOptions \<Rightarrow> nat \<Rightarrow> StatCfg \<Rightarrow> string \<Rightarrow> real message list \<Rightarrow> bool" where
  "steady_input E opt n c key msgs \<longleftrightarrow>
     (\<forall>i < length msgs. field_of E opt n (step_cfg c i) key (msgs ! i))"

definition steady_cfg :: "calendar \<Rightarrow> StatCfg \<Rightarrow> DateTime \<Rightarrow> bool" where
  "steady_cfg C c e \<longleftrightarrow> sc_epoch C c = Inr e \<and> 0 < sc_stepFreq c \<and> 0 < sc_timeStep c \<and> sc_stepFreq c \<le> sc_step c \<and>
     sc_reset_every c \<in> {''hour'', ''day'', ''month'', ''year'', ''never''}"

lemma step_cfg_simps [simp]:
  "step_cfg c 0 = c" "step_cfg (step_cfg c (Suc 0)) i = step_cfg c (Suc i)"
  "sc_stepFreq (step_cfg c i) = sc_stepFreq c" "sc_timeStep (step_cfg c i) = sc_timeStep c"
  "sc_step (step_cfg c i) = sc_step c + int i * sc_stepFreq c"
  "sc_epoch C (step_cfg c i) = sc_epoch C c" "sc_reset_every (step_cfg c i) = sc_reset_every c"
  by (simp_all add: step_cfg_def sc_epoch_def algebra_simps)

lemma steady_input_Cons:
  "steady_input E opt n c key (m # msgs) \<longleftrightarrow>
     field_of E opt n c key m \<and> steady_input E opt n (step_cfg c (Suc 0)) key msgs"
  by (simp add: steady_input_def All_less_Suc2)

lemma steady_cfg_step: "steady_cfg C c e \<Longrightarrow> steady_cfg C (step_cfg c i) e"
  by (simp add: steady_cfg_def add_increasing2)

lemma steady_at_time:
  assumes "steady_cfg C c e"
  shows "at_time C c (e + sc_step c * sc_timeStep c) (sc_stepFreq c * sc_timeStep c)"
proof -
  have e: "sc_epoch C c = Inr e" and step: "max (sc_step c) 0 = sc_step c"
    using assms by (auto simp: steady_cfg_def)
  have "\<exists>b. solverResetAccumulatedFields C c = Inr b"
    using assms by (auto simp: steady_cfg_def solverResetAccumulatedFields_def isBeginningOfHour_def isBeginningOfDay_def
        isBeginningOfMonth_def isBeginningOfYear_def currentDateTime_def)
  then show ?thesis using assms step
    by (simp add: at_time_def sc_curr_def currentDateTime_def nextDateTime_def e steady_cfg_def distrib_right)
qed

text \<open>
  How far a run has got: \<open>j\<close> windows of length \<open>L\<close> have been closed since \<open>p\<close>, where the first
  of them began, and the open window is the next one.
\<close>

definition progress :: "nat \<Rightarrow> int \<Rightarrow> DateTime \<Rightarrow> int \<Rightarrow> nat \<Rightarrow> DateTime \<Rightarrow> TemporalStatistics \<Rightarrow> bool" where
  "progress n d p L j t ts \<longleftrightarrow> ts_ready n d t ts \<and>
     (\<exists>l. period_unit (ts_updater ts) = Some l \<and> L = l * period_span (ts_updater ts)) \<and>
     creationPoint (ts_window ts) = p + int j * L \<and> endPoint (ts_window ts) = p + int (Suc j) * L"

lemma execute_progress:
  assumes "find_or_make E st c key (msg_precision msg) data = Inr ts" "progress n d p L j t ts"
    "field_of E (st_opt st) n c key msg" "payload msg = Values data" "at_time (env_calendar E) c t d"
    "st_remap st = None" "\<not> so_readRestart (st_opt st)"
  shows "\<exists>st' new ts' j'. executeImpl E st msg = Inr (st', new) \<and> fieldStats st' key = Some ts' \<and>
     progress n d p L j' (t + d) ts' \<and> length (ts_ops ts') = length (ts_ops ts) \<and>
     st_opt st' = st_opt st \<and> st_remap st' = None \<and> length new + length (ts_ops ts) * j = length (ts_ops ts) * j'"
proof -
  obtain l where l: "period_unit (ts_updater ts) = Some l" "L = l * period_span (ts_updater ts)"
    and ready: "ts_ready n d t ts" and w: "creationPoint (ts_window ts) = p + int j * L" "endPoint (ts_window ts) = p + int (Suc j) * L"
    using assms(2) by (auto simp: progress_def)
  have msg: "tag msg = Field" "length data = n" "read_config (env_hash E) (st_opt st) msg = Inr (c, key)"
    using assms(3,4) by (auto simp: field_of_def)
  obtain st' new ts' where s: "executeImpl E st msg = Inr (st', new)" "fieldStats st' key = Some ts'"
    "ts_ready n d (t + d) ts'" "ts_updater ts' = ts_updater ts" "length (ts_ops ts') = length (ts_ops ts)"
    "st_opt st' = st_opt st" "st_remap st' = None"
    "if endPoint (ts_window ts) < t + d
      then length new = length (ts_ops ts) \<and> creationPoint (ts_window ts') = endPoint (ts_window ts) \<and>
           endPoint (ts_window ts') = endPoint (ts_window ts) + l * period_span (ts_updater ts)
      else new = [] \<and> creationPoint (ts_window ts') = creationPoint (ts_window ts) \<and>
           endPoint (ts_window ts') = endPoint (ts_window ts)"
    using execute_ready [OF assms(1) ready msg(3) assms(5) msg(1) assms(4) msg(2) assms(6,7) l(1)] by blast
  show ?thesis
  proof (cases "endPoint (ts_window ts) < t + d")
    case True
    then have "progress n d p L (Suc j) (t + d) ts'"
      using s l w by (simp add: progress_def distrib_right)
    then show ?thesis using s True by (intro exI [of _ st'] exI [of _ new] exI [of _ ts'] exI [of _ "Suc j"]) simp
  next
    case False
    then have "progress n d p L j (t + d) ts'" using s l w by (simp add: progress_def)
    then show ?thesis using s False by (intro exI [of _ st'] exI [of _ new] exI [of _ ts'] exI [of _ j]) simp
  qed
qed

lemma run_progress:
  assumes "fieldStats st key = Some ts" "progress n d p L j (e + sc_step c * sc_timeStep c) ts"
    "steady_input E (st_opt st) n c key msgs" "steady_cfg (env_calendar E) c e" "d = sc_stepFreq c * sc_timeStep c"
    "st_remap st = None" "\<not> so_readRestart (st_opt st)" "length outs = length (ts_ops ts) * j"
  shows "\<exists>st' outs' ts' j'. run_fields E msgs st outs = Inr (st', outs') \<and> fieldStats st' key = Some ts' \<and>
     progress n d p L j' (e + (sc_step c + int (length msgs) * sc_stepFreq c) * sc_timeStep c) ts' \<and>
     length outs' = length (ts_ops ts) * j'"
  using assms
proof (induction msgs arbitrary: st ts j c outs)
  case Nil
  then show ?case by auto
next
  case (Cons m msgs)
  have field: "field_of E (st_opt st) n c key m"
    using Cons.prems(3) by (simp add: steady_input_Cons)
  then obtain data where data: "payload m = Values data" by (auto simp: field_of_def)
  have find: "find_or_make E st c key (msg_precision m) data = Inr ts"
    by (simp add: find_or_make_def Cons.prems(1))
  have at: "at_time (env_calendar E) c (e + sc_step c * sc_timeStep c) d"
    unfolding Cons.prems(5) by (rule steady_at_time [OF Cons.prems(4)])
  obtain st' new ts' j' where s: "executeImpl E st m = Inr (st', new)" "fieldStats st' key = Some ts'"
    "progress n d p L j' (e + sc_step c * sc_timeStep c + d) ts'" "length (ts_ops ts') = length (ts_ops ts)"
    "st_opt st' = st_opt st" "st_remap st' = None" "length new + length (ts_ops ts) * j = length (ts_ops ts) * j'"
    using execute_progress [OF find Cons.prems(2) field data at Cons.prems(6,7)] by blast
  let ?c = "step_cfg c (Suc 0)"
  have input: "steady_input E (st_opt st') n ?c key msgs"
    using Cons.prems(3) by (simp add: steady_input_Cons s(5))
  have time: "e + sc_step c * sc_timeStep c + d = e + sc_step ?c * sc_timeStep ?c"
    using Cons.prems(5) by (simp add: distrib_right)
  have "\<exists>st'' outs' ts'' j''. run_fields E msgs st' (outs @ new) = Inr (st'', outs') \<and>
      fieldStats st'' key = Some ts'' \<and>
      progress n d p L j'' (e + (sc_step ?c + int (length msgs) * sc_stepFreq ?c) * sc_timeStep ?c) ts'' \<and>
      length outs' = length (ts_ops ts') * j''"
  proof (rule Cons.IH [OF s(2) s(3) [unfolded time] input])
    show "steady_cfg (env_calendar E) ?c e" by (rule steady_cfg_step [OF Cons.prems(4)])
    show "length (outs @ new) = length (ts_ops ts') * j'" using s(4,7) Cons.prems(8) by simp
  qed (use s(5,6) Cons.prems(5,7) in simp_all)
  then show ?case
    using s(4) by (simp add: run_fields_Cons [OF s(1)] algebra_simps)
qed

lemma length_new_operations:
  "make_operations C c T data ns = Inr ps \<Longrightarrow> length ps = length ns"
  by (induction ns arbitrary: ps) (auto simp: bind_res_Inr_iff)

lemma make_operations_ok:
  assumes "\<forall>s \<in> set ns. \<exists>k. kind_of_name s = Inr k \<and> \<not> deaccumulated k" "\<not> sc_send_initial c"
  shows "\<exists>ps. make_operations C c T data ns = Inr ps \<and> list_all (op_ok (length data)) ps"
  using assms
proof (induction ns)
  case Nil
  then show ?case by simp
next
  case (Cons s ns)
  then obtain k where k: "kind_of_name s = Inr k" "\<not> deaccumulated k" by auto
  then have "make_initialised C c T data s = Inr (new_operation T k s (length data))"
    using assms(2) by (simp add: make_initialised_def make_operation_def needStepZero_def new_operation_def)
  then show ?case using Cons by (auto simp: op_ok_new)
qed

lemma first_statistics:
  assumes "steady_cfg C c e" "\<not> sc_send_initial c" "make_period_updater freq = Inr u" "period_unit u = Some l"
    "d = sc_stepFreq c * sc_timeStep c" "d \<le> l * period_span u"
    "p = e + (sc_step c - sc_stepFreq c) * sc_timeStep c" "l dvd p"
    "\<forall>s \<in> set operations. \<exists>k. kind_of_name s = Inr k \<and> \<not> deaccumulated k" "length data = n"
  shows "\<exists>ts. new_statistics C freq operations ''forward-offset'' c T data = Inr ts \<and>
     progress n d p (l * period_span u) 0 (e + sc_step c * sc_timeStep c) ts \<and> length (ts_ops ts) = length operations"
proof -
  have span: "0 < period_span u" using make_period_updater_span [OF assms(3)] by simp
  have e: "sc_epoch C c = Inr e" and pos: "0 < d" "sc_timeStep c \<noteq> 0" using assms(1,5) by (auto simp: steady_cfg_def)
  have start: "sc_winStart C (sc_send_initial c) c = Inr p"
    using assms(1,2,7) e by (simp add: sc_winStart_def sc_prev_def steady_cfg_def)
  have next_t: "e + sc_step c * sc_timeStep c = p + d" using assms(5,7) by (simp add: algebra_simps)
  have ends: "computeWinStartTime C u p = Inr p" "computeWinEndTime C u p = Inr (p + l * period_span u)"
    using assms(4,8) hourly.start_value [of C p] hourly.end_value [of p C "period_span u"]
      daily.start_value [of C p] daily.end_value [of p C "period_span u"]
    by (cases u; simp add: computeWinStartTime_def computeWinEndTime_def updateWinEndTime_def mod_0_imp_dvd)+
  let ?w = "new_window e p p (p + l * period_span u) (sc_timeStep c) FORWARD_OFFSET"
  have w: "make_window C u (sc_send_initial c) ''forward-offset'' c = Inr ?w"
    by (simp add: make_window_def e start ends computeWinCreationTime_def)
  obtain ps where ps: "make_operations C c T data operations = Inr ps" "list_all (op_ok n) ps" "length ps = length operations"
    using make_operations_ok [OF assms(9,2), of C T data] length_new_operations assms(10) by metis
  have "new_statistics C freq operations ''forward-offset'' c T data = Inr \<lparr>ts_updater = u, ts_window = ?w, ts_ops = ps\<rparr>"
    by (simp add: new_statistics_def assms(3) w ps(1))
  moreover have "progress n d p (l * period_span u) 0 (p + d) \<lparr>ts_updater = u, ts_window = ?w, ts_ops = ps\<rparr>"
    using assms(4,6,8) pos ps(2) by (simp add: progress_def ts_ready_def new_window_def counts_ok_def)
  ultimately show ?thesis using ps(3) by (simp add: next_t)
qed

lemma progress_windows:
  assumes "progress n d p L j (p + x) ts" "0 < L"
  shows "j = nat ((x - 1) div L)"
proof -
  have "int j * L < x" "x \<le> int (Suc j) * L" using assms(1) by (auto simp: progress_def ts_ready_def Let_def)
  then have "(x - 1) div L = int j" using assms(2) by (intro int_div_pos_eq [of _ _ _ "x - 1 - int j * L"]) (auto simp: algebra_simps)
  then show ?thesis by simp
qed

text \<open>
  Property C7. A steady sequence of fields of a new key is never rejected and the complete windows give their results
  once. The conditions are: windows of the type forward-offset whose period is a number of hours or days,
  fields that come a fixed step apart, the step not longer than the period and the first window
  beginning on a boundary of the period; only operations that do not deaccumulate (the others want
  an initial condition), no initial condition that the solver sends, no mapping of parameters and no restart.
  Then every message of the sequence is accepted by every check of the code (the order of
  times, the bounds of the window, the sizes, the divisions), and the action passes on one result
  per operation for each window that is complete before the next field, no more and no fewer.
\<close>

theorem steady_fields_accepted:
  assumes "steady_cfg (env_calendar E) c e" "steady_input E (st_opt st) n c key msgs" "msgs \<noteq> []"
    "fieldStats st key = None" "st_remap st = None" "\<not> so_readRestart (st_opt st)"
    "so_windowType (st_opt st) = ''forward-offset''" "\<not> sc_send_initial c"
    "make_period_updater (st_outputFrequency st) = Inr u" "period_unit u = Some l"
    "sc_stepFreq c * sc_timeStep c \<le> l * period_span u"
    "l dvd e + (sc_step c - sc_stepFreq c) * sc_timeStep c"
    "\<forall>s \<in> set (st_operations st). \<exists>k. kind_of_name s = Inr k \<and> \<not> deaccumulated k"
  shows "\<exists>st' outs. run_fields E msgs st [] = Inr (st', outs) \<and>
     length outs = length (st_operations st) *
       nat (((int (length msgs) + 1) * (sc_stepFreq c * sc_timeStep c) - 1) div (l * period_span u))"
proof -
  let ?d = "sc_stepFreq c * sc_timeStep c" and ?L = "l * period_span u"
  let ?p = "e + (sc_step c - sc_stepFreq c) * sc_timeStep c"
  obtain m ms where msgs: "msgs = m # ms" using assms(3) by (cases msgs) auto
  have field: "field_of E (st_opt st) n c key m" and rest: "steady_input E (st_opt st) n (step_cfg c (Suc 0)) key ms"
    using assms(2) by (simp_all add: msgs steady_input_Cons)
  obtain data T where data: "payload m = Values data" "length data = n" "msg_precision m = Inr T"
    using field by (auto simp: field_of_def)
  obtain ts where ts: "new_statistics (env_calendar E) (st_outputFrequency st) (st_operations st) ''forward-offset'' c T data = Inr ts"
    "progress n ?d ?p ?L 0 (e + sc_step c * sc_timeStep c) ts" "length (ts_ops ts) = length (st_operations st)"
    using first_statistics [OF assms(1,8,9,10) refl assms(11) refl assms(12,13) data(2)] by blast
  have find: "find_or_make E st c key (msg_precision m) data = Inr ts"
    using assms(4,6,7) ts(1) data(3) by (simp add: find_or_make_def)
  obtain st1 new ts1 j where s: "executeImpl E st m = Inr (st1, new)" "fieldStats st1 key = Some ts1"
    "progress n ?d ?p ?L j (e + sc_step c * sc_timeStep c + ?d) ts1" "length (ts_ops ts1) = length (ts_ops ts)"
    "st_opt st1 = st_opt st" "st_remap st1 = None" "length new + length (ts_ops ts) * 0 = length (ts_ops ts) * j"
    using execute_progress [OF find ts(2) field data(1) steady_at_time [OF assms(1)] assms(5,6)] by blast
  let ?c = "step_cfg c (Suc 0)"
  have time: "e + sc_step c * sc_timeStep c + ?d = e + sc_step ?c * sc_timeStep ?c" by (simp add: distrib_right)
  obtain st' outs ts' j' where r: "run_fields E ms st1 new = Inr (st', outs)"
    "progress n ?d ?p ?L j' (e + (sc_step ?c + int (length ms) * sc_stepFreq ?c) * sc_timeStep ?c) ts'"
    "length outs = length (ts_ops ts1) * j'"
    using run_progress [OF s(2) s(3) [unfolded time], where E = E and msgs = ms and outs = new] rest s assms(6)
      steady_cfg_step [OF assms(1)] by auto
  have end_t: "e + (sc_step ?c + int (length ms) * sc_stepFreq ?c) * sc_timeStep ?c = ?p + (int (length msgs) + 1) * ?d"
    by (simp add: msgs algebra_simps)
  have L: "0 < ?L" using assms(10) make_period_updater_span [OF assms(9)] by (cases u) auto
  have "j' = nat (((int (length msgs) + 1) * ?d - 1) div ?L)"
    by (rule progress_windows [OF r(2) [unfolded end_t] L])
  then show ?thesis using r(1,3) s(4) ts(3) by (simp add: msgs run_fields_Cons [OF s(1)])
qed

text \<open>A calendar with one known date, and fields of one value, for the concrete runs.\<close>

definition plain_calendar :: calendar where
  "plain_calendar = \<lparr>mk_date = (\<lambda>y m d. if (y, m) = (2000, 1) then Inr d else Inl BadValue),
     mk_packed_date = (\<lambda>d. if d = 20000101 then Inr 1 else Inl BadValue),
     civil = (\<lambda>d. (2000, 1, d)), off_clock = (\<lambda>h m s. Inl BadValue)\<rparr>"

definition plain_env :: stat_env where
  "plain_env = \<lparr>env_calendar = plain_calendar, env_hash = (\<lambda>p. ''0''), env_atol = (\<lambda>s. 0), env_restart = None\<rparr>"

definition plain_field :: "int \<Rightarrow> real list \<Rightarrow> real message" where
  "plain_field step vals =
     \<lparr>tag = Field, source = Peer ''c'' 0, destination = Peer ''s'' 0,
      metadata = [(''startDate'', MInteger 20000101), (''startTime'', MInteger 0), (''step'', MInteger step),
        (''level'', MInteger 0), (''param'', MString ''t''), (''levtype'', MString ''sfc''), (''gridType'', MString ''g''),
        (''misc-precision'', MString ''double'')], payload = Values vals\<rparr>"

definition plain_state :: "string list \<Rightarrow> string \<Rightarrow> Statistics" where
  "plain_state operations freq =
     \<lparr>st_opt = default_options, st_operations = operations, st_outputFrequency = freq, st_remap = None,
      fieldStats = Map.empty, lastDateTime = [], needRestart = False\<rparr>"

definition plain_cfg :: "int \<Rightarrow> StatCfg" where
  "plain_cfg step = \<lparr>sc_date = 20000101, sc_time = 0, sc_step = step, sc_stepFreq = 1, sc_timeStep = 3600,
     sc_bitmapPresent = False, sc_missingValue = 0, sc_threshold = None, sc_reset_every = ''month'', sc_send_initial = False\<rparr>"

definition plain_key :: string where "plain_key = ''t-0-sfc-g-double-0''"

lemma plain_epoch: "sc_epoch plain_calendar (plain_cfg k) = Inr 86400"
  by (simp add: sc_epoch_def plain_cfg_def plain_calendar_def mk_time_def on_clock_def day_seconds_def)

lemma plain_steady: "1 \<le> k \<Longrightarrow> steady_cfg (env_calendar plain_env) (plain_cfg k) 86400"
  using plain_epoch [of k] by (simp add: steady_cfg_def plain_env_def plain_cfg_def)

lemma char_0: "char_of (48 :: nat) = CHR ''0''"
  by code_simp

lemma plain_config:
  "read_config (env_hash plain_env) default_options (plain_field k vals) = Inr (plain_cfg k, plain_key)"
  by (simp add: read_config_def plain_field_def plain_env_def default_options_def plain_cfg_def plain_key_def
      readStartDate_def readStartTime_def readStep_def readTimeStep_def readStepFrequency_def readLevel_def readParam_def
      readLevType_def readGridType_def readPrecision_def readMissingValue_def first_of_def md_getOpt_def getter_def
      md_find_def generateKey_def int_to_string_def digits_small char_0)

lemma plain_precision: "msg_precision (plain_field k vals) = Inr Double"
  by (simp add: plain_field_def msg_precision_def required_def md_getOpt_def getter_def md_find_def decodePrecisionTag_def)

lemma plain_field_of: "length vals = n \<Longrightarrow> field_of plain_env default_options n (plain_cfg k) plain_key (plain_field k vals)"
  by (simp add: field_of_def plain_config plain_precision) (simp add: plain_field_def)

lemma plain_step: "step_cfg (plain_cfg k) i = plain_cfg (k + int i)"
  by (simp add: step_cfg_def plain_cfg_def)

lemma plain_input:
  assumes "\<forall>i < length msgs. \<exists>vals. msgs ! i = plain_field (k + int i) vals \<and> length vals = n"
  shows "steady_input plain_env default_options n (plain_cfg k) plain_key msgs"
  using assms plain_field_of unfolding steady_input_def plain_step by (metis plain_field_of)

lemma hour_period: "make_period_updater ''2h'' = Inr (HourPeriodUpdater 2)"
  by (simp add: make_period_updater_def parsePeriodGrammar_def is_digit_def is_lower_def Let_def stol_def is_space_def digits_value_def)

theorem steady_fields_accepted_witness:
  "\<exists>st' outs. run_fields plain_env (map (\<lambda>k. plain_field k [5, 7]) [1, 2, 3, 4])
       (plain_state [''average'', ''minimum''] ''2h'') [] = Inr (st', outs) \<and> length outs = 4"
proof -
  let ?msgs = "map (\<lambda>k. plain_field k [5, 7]) [1, 2, 3, 4]"
  have "steady_input plain_env (st_opt (plain_state [''average'', ''minimum''] ''2h'')) 2 (plain_cfg 1) plain_key ?msgs"
    unfolding plain_state_def by (simp, intro plain_input) (auto simp: less_Suc_eq)
  note input = this
  have "\<exists>st' outs. run_fields plain_env ?msgs (plain_state [''average'', ''minimum''] ''2h'') [] = Inr (st', outs) \<and>
     length outs = length (st_operations (plain_state [''average'', ''minimum''] ''2h'')) *
       nat (((int (length ?msgs) + 1) * (sc_stepFreq (plain_cfg 1) * sc_timeStep (plain_cfg 1)) - 1)
         div (3600 * period_span (HourPeriodUpdater 2)))"
    by (rule steady_fields_accepted [OF plain_steady input, where l = 3600])
      (simp_all add: plain_state_def default_options_def plain_cfg_def hour_period kind_of_name_def deaccumulated_def)
  then show ?thesis by (simp add: plain_state_def plain_cfg_def)
qed

section \<open>What the operations compute\<close>

text \<open>
  The fields of a window reach an operation one after the other, the count of the window is
  increased before each of them, as \<^verbatim>\<open>TemporalStatistics::updateData\<close> does.
\<close>

fun feed :: "StatCfg \<Rightarrow> real list list \<Rightarrow> Operation \<Rightarrow> OperationWindow \<Rightarrow> (Operation \<times> OperationWindow) res" where
  "feed c [] p w = Inr (p, w)"
| "feed c (d # ds) p w =
     bind_res (op_updateData c d p (w\<lparr>wcount := wcount w + 1\<rparr>)) (\<lambda>(p, w). feed c ds p w)"

lemma feed_snoc:
  "feed c (ds @ [d]) p w = bind_res (feed c ds p w) (\<lambda>(p, w). op_updateData c d p (w\<lparr>wcount := wcount w + 1\<rparr>))"
proof (induction ds arbitrary: p w)
  case Nil
  then show ?case by (cases "op_updateData c d p (w\<lparr>wcount := wcount w + 1\<rparr>)") auto
next
  case (Cons e ds)
  then show ?case by (cases "op_updateData c e p (w\<lparr>wcount := wcount w + 1\<rparr>)") auto
qed

text \<open>
  What the updates leave in one point of the operation and what is computed from it, from the values
  \<open>xs\<close> that the point had in the fields of the window, the value \<open>ini\<close> the operation started from, the
  value \<open>x0\<close> at the start of the window and the seconds the window has covered.
\<close>

definition accumulated_value :: "opkind \<Rightarrow> real \<Rightarrow> real list \<Rightarrow> real" where
  "accumulated_value k ini xs = (case k of
     Average \<Rightarrow> sum_list xs / of_nat (length xs)
   | Accumulate \<Rightarrow> sum_list xs
   | Minimum \<Rightarrow> Min (insert ini (set xs))
   | Maximum \<Rightarrow> Max (insert ini (set xs))
   | _ \<Rightarrow> last xs)"

definition accumulated_result :: "opkind \<Rightarrow> real \<Rightarrow> real \<Rightarrow> real \<Rightarrow> real list \<Rightarrow> real" where
  "accumulated_result k ini x0 seconds xs = (case k of
     FluxAverage \<Rightarrow> last xs / seconds
   | Difference \<Rightarrow> last xs - x0
   | DeAccumulate \<Rightarrow> last xs - x0
   | InverseDifference \<Rightarrow> x0 - last xs
   | FixedWindowFluxAverage \<Rightarrow> (last xs - x0) / seconds
   | _ \<Rightarrow> accumulated_value k ini xs)"


definition column :: "nat \<Rightarrow> real list list \<Rightarrow> real list" where
  "column i fs = map (\<lambda>d. d ! i) fs"

lemma column_simps [simp]:
  "column i [] = []" "column i (ds @ [d]) = column i ds @ [d ! i]" "length (column i ds) = length ds"
  by (simp_all add: column_def)

lemma mean_step:
  assumes "v = sum_list xs / of_nat (length xs) \<or> xs = []"
  shows "average_step (sc_factor (1 / of_int (int (length xs) + 1)) (int (length xs) + 1)) (1 / of_int (int (length xs) + 1)) v x
     = sum_list (xs @ [x]) / of_nat (length (xs @ [x]))"
proof (cases "xs = []")
  case True
  then show ?thesis by (simp add: average_step_def sc_factor_def)
next
  case False
  then have v: "v * of_nat (length xs) = sum_list xs" using assms by simp
  have "average_step (sc_factor (1 / of_int (int (length xs) + 1)) (int (length xs) + 1)) (1 / of_int (int (length xs) + 1)) v x
      = (v * of_nat (length xs) + x) / (of_nat (length xs) + 1)"
    by (simp add: average_step_def sc_factor_def add_divide_distrib)
  then show ?thesis by (simp add: v add.commute)
qed

lemma smaller_min: "smaller a x = min x a"
  by (simp add: smaller_def min_def)

lemma Min_snoc: "smaller (Min (insert a (set xs))) x = Min (insert a (set (xs @ [x])))"
proof -
  have "insert a (set (xs @ [x])) = insert x (insert a (set xs))" by auto
  then show ?thesis by (simp only: smaller_min) (rule Min_insert [symmetric]; simp)
qed

lemma larger_max: "larger a x = max x a"
  by (simp add: larger_def max_def)

lemma Max_snoc: "larger (Max (insert a (set xs))) x = Max (insert a (set (xs @ [x])))"
proof -
  have "insert a (set (xs @ [x])) = insert x (insert a (set xs))" by auto
  then show ?thesis by (simp only: larger_max) (rule Max_insert [symmetric]; simp)
qed

lemma feed_values:
  assumes "ovalues p = replicate n ini" "\<forall>d \<in> set fs. length d = n" "\<not> sc_bitmapPresent c" "wcount w = 0" "fs \<noteq> []"
    "okind p = Accumulate \<longrightarrow> ini = 0"
  shows "feed c fs p w =
     Inr (p\<lparr>ovalues := map (\<lambda>i. accumulated_value (okind p) ini (column i fs)) [0..<n]\<rparr>, w\<lparr>wcount := int (length fs)\<rparr>)"
  using assms(2,5)
proof (induction fs rule: rev_induct)
  case Nil
  then show ?case by simp
next
  case (snoc d ds)
  let ?vals = "if ds = [] then replicate n ini else map (\<lambda>i. accumulated_value (okind p) ini (column i ds)) [0..<n]"
  have before: "feed c ds p w = Inr (p\<lparr>ovalues := ?vals\<rparr>, w\<lparr>wcount := int (length ds)\<rparr>)"
  proof (cases "ds = []")
    case True
    then show ?thesis using assms(1,4) by (cases p; cases w) simp
  next
    case False
    then show ?thesis using snoc by simp
  qed
  let ?p = "p\<lparr>ovalues := ?vals\<rparr>" and ?w = "w\<lparr>wcount := int (length ds) + 1\<rparr>"
  have len: "length d = n" "length ?vals = n" using snoc.prems by simp_all
  then have check: "op_checkSize ?p d = Inr ()" by (simp add: op_checkSize_def)
  have val: "?vals ! i = (if ds = [] then ini else accumulated_value (okind p) ini (column i ds))" if "i < n" for i
    using that by simp
  have lasts: "d = map (\<lambda>i. last (column i (ds @ [d]))) [0..<n]"
    using len(1) by (intro nth_equalityI) simp_all
  have avg: "map2 (average_step (sc_factor (1 / of_int (int (length ds) + 1)) (int (length ds) + 1)) (1 / of_int (int (length ds) + 1)))
      ?vals d = map (\<lambda>i. accumulated_value Average ini (column i (ds @ [d]))) [0..<n]" if "okind p = Average"
    using len val that mean_step [of _ "column _ ds"]
    by (intro nth_equalityI) (auto simp: accumulated_value_def simp del: sum_list_append)
  have acc: "map2 (+) ?vals d = map (\<lambda>i. accumulated_value Accumulate ini (column i (ds @ [d]))) [0..<n]"
    if "okind p = Accumulate" "ds = [] \<longrightarrow> ini = 0"
    using len val that by (intro nth_equalityI) (auto simp: accumulated_value_def)
  have least: "map2 smaller ?vals d = map (\<lambda>i. accumulated_value Minimum ini (column i (ds @ [d]))) [0..<n]" if "okind p = Minimum"
    using len val that
    using Min_snoc [of ini "column _ ds"] Min_snoc [of ini "[]"]
    by (intro nth_equalityI) (simp_all add: accumulated_value_def)
  have greatest: "map2 larger ?vals d = map (\<lambda>i. accumulated_value Maximum ini (column i (ds @ [d]))) [0..<n]" if "okind p = Maximum"
    using len val that
    using Max_snoc [of ini "column _ ds"] Max_snoc [of ini "[]"]
    by (intro nth_equalityI) (simp_all add: accumulated_value_def)
  have kinds: "accumulated_value k ini xs = last xs" if "k \<notin> {Average, Accumulate, Minimum, Maximum}" for k xs
    using that by (cases k) (simp_all add: accumulated_value_def)
  have "op_updateData c d ?p ?w = Inr (?p\<lparr>ovalues := map (\<lambda>i. accumulated_value (okind p) ini (column i (ds @ [d]))) [0..<n]\<rparr>, ?w)"
    using avg acc least greatest lasts assms(3,6) kinds
    by (cases "okind p") (simp_all add: op_updateData_eq check average_update_def extremum_update_def accumulate_update_def icntpp_def Let_def)
  then show ?case by (simp add: feed_snoc before)
qed

lemma compute_values:
  assumes "op_ok n p" "ovalues p = replicate n ini" "\<forall>d \<in> set fs. length d = n" "fs \<noteq> []" "\<not> sc_bitmapPresent c"
    "wcount w = 0" "sc_stepFreq c * sc_timeStep c \<noteq> 0" "okind p = Accumulate \<longrightarrow> ini = 0"
  shows "\<exists>p' w'. feed c fs p w = Inr (p', w') \<and>
     op_compute c p' w' = Inr (map (\<lambda>i. accumulated_result (okind p) ini (initValues p ! i)
       (of_int (int (length fs) * sc_stepFreq c * sc_timeStep c)) (column i fs)) [0..<n])"
proof -
  let ?p = "p\<lparr>ovalues := map (\<lambda>i. accumulated_value (okind p) ini (column i fs)) [0..<n]\<rparr>"
  let ?w = "w\<lparr>wcount := int (length fs)\<rparr>"
  have f: "feed c fs p w = Inr (?p, ?w)" by (rule feed_values) (use assms in auto)
  have "op_checkTimeInterval ?w c = Inr ()" using assms(4,7) by (simp add: op_checkTimeInterval_def)
  moreover have "map2 f (ovalues ?p) (initValues p) = map (\<lambda>i. f (accumulated_value (okind p) ini (column i fs)) (initValues p ! i)) [0..<n]"
    if "deaccumulated (okind p)" for f
    using assms(1) that by (intro nth_equalityI) (simp_all add: op_ok_def)
  ultimately have "op_compute c ?p ?w = Inr (map (\<lambda>i. accumulated_result (okind p) ini (initValues p ! i)
       (of_int (int (length fs) * sc_stepFreq c * sc_timeStep c)) (column i fs)) [0..<n])"
    using assms(5)
    by (cases "okind p") (simp_all add: op_compute_eq thresholded_def scaled_values_def differences_def deaccumulated_def
        accumulated_result_def accumulated_value_def time_factor_def)
  with f show ?thesis by blast
qed




text \<open>
  The maximum of negative values is wrong: the operation starts from
  \<^verbatim>\<open>numeric_limits<T>::min()\<close>, the smallest positive number and not the lowest one, so that for
  every window in which a point has only negative values the maximum sent for it is this positive
  number.
\<close>

theorem maximum_of_negatives:
  assumes "op_ok n p" "ovalues p = replicate n (initial_value T Maximum)" "okind p = Maximum"
    "\<forall>d \<in> set fs. length d = n \<and> (\<forall>v \<in> set d. v < 0)" "fs \<noteq> []" "\<not> sc_bitmapPresent c" "wcount w = 0"
    "sc_stepFreq c * sc_timeStep c \<noteq> 0"
  shows "\<exists>p' w'. feed c fs p w = Inr (p', w') \<and> op_compute c p' w' = Inr (replicate n (limits_min T)) \<and> 0 < limits_min T"
proof -
  have pos: "0 < limits_min T" by (simp add: limits_min_def split: PrecisionTag.split)
  have "Max (insert (limits_min T) (set (column i fs))) = limits_min T" if "i < n" for i
  proof (rule Max_eqI)
    fix v assume "v \<in> insert (limits_min T) (set (column i fs))"
    then consider "v = limits_min T" | d where "d \<in> set fs" "v = d ! i" by (auto simp: column_def)
    then show "v \<le> limits_min T"
    proof cases
      case 2
      then have "v < 0" using assms(4) that by force
      then show ?thesis using pos by simp
    qed simp
  qed simp_all
  then have "map (\<lambda>i. accumulated_result Maximum (limits_min T) x0 s (column i fs)) [0..<n] = replicate n (limits_min T)" for x0 s
    by (intro nth_equalityI) (simp_all add: accumulated_result_def accumulated_value_def)
  moreover have "map (\<lambda>i. accumulated_result Maximum (limits_min T) (f i) s (column i fs)) [0..<n] =
      map (\<lambda>i. accumulated_result Maximum (limits_min T) 0 s (column i fs)) [0..<n]" for f s
    by (simp add: accumulated_result_def)
  moreover have "initial_value T Maximum = limits_min T" by (simp add: initial_value_def)
  ultimately show ?thesis
    using compute_values [OF assms(1,2) _ assms(5,6,7,8)] assms(3,4) pos by simp
qed

theorem maximum_of_negatives_witness:
  "\<exists>p' w'. feed (plain_cfg 1) [[- 3], [- 1]] (new_operation Double Maximum ''maximum'' 1)
       (new_window 0 0 0 7200 3600 FORWARD_OFFSET) = Inr (p', w') \<and> op_compute (plain_cfg 1) p' w' = Inr [1 / 2 ^ 1022]"
proof -
  have "\<exists>p' w'. feed (plain_cfg 1) [[- 3], [- 1]] (new_operation Double Maximum ''maximum'' 1)
       (new_window 0 0 0 7200 3600 FORWARD_OFFSET) = Inr (p', w') \<and>
       op_compute (plain_cfg 1) p' w' = Inr (replicate 1 (limits_min Double)) \<and> 0 < limits_min Double"
    by (rule maximum_of_negatives) (simp_all add: op_ok_def new_operation_def deaccumulated_def plain_cfg_def new_window_def)
  then show ?thesis by (auto simp: limits_min_def simp del: power_numeral)
qed

section \<open>Where the action departs from its purpose\<close>

subsection \<open>Counters of valid values\<close>

lemma counting_update:
  assumes "counting c (okind p)" "op_ok n p" "length data = n" "sc_missingValue c \<notin> set data"
    "counts_ok n w"
  shows "\<exists>p'. op_updateData c data p w =
     Inr (p', w\<lparr>wcounts := map (\<lambda>c. c + 1) (if wcounts w = [] then replicate n 0 else wcounts w)\<rparr>)"
proof -
  let ?old = "if wcounts w = [] then replicate n 0 else wcounts w"
  let ?w = "w\<lparr>wcounts := map (\<lambda>c. c + 1) ?old\<rparr>"
  have len: "length ?old = n" using assms(5) by (auto simp: counts_ok_def)
  have "map2 (\<lambda>c v. if v = sc_missingValue c' then c else c + 1) ?old data = map (\<lambda>c. c + 1) ?old"
    if "c' = c" for c'
    using len assms(3,4) that by (intro nth_equalityI) (auto simp: in_set_conv_nth)
  then have counts: "updateCounts w data (sc_missingValue c) = Inr ?w"
    using assms(3,5) by (cases "wcounts w = []") (auto simp: updateCounts_def initCountsLazy_def counts_ok_def)
  have check: "op_checkSize p data = Inr ()" using assms(2,3) by (simp add: op_checkSize_def op_ok_def)
  have "0 < map (\<lambda>c. c + 1) ?old ! i" if "i < n" for i
    using that len assms(5) nth_mem [of i "wcounts w"] by (auto simp: counts_ok_def list_all_iff add_pos_nonneg)
  then obtain r where "average_counted (sc_missingValue c) (map (\<lambda>c. c + 1) ?old) (ovalues p) data = Inr r"
    using average_counted_ok [of "map (\<lambda>c. c + 1) ?old" data "ovalues p" "sc_missingValue c"] len assms(2,3)
    by (auto simp: op_ok_def)
  then show ?thesis using assms(1) counts
    by (auto simp: counting_def op_updateData_eq check average_update_def extremum_update_def simp del: map_replicate)
qed

text \<open>
  The counters of valid values are counted once for every operation: they belong to
  the window, and each average, minimum or maximum of it adds its own update to them. After one
  field without missing values the counters of a window with \<open>k\<close> such operations have grown by
  \<open>k\<close>, so that the threshold is met too early and the average is weighted with the wrong count.
\<close>

theorem counters_grow_per_operation:
  assumes "list_all (op_ok n) ps" "\<forall>p \<in> set ps. counting c (okind p)" "length data = n"
    "sc_missingValue c \<notin> set data" "counts_ok n w" "ps \<noteq> []"
  shows "\<exists>ps' w'. update_ops c data ps w = Inr (ps', w') \<and>
     wcounts w' = map (\<lambda>c. c + int (length ps)) (if wcounts w = [] then replicate n 0 else wcounts w)"
  using assms
proof (induction ps arbitrary: w)
  case Nil
  then show ?case by simp
next
  case (Cons p ps)
  let ?old = "if wcounts w = [] then replicate n 0 else wcounts w"
  let ?w = "w\<lparr>wcounts := map (\<lambda>c. c + 1) ?old\<rparr>"
  obtain p' where p': "op_updateData c data p w = Inr (p', ?w)"
    using counting_update [of c p n data w] Cons.prems by auto
  have ok: "counts_ok n ?w" using Cons.prems(5) by (auto simp: counts_ok_def list_all_iff)
  show ?case
  proof (cases "ps = []")
    case True
    then show ?thesis using p' by simp
  next
    case False
    then obtain ps' w' where rest: "update_ops c data ps ?w = Inr (ps', w')"
      "wcounts w' = map (\<lambda>c. c + int (length ps)) (if wcounts ?w = [] then replicate n 0 else wcounts ?w)"
      using Cons.IH [of ?w] Cons.prems ok by auto
    have "wcounts w' = map (\<lambda>c. c + int (length (p # ps))) ?old"
    proof (cases "wcounts w = [] \<and> n = 0")
      case True
      then show ?thesis using rest(2) by simp
    next
      case False
      then have "wcounts ?w \<noteq> []" by auto
      then show ?thesis using rest(2) by (simp add: add.commute add.left_commute)
    qed
    then show ?thesis using p' rest(1) by simp
  qed
qed

theorem counters_grow_per_operation_witness:
  "\<exists>c ps w ps' w'. update_ops c [6] ps w = Inr (ps', w') \<and> map oname ps = [''minimum'', ''average''] \<and>
     wcount w = 1 \<and> wcounts w = [] \<and> wcounts w' = [2] \<and> ovalues (ps' ! 1) = [3]"
proof -
  let ?c = "(plain_cfg 1)\<lparr>sc_bitmapPresent := True, sc_missingValue := 9999, sc_threshold := Some 2\<rparr>"
  let ?ps = "[new_operation Double Minimum ''minimum'' 1, new_operation Double Average ''average'' 1]"
  let ?w = "(new_window 0 0 0 7200 3600 FORWARD_OFFSET)\<lparr>wcount := 1\<rparr>"
  have "\<exists>ps' w'. update_ops ?c [6] ?ps ?w = Inr (ps', w') \<and>
     wcounts w' = map (\<lambda>c. c + int (length ?ps)) (if wcounts ?w = [] then replicate 1 0 else wcounts ?w)"
    by (rule counters_grow_per_operation)
      (simp_all add: op_ok_def new_operation_def deaccumulated_def counting_def new_window_def counts_ok_def)
  then obtain ps' w' where *: "update_ops ?c [6] ?ps ?w = Inr (ps', w')" "wcounts w' = [2]"
    by (auto simp: new_window_def)
  moreover have "ovalues (ps' ! 1) = [3]"
    using *(1) by (auto simp: new_operation_def new_window_def op_updateData_eq op_checkSize_def extremum_update_def average_update_def
        updateCounts_def initCountsLazy_def icntpp_def average_step_def sc_factor_def initial_value_def)
  ultimately show ?thesis
    by (intro exI [of _ ?c] exI [of _ ?ps] exI [of _ ?w] exI [of _ ps'] exI [of _ w']) (simp add: new_operation_def new_window_def)
qed

subsection \<open>Windows of the other type\<close>

text \<open>
  Property C39. A window of type \<^verbatim>\<open>backward-offset\<close> rejects the field at its own start. When such a
  window is closed, the next one is opened at its end and contains that instant, by
  \<^verbatim>\<open>isWithin\<close>; but \<^verbatim>\<open>updateData\<close> checks the bounds of the other type, and the action already
  refuses a field at the current point of the window: it throws, or, when the solver sends the
  initial condition, drops the field without a word.
\<close>

theorem backward_window_rejects_its_start:
  assumes "fieldStats st key = Some ts" "ts_window ts = win_updateWindow w (endPoint w) fin" "wtype w = BACKWARD_OFFSET"
    "endPoint w < fin" "tag msg = Field" "payload msg = Values data"
    "read_config (env_hash E) (st_opt st) msg = Inr (c, key)" "sc_curr (env_calendar E) c = Inr (endPoint w)"
    "\<not> so_readRestart (st_opt st)"
  shows "isWithin (ts_window ts) (endPoint w) = Inr True \<and>
    win_updateData (ts_window ts) (endPoint w) = Inl SeriousBug \<and>
    (\<exists>st'. executeImpl E st msg = (if so_send_initial (st_opt st) then Inr (st', []) else Inl SeriousBug) \<and>
      fieldStats st' key = Some ts)"
proof -
  have now: "currPoint (ts_window ts) = endPoint w" by (simp add: assms(2) win_updateWindow_def)
  have a: "isWithin (ts_window ts) (endPoint w) = Inr True"
    using assms(3,4) by (simp add: assms(2) isWithin_def win_updateWindow_def and_res_def geLowerBound_def ltUpperBound_def
        FORWARD_OFFSET_def BACKWARD_OFFSET_def)
  have b: "win_updateData (ts_window ts) (endPoint w) = Inl SeriousBug"
    by (simp add: assms(2) win_updateData_def win_updateWindow_def gtLowerBound_def)
  let ?st = "updateLatestDateTime (env_calendar E) (endPoint w) st"
  let ?st' = "?st\<lparr>fieldStats := (fieldStats ?st)(key \<mapsto> ts)\<rparr>"
  have "find_or_make E ?st c key (msg_precision msg) data = Inr ts"
    using assms(1) by (simp add: find_or_make_def updateLatestDateTime_def)
  then have "executeImpl E st msg = (if so_send_initial (st_opt st) then Inr (?st', []) else Inl SeriousBug)"
    using assms(9) by (simp add: executeImpl_def execute_field_def assms(5-8) now Let_def) (simp add: updateLatestDateTime_def)
  then have "\<exists>st'. executeImpl E st msg = (if so_send_initial (st_opt st) then Inr (st', []) else Inl SeriousBug) \<and>
      fieldStats st' key = Some ts"
    by (intro exI [of _ ?st']) simp
  with a b show ?thesis by blast
qed

theorem backward_window_rejects_its_start_witness:
  "\<exists>st ts. fieldStats st plain_key = Some ts \<and> isWithin (ts_window ts) 93600 = Inr True \<and>
     executeImpl plain_env st (plain_field 2 [1]) = Inl SeriousBug"
proof -
  let ?w = "new_window 86400 86400 86400 93600 3600 BACKWARD_OFFSET"
  let ?ts = "\<lparr>ts_updater = HourPeriodUpdater 2, ts_window = win_updateWindow ?w (endPoint ?w) 100800, ts_ops = []\<rparr>"
  let ?st = "(plain_state [] ''2h'')\<lparr>fieldStats := [plain_key \<mapsto> ?ts]\<rparr>"
  have end_w: "endPoint ?w = 93600" by (simp add: new_window_def)
  have now: "sc_curr (env_calendar plain_env) (plain_cfg 2) = Inr (endPoint ?w)"
    by (simp add: sc_curr_def plain_env_def plain_epoch end_w) (simp add: plain_cfg_def)
  have "isWithin (ts_window ?ts) (endPoint ?w) = Inr True \<and>
    win_updateData (ts_window ?ts) (endPoint ?w) = Inl SeriousBug \<and>
    (\<exists>st'. executeImpl plain_env ?st (plain_field 2 [1]) =
      (if so_send_initial (st_opt ?st) then Inr (st', []) else Inl SeriousBug) \<and> fieldStats st' plain_key = Some ?ts)"
    by (rule backward_window_rejects_its_start [where fin = 100800 and data = "[1]" and c = "plain_cfg 2"])
      (use now in \<open>simp_all add: plain_state_def plain_config\<close>, simp_all add: new_window_def plain_field_def default_options_def)
  then have "isWithin (ts_window ?ts) 93600 = Inr True" "executeImpl plain_env ?st (plain_field 2 [1]) = Inl SeriousBug"
    by (auto simp: end_w plain_state_def default_options_def)
  then show ?thesis by (intro exI [of _ ?st] exI [of _ ?ts]) simp
qed

subsection \<open>Mapping of parameters\<close>

text \<open>
  The mapping of parameters leaks from one operation to the next. When the first of two
  operations is mapped to a new parameter, the metadata of the second still has that parameter:
  unless the new parameter is itself mapped, the result of the second operation is sent under the
  parameter of the first one, and the mapping that is configured for it is never looked up.
\<close>

theorem remap_leaks_to_next_operation:
  assumes "md_find md ''paramId'' = Some (MInteger old)" "md_find md ''param'' = None"
    "m (remap_key (int_to_string old) (ooperation p) freq) = Some new" "m (remap_key (int_to_string (atol new)) (ooperation q) freq) = None"
    "emit_operations atol (Some m) freq c w msg md [p, q] = Inr outs"
  shows "map (\<lambda>out. md_find (metadata out) ''paramId'') outs = [Some (MInteger (atol new)), Some (MInteger (atol new))] \<and>
     map (\<lambda>out. md_find (metadata out) ''param'') outs = [Some (MString new), Some (MString new)]"
proof -
  let ?md = "\<lambda>p md. md_set ''operation-frequency'' (MString freq) (md_set ''operation'' (MString (ooperation p)) md)"
  let ?new = "\<lambda>md. md_set ''param'' (MString new) (md_set ''paramId'' (MInteger (atol new)) md)"
  have 1: "ApplyRemap atol (Some m) (ooperation p) freq (?md p md) = Inr (?new (?md p md))"
    using assms(1-3) by (simp add: ApplyRemap_def md_getOpt_def getter_def)
  have 2: "ApplyRemap atol (Some m) (ooperation q) freq (?md q (?new (?md p md))) = Inr (?md q (?new (?md p md)))"
    using assms(4) by (simp add: ApplyRemap_def md_getOpt_def getter_def)
  obtain vs us where "op_compute c p w = Inr vs" "op_compute c q w = Inr us"
    using assms(5) by (auto simp: 1 2 bind_res_Inr_iff)
  then show ?thesis using assms(5) by (auto simp: 1 2)
qed

theorem remap_leaks_to_next_operation_witness:
  "\<exists>m outs. m (remap_key ''167'' ''minimum'' ''1d'') = Some ''202'' \<and>
     emit_operations (\<lambda>s. 201) (Some m) ''1d'' (plain_cfg 1) ((new_window 0 0 0 86400 3600 FORWARD_OFFSET)\<lparr>wcount := 24\<rparr>)
       (plain_field 1 [5]) [(''paramId'', MInteger 167)]
       [new_operation Double Maximum ''maximum'' 1, new_operation Double Minimum ''minimum'' 1] = Inr outs \<and>
     map (\<lambda>out. md_find (metadata out) ''paramId'') outs = [Some (MInteger 201), Some (MInteger 201)]"
proof -
  let ?m = "[remap_key ''167'' ''maximum'' ''1d'' \<mapsto> ''201'', remap_key ''167'' ''minimum'' ''1d'' \<mapsto> ''202'']"
  let ?ops = "[new_operation Double Maximum ''maximum'' 1, new_operation Double Minimum ''minimum'' 1]"
  let ?w = "(new_window 0 0 0 86400 3600 FORWARD_OFFSET)\<lparr>wcount := 24\<rparr>"
  have num: "int_to_string 167 = ''167''" "int_to_string 201 = ''201''" by code_simp+
  have ops: "ooperation (?ops ! 0) = ''maximum''" "ooperation (?ops ! 1) = ''minimum''"
    by (simp_all add: new_operation_def operation_string_def)
  obtain outs where e: "emit_operations (\<lambda>s. 201) (Some ?m) ''1d'' (plain_cfg 1) ?w (plain_field 1 [5])
      [(''paramId'', MInteger 167)] ?ops = Inr outs"
    by (auto simp: new_operation_def operation_string_def ApplyRemap_def md_getOpt_def getter_def md_find_Cons num remap_key_def
        op_compute_eq op_checkTimeInterval_def thresholded_def plain_cfg_def)
  have "map (\<lambda>out. md_find (metadata out) ''paramId'') outs = [Some (MInteger 201), Some (MInteger 201)] \<and>
     map (\<lambda>out. md_find (metadata out) ''param'') outs = [Some (MString ''201''), Some (MString ''201'')]"
    by (rule remap_leaks_to_next_operation [where old = 167 and new = "''201''", OF _ _ _ _ e])
      (simp_all add: md_find_Cons num remap_key_def new_operation_def operation_string_def)
  with e show ?thesis by (intro exI [of _ ?m] exI [of _ outs]) (simp add: num remap_key_def)
qed

subsection \<open>Names of restart files\<close>

text \<open>
  The restart file of an operation can be found again only when the name of the
  operation is one word. The file is called after the operation and the precision, and the grammar
  that reads such a name back has only small letters on both sides of the underscore: it gives the
  name and the precision for the operations of one word, and an exception for those with a hyphen,
  the differences, the fluxes and the de-accumulation, whose restart is therefore lost.
\<close>

theorem restart_file_names:
  assumes "make_operation T name n = Inr p"
  shows "parse_file_name (restartFileName T p) =
     (if CHR ''-'' \<in> set name then Inl SeriousBug
      else Inr (name, case T of Float \<Rightarrow> ''single'' | Double \<Rightarrow> ''double''))"
proof -
  obtain k where k: "kind_of_name name = Inr k" "oname p = name"
    using assms by (auto simp: make_operation_def bind_res_Inr_iff new_operation_def)
  have "name \<in> {''instant'', ''average'', ''difference'', ''inverse-difference'', ''flux-average'', ''minimum'', ''maximum'',
      ''accumulate'', ''de-accumulate'', ''fixed-window-flux-average''}"
    using k(1) unfolding kind_of_name_def by (auto split: if_split_asm)
  then show ?thesis
    unfolding restartFileName_def k(2)
    by (elim insertE emptyE; cases T) (simp_all add: parse_file_name_def is_lower_def Let_def)
qed

theorem restart_file_names_witness:
  "\<exists>p. make_operation Double ''flux-average'' 4 = Inr p \<and> parse_file_name (restartFileName Double p) = Inl SeriousBug"
proof -
  obtain p where p: "make_operation Double ''flux-average'' 4 = Inr p"
    by (auto simp: make_operation_def kind_of_name_def)
  then show ?thesis using restart_file_names [OF p] by simp
qed

end
