(* ===== verification/Matchers.thy ===== *)
theory Matchers
  imports Configurations
begin

text \<open>
  \<^verbatim>\<open>message/MetadataMatcher.{h,cc}\<close>: selections of metadata by the values of their keys, combined with
  \<open>any\<close>, \<open>all\<close>, \<open>not\<close>, \<open>match\<close> and \<open>ignore\<close>; and the select action. The rounding of \<^verbatim>\<open>getFloatVector\<close> is
  the argument \<open>to_float\<close>. A set of values is a list; looking a value up in a set that is not empty
  hashes it, which throws for lists and nested metadata.
\<close>

section \<open>Sets of values\<close>

fun value_index :: "MetadataValue \<Rightarrow> nat" where
  "value_index MNull = 0"
| "value_index (MBool _) = 1"
| "value_index (MInteger _) = 2"
| "value_index (MDouble _) = 3"
| "value_index (MFloat _) = 4"
| "value_index (MString _) = 5"
| "value_index (MBytes _) = 6"
| "value_index (MBoolList _) = 7"
| "value_index (MIntegerList _) = 8"
| "value_index (MDoubleList _) = 9"
| "value_index (MFloatList _) = 10"
| "value_index (MStringList _) = 11"
| "value_index (MNested _) = 12"

definition hashable :: "MetadataValue \<Rightarrow> bool" where
  "hashable v \<longleftrightarrow> value_index v \<le> 5"

definition set_contains :: "MetadataValue list \<Rightarrow> MetadataValue \<Rightarrow> bool res" where
  "set_contains s v =
     (if s = [] then Inr False
      else if \<not> hashable v then Inl MetadataException
      else Inr (\<exists>w \<in> set s. value_eq w v))"

text \<open>\<^verbatim>\<open>std::map::emplace\<close>: the entries in the order of the keys, an entry that is there stays.\<close>

fun map_emplace :: "'k::linorder \<Rightarrow> 'v \<Rightarrow> ('k \<times> 'v) list \<Rightarrow> ('k \<times> 'v) list" where
  "map_emplace k v [] = [(k, v)]"
| "map_emplace k v ((k', v') # m) =
     (if k = k' then (k', v') # m
      else if k < k' then (k, v) # (k', v') # m
      else (k', v') # map_emplace k v m)"

section \<open>Matching keys\<close>

datatype Predicate = PNone | Negate
datatype Reduce = Or | And

record MatchKeys =
  mk_predicate :: Predicate
  mk_enforce :: bool
  mk_matcher :: "(string \<times> MetadataValue list) list"

text \<open>The constructor: the values of every key of the configuration.\<close>

definition match_values :: "(real \<Rightarrow> real) \<Rightarrow> Config \<Rightarrow> MetadataValue list res" where
  "match_values to_float c =
     (case c of
        CList cs \<Rightarrow>
          (case list_as c_int cs of Some is \<Rightarrow> Inr (remdups (map MInteger is))
           | None \<Rightarrow> (case list_as c_double cs of Some ds \<Rightarrow> Inr (remdups (map (\<lambda>d. MFloat (to_float d)) ds))
           | None \<Rightarrow> (case list_as c_string cs of Some ss \<Rightarrow> Inr (remdups (map MString ss))
           | None \<Rightarrow> Inl MetadataException)))
      | _ \<Rightarrow>
          (case tryToMetadataValue c of
             None \<Rightarrow> Inl MetadataException
           | Some v \<Rightarrow> if hashable v then Inr [v] else Inl MetadataException))"

definition new_MatchKeys :: "(real \<Rightarrow> real) \<Rightarrow> Config \<Rightarrow> Predicate \<Rightarrow> bool \<Rightarrow> MatchKeys res" where
  "new_MatchKeys to_float cfg p enforce =
     bind_res (fold_res (\<lambda>(k, c) m. bind_res (match_values to_float c) (\<lambda>vs. Inr (map_emplace k vs m)))
                 (cfg_entries cfg) [])
       (\<lambda>m. Inr \<lparr>mk_predicate = p, mk_enforce = enforce, mk_matcher = m\<rparr>)"

text \<open>The loop of \<^verbatim>\<open>MatchKeys::matches\<close> over the keys, and the predicate applied to its result.\<close>

fun matchLoop :: "bool \<Rightarrow> (string \<times> MetadataValue list) list \<Rightarrow> BaseMetadata \<Rightarrow> bool res" where
  "matchLoop enforce [] md = Inr True"
| "matchLoop enforce ((k, s) # kvs) md =
     (case md_find md k of
        None \<Rightarrow> Inr False
      | Some v \<Rightarrow> bind_res (set_contains s v) (\<lambda>found.
          if found then matchLoop enforce kvs md
          else if enforce \<and> s \<noteq> [] \<and> value_index (hd s) \<noteq> value_index v then Inl MetadataException
          else Inr False))"

definition with_predicate :: "Predicate \<Rightarrow> bool res \<Rightarrow> bool res" where
  "with_predicate p r = (case p of Negate \<Rightarrow> bind_res r (\<lambda>b. Inr (\<not> b)) | PNone \<Rightarrow> r)"

definition keys_matches :: "MatchKeys \<Rightarrow> BaseMetadata \<Rightarrow> bool res" where
  "keys_matches m md = with_predicate (mk_predicate m) (matchLoop (mk_enforce m) (mk_matcher m) md)"

fun negatePredicate :: "Predicate \<Rightarrow> Predicate" where
  "negatePredicate PNone = Negate"
| "negatePredicate Negate = PNone"

section \<open>Combining matchers\<close>

datatype MatchReduce = MatchReduce (matchers: "Elem list") (reduce: Reduce) (mr_predicate: Predicate)
and Elem = ElemKeys MatchKeys | ElemReduce MatchReduce

fun reduce_matches :: "BaseMetadata \<Rightarrow> MatchReduce \<Rightarrow> bool res"
  and matchesVariant :: "BaseMetadata \<Rightarrow> Elem \<Rightarrow> bool res" where
  "reduce_matches md (MatchReduce ms r p) =
     with_predicate p
       (case r of Or \<Rightarrow> any_res (matchesVariant md) ms | And \<Rightarrow> all_res (matchesVariant md) ms)"
| "matchesVariant md (ElemKeys mk) = keys_matches mk md"
| "matchesVariant md (ElemReduce mr) = reduce_matches md mr"

fun extend :: "Elem \<Rightarrow> MatchReduce \<Rightarrow> MatchReduce" where
  "extend e (MatchReduce ms r p) = MatchReduce (ms @ [e]) r p"

definition isEmpty :: "MatchReduce \<Rightarrow> bool" where
  "isEmpty mr \<longleftrightarrow> matchers mr = []"

fun applyPredicate :: "Predicate \<Rightarrow> MatchReduce \<Rightarrow> MatchReduce" where
  "applyPredicate q (MatchReduce ms r p) =
     MatchReduce ms r (if q = Negate then negatePredicate p else p)"

fun c_map :: "Config \<Rightarrow> (string \<times> Config) list option" where
  "c_map (CMap kvs) = Some kvs"
| "c_map _ = None"

definition isSubConfigurationList :: "Config \<Rightarrow> string \<Rightarrow> bool" where
  "isSubConfigurationList cfg k =
     (case cfg_find cfg k of Some (CList cs) \<Rightarrow> \<forall>c \<in> set cs. c_map c \<noteq> None | _ \<Rightarrow> False)"

definition isSubConfiguration :: "Config \<Rightarrow> string \<Rightarrow> bool" where
  "isSubConfiguration cfg k = (case cfg_find cfg k of Some c \<Rightarrow> c_map c \<noteq> None | None \<Rightarrow> False)"

definition constructMatchIgnore ::
    "(real \<Rightarrow> real) \<Rightarrow> Config \<Rightarrow> string \<Rightarrow> Predicate \<Rightarrow> bool \<Rightarrow> Elem res" where
  "constructMatchIgnore to_float cfg key p enforce =
     (if isSubConfiguration cfg key
      then bind_res (new_MatchKeys to_float (cfg_getSubConfiguration cfg key) p enforce) (\<lambda>mk. Inr (ElemKeys mk))
      else if isSubConfigurationList cfg key
      then let v = cfg_getSubConfigurations cfg key
           in if length v = 1
              then bind_res (new_MatchKeys to_float (v ! 0) p enforce) (\<lambda>mk. Inr (ElemKeys mk))
              else bind_res (map_res (\<lambda>vi. new_MatchKeys to_float vi PNone enforce) v) (\<lambda>mks.
                     Inr (ElemReduce (fold (\<lambda>mk. extend (ElemKeys mk)) mks (MatchReduce [] Or p))))
      else Inl MetadataException)"

text \<open>The number of the four kinds of blocks that a configuration has, \<open>checkKeySum\<close>.\<close>

definition checkKeySum :: "Config \<Rightarrow> nat" where
  "checkKeySum cfg =
     of_bool (cfg_has cfg ''any'') + of_bool (cfg_has cfg ''all'') + of_bool (cfg_has cfg ''not'')
     + of_bool (cfg_has cfg ''match'' \<or> cfg_has cfg ''ignore'')"

definition enforceSameKeyTypes :: "Config \<Rightarrow> bool \<Rightarrow> bool res" where
  "enforceSameKeyTypes cfg parent =
     (if cfg_has cfg ''enforce-same-key-types'' then cfg_getBool cfg ''enforce-same-key-types'' else Inr parent)"

lemma size_cfg_find: "cfg_find c k = Some c' \<Longrightarrow> size c' < size c"
proof (cases c)
  case (CMap kvs)
  assume "cfg_find c k = Some c'"
  then have "(k, c') \<in> set kvs" using CMap by (simp add: map_of_SomeD)
  then have "size c' < size_list (size_prod (\<lambda>_. 0) size) kvs"
    by (induction kvs) auto
  then show ?thesis using CMap by simp
qed simp_all

lemma size_cfg_find_pos:
  assumes "cfg_find c k = Some c'"
  shows "1 < size c"
proof (cases c)
  case (CMap kvs)
  then show ?thesis using assms by (cases kvs) auto
qed (use assms in auto)

lemma size_getSubConfiguration: "cfg_has c k \<Longrightarrow> size (cfg_getSubConfiguration c k) < size c"
proof -
  assume "cfg_has c k"
  then obtain c' where c': "cfg_find c k = Some c'" by (auto simp: cfg_has_def)
  have "size (cfg_getSubConfiguration c k) \<le> max 1 (size c')" using c'
    by (cases c') (simp_all add: cfg_getSubConfiguration_def)
  then show ?thesis using size_cfg_find [OF c'] size_cfg_find_pos [OF c'] by simp
qed

lemma size_getSubConfigurations: "c' \<in> set (cfg_getSubConfigurations c k) \<Longrightarrow> size c' < size c"
proof -
  assume mem: "c' \<in> set (cfg_getSubConfigurations c k)"
  then obtain cs where cs: "cfg_find c k = Some (CList cs)" "c' \<in> set cs"
    by (cases "cfg_find c k") (auto simp: cfg_getSubConfigurations_def split: Config.splits)
  then have "size c' \<le> size_list size cs" by (simp add: size_list_estimation')
  then show ?thesis using size_cfg_find [OF cs(1)] by simp
qed

function construct :: "(real \<Rightarrow> real) \<Rightarrow> Config \<Rightarrow> Predicate \<Rightarrow> bool \<Rightarrow> MatchReduce res" where
  "construct to_float cfg p parent =
     bind_res (enforceSameKeyTypes cfg parent) (\<lambda>enforce.
     if checkKeySum cfg \<noteq> 1 then Inl MetadataException
     else if cfg_has cfg ''not''
     then construct to_float (cfg_getSubConfiguration cfg ''not'') (negatePredicate p) enforce
     else if cfg_has cfg ''match'' \<and> cfg_has cfg ''ignore''
     then bind_res (constructMatchIgnore to_float cfg ''match'' PNone enforce) (\<lambda>e1.
          bind_res (constructMatchIgnore to_float cfg ''ignore'' Negate enforce) (\<lambda>e2.
          Inr (extend e2 (extend e1 (MatchReduce [] And p)))))
     else if cfg_has cfg ''match'' \<or> cfg_has cfg ''ignore''
     then bind_res
            (if cfg_has cfg ''match'' then constructMatchIgnore to_float cfg ''match'' p enforce
             else constructMatchIgnore to_float cfg ''ignore'' (negatePredicate p) enforce)
            (\<lambda>e. Inr (case e of ElemKeys mk \<Rightarrow> MatchReduce [ElemKeys mk] Or PNone | ElemReduce mr \<Rightarrow> mr))
     else let key = (if cfg_has cfg ''all'' then ''all'' else ''any'');
              r = (if cfg_has cfg ''all'' then And else Or)
          in if \<not> isSubConfigurationList cfg key then Inl MetadataException
             else bind_res
                    (map_res (\<lambda>vi. construct to_float vi PNone enforce) (cfg_getSubConfigurations cfg key))
                    (\<lambda>mrs. Inr (fold (\<lambda>mr. extend (ElemReduce mr)) mrs (MatchReduce [] r p))))"
  by pat_completeness auto
termination
  by (relation "measure (\<lambda>(_, cfg, _, _). size cfg)")
    (simp_all add: size_getSubConfiguration size_getSubConfigurations)

declare construct.simps [simp del]

section \<open>The select action\<close>

text \<open>
  Flushes and notifications pass; every other message passes if it matches. The result is the
  list of messages handed to the next action. \<open>matchedFields\<close> adds the selection to the
  matchers that a plan reports.
\<close>

definition new_Select :: "(real \<Rightarrow> real) \<Rightarrow> Config \<Rightarrow> MatchReduce res" where
  "new_Select to_float cfg = construct to_float cfg PNone True"

definition select_executeImpl :: "MatchReduce \<Rightarrow> 'v message \<Rightarrow> 'v message list res" where
  "select_executeImpl selectors msg =
     (if tag msg = Flush \<or> tag msg = Notification then Inr [msg]
      else bind_res (reduce_matches (metadata msg) selectors) (\<lambda>b. Inr (if b then [msg] else [])))"

definition matchedFields :: "MatchReduce \<Rightarrow> MatchReduce \<Rightarrow> MatchReduce" where
  "matchedFields own selectors = extend (ElemReduce own) selectors"

section \<open>What a selection means\<close>

text \<open>
  The meaning of a configuration, without matchers and predicates: a block of keys selects the metadata that has
  for every key one of its values; \<open>match\<close> takes a block or any of a list of blocks, \<open>ignore\<close> none
  of them; \<open>not\<close>, \<open>all\<close> and \<open>any\<close> are the Boolean connectives.
\<close>

definition keys_select :: "(real \<Rightarrow> real) \<Rightarrow> Config \<Rightarrow> BaseMetadata \<Rightarrow> bool" where
  "keys_select to_float cfg md \<longleftrightarrow>
     (\<forall>k \<in> fst ` set (cfg_entries cfg). case md_find md k of
        None \<Rightarrow> False
      | Some v \<Rightarrow> (case match_values to_float (the (cfg_find cfg k)) of
          Inl _ \<Rightarrow> False
        | Inr vs \<Rightarrow> v \<in> set vs))"

definition blocks :: "Config \<Rightarrow> string \<Rightarrow> Config list" where
  "blocks cfg key =
     (if isSubConfiguration cfg key then [cfg_getSubConfiguration cfg key]
      else cfg_getSubConfigurations cfg key)"

function selects :: "(real \<Rightarrow> real) \<Rightarrow> Config \<Rightarrow> BaseMetadata \<Rightarrow> bool" where
  "selects to_float cfg md =
     (if cfg_has cfg ''not'' then \<not> selects to_float (cfg_getSubConfiguration cfg ''not'') md
      else if cfg_has cfg ''match'' \<or> cfg_has cfg ''ignore''
      then (cfg_has cfg ''match'' \<longrightarrow> (\<exists>c \<in> set (blocks cfg ''match''). keys_select to_float c md)) \<and>
           (cfg_has cfg ''ignore'' \<longrightarrow> \<not> (\<exists>c \<in> set (blocks cfg ''ignore''). keys_select to_float c md))
      else if cfg_has cfg ''all''
      then \<forall>c \<in> set (cfg_getSubConfigurations cfg ''all''). selects to_float c md
      else \<exists>c \<in> set (cfg_getSubConfigurations cfg ''any''). selects to_float c md)"
  by pat_completeness auto
termination
  by (relation "measure (\<lambda>(_, cfg, _). size cfg)")
    (simp_all add: size_getSubConfiguration size_getSubConfigurations)

declare selects.simps [simp del]

text \<open>
  The metadata has the right types for a matcher: the values at the matcher's keys can be hashed
  and, where the types are enforced, are of the type of the values asked for.
\<close>

definition keys_typed :: "BaseMetadata \<Rightarrow> MatchKeys \<Rightarrow> bool" where
  "keys_typed md mk \<longleftrightarrow>
     (\<forall>(k, s) \<in> set (mk_matcher mk). case md_find md k of
        None \<Rightarrow> True
      | Some v \<Rightarrow> hashable v \<and> (mk_enforce mk \<longrightarrow> (\<forall>w \<in> set s. value_index w = value_index v)))"

fun elem_typed :: "BaseMetadata \<Rightarrow> Elem \<Rightarrow> bool"
  and reduce_typed :: "BaseMetadata \<Rightarrow> MatchReduce \<Rightarrow> bool" where
  "elem_typed md (ElemKeys mk) = keys_typed md mk"
| "elem_typed md (ElemReduce mr) = reduce_typed md mr"
| "reduce_typed md (MatchReduce ms r p) = (\<forall>e \<in> set ms. elem_typed md e)"

text \<open>A search ends with the truth, or with a \<^verbatim>\<open>MetadataException\<close> that wrong types have caused.\<close>

definition answers :: "bool res \<Rightarrow> bool \<Rightarrow> bool \<Rightarrow> bool" where
  "answers r b typed \<longleftrightarrow> (case r of Inr b' \<Rightarrow> b' = b | Inl e \<Rightarrow> e = MetadataException \<and> \<not> typed)"

lemma answers_Inr [simp]: "answers (Inr b') b typed \<longleftrightarrow> b' = b"
  by (simp add: answers_def)

lemma answers_typed: "answers r b True \<longleftrightarrow> r = Inr b"
  by (cases r) (auto simp: answers_def)

lemma answers_mono: "answers r b typed \<Longrightarrow> (typed' \<Longrightarrow> typed) \<Longrightarrow> answers r b typed'"
  by (auto simp: answers_def split: sum.splits)

lemma answers_with_predicate:
  "answers r b typed \<Longrightarrow> answers (with_predicate p r) (b \<noteq> (p = Negate)) typed"
  by (cases r; cases p) (auto simp: answers_def with_predicate_def)

lemma answers_any_res:
  "(\<And>x. x \<in> set xs \<Longrightarrow> answers (f x) (P x) (T x)) \<Longrightarrow>
   answers (any_res f xs) (\<exists>x \<in> set xs. P x) (\<forall>x \<in> set xs. T x)"
proof (induction xs)
  case Nil
  then show ?case by simp
next
  case (Cons x xs)
  have hd: "answers (f x) (P x) (T x)" by (rule Cons.prems) simp
  have "answers (any_res f xs) (\<exists>x \<in> set xs. P x) (\<forall>x \<in> set xs. T x)"
    by (rule Cons.IH, rule Cons.prems) simp
  then show ?case using hd by (cases "f x") (auto simp: answers_def split: sum.splits)
qed

lemma answers_all_res:
  "(\<And>x. x \<in> set xs \<Longrightarrow> answers (f x) (P x) (T x)) \<Longrightarrow>
   answers (all_res f xs) (\<forall>x \<in> set xs. P x) (\<forall>x \<in> set xs. T x)"
proof (induction xs)
  case Nil
  then show ?case by simp
next
  case (Cons x xs)
  have hd: "answers (f x) (P x) (T x)" by (rule Cons.prems) simp
  have "answers (all_res f xs) (\<forall>x \<in> set xs. P x) (\<forall>x \<in> set xs. T x)"
    by (rule Cons.IH, rule Cons.prems) simp
  then show ?case using hd by (cases "f x") (auto simp: answers_def split: sum.splits)
qed

section \<open>Matchers mean what their configuration means\<close>

lemma fst_map_emplace: "fst ` set (map_emplace k v m) = insert k (fst ` set m)"
  by (induction k v m rule: map_emplace.induct) auto

lemma sorted_map_emplace:
  "sorted_wrt (<) (map fst m) \<Longrightarrow> sorted_wrt (<) (map fst (map_emplace k v m))"
  by (induction k v m rule: map_emplace.induct) (auto simp: fst_map_emplace)

lemma map_of_map_emplace:
  "sorted_wrt (<) (map fst m) \<Longrightarrow>
   map_of (map_emplace k v m) x = (if x = k \<and> map_of m k = None then Some v else map_of m x)"
proof (induction k v m rule: map_emplace.induct)
  case (1 k v)
  then show ?case by simp
next
  case (2 k v k' v' m)
  have "map_of m k = None" if "k < k'"
    using that 2(2) by (auto simp: map_of_eq_None_iff)
  then show ?case using 2 by auto
qed

text \<open>The matcher that the constructor builds from a block of keys.\<close>

lemma new_MatchKeys_loop:
  assumes "fold_res (\<lambda>(k, c) m. bind_res (match_values to_float c) (\<lambda>vs. Inr (map_emplace k vs m))) kvs m = Inr m'"
    and "sorted_wrt (<) (map fst m)"
  shows "sorted_wrt (<) (map fst m') \<and>
     (\<forall>k. map_of m' k = (case map_of m k of Some vs \<Rightarrow> Some vs
        | None \<Rightarrow> (case map_of kvs k of None \<Rightarrow> None
                   | Some c \<Rightarrow> (case match_values to_float c of Inr vs \<Rightarrow> Some vs | Inl _ \<Rightarrow> None))))
     \<and> (\<forall>k c. (k, c) \<in> set kvs \<longrightarrow> (\<exists>vs. match_values to_float c = Inr vs))"
  using assms
proof (induction kvs arbitrary: m)
  case Nil
  then show ?case by (auto split: option.splits)
next
  case (Cons kc kvs)
  obtain k c where kc: "kc = (k, c)" by force
  obtain vs where vs: "match_values to_float c = Inr vs"
      and rest: "fold_res (\<lambda>(k, c) m. bind_res (match_values to_float c) (\<lambda>vs. Inr (map_emplace k vs m)))
                  kvs (map_emplace k vs m) = Inr m'"
    using Cons.prems(1) by (auto simp: kc bind_res_Inr_iff)
  show ?case
    using Cons.IH [OF rest sorted_map_emplace [OF Cons.prems(2)]] vs
    by (auto simp: kc map_of_map_emplace [OF Cons.prems(2)] split: option.splits)
qed

lemma new_MatchKeysD:
  assumes "new_MatchKeys to_float cfg p enforce = Inr mk"
  shows "mk_predicate mk = p" "mk_enforce mk = enforce" "distinct (map fst (mk_matcher mk))"
    "map_of (mk_matcher mk) k =
       (case map_of (cfg_entries cfg) k of None \<Rightarrow> None
        | Some c \<Rightarrow> (case match_values to_float c of Inr vs \<Rightarrow> Some vs | Inl _ \<Rightarrow> None))"
    "(k, c) \<in> set (cfg_entries cfg) \<Longrightarrow> \<exists>vs. match_values to_float c = Inr vs"
proof -
  obtain m where m: "fold_res (\<lambda>(k, c) m. bind_res (match_values to_float c) (\<lambda>vs. Inr (map_emplace k vs m)))
                       (cfg_entries cfg) [] = Inr m"
      and mk: "mk = \<lparr>mk_predicate = p, mk_enforce = enforce, mk_matcher = m\<rparr>"
    using assms by (auto simp: new_MatchKeys_def bind_res_Inr_iff)
  note loop = new_MatchKeys_loop [OF m, simplified]
  show "mk_predicate mk = p" "mk_enforce mk = enforce" by (simp_all add: mk)
  show "distinct (map fst (mk_matcher mk))" using loop by (simp add: mk strict_sorted_iff)
  show "map_of (mk_matcher mk) k =
       (case map_of (cfg_entries cfg) k of None \<Rightarrow> None
        | Some c \<Rightarrow> (case match_values to_float c of Inr vs \<Rightarrow> Some vs | Inl _ \<Rightarrow> None))"
    using loop by (simp add: mk)
  show "(k, c) \<in> set (cfg_entries cfg) \<Longrightarrow> \<exists>vs. match_values to_float c = Inr vs"
    using loop by blast
qed

lemma match_values_hashable:
  "match_values to_float c = Inr vs \<Longrightarrow> w \<in> set vs \<Longrightarrow> hashable w"
  by (auto simp: match_values_def hashable_def split: Config.splits option.splits if_splits)

lemma value_eq_hashable: "hashable w \<Longrightarrow> value_eq w v \<longleftrightarrow> w = v"
  by (cases w) (simp_all add: hashable_def value_eq_flat)

lemma matchLoop_answers:
  "answers (matchLoop enforce m md)
     (\<forall>(k, s) \<in> set m. case md_find md k of None \<Rightarrow> False | Some v \<Rightarrow> \<exists>w \<in> set s. value_eq w v)
     (\<forall>(k, s) \<in> set m. case md_find md k of None \<Rightarrow> True
        | Some v \<Rightarrow> hashable v \<and> (enforce \<longrightarrow> (\<forall>w \<in> set s. value_index w = value_index v)))"
proof (induction enforce m md rule: matchLoop.induct)
  case (1 enforce md)
  then show ?case by simp
next
  case (2 enforce k s kvs md)
  show ?case
  proof (cases "md_find md k")
    case None
    then show ?thesis by simp
  next
    case (Some v)
    show ?thesis
    proof (cases "\<exists>w \<in> set s. value_eq w v")
      case True
      then have "s \<noteq> []" by auto
      show ?thesis
      proof (cases "hashable v")
        case True
        note IH = 2 [OF Some, of True]
        have "matchLoop enforce ((k, s) # kvs) md = matchLoop enforce kvs md"
          using Some True \<open>s \<noteq> []\<close> \<open>\<exists>w \<in> set s. value_eq w v\<close> by (simp add: set_contains_def)
        then show ?thesis using IH Some \<open>\<exists>w \<in> set s. value_eq w v\<close>
          by (auto simp: answers_def split: sum.splits)
      next
        case False
        then show ?thesis using Some \<open>s \<noteq> []\<close> by (simp add: set_contains_def answers_def)
      qed
    next
      case False
      have hd: "hd s \<in> set s" if "s \<noteq> []" using that by simp
      show ?thesis using Some False hd by (auto simp: set_contains_def answers_def)
    qed
  qed
qed

lemma keys_answers:
  assumes "new_MatchKeys to_float cfg p enforce = Inr mk"
  shows "answers (keys_matches mk md) (keys_select to_float cfg md \<noteq> (p = Negate)) (keys_typed md mk)"
proof -
  note mk = new_MatchKeysD [OF assms]
  have elem: "(k, s) \<in> set (mk_matcher mk) \<longleftrightarrow>
      (\<exists>c. map_of (cfg_entries cfg) k = Some c \<and> match_values to_float c = Inr s)" for k s
    using map_of_eq_Some_iff [OF mk(3), of k s] mk(4) [of k]
    by (auto split: option.splits sum.splits)
  have find: "cfg_find cfg k = map_of (cfg_entries cfg) k" for k by (cases cfg) auto
  have "(\<forall>(k, s) \<in> set (mk_matcher mk).
           case md_find md k of None \<Rightarrow> False | Some v \<Rightarrow> \<exists>w \<in> set s. value_eq w v) \<longleftrightarrow>
        (\<forall>k \<in> fst ` set (cfg_entries cfg). case md_find md k of None \<Rightarrow> False
           | Some v \<Rightarrow> \<exists>s. match_values to_float (the (cfg_find cfg k)) = Inr s \<and> v \<in> set s)"
    (is "?L \<longleftrightarrow> ?R")
  proof
    assume L: ?L
    show ?R
    proof
      fix k
      assume "k \<in> fst ` set (cfg_entries cfg)"
      then obtain c where c: "map_of (cfg_entries cfg) k = Some c"
        by (metis map_of_eq_None_iff option.exhaust)
      then obtain s where s: "match_values to_float c = Inr s" using mk(5) map_of_SomeD by metis
      then have "(k, s) \<in> set (mk_matcher mk)" using elem c by blast
      then show "case md_find md k of None \<Rightarrow> False
           | Some v \<Rightarrow> \<exists>s. match_values to_float (the (cfg_find cfg k)) = Inr s \<and> v \<in> set s"
        using L c s value_eq_hashable [OF match_values_hashable [OF s]]
        by (auto simp: find split: option.splits)
    qed
  next
    assume R: ?R
    show ?L
    proof (clarify)
      fix k s
      assume "(k, s) \<in> set (mk_matcher mk)"
      then obtain c where c: "map_of (cfg_entries cfg) k = Some c" and s: "match_values to_float c = Inr s"
        using elem by blast
      have "k \<in> fst ` set (cfg_entries cfg)" using c by (force dest: map_of_SomeD)
      then show "case md_find md k of None \<Rightarrow> False | Some v \<Rightarrow> \<exists>w \<in> set s. value_eq w v"
        using R c s value_eq_hashable [OF match_values_hashable [OF s]]
        by (auto simp: find split: option.splits)
    qed
  qed
  also have "?R \<longleftrightarrow> keys_select to_float cfg md"
    unfolding keys_select_def by (intro ball_cong refl) (auto split: option.splits sum.splits)
  finally show ?thesis
    using answers_with_predicate [OF matchLoop_answers, of "mk_predicate mk" "mk_enforce mk" "mk_matcher mk" md]
    by (simp add: keys_matches_def keys_typed_def mk(1) mk(2))
qed

lemma fold_extend: "fold (\<lambda>x. extend (f x)) xs (MatchReduce ms r p) = MatchReduce (ms @ map f xs) r p"
  by (induction xs arbitrary: ms) simp_all

lemma map_res_all:
  assumes "map_res f xs = Inr ys" and "\<And>x y. x \<in> set xs \<Longrightarrow> f x = Inr y \<Longrightarrow> answers (g y) (P x) (T y)"
  shows "answers (any_res g ys) (\<exists>x \<in> set xs. P x) (\<forall>y \<in> set ys. T y)"
    "answers (all_res g ys) (\<forall>x \<in> set xs. P x) (\<forall>y \<in> set ys. T y)"
  using assms
proof (induction xs arbitrary: ys)
  case Nil
  {
    case 1
    then show ?case by simp
  next
    case 2
    then show ?case by simp
  }
next
  case (Cons x xs)
  {
    case 1
    then obtain z zs where z: "f x = Inr z" "map_res f xs = Inr zs" "ys = z # zs"
      by (auto simp: bind_res_Inr_iff)
    have "answers (g z) (P x) (T z)" by (rule 1(2) [OF _ z(1)]) simp
    moreover have "answers (any_res g zs) (\<exists>x \<in> set xs. P x) (\<forall>y \<in> set zs. T y)"
      by (rule Cons.IH(1) [OF z(2)], rule 1(2)) simp_all
    ultimately show ?case by (cases "g z") (auto simp: z(3) answers_def split: sum.splits)
  next
    case 2
    then obtain z zs where z: "f x = Inr z" "map_res f xs = Inr zs" "ys = z # zs"
      by (auto simp: bind_res_Inr_iff)
    have "answers (g z) (P x) (T z)" by (rule 2(2) [OF _ z(1)]) simp
    moreover have "answers (all_res g zs) (\<forall>x \<in> set xs. P x) (\<forall>y \<in> set zs. T y)"
      by (rule Cons.IH(2) [OF z(2)], rule 2(2)) simp_all
    ultimately show ?case by (cases "g z") (auto simp: z(3) answers_def split: sum.splits)
  }
qed

lemma any_res_map: "any_res f (map g xs) = any_res (\<lambda>x. f (g x)) xs"
  by (induction xs) (simp_all cong: if_cong)

lemma all_res_map: "all_res f (map g xs) = all_res (\<lambda>x. f (g x)) xs"
  by (induction xs) (simp_all cong: if_cong)

lemma isSubConfiguration_list: "isSubConfiguration cfg key \<Longrightarrow> \<not> isSubConfigurationList cfg key"
  by (auto simp: isSubConfiguration_def isSubConfigurationList_def split: option.splits Config.splits)

lemma constructMatchIgnore_answers:
  assumes "constructMatchIgnore to_float cfg key p enforce = Inr e"
  shows "answers (matchesVariant md e)
    ((\<exists>c \<in> set (blocks cfg key). keys_select to_float c md) \<noteq> (p = Negate)) (elem_typed md e)"
proof (cases "isSubConfiguration cfg key")
  case True
  then obtain mk where mk: "new_MatchKeys to_float (cfg_getSubConfiguration cfg key) p enforce = Inr mk"
      and e: "e = ElemKeys mk"
    using assms by (auto simp: constructMatchIgnore_def bind_res_Inr_iff)
  show ?thesis using keys_answers [OF mk, of md] True by (simp add: e blocks_def)
next
  case False
  let ?v = "cfg_getSubConfigurations cfg key"
  have list: "isSubConfigurationList cfg key"
    using assms False by (auto simp: constructMatchIgnore_def split: if_splits)
  show ?thesis
  proof (cases "length ?v = 1")
    case True
    then obtain c where c: "?v = [c]" by (auto simp: length_Suc_conv)
    then obtain mk where mk: "new_MatchKeys to_float c p enforce = Inr mk" and e: "e = ElemKeys mk"
      using assms False list by (auto simp: constructMatchIgnore_def bind_res_Inr_iff)
    show ?thesis using keys_answers [OF mk, of md] False by (simp add: e c blocks_def)
  next
    case len: False
    then obtain mks where mks: "map_res (\<lambda>vi. new_MatchKeys to_float vi PNone enforce) ?v = Inr mks"
        and e: "e = ElemReduce (MatchReduce (map ElemKeys mks) Or p)"
      using assms False list by (auto simp: constructMatchIgnore_def bind_res_Inr_iff Let_def fold_extend)
    have "answers (any_res (\<lambda>mk. keys_matches mk md) mks)
        (\<exists>c \<in> set ?v. keys_select to_float c md) (\<forall>mk \<in> set mks. keys_typed md mk)"
      by (rule map_res_all(1) [OF mks]) (use keys_answers in fastforce)
    from answers_with_predicate [OF this, of p] show ?thesis
      using False by (simp add: e blocks_def any_res_map)
  qed
qed

lemma construct_answers:
  "construct to_float cfg p enforce = Inr m \<Longrightarrow>
   answers (reduce_matches md m) (selects to_float cfg md \<noteq> (p = Negate)) (reduce_typed md m)"
proof (induction to_float cfg p enforce arbitrary: m rule: construct.induct)
  case (1 to_float cfg p parent)
  obtain enf where enf: "enforceSameKeyTypes cfg parent = Inr enf"
    using 1(3) by (subst (asm) construct.simps) (auto simp: bind_res_Inr_iff)
  have one: "checkKeySum cfg = 1"
    using 1(3) by (subst (asm) construct.simps) (auto simp: bind_res_Inr_iff split: if_splits)
  consider (no) "cfg_has cfg ''not''"
    | (both) "\<not> cfg_has cfg ''not''" "cfg_has cfg ''match''" "cfg_has cfg ''ignore''"
    | (match) "\<not> cfg_has cfg ''not''" "cfg_has cfg ''match''" "\<not> cfg_has cfg ''ignore''"
    | (ignore) "\<not> cfg_has cfg ''not''" "\<not> cfg_has cfg ''match''" "cfg_has cfg ''ignore''"
    | (list) "\<not> cfg_has cfg ''not''" "\<not> cfg_has cfg ''match''" "\<not> cfg_has cfg ''ignore''"
    by blast
  then show ?case
  proof cases
    case no
    have m: "construct to_float (cfg_getSubConfiguration cfg ''not'') (negatePredicate p) enf = Inr m"
      using 1(3) no one enf by (subst (asm) construct.simps) simp
    have "(\<not> selects to_float cfg md) = selects to_float (cfg_getSubConfiguration cfg ''not'') md"
      using no by (subst selects.simps) simp
    then show ?thesis using 1(1) [OF _ no m] one by (cases p) auto
  next
    case both
    obtain e1 e2 where
        e1: "constructMatchIgnore to_float cfg ''match'' PNone enf = Inr e1" and
        e2: "constructMatchIgnore to_float cfg ''ignore'' Negate enf = Inr e2" and
        m: "m = MatchReduce [e1, e2] And p"
      using 1(3) both one enf by (subst (asm) construct.simps) (auto simp: bind_res_Inr_iff)
    note a1 = constructMatchIgnore_answers [OF e1, of md] and a2 = constructMatchIgnore_answers [OF e2, of md]
    have "answers (all_res (matchesVariant md) [e1, e2]) (selects to_float cfg md)
        (elem_typed md e1 \<and> elem_typed md e2)"
      using a1 a2 both by (subst selects.simps) (auto simp: answers_def bind_res_def split: sum.splits)
    from answers_with_predicate [OF this, of p] show ?thesis by (simp add: m)
  next
    case match
    obtain e where e: "constructMatchIgnore to_float cfg ''match'' p enf = Inr e" and
        m: "m = (case e of ElemKeys mk \<Rightarrow> MatchReduce [ElemKeys mk] Or PNone | ElemReduce mr \<Rightarrow> mr)"
      using 1(3) match one enf by (subst (asm) construct.simps) (auto simp: bind_res_Inr_iff)
    have sel: "selects to_float cfg md \<longleftrightarrow> (\<exists>c \<in> set (blocks cfg ''match''). keys_select to_float c md)"
      using match by (subst selects.simps) simp
    show ?thesis using constructMatchIgnore_answers [OF e, of md]
      by (cases e) (auto simp: m sel with_predicate_def answers_def bind_res_def split: sum.splits)
  next
    case ignore
    obtain e where e: "constructMatchIgnore to_float cfg ''ignore'' (negatePredicate p) enf = Inr e" and
        m: "m = (case e of ElemKeys mk \<Rightarrow> MatchReduce [ElemKeys mk] Or PNone | ElemReduce mr \<Rightarrow> mr)"
      using 1(3) ignore one enf by (subst (asm) construct.simps) (auto simp: bind_res_Inr_iff)
    have sel: "selects to_float cfg md \<longleftrightarrow> \<not> (\<exists>c \<in> set (blocks cfg ''ignore''). keys_select to_float c md)"
      using ignore by (subst selects.simps) simp
    show ?thesis using constructMatchIgnore_answers [OF e, of md]
      by (cases e; cases p)
        (auto simp: m sel with_predicate_def answers_def bind_res_def split: sum.splits)
  next
    case list
    obtain key where key_def: "key = (if cfg_has cfg ''all'' then ''all'' else ''any'')" by simp
    obtain mrs where sub: "isSubConfigurationList cfg key" and
        mrs: "map_res (\<lambda>vi. construct to_float vi PNone enf) (cfg_getSubConfigurations cfg key) = Inr mrs" and
        m: "m = MatchReduce (map ElemReduce mrs) (if cfg_has cfg ''all'' then And else Or) p"
      using 1(3) list one enf
      by (subst (asm) construct.simps)
        (auto simp: bind_res_Inr_iff Let_def fold_extend key_def split: if_splits)
    have IH: "answers (reduce_matches md mr) (selects to_float c md) (reduce_typed md mr)"
      if "c \<in> set (cfg_getSubConfigurations cfg key)" and "construct to_float c PNone enf = Inr mr" for c mr
      using 1(2) [OF _ _ _ _ _ _ _ that] one list sub by (simp add: key_def)
    have sel: "selects to_float cfg md \<longleftrightarrow>
        (if cfg_has cfg ''all'' then \<forall>c \<in> set (cfg_getSubConfigurations cfg key). selects to_float c md
         else \<exists>c \<in> set (cfg_getSubConfigurations cfg key). selects to_float c md)"
      using list by (subst selects.simps) (simp add: key_def)
    show ?thesis
      using answers_with_predicate [OF map_res_all(1) [OF mrs IH], where p = p]
        answers_with_predicate [OF map_res_all(2) [OF mrs IH], where p = p]
      by (simp add: m sel any_res_map all_res_map split: if_splits)
  qed
qed

section \<open>Properties\<close>

text \<open>
  Property C11. A matcher means what its configuration means: however the code pushes the negations of \<open>not\<close> and
  \<open>ignore\<close> into the predicates of the matchers it builds, matching metadata gives the truth value of the
  configuration read as a formula, negated if the matcher was built with \<open>Negate\<close>; an
  exception is a \<^verbatim>\<open>MetadataException\<close>, and only metadata with values of wrong types can cause it.
\<close>

theorem construct_selects:
  assumes "construct to_float cfg p enforce = Inr m"
  shows "(case reduce_matches md m of
            Inr b \<Rightarrow> b = (selects to_float cfg md \<noteq> (p = Negate))
          | Inl e \<Rightarrow> e = MetadataException \<and> \<not> reduce_typed md m)"
  using construct_answers [OF assms, of md] unfolding answers_def .

abbreviation example_selection :: Config where
  "example_selection \<equiv> CMap [(''any'', CList [
     CMap [(''match'', CMap [(''name'', CList [CString ''a'', CString ''b'']), (''level'', CInt 1)])],
     CMap [(''not'', CMap [(''ignore'', CList [CMap [(''name'', CString ''c'')], CMap [(''name'', CString ''d'')]])])]])]"

lemma construct_selects_witness:
  "\<exists>m. construct (\<lambda>x. x) example_selection PNone True = Inr m \<and>
     (case reduce_matches [(''name'', MString ''d''), (''level'', MInteger 7)] m of
        Inr b \<Rightarrow> b = (selects (\<lambda>x. x) example_selection [(''name'', MString ''d''), (''level'', MInteger 7)]
                        \<noteq> (PNone = Negate))
      | Inl e \<Rightarrow> e = MetadataException \<and> \<not> reduce_typed [(''name'', MString ''d''), (''level'', MInteger 7)] m)"
proof -
  have "\<exists>m. construct (\<lambda>x. x) example_selection PNone True = Inr m"
    by (simp add: construct.simps cfg_has_def checkKeySum_def enforceSameKeyTypes_def isSubConfigurationList_def
        cfg_getSubConfigurations_def cfg_getSubConfiguration_def constructMatchIgnore_def isSubConfiguration_def
        new_MatchKeys_def match_values_def list_as_def hashable_def)
  then show ?thesis using construct_selects [of "\<lambda>x. x" example_selection PNone True] by blast
qed

text \<open>
  A list of floating point numbers never matches a \<^verbatim>\<open>double\<close> in the metadata: its numbers are read as
  \<^verbatim>\<open>float\<close>, another alternative of the values. If the types are enforced, which is the default, the search ends with an
  exception. A single number is read as a \<^verbatim>\<open>double\<close> and does match.
\<close>

theorem float_list_never_matches:
  assumes "md_find md k = Some (MDouble d)" and "ds \<noteq> []"
  shows "(\<exists>mk. new_MatchKeys to_float (CMap [(k, CList (map CDouble ds))]) PNone enforce = Inr mk \<and>
      keys_matches mk md = (if enforce then Inl MetadataException else Inr False)) \<and>
    (\<exists>mk. new_MatchKeys to_float (CMap [(k, CDouble d)]) PNone enforce = Inr mk \<and>
      keys_matches mk md = Inr True)"
proof (rule conjI)
  have ints: "list_as c_int (map CDouble ds) = None" using assms(2) by (cases ds) (auto simp: list_as_def)
  have doubles: "list_as c_double (map CDouble ds) = Some ds" by (rule list_as_map) simp
  let ?s = "remdups (map (\<lambda>d. MFloat (to_float d)) ds)"
  have s: "?s \<noteq> []" using assms(2) by simp
  have "hd ?s \<in> set ?s" using s by (rule hd_in_set)
  then have "value_index (hd ?s) = 4" by auto
  then show "\<exists>mk. new_MatchKeys to_float (CMap [(k, CList (map CDouble ds))]) PNone enforce = Inr mk \<and>
      keys_matches mk md = (if enforce then Inl MetadataException else Inr False)"
    using assms s
    by (auto simp: new_MatchKeys_def match_values_def ints doubles keys_matches_def with_predicate_def
        set_contains_def hashable_def value_eq_flat)
  show "\<exists>mk. new_MatchKeys to_float (CMap [(k, CDouble d)]) PNone enforce = Inr mk \<and> keys_matches mk md = Inr True"
    using assms(1)
    by (simp add: new_MatchKeys_def match_values_def hashable_def keys_matches_def with_predicate_def set_contains_def)
qed

lemma float_list_never_matches_witness:
  "(\<exists>mk. new_MatchKeys (\<lambda>x. x) (CMap [(''v'', CList (map CDouble [1 / 2, 2]))]) PNone True = Inr mk \<and>
      keys_matches mk [(''v'', MDouble 2)] = (if True then Inl MetadataException else Inr False)) \<and>
   (\<exists>mk. new_MatchKeys (\<lambda>x. x) (CMap [(''v'', CDouble 2)]) PNone True = Inr mk \<and>
      keys_matches mk [(''v'', MDouble 2)] = Inr True)"
  by (rule float_list_never_matches) (simp_all add: md_find_def)

end
