(* ===== verification/MetadataMappings.thy ===== *)
theory MetadataMappings
  imports Matchers
begin

text \<open>
  \<^verbatim>\<open>message/MetadataMapping.{h,cc}\<close>, its configuration \<^verbatim>\<open>config/MetadataMappings.cc\<close> and the action
  \<^verbatim>\<open>metadata-mapping\<close>: the value of one key of the metadata selects a row of a table, whose entries
  are added to the metadata. A \<^verbatim>\<open>MetadataMappingException\<close> is a \<^verbatim>\<open>MetadataException\<close>; an
  \<^verbatim>\<open>unordered_map\<close> with values as keys is an association list, in which the first entry counts.
\<close>

section \<open>Building a mapping\<close>

record MetadataMapping =
  mm_metadataKey :: string
  mm_mapData :: "(MetadataValue \<times> BaseMetadata) list"
  mm_targetPath :: "string option"

record MetadataMappingOptions =
  enforceMatch :: bool
  overwriteExisting :: bool

definition cfg_value :: "Config \<Rightarrow> string \<Rightarrow> MetadataValue option" where
  "cfg_value cfg k = Option.bind (cfg_find cfg k) tryToMetadataValue"

definition applyMapping ::
    "Config \<Rightarrow> (string \<times> string) list \<Rightarrow> bool \<Rightarrow> BaseMetadata \<Rightarrow> BaseMetadata res" where
  "applyMapping row mapping isOptional data =
     fold_res (\<lambda>(target, src) data.
         if cfg_has row src
         then (case cfg_value row src of
                 Some mv \<Rightarrow> Inr (md_set target mv data)
               | None \<Rightarrow> Inl MetadataException)
         else if isOptional then Inr data else Inl MetadataException) mapping data"

definition constructDataMapping ::
    "(string \<times> string) list \<Rightarrow> (string \<times> string) list \<Rightarrow> (MetadataValue \<times> Config) list \<Rightarrow>
     (MetadataValue \<times> BaseMetadata) list res" where
  "constructDataMapping mappings optionalMappings src =
     map_res (\<lambda>(v, row).
         bind_res (applyMapping row mappings False []) (\<lambda>data.
         bind_res (applyMapping row optionalMappings True data) (\<lambda>data.
         Inr (v, data)))) src"

text \<open>
  The rows by the value at the key: \<^verbatim>\<open>insert\<close> hashes the value and keeps the first row. Where there is no such value the
  message of the exception asks for the string, which throws itself if there is none.
\<close>

definition constructSourceMap :: "Config list \<Rightarrow> string \<Rightarrow> (MetadataValue \<times> Config) list res" where
  "constructSourceMap rows key =
     fold_res (\<lambda>row m.
         case cfg_value row key of
           Some k \<Rightarrow>
             if \<not> hashable k then Inl MetadataException
             else Inr (if map_of m k = None then m @ [(k, row)] else m)
         | None \<Rightarrow> bind_res (cfg_getString row key) (\<lambda>_. Inl MetadataException)) rows []"

definition new_MetadataMapping ::
    "string \<Rightarrow> (string \<times> string) list \<Rightarrow> (string \<times> string) list \<Rightarrow> Config list \<Rightarrow> string \<Rightarrow>
     string option \<Rightarrow> MetadataMapping res" where
  "new_MetadataMapping metadataKey mappings optionalMappings rows matchKey targetPath =
     bind_res (constructSourceMap rows matchKey) (\<lambda>src.
     bind_res (constructDataMapping mappings optionalMappings src) (\<lambda>data.
     Inr \<lparr>mm_metadataKey = metadataKey, mm_mapData = data, mm_targetPath = targetPath\<rparr>))"

section \<open>Applying a mapping\<close>

fun as_nested :: "MetadataValue \<Rightarrow> BaseMetadata option" where
  "as_nested (MNested md) = Some md"
| "as_nested _ = None"

definition map_find :: "(MetadataValue \<times> BaseMetadata) list \<Rightarrow> MetadataValue \<Rightarrow> BaseMetadata option res" where
  "map_find m v =
     (if m = [] then Inr None else if \<not> hashable v then Inl MetadataException else Inr (map_of m v))"

definition applyInplace :: "MetadataMapping \<Rightarrow> MetadataMappingOptions \<Rightarrow> BaseMetadata \<Rightarrow> BaseMetadata res" where
  "applyInplace mm opts m =
     (case md_find m (mm_metadataKey mm) of
        None \<Rightarrow> if enforceMatch opts then Inl MetadataException else Inr m
      | Some v \<Rightarrow>
          bind_res (map_find (mm_mapData mm) v) (\<lambda>found.
          case found of
            None \<Rightarrow> if enforceMatch opts then Inl MetadataException else Inr m
          | Some data \<Rightarrow>
              let update = (if overwriteExisting opts then md_updateOverwrite data else md_updateNoOverwrite data)
              in case mm_targetPath mm of
                   None \<Rightarrow> Inr (update m)
                 | Some path \<Rightarrow> bind_res (md_get as_nested path m) (\<lambda>ms. Inr (md_set path (MNested (update ms)) m))))"

section \<open>The mappings of a file\<close>

definition toKeyMapping :: "Config \<Rightarrow> (string \<times> string) list res" where
  "toKeyMapping cfg = map_res (\<lambda>(key, _). bind_res (cfg_getString cfg key) (\<lambda>s. Inr (key, s))) (cfg_entries cfg)"

definition mapping_of_block :: "Config list \<Rightarrow> Config \<Rightarrow> MetadataMapping res" where
  "mapping_of_block sourceList mc =
     (if \<not> cfg_has mc ''match'' then Inl MetadataException
      else if \<not> cfg_has mc ''map'' \<and> \<not> cfg_has mc ''optional-map'' then Inl MetadataException
      else let matchBlock = cfg_getSubConfiguration mc ''match''; matchKeys = map fst (cfg_entries matchBlock)
      in if length matchKeys \<noteq> 1 then Inl MetadataException
      else let sourceKey = matchKeys ! 0
      in bind_res (cfg_getString matchBlock sourceKey) (\<lambda>targetKey.
         bind_res (toKeyMapping (cfg_getSubConfiguration mc ''map'')) (\<lambda>mappings.
         bind_res (toKeyMapping (cfg_getSubConfiguration mc ''optional-map'')) (\<lambda>optionalMappings.
         bind_res (if cfg_has mc ''target-path'' then bind_res (cfg_getString mc ''target-path'') (\<lambda>s. Inr (Some s))
                   else Inr None) (\<lambda>targetPath.
         new_MetadataMapping sourceKey mappings optionalMappings sourceList targetKey targetPath)))))"

definition mappings_of_file :: "Config \<Rightarrow> MetadataMapping list res" where
  "mappings_of_file content =
     (if \<not> cfg_has content ''data'' then Inl MetadataException
      else if \<not> cfg_has content ''mappings'' then Inl MetadataException
      else map_res (mapping_of_block (cfg_getSubConfigurations content ''data''))
             (cfg_getSubConfigurations content ''mappings''))"

text \<open>
  The mappings that have been read are kept. They are looked up by the path of the file and entered by
  the name of the mapping. The file of a name is the argument \<open>getConfigFile\<close>: its path and its content.
\<close>

type_synonym mapping_cache = "(string \<times> MetadataMapping list) list"

definition getMappings ::
    "(string \<Rightarrow> (string \<times> Config) res) \<Rightarrow> string \<Rightarrow> mapping_cache \<Rightarrow> (mapping_cache \<times> MetadataMapping list) res" where
  "getMappings getConfigFile mapping cache =
     bind_res (getConfigFile mapping) (\<lambda>(path, content).
     case map_of cache path of
       Some v \<Rightarrow> Inr (cache, v)
     | None \<Rightarrow>
         bind_res (mappings_of_file content) (\<lambda>v.
         case map_of cache mapping of
           Some v' \<Rightarrow> Inr (cache, v')
         | None \<Rightarrow> Inr ((mapping, v) # cache, v)))"

section \<open>The action\<close>

record MappingAction =
  ma_mappings :: "MetadataMapping list"
  ma_options :: MetadataMappingOptions

definition mapping_applyInplace :: "MappingAction \<Rightarrow> BaseMetadata \<Rightarrow> BaseMetadata res" where
  "mapping_applyInplace a md = fold_res (\<lambda>m. applyInplace m (ma_options a)) (ma_mappings a) md"

definition mapping_executeImpl :: "MappingAction \<Rightarrow> 'v message \<Rightarrow> 'v message list res" where
  "mapping_executeImpl a msg =
     (if tag msg = Field
      then bind_res (mapping_applyInplace a (metadata msg)) (\<lambda>md. Inr [msg\<lparr>metadata := md\<rparr>])
      else Inr [msg])"

definition new_MappingAction ::
    "(string \<Rightarrow> (string \<times> Config) res) \<Rightarrow> Config \<Rightarrow> mapping_cache \<Rightarrow> (mapping_cache \<times> MappingAction) res" where
  "new_MappingAction getConfigFile cfg cache =
     (if \<not> cfg_has cfg ''mapping'' then Inl MetadataException
      else bind_res (cfg_getString cfg ''mapping'') (\<lambda>name.
           bind_res (getMappings getConfigFile name cache) (\<lambda>(cache, ms).
           bind_res (getBool_default cfg ''enforce-match'' True) (\<lambda>enforce.
           bind_res (getBool_default cfg ''overwrite-existing'' False) (\<lambda>overwrite.
           Inr (cache, \<lparr>ma_mappings = ms,
                ma_options = \<lparr>enforceMatch = enforce, overwriteExisting = overwrite\<rparr>\<rparr>))))))"

section \<open>What a mapping does\<close>

text \<open>
  The value that the last pair for the target \<open>k\<close> with an entry in the row gives it.
\<close>

definition mapped_value :: "(string \<times> string) list \<Rightarrow> Config \<Rightarrow> string \<Rightarrow> MetadataValue option" where
  "mapped_value pairs row k =
     fold (\<lambda>(target, src) acc. if target = k \<and> cfg_has row src then cfg_value row src else acc) pairs None"

lemma applyMapping_find_acc:
  "applyMapping row mapping isOptional data = Inr data' \<Longrightarrow>
   md_find data' k =
     fold (\<lambda>(target, src) acc. if target = k \<and> cfg_has row src then cfg_value row src else acc)
       mapping (md_find data k)"
  unfolding applyMapping_def
proof (induction mapping arbitrary: data)
  case Nil
  then show ?case by simp
next
  case (Cons ts mapping)
  obtain t s where ts: "ts = (t, s)" by force
  show ?case
  proof (cases "cfg_has row s")
    case True
    then obtain mv where mv: "cfg_value row s = Some mv"
      using Cons.prems ts by (cases "cfg_value row s") auto
    show ?thesis using Cons.IH [of "md_set t mv data"] Cons.prems ts True mv by auto
  next
    case False
    then show ?thesis using Cons.IH [of data] Cons.prems ts by (auto split: if_splits)
  qed
qed

lemma applyMapping_wf: "applyMapping row mapping isOptional data = Inr data' \<Longrightarrow> md_wf data \<Longrightarrow> md_wf data'"
  unfolding applyMapping_def
  by (erule fold_res_invariant [of mapping md_wf, rotated -1])
    (auto split: if_splits option.splits)

lemma constructDataMappingD:
  assumes "constructDataMapping mappings optionalMappings src = Inr data"
  shows "(case map_of src v of
            None \<Rightarrow> map_of data v = None
          | Some row \<Rightarrow> \<exists>d. map_of data v = Some d \<and> md_wf d \<and>
              (\<forall>k. md_find d k = mapped_value (mappings @ optionalMappings) row k))"
  using assms unfolding constructDataMapping_def
proof (induction src arbitrary: data)
  case Nil
  then show ?case by simp
next
  case (Cons vr src)
  obtain v' row where vr: "vr = (v', row)" by force
  obtain d1 d2 rest where d1: "applyMapping row mappings False [] = Inr d1"
      and d2: "applyMapping row optionalMappings True d1 = Inr d2"
      and rest: "map_res (\<lambda>(v, row). bind_res (applyMapping row mappings False []) (\<lambda>data.
                    bind_res (applyMapping row optionalMappings True data) (\<lambda>data. Inr (v, data)))) src = Inr rest"
      and data: "data = (v', d2) # rest"
    using Cons.prems by (auto simp: vr bind_res_Inr_iff)
  have "md_find d2 k = mapped_value (mappings @ optionalMappings) row k" for k
    using applyMapping_find_acc [OF d1] applyMapping_find_acc [OF d2] by (simp add: mapped_value_def)
  moreover have "md_wf d2" using applyMapping_wf [OF d1] applyMapping_wf [OF d2] by simp
  ultimately show ?case using Cons.IH [OF rest] by (cases "map_of src v") (auto simp: vr data)
qed

lemma constructSourceMapD:
  assumes "fold_res (\<lambda>row m.
         case cfg_value row key of
           Some k \<Rightarrow>
             if \<not> hashable k then Inl MetadataException
             else Inr (if map_of m k = None then m @ [(k, row)] else m)
         | None \<Rightarrow> bind_res (cfg_getString row key) (\<lambda>_. Inl MetadataException)) rows m = Inr src"
  shows "map_of src v = (case map_of m v of Some row \<Rightarrow> Some row
           | None \<Rightarrow> find (\<lambda>row. cfg_value row key = Some v) rows)"
  using assms
proof (induction rows arbitrary: m)
  case Nil
  then show ?case by (simp split: option.splits)
next
  case (Cons row rows)
  obtain k where k: "cfg_value row key = Some k" "hashable k"
    using Cons.prems by (auto split: option.splits if_splits simp: bind_res_Inr_iff)
  show ?case
    using Cons.IH [of "if map_of m k = None then m @ [(k, row)] else m"] Cons.prems k
    by (auto simp: map_add_def split: option.splits if_splits)
qed

lemma map_find_cases:
  "map_find m v = Inr r \<Longrightarrow> r = map_of m v"
  by (auto simp: map_find_def split: if_splits)

text \<open>
  Property C12. What a mapping (without a target path, of values that can be keys of a table) does to the metadata: the first row of the table whose entry at the match key is
  the value of the metadata's key counts, and every target key gets the value of the last pair that names it and has an entry in
  the row, unless it has a value and the mapping does not overwrite; all other keys keep their values. Without such a
  row the metadata stay as they are, or the mapping throws if a match is enforced.
\<close>

theorem mapping_maps_row:
  assumes "new_MetadataMapping key mappings optionalMappings rows matchKey None = Inr mm"
    and "md_find m key = Some v" and "hashable v"
  shows "(case find (\<lambda>row. cfg_value row matchKey = Some v) rows of
            None \<Rightarrow> applyInplace mm opts m = (if enforceMatch opts then Inl MetadataException else Inr m)
          | Some row \<Rightarrow> \<exists>m'. applyInplace mm opts m = Inr m' \<and>
              (\<forall>k. md_find m' k =
                 (case mapped_value (mappings @ optionalMappings) row k of
                    None \<Rightarrow> md_find m k
                  | Some w \<Rightarrow> if overwriteExisting opts \<or> md_find m k = None then Some w else md_find m k)))"
proof -
  obtain src where src: "constructSourceMap rows matchKey = Inr src"
      and data: "constructDataMapping mappings optionalMappings src = Inr (mm_mapData mm)"
      and mm: "mm_metadataKey mm = key" "mm_targetPath mm = None"
    using assms(1) by (auto simp: new_MetadataMapping_def bind_res_Inr_iff)
  have found: "map_find (mm_mapData mm) v = Inr (map_of (mm_mapData mm) v)"
    using assms(3) by (auto simp: map_find_def)
  have rows: "map_of src v = find (\<lambda>row. cfg_value row matchKey = Some v) rows"
    using constructSourceMapD [OF src [unfolded constructSourceMap_def], of v] by simp
  show ?thesis
    using constructDataMappingD [OF data, of v] assms(2)
    by (auto simp: rows [symmetric] applyInplace_def mm found Let_def md_find_updateOverwrite
        md_find_updateNoOverwrite split: option.splits)
qed

abbreviation nemo_rows :: "Config list" where
  "nemo_rows \<equiv>
     [CMap [(''nemo-id'', CString ''lat_T''), (''param-id'', CInt 250003), (''domain'', CString ''T grid'')],
      CMap [(''nemo-id'', CString ''lon_T''), (''param-id'', CInt 250004), (''domain'', CString ''T grid'')]]"

lemma mapping_maps_row_witness:
  "\<exists>mm. new_MetadataMapping ''nemoParam'' [(''paramId'', ''param-id'')] [(''domain'', ''domain''), (''level'', ''level'')]
        nemo_rows ''nemo-id'' None = Inr mm \<and>
     (\<exists>m'. applyInplace mm \<lparr>enforceMatch = True, overwriteExisting = False\<rparr>
         [(''nemoParam'', MString ''lon_T''), (''domain'', MString ''mine'')] = Inr m' \<and>
       md_find m' ''paramId'' = Some (MInteger 250004) \<and> md_find m' ''domain'' = Some (MString ''mine'') \<and>
       md_find m' ''level'' = None)"
proof -
  let ?maps = "[(''paramId'', ''param-id'')]" and ?opt = "[(''domain'', ''domain''), (''level'', ''level'')]"
  let ?m = "[(''nemoParam'', MString ''lon_T''), (''domain'', MString ''mine'')]"
  let ?opts = "\<lparr>enforceMatch = True, overwriteExisting = False\<rparr>"
  obtain mm where mm: "new_MetadataMapping ''nemoParam'' ?maps ?opt nemo_rows ''nemo-id'' None = Inr mm"
    by (simp add: new_MetadataMapping_def constructSourceMap_def constructDataMapping_def applyMapping_def
        cfg_value_def cfg_has_def hashable_def)
  have row: "find (\<lambda>row. cfg_value row ''nemo-id'' = Some (MString ''lon_T'')) nemo_rows = Some (nemo_rows ! 1)"
    by (simp add: cfg_value_def)
  obtain m' where m': "applyInplace mm ?opts ?m = Inr m'"
      "\<forall>k. md_find m' k = (case mapped_value (?maps @ ?opt) (nemo_rows ! 1) k of
          None \<Rightarrow> md_find ?m k
        | Some w \<Rightarrow> if overwriteExisting ?opts \<or> md_find ?m k = None then Some w else md_find ?m k)"
    using mapping_maps_row [OF mm, of ?m "MString ''lon_T''" ?opts, unfolded row option.case]
    by (simp add: md_find_Cons hashable_def) blast
  have "md_find m' ''paramId'' = Some (MInteger 250004)" "md_find m' ''domain'' = Some (MString ''mine'')"
    "md_find m' ''level'' = None"
    unfolding m'(2) [rule_format] by (simp_all add: mapped_value_def cfg_value_def cfg_has_def md_find_def)
  then show ?thesis using mm m'(1) by blast
qed

text \<open>
  The kept mappings are those of their files, provided that a path that is used as a name means the file
  itself.
\<close>

definition cache_ok :: "(string \<Rightarrow> (string \<times> Config) res) \<Rightarrow> mapping_cache \<Rightarrow> bool" where
  "cache_ok getConfigFile cache \<longleftrightarrow>
     (\<forall>(name, v) \<in> set cache. case getConfigFile name of
        Inl _ \<Rightarrow> False | Inr (path, content) \<Rightarrow> mappings_of_file content = Inr v)"

lemma cache_okD:
  "cache_ok getConfigFile cache \<Longrightarrow> map_of cache name = Some v \<Longrightarrow> getConfigFile name = Inr (path, content) \<Longrightarrow>
   mappings_of_file content = Inr v"
  by (auto simp: cache_ok_def dest!: map_of_SomeD)

lemma getMappings_ok:
  assumes get: "getMappings getConfigFile mapping cache = Inr (cache', v)"
    and cfile: "getConfigFile mapping = Inr (path, content)"
    and same: "\<And>p' c'. getConfigFile path = Inr (p', c') \<Longrightarrow> c' = content"
    and ok: "cache_ok getConfigFile cache"
  shows "mappings_of_file content = Inr v \<and> cache_ok getConfigFile cache'"
proof (cases "map_of cache path")
  case (Some w)
  then have "cache' = cache" "v = w" using get cfile by (simp_all add: getMappings_def)
  moreover obtain p' c' where "getConfigFile path = Inr (p', c')"
    using ok map_of_SomeD [OF Some] by (cases "getConfigFile path") (fastforce simp: cache_ok_def)+
  ultimately show ?thesis using cache_okD [OF ok Some] same ok by blast
next
  case None
  then obtain w where w: "mappings_of_file content = Inr w"
    using get cfile by (auto simp: getMappings_def bind_res_Inr_iff)
  show ?thesis
  proof (cases "map_of cache mapping")
    case (Some w')
    then show ?thesis using get cfile None w ok cache_okD [OF ok Some cfile] by (simp add: getMappings_def)
  next
    case none: None
    then show ?thesis using get cfile None w ok by (auto simp: getMappings_def cache_ok_def)
  qed
qed

end
