(* ===== verification/DataTypes.thy ===== *)
theory DataTypes
  imports Numerals "HOL-Library.Signed_Division"
begin

text \<open>
  The value types of the keys, \<^verbatim>\<open>datamod/types\<close>: enumerations that are dumped to and parsed from strings or the
  numbers of the GRIB code tables, the types of statistics and the durations. What all of them promise is the locale
  \<open>codec\<close>.
\<close>

section \<open>Level types and representations\<close>

datatype LevType =
    Lev_ML | Lev_PL | Lev_PV | Lev_PT | Lev_SOL | Lev_SFC | Lev_O2D | Lev_O3D | Lev_HL | Lev_HHL | Lev_HPL | Lev_AL |
    Lev_WV | Lev_DP | Lev_CAT | Lev_LAYER

fun dump_LevType :: "LevType \<Rightarrow> string" where
  "dump_LevType Lev_ML = ''ml''"
| "dump_LevType Lev_PL = ''pl''"
| "dump_LevType Lev_PV = ''pv''"
| "dump_LevType Lev_PT = ''pt''"
| "dump_LevType Lev_SOL = ''sol''"
| "dump_LevType Lev_SFC = ''sfc''"
| "dump_LevType Lev_O2D = ''o2d''"
| "dump_LevType Lev_O3D = ''o3d''"
| "dump_LevType Lev_HL = ''hl''"
| "dump_LevType Lev_HHL = ''hhl''"
| "dump_LevType Lev_HPL = ''hpl''"
| "dump_LevType Lev_AL = ''al''"
| "dump_LevType Lev_WV = ''wv''"
| "dump_LevType Lev_DP = ''dp''"
| "dump_LevType Lev_CAT = ''cat''"
| "dump_LevType Lev_LAYER = ''layer''"

definition parse_LevType :: "string \<Rightarrow> LevType res" where
  "parse_LevType val =
     (if val = ''ml'' then Inr Lev_ML
      else if val = ''pl'' then Inr Lev_PL
      else if val = ''pv'' then Inr Lev_PV
      else if val = ''pt'' then Inr Lev_PT
      else if val = ''sol'' then Inr Lev_SOL
      else if val = ''sfc'' then Inr Lev_SFC
      else if val = ''o2d'' then Inr Lev_O2D
      else if val = ''o3d'' then Inr Lev_O3D
      else if val = ''hl'' then Inr Lev_HL
      else if val = ''hhl'' then Inr Lev_HHL
      else if val = ''hpl'' then Inr Lev_HPL
      else if val = ''al'' then Inr Lev_AL
      else if val = ''wv'' then Inr Lev_WV
      else if val = ''dp'' then Inr Lev_DP
      else if val = ''cat'' then Inr Lev_CAT
      else if val = ''layer'' then Inr Lev_LAYER
      else Inl DataModellingException)"

datatype Repres =
    Repres_GG | Repres_LL | Repres_SH | Repres_HEALPix

fun dump_Repres :: "Repres \<Rightarrow> string" where
  "dump_Repres Repres_GG = ''gg''"
| "dump_Repres Repres_LL = ''ll''"
| "dump_Repres Repres_SH = ''sh''"
| "dump_Repres Repres_HEALPix = ''HEALPix''"

definition parse_Repres :: "string \<Rightarrow> Repres res" where
  "parse_Repres val =
     (if val = ''gg'' then Inr Repres_GG
      else if val = ''ll'' then Inr Repres_LL
      else if val = ''sh'' then Inr Repres_SH
      else if val = ''HEALPix'' then Inr Repres_HEALPix
      else Inl DataModellingException)"

text \<open>The representation that a grid implies.\<close>

definition represFromGrid :: "string \<Rightarrow> Repres res" where
  "represFromGrid grid =
     (case grid of
        [] \<Rightarrow> Inl DataModellingException
      | c # _ \<Rightarrow>
          if c = CHR ''F'' \<or> c = CHR ''O'' then Inr Repres_GG
          else if c = CHR ''H'' then Inr Repres_HEALPix
          else if c = CHR ''N'' then Inr (if CHR ''x'' \<notin> set grid then Repres_GG else Repres_LL)
          else if c = CHR ''L'' then Inr Repres_LL
          else Inl DataModellingException)"

section \<open>Types of statistics\<close>

datatype StatTypeDuration =
    Dur_Day | Dur_Month

fun dump_StatTypeDuration :: "StatTypeDuration \<Rightarrow> string" where
  "dump_StatTypeDuration Dur_Day = ''da''"
| "dump_StatTypeDuration Dur_Month = ''mo''"

definition parse_StatTypeDuration :: "string \<Rightarrow> StatTypeDuration res" where
  "parse_StatTypeDuration val =
     (if val = ''da'' then Inr Dur_Day
      else if val = ''mo'' then Inr Dur_Month
      else Inl DataModellingException)"

datatype StatTypeOperation =
    Stat_Average | Stat_Max | Stat_Min | Stat_StandardDeviation

fun dump_StatTypeOperation :: "StatTypeOperation \<Rightarrow> string" where
  "dump_StatTypeOperation Stat_Average = ''av''"
| "dump_StatTypeOperation Stat_Max = ''mx''"
| "dump_StatTypeOperation Stat_Min = ''mn''"
| "dump_StatTypeOperation Stat_StandardDeviation = ''sd''"

definition parse_StatTypeOperation :: "string \<Rightarrow> StatTypeOperation res" where
  "parse_StatTypeOperation val =
     (if val = ''av'' then Inr Stat_Average
      else if val = ''mx'' then Inr Stat_Max
      else if val = ''mn'' then Inr Stat_Min
      else if val = ''sd'' then Inr Stat_StandardDeviation
      else Inl DataModellingException)"

datatype SingleStatType = SingleStatType (st_duration: StatTypeDuration) (st_operation: StatTypeOperation)

datatype StatType = StatType (firstLevel: SingleStatType) (secondLevel: "SingleStatType option")

fun duration_order :: "StatTypeDuration \<Rightarrow> nat" where
  "duration_order Dur_Day = 0"
| "duration_order Dur_Month = 1"

text \<open>The only constructor: the first of two levels is the longer one.\<close>

definition new_StatType :: "SingleStatType \<Rightarrow> SingleStatType option \<Rightarrow> StatType res" where
  "new_StatType first second =
     (case second of
        Some s \<Rightarrow> if \<not> duration_order (st_duration first) > duration_order (st_duration s)
                  then Inl DataModellingException
                  else Inr (StatType first second)
      | None \<Rightarrow> Inr (StatType first second))"

definition levels :: "StatType \<Rightarrow> nat" where
  "levels v = (if secondLevel v \<noteq> None then 2 else 1)"

definition dump_SingleStatType :: "SingleStatType \<Rightarrow> string" where
  "dump_SingleStatType v = dump_StatTypeDuration (st_duration v) @ dump_StatTypeOperation (st_operation v)"

definition parse_SingleStatType :: "string \<Rightarrow> SingleStatType res" where
  "parse_SingleStatType val =
     (if length val \<noteq> 4 then Inl DataModellingException
      else bind_res (parse_StatTypeDuration (take 2 val)) (\<lambda>d.
           bind_res (parse_StatTypeOperation (take 2 (drop 2 val))) (\<lambda>p. Inr (SingleStatType d p))))"

definition dump_StatType :: "StatType \<Rightarrow> string" where
  "dump_StatType v =
     (case secondLevel v of
        Some s \<Rightarrow> dump_SingleStatType (firstLevel v) @ ''_'' @ dump_SingleStatType s
      | None \<Rightarrow> dump_SingleStatType (firstLevel v))"

definition parse_StatType :: "string \<Rightarrow> StatType res" where
  "parse_StatType val =
     (if length val = 4
      then bind_res (parse_SingleStatType (take 4 val)) (\<lambda>f. new_StatType f None)
      else if length val = 9
      then if val ! 4 \<noteq> CHR ''_'' then Inl DataModellingException
           else bind_res (parse_SingleStatType (take 4 val)) (\<lambda>f.
                bind_res (parse_SingleStatType (take 4 (drop 5 val))) (\<lambda>s. new_StatType f (Some s)))
      else Inl DataModellingException)"

section \<open>Code tables\<close>

datatype TypeOfProcessedData =
    Data_AnalysisProducts | Data_ForecastProducts | Data_AnalysisAndForecastProducts | Data_ControlForecastProducts |
    Data_PerturbedForecastProducts | Data_ControlAndPerturbedForecastProducts | Data_ProcessedSatelliteObservations |
    Data_ProcessedRadarObservations | Data_EventProbability

fun dump_TypeOfProcessedData :: "TypeOfProcessedData \<Rightarrow> string" where
  "dump_TypeOfProcessedData Data_AnalysisProducts = ''an''"
| "dump_TypeOfProcessedData Data_ForecastProducts = ''fc''"
| "dump_TypeOfProcessedData Data_AnalysisAndForecastProducts = ''af''"
| "dump_TypeOfProcessedData Data_ControlForecastProducts = ''cf''"
| "dump_TypeOfProcessedData Data_PerturbedForecastProducts = ''pf''"
| "dump_TypeOfProcessedData Data_ControlAndPerturbedForecastProducts = ''cp''"
| "dump_TypeOfProcessedData Data_ProcessedSatelliteObservations = ''sa''"
| "dump_TypeOfProcessedData Data_ProcessedRadarObservations = ''ra''"
| "dump_TypeOfProcessedData Data_EventProbability = ''ep''"

definition parse_TypeOfProcessedData :: "string \<Rightarrow> TypeOfProcessedData res" where
  "parse_TypeOfProcessedData val =
     (if val = ''an'' then Inr Data_AnalysisProducts
      else if val = ''fc'' then Inr Data_ForecastProducts
      else if val = ''af'' then Inr Data_AnalysisAndForecastProducts
      else if val = ''cf'' then Inr Data_ControlForecastProducts
      else if val = ''pf'' then Inr Data_PerturbedForecastProducts
      else if val = ''cp'' then Inr Data_ControlAndPerturbedForecastProducts
      else if val = ''sa'' then Inr Data_ProcessedSatelliteObservations
      else if val = ''ra'' then Inr Data_ProcessedRadarObservations
      else if val = ''ep'' then Inr Data_EventProbability
      else Inl DataModellingException)"

fun code_TypeOfProcessedData :: "TypeOfProcessedData \<Rightarrow> int" where
  "code_TypeOfProcessedData Data_AnalysisProducts = 0"
| "code_TypeOfProcessedData Data_ForecastProducts = 1"
| "code_TypeOfProcessedData Data_AnalysisAndForecastProducts = 2"
| "code_TypeOfProcessedData Data_ControlForecastProducts = 3"
| "code_TypeOfProcessedData Data_PerturbedForecastProducts = 4"
| "code_TypeOfProcessedData Data_ControlAndPerturbedForecastProducts = 5"
| "code_TypeOfProcessedData Data_ProcessedSatelliteObservations = 6"
| "code_TypeOfProcessedData Data_ProcessedRadarObservations = 7"
| "code_TypeOfProcessedData Data_EventProbability = 8"

definition parse_code_TypeOfProcessedData :: "int \<Rightarrow> TypeOfProcessedData res" where
  "parse_code_TypeOfProcessedData i =
     (if i = 0 then Inr Data_AnalysisProducts
      else if i = 1 then Inr Data_ForecastProducts
      else if i = 2 then Inr Data_AnalysisAndForecastProducts
      else if i = 3 then Inr Data_ControlForecastProducts
      else if i = 4 then Inr Data_PerturbedForecastProducts
      else if i = 5 then Inr Data_ControlAndPerturbedForecastProducts
      else if i = 6 then Inr Data_ProcessedSatelliteObservations
      else if i = 7 then Inr Data_ProcessedRadarObservations
      else if i = 8 then Inr Data_EventProbability
      else Inl DataModellingException)"

datatype TypeOfStatisticalProcessing =
    Proc_Average | Proc_Accumulation | Proc_Maximum | Proc_Minimum | Proc_Difference | Proc_RootMeanSquare |
    Proc_StandardDeviation | Proc_Covariance | Proc_InverseDifference | Proc_Ratio | Proc_StandardizedAnomaly |
    Proc_Summation | Proc_ReturnPeriod | Proc_Median | Proc_Severity | Proc_Mode | Proc_IndexProcessing

fun dump_TypeOfStatisticalProcessing :: "TypeOfStatisticalProcessing \<Rightarrow> string" where
  "dump_TypeOfStatisticalProcessing Proc_Average = ''average''"
| "dump_TypeOfStatisticalProcessing Proc_Accumulation = ''accumul''"
| "dump_TypeOfStatisticalProcessing Proc_Maximum = ''max''"
| "dump_TypeOfStatisticalProcessing Proc_Minimum = ''min''"
| "dump_TypeOfStatisticalProcessing Proc_Difference = ''difference''"
| "dump_TypeOfStatisticalProcessing Proc_RootMeanSquare = ''root-mean-square''"
| "dump_TypeOfStatisticalProcessing Proc_StandardDeviation = ''stddev''"
| "dump_TypeOfStatisticalProcessing Proc_Covariance = ''covariance''"
| "dump_TypeOfStatisticalProcessing Proc_InverseDifference = ''inverse-difference''"
| "dump_TypeOfStatisticalProcessing Proc_Ratio = ''ratio''"
| "dump_TypeOfStatisticalProcessing Proc_StandardizedAnomaly = ''standardized-anomaly''"
| "dump_TypeOfStatisticalProcessing Proc_Summation = ''summation''"
| "dump_TypeOfStatisticalProcessing Proc_ReturnPeriod = ''return-period''"
| "dump_TypeOfStatisticalProcessing Proc_Median = ''median''"
| "dump_TypeOfStatisticalProcessing Proc_Severity = ''severity''"
| "dump_TypeOfStatisticalProcessing Proc_Mode = ''mode''"
| "dump_TypeOfStatisticalProcessing Proc_IndexProcessing = ''index-processing''"

definition parse_TypeOfStatisticalProcessing :: "string \<Rightarrow> TypeOfStatisticalProcessing res" where
  "parse_TypeOfStatisticalProcessing val =
     (if val = ''average'' then Inr Proc_Average
      else if val = ''accumul'' then Inr Proc_Accumulation
      else if val = ''max'' then Inr Proc_Maximum
      else if val = ''min'' then Inr Proc_Minimum
      else if val = ''difference'' then Inr Proc_Difference
      else if val = ''root-mean-square'' then Inr Proc_RootMeanSquare
      else if val = ''stddev'' then Inr Proc_StandardDeviation
      else if val = ''covariance'' then Inr Proc_Covariance
      else if val = ''inverse-difference'' then Inr Proc_InverseDifference
      else if val = ''ratio'' then Inr Proc_Ratio
      else if val = ''standardized-anomaly'' then Inr Proc_StandardizedAnomaly
      else if val = ''summation'' then Inr Proc_Summation
      else if val = ''return-period'' then Inr Proc_ReturnPeriod
      else if val = ''median'' then Inr Proc_Median
      else if val = ''severity'' then Inr Proc_Severity
      else if val = ''mode'' then Inr Proc_Mode
      else if val = ''index-processing'' then Inr Proc_IndexProcessing
      else Inl DataModellingException)"

fun code_TypeOfStatisticalProcessing :: "TypeOfStatisticalProcessing \<Rightarrow> int" where
  "code_TypeOfStatisticalProcessing Proc_Average = 0"
| "code_TypeOfStatisticalProcessing Proc_Accumulation = 1"
| "code_TypeOfStatisticalProcessing Proc_Maximum = 2"
| "code_TypeOfStatisticalProcessing Proc_Minimum = 3"
| "code_TypeOfStatisticalProcessing Proc_Difference = 4"
| "code_TypeOfStatisticalProcessing Proc_RootMeanSquare = 5"
| "code_TypeOfStatisticalProcessing Proc_StandardDeviation = 6"
| "code_TypeOfStatisticalProcessing Proc_Covariance = 7"
| "code_TypeOfStatisticalProcessing Proc_InverseDifference = 8"
| "code_TypeOfStatisticalProcessing Proc_Ratio = 9"
| "code_TypeOfStatisticalProcessing Proc_StandardizedAnomaly = 10"
| "code_TypeOfStatisticalProcessing Proc_Summation = 11"
| "code_TypeOfStatisticalProcessing Proc_ReturnPeriod = 12"
| "code_TypeOfStatisticalProcessing Proc_Median = 13"
| "code_TypeOfStatisticalProcessing Proc_Severity = 100"
| "code_TypeOfStatisticalProcessing Proc_Mode = 101"
| "code_TypeOfStatisticalProcessing Proc_IndexProcessing = 102"

definition parse_code_TypeOfStatisticalProcessing :: "int \<Rightarrow> TypeOfStatisticalProcessing res" where
  "parse_code_TypeOfStatisticalProcessing i =
     (if i = 0 then Inr Proc_Average
      else if i = 1 then Inr Proc_Accumulation
      else if i = 2 then Inr Proc_Maximum
      else if i = 3 then Inr Proc_Minimum
      else if i = 4 then Inr Proc_Difference
      else if i = 5 then Inr Proc_RootMeanSquare
      else if i = 6 then Inr Proc_StandardDeviation
      else if i = 7 then Inr Proc_Covariance
      else if i = 8 then Inr Proc_InverseDifference
      else if i = 9 then Inr Proc_Ratio
      else if i = 10 then Inr Proc_StandardizedAnomaly
      else if i = 11 then Inr Proc_Summation
      else if i = 12 then Inr Proc_ReturnPeriod
      else if i = 13 then Inr Proc_Median
      else if i = 100 then Inr Proc_Severity
      else if i = 101 then Inr Proc_Mode
      else if i = 102 then Inr Proc_IndexProcessing
      else Inl DataModellingException)"

section \<open>Durations\<close>

datatype TimeDuration = Hours int | Seconds int

text \<open>
  A duration in hours is dumped to an integer, one in seconds to a string with the unit; a string is read with \<^verbatim>\<open>stol\<close>,
  which ignores what follows the number.
\<close>

fun dump_TimeDuration :: "TimeDuration \<Rightarrow> int + string" where
  "dump_TimeDuration (Hours h) = Inl h"
| "dump_TimeDuration (Seconds s) = Inr (int_to_string s @ ''s'')"

definition parse_TimeDuration_string :: "string \<Rightarrow> TimeDuration res" where
  "parse_TimeDuration_string val =
     (if val = [] then Inl DataModellingException
      else if last val = CHR ''h'' \<or> last val = CHR ''s''
      then if length val = 1 then Inl DataModellingException
           else bind_res (stol (butlast val)) (\<lambda>n. Inr (if last val = CHR ''h'' then Hours n else Seconds n))
      else if is_digit (last val) then bind_res (stol val) (\<lambda>n. Inr (Hours n))
      else Inl DataModellingException)"

fun parse_TimeDuration :: "int + string \<Rightarrow> TimeDuration res" where
  "parse_TimeDuration (Inl h) = Inr (Hours h)"
| "parse_TimeDuration (Inr s) = parse_TimeDuration_string s"

text \<open>The conversions of \<^verbatim>\<open>std::chrono\<close> on 64 bit counts; a product outside of them is undefined.\<close>

definition in_int64 :: "int \<Rightarrow> bool" where
  "in_int64 i \<longleftrightarrow> - (2 ^ 63) \<le> i \<and> i < 2 ^ 63"

fun toSeconds :: "TimeDuration \<Rightarrow> int res" where
  "toSeconds (Hours h) = (if in_int64 (h * 3600) then Inr (h * 3600) else Inl UndefinedBehaviour)"
| "toSeconds (Seconds s) = Inr s"

fun toHours :: "TimeDuration \<Rightarrow> int" where
  "toHours (Hours h) = h"
| "toHours (Seconds s) = s sdiv 3600"

section \<open>What a codec promises\<close>

text \<open>
  A parser and a dumper of a type whose legal values are \<open>valid\<close>: parsing gives legal values and accepts what is dumped only, and
  every legal value is read back.
\<close>

locale codec =
  fixes valid :: "'v \<Rightarrow> bool" and dump :: "'v \<Rightarrow> 'd" and parse :: "'d \<Rightarrow> 'v res"
  assumes parse_dump: "valid v \<Longrightarrow> parse (dump v) = Inr v"
    and parse_sound: "parse d = Inr v \<Longrightarrow> valid v \<and> dump v = d"
begin

lemma dump_inj: "valid v \<Longrightarrow> valid w \<Longrightarrow> dump v = dump w \<Longrightarrow> v = w"
  by (metis parse_dump sum.inject(2))

lemma parse_iff: "parse d = Inr v \<longleftrightarrow> valid v \<and> d = dump v"
  using parse_dump parse_sound by blast

lemma parse_refuses: "(\<exists>e. parse d = Inl e) \<longleftrightarrow> d \<notin> dump ` {v. valid v}"
proof (cases "parse d")
  case (Inl e)
  then show ?thesis using parse_dump by force
next
  case (Inr v)
  then show ?thesis using parse_sound [OF Inr] by auto
qed

end

text \<open>The chains of comparisons of the parsers, one comparison at a time.\<close>

lemma if_chainE:
  "(if p then Inr x else r) = Inr v \<Longrightarrow> (p \<Longrightarrow> x = v \<Longrightarrow> thesis) \<Longrightarrow> (r = Inr v \<Longrightarrow> thesis) \<Longrightarrow> thesis"
  by (cases p) simp_all

interpretation lev_type: codec "\<lambda>_. True" dump_LevType parse_LevType
proof unfold_locales
  show "parse_LevType (dump_LevType v) = Inr v" for v by (cases v) (simp_all add: parse_LevType_def)
  show "parse_LevType d = Inr v \<Longrightarrow> True \<and> dump_LevType v = d" for d v
    unfolding parse_LevType_def by (erule if_chainE, hypsubst, simp)+ simp
qed

interpretation repres: codec "\<lambda>_. True" dump_Repres parse_Repres
proof unfold_locales
  show "parse_Repres (dump_Repres v) = Inr v" for v by (cases v) (simp_all add: parse_Repres_def)
  show "parse_Repres d = Inr v \<Longrightarrow> True \<and> dump_Repres v = d" for d v
    unfolding parse_Repres_def by (erule if_chainE, hypsubst, simp)+ simp
qed

interpretation duration: codec "\<lambda>_. True" dump_StatTypeDuration parse_StatTypeDuration
proof unfold_locales
  show "parse_StatTypeDuration (dump_StatTypeDuration v) = Inr v" for v
    by (cases v) (simp_all add: parse_StatTypeDuration_def)
  show "parse_StatTypeDuration d = Inr v \<Longrightarrow> True \<and> dump_StatTypeDuration v = d" for d v
    unfolding parse_StatTypeDuration_def by (erule if_chainE, hypsubst, simp)+ simp
qed

interpretation stat_operation: codec "\<lambda>_. True" dump_StatTypeOperation parse_StatTypeOperation
proof unfold_locales
  show "parse_StatTypeOperation (dump_StatTypeOperation v) = Inr v" for v
    by (cases v) (simp_all add: parse_StatTypeOperation_def)
  show "parse_StatTypeOperation d = Inr v \<Longrightarrow> True \<and> dump_StatTypeOperation v = d" for d v
    unfolding parse_StatTypeOperation_def by (erule if_chainE, hypsubst, simp)+ simp
qed

lemma length_dump_duration [simp]: "length (dump_StatTypeDuration d) = 2"
  by (cases d) simp_all

lemma length_dump_operation [simp]: "length (dump_StatTypeOperation d) = 2"
  by (cases d) simp_all

lemma length_dump_single [simp]: "length (dump_SingleStatType v) = 4"
  by (simp add: dump_SingleStatType_def)

interpretation single_stat_type: codec "\<lambda>_. True" dump_SingleStatType parse_SingleStatType
proof unfold_locales
  show "parse_SingleStatType (dump_SingleStatType v) = Inr v" for v
    by (simp add: parse_SingleStatType_def dump_SingleStatType_def duration.parse_dump stat_operation.parse_dump)
next
  fix d v
  assume p: "parse_SingleStatType d = Inr v"
  then have len: "length d = 4" by (simp add: parse_SingleStatType_def split: if_splits)
  have "dump_StatTypeDuration (st_duration v) = take 2 d"
    "dump_StatTypeOperation (st_operation v) = take 2 (drop 2 d)"
    using p len duration.parse_sound stat_operation.parse_sound
    by (auto simp: parse_SingleStatType_def bind_res_Inr_iff)
  moreover have "take 2 d @ take 2 (drop 2 d) = d" using len append_take_drop_id [of 2 d] by simp
  ultimately show "True \<and> dump_SingleStatType v = d" by (simp add: dump_SingleStatType_def)
qed

text \<open>The class invariant of \<^verbatim>\<open>StatType\<close>.\<close>

definition stat_type_ok :: "StatType \<Rightarrow> bool" where
  "stat_type_ok v \<longleftrightarrow>
     (case secondLevel v of None \<Rightarrow> True
      | Some s \<Rightarrow> st_duration (firstLevel v) = Dur_Month \<and> st_duration s = Dur_Day)"

lemma new_StatType_iff: "new_StatType f s = Inr v \<longleftrightarrow> v = StatType f s \<and> stat_type_ok v"
proof -
  have "duration_order a > duration_order b \<longleftrightarrow> a = Dur_Month \<and> b = Dur_Day" for a b
    by (cases a; cases b) simp_all
  then show ?thesis by (auto simp: new_StatType_def stat_type_ok_def split: option.splits)
qed

interpretation stat_type: codec stat_type_ok dump_StatType parse_StatType
proof unfold_locales
  fix v
  assume ok: "stat_type_ok v"
  show "parse_StatType (dump_StatType v) = Inr v"
  proof (cases "secondLevel v")
    case None
    then show ?thesis using ok
      by (cases v) (simp add: parse_StatType_def dump_StatType_def single_stat_type.parse_dump new_StatType_iff)
  next
    case (Some s)
    then show ?thesis using ok
      by (cases v) (simp add: parse_StatType_def dump_StatType_def single_stat_type.parse_dump new_StatType_iff
          nth_append)
  qed
next
  fix d v
  assume p: "parse_StatType d = Inr v"
  consider (one) "length d = 4" | (two) "length d = 9" "d ! 4 = CHR ''_''"
    using p by (auto simp: parse_StatType_def split: if_splits)
  then show "stat_type_ok v \<and> dump_StatType v = d"
  proof cases
    case one
    then show ?thesis using p single_stat_type.parse_sound
      by (auto simp: parse_StatType_def bind_res_Inr_iff new_StatType_iff dump_StatType_def)
  next
    case two
    have d: "take 4 d @ ''_'' @ take 4 (drop 5 d) = d"
      using two id_take_nth_drop [of 4 d] by simp
    obtain f s where f: "parse_SingleStatType (take 4 d) = Inr f" and s: "parse_SingleStatType (take 4 (drop 5 d)) = Inr s"
        and v: "v = StatType f (Some s)" "stat_type_ok v"
      using p two by (auto simp: parse_StatType_def bind_res_Inr_iff new_StatType_iff)
    have "dump_StatType v = take 4 d @ ''_'' @ take 4 (drop 5 d)"
      using single_stat_type.parse_sound [OF f] single_stat_type.parse_sound [OF s] v
      by (simp add: dump_StatType_def)
    then show ?thesis using v d by simp
  qed
qed

interpretation processed: codec "\<lambda>_. True" dump_TypeOfProcessedData parse_TypeOfProcessedData
proof unfold_locales
  show "parse_TypeOfProcessedData (dump_TypeOfProcessedData v) = Inr v" for v
    by (cases v) (simp_all add: parse_TypeOfProcessedData_def)
  show "parse_TypeOfProcessedData d = Inr v \<Longrightarrow> True \<and> dump_TypeOfProcessedData v = d" for d v
    unfolding parse_TypeOfProcessedData_def by (erule if_chainE, hypsubst, simp)+ simp
qed

interpretation processed_code: codec "\<lambda>_. True" code_TypeOfProcessedData parse_code_TypeOfProcessedData
proof unfold_locales
  show "parse_code_TypeOfProcessedData (code_TypeOfProcessedData v) = Inr v" for v
    by (cases v) (simp_all add: parse_code_TypeOfProcessedData_def)
  show "parse_code_TypeOfProcessedData d = Inr v \<Longrightarrow> True \<and> code_TypeOfProcessedData v = d" for d v
    unfolding parse_code_TypeOfProcessedData_def by (erule if_chainE, hypsubst, simp)+ simp
qed

interpretation processing: codec "\<lambda>_. True" dump_TypeOfStatisticalProcessing parse_TypeOfStatisticalProcessing
proof unfold_locales
  show "parse_TypeOfStatisticalProcessing (dump_TypeOfStatisticalProcessing v) = Inr v" for v
    by (cases v) (simp_all add: parse_TypeOfStatisticalProcessing_def)
  show "parse_TypeOfStatisticalProcessing d = Inr v \<Longrightarrow> True \<and> dump_TypeOfStatisticalProcessing v = d" for d v
    unfolding parse_TypeOfStatisticalProcessing_def by (erule if_chainE, hypsubst, simp)+ simp
qed

interpretation processing_code:
  codec "\<lambda>_. True" code_TypeOfStatisticalProcessing parse_code_TypeOfStatisticalProcessing
proof unfold_locales
  show "parse_code_TypeOfStatisticalProcessing (code_TypeOfStatisticalProcessing v) = Inr v" for v
    by (cases v) (simp_all add: parse_code_TypeOfStatisticalProcessing_def)
  show "parse_code_TypeOfStatisticalProcessing d = Inr v \<Longrightarrow> True \<and> code_TypeOfStatisticalProcessing v = d" for d v
    unfolding parse_code_TypeOfStatisticalProcessing_def by (erule if_chainE, hypsubst, simp)+ simp
qed

text \<open>
  The durations are no codec: a string of hours is read, but durations in hours are dumped to a
  number, and the parser takes strings with anything after the number.
\<close>

definition duration_ok :: "TimeDuration \<Rightarrow> bool" where
  "duration_ok v = (case v of Hours h \<Rightarrow> in_int64 h | Seconds s \<Rightarrow> in_int64 s)"

lemma parse_TimeDuration_dump: "duration_ok v \<Longrightarrow> parse_TimeDuration (dump_TimeDuration v) = Inr v"
proof (cases v)
  case (Seconds s)
  assume "duration_ok v"
  then have "stol (int_to_string s) = Inr s"
    using stol_int_to_string [of s "[]"] Seconds by (simp add: duration_ok_def in_int64_def)
  moreover have "int_to_string s \<noteq> []" by (simp add: int_to_string_def)
  ultimately show ?thesis using Seconds by (simp add: parse_TimeDuration_string_def butlast_append)
qed simp

lemma parse_TimeDuration_hours:
  assumes "in_int64 h"
  shows "parse_TimeDuration (Inr (int_to_string h @ ''h'')) = Inr (Hours h)"
    and "parse_TimeDuration (Inr (int_to_string h)) = Inr (Hours h)"
proof -
  have stol: "stol (int_to_string h) = Inr h"
    using stol_int_to_string [of h "[]"] assms by (simp add: in_int64_def)
  have ne: "int_to_string h \<noteq> []" by (simp add: int_to_string_def)
  have "is_digit (last (digits n))" for n
    using digits_all [of n] last_in_set [OF digits_not_Nil, of n] by (simp add: list_all_iff)
  then have "is_digit (last (int_to_string h))" by (simp add: int_to_string_def)
  moreover have "last (int_to_string h) \<noteq> CHR ''h''" "last (int_to_string h) \<noteq> CHR ''s''"
    using calculation by (auto simp: is_digit_def)
  ultimately show "parse_TimeDuration (Inr (int_to_string h)) = Inr (Hours h)"
    using stol ne by (simp add: parse_TimeDuration_string_def)
  show "parse_TimeDuration (Inr (int_to_string h @ ''h'')) = Inr (Hours h)"
    using stol ne by (simp add: parse_TimeDuration_string_def butlast_append)
qed

lemma toHours_toSeconds: "toSeconds v = Inr s \<Longrightarrow> toHours v = s sdiv 3600"
  by (cases v) (auto simp: signed_divide_int_def sgn_if split: if_splits)

section \<open>Properties\<close>

text \<open>
  The types of statistics are read back: every \<^verbatim>\<open>StatType\<close> that its constructor allows, one level or a monthly level over
  a daily one, is dumped to a string of four or nine characters that parses to it, and the parser accepts no other
  string.
\<close>

theorem stat_type_round_trip:
  "parse_StatType d = Inr v \<longleftrightarrow>
     d = dump_StatType v \<and> new_StatType (firstLevel v) (secondLevel v) = Inr v"
  using stat_type.parse_iff by (auto simp: new_StatType_iff)

text \<open>
  A duration is read back from what it is dumped to, and its text with the unit \<open>h\<close> or without a unit is read as
  hours. But the parser ignores whatever follows the number: \<open>1:30h\<close> is one hour.
\<close>

theorem time_duration_text:
  assumes "in_int64 n"
  shows "parse_TimeDuration (dump_TimeDuration (Hours n)) = Inr (Hours n) \<and>
    parse_TimeDuration (dump_TimeDuration (Seconds n)) = Inr (Seconds n) \<and>
    parse_TimeDuration (Inr (int_to_string n @ ''h'')) = Inr (Hours n) \<and>
    parse_TimeDuration (Inr (int_to_string n)) = Inr (Hours n) \<and>
    parse_TimeDuration (Inr (int_to_string n @ '':30h'')) = Inr (Hours n)"
proof -
  have "stol (int_to_string n @ '':30'') = Inr n"
    using assms by (intro stol_int_to_string) (simp_all add: in_int64_def is_digit_def)
  moreover have "int_to_string n @ '':30h'' = (int_to_string n @ '':30'') @ ''h''" by simp
  ultimately have "parse_TimeDuration (Inr (int_to_string n @ '':30h'')) = Inr (Hours n)"
    unfolding parse_TimeDuration.simps parse_TimeDuration_string_def
    by (simp add: butlast_append)
  then show ?thesis
    using assms parse_TimeDuration_dump [of "Hours n"] parse_TimeDuration_dump [of "Seconds n"]
      parse_TimeDuration_hours [OF assms]
    by (simp add: duration_ok_def)
qed

lemma time_duration_text_witness:
  "parse_TimeDuration (dump_TimeDuration (Hours 6)) = Inr (Hours 6) \<and>
    parse_TimeDuration (dump_TimeDuration (Seconds 6)) = Inr (Seconds 6) \<and>
    parse_TimeDuration (Inr (int_to_string 6 @ ''h'')) = Inr (Hours 6) \<and>
    parse_TimeDuration (Inr (int_to_string 6)) = Inr (Hours 6) \<and>
    parse_TimeDuration (Inr (int_to_string 6 @ '':30h'')) = Inr (Hours 6)"
  by (rule time_duration_text) (simp add: in_int64_def)

end
