(* ===== verification/LevelTypes.thy ===== *)
theory LevelTypes
  imports DataTypes
begin

text \<open>
  The types of levels of GRIB, \<^verbatim>\<open>datamod/types/TypeOfLevel.{h,cc}\<close>: 96 names that are dumped by a switch and parsed with a
  table.
\<close>

datatype (plugins only: ) TypeOfLevel =
    Tol_Surface | Tol_Troposphere | Tol_EntireAtmosphere | Tol_EntireOcean | Tol_EntireLake | Tol_CloudBase |
    Tol_CloudTop | Tol_IsothermZero | Tol_AdiabaticCondensation | Tol_MaxWind | Tol_Tropopause | Tol_Stratosphere |
    Tol_NominalTop | Tol_SeaBottom | Tol_Atmosphere | Tol_CumulonimbusBase | Tol_CumulonimbusTop |
    Tol_FreeConvection | Tol_ConvectiveCondensation | Tol_NeutralBuoyancy | Tol_MostUnstableParcel |
    Tol_MixedLayerParcel | Tol_LowestLevelOfCloudCoverExceedance | Tol_Isothermal | Tol_IsobaricInPa |
    Tol_IsobaricInhPa | Tol_IsobaricLayer | Tol_LowCloudLayer | Tol_MediumCloudLayer | Tol_HighCloudLayer |
    Tol_MeanSea | Tol_HeightAboveSea | Tol_HeightAboveSeaLayer | Tol_HeightAboveGround | Tol_HeightAboveGroundLayer |
    Tol_Sigma | Tol_SigmaLayer | Tol_Hybrid | Tol_HybridLayer | Tol_DepthBelowLand | Tol_DepthBelowLandLayer |
    Tol_Theta | Tol_ThetaLayer | Tol_PressureFromGround | Tol_PressureFromGroundLayer | Tol_PotentialVorticity |
    Tol_Eta | Tol_Snow | Tol_SnowLayer | Tol_MixedLayerDepthGeneric | Tol_HybridHeight | Tol_HybridPressure |
    Tol_GeneralVertical | Tol_GeneralVerticalLayer | Tol_Soil | Tol_SoilLayer | Tol_SeaIce | Tol_SeaIceLayer |
    Tol_DepthBelowSea | Tol_OceanSurface | Tol_DepthBelowSeaLayer | Tol_OceanSurfaceToBottom | Tol_LakeBottom |
    Tol_MixingLayer | Tol_OceanModel | Tol_OceanModelLayer | Tol_MixedLayerDepthByDensity |
    Tol_MixedLayerDepthByTemperature | Tol_MixedLayerDepthByDiffusivity | Tol_SnowTopOverIceOnWater |
    Tol_SnowLayerOverIceOnWater | Tol_IceTopOnWater | Tol_IceLayerOnWater | Tol_IceTopUnderSnowOnWater |
    Tol_IceLayerUnderSnowOnWater | Tol_IceBottomOnWater | Tol_IndefiniteSoilDepth | Tol_MeltPondTop |
    Tol_MeltPondBottom | Tol_EntireMeltPond | Tol_IceLayerAboveWaterSurface |
    Tol_WaterSurfaceToIsothermalOceanLayer | Tol_TotalSoilLayer | Tol_RootZone | Tol_Roof | Tol_RoofLayer |
    Tol_Wall | Tol_WallLayer | Tol_Road | Tol_RoadLayer | Tol_UrbanCanyon | Tol_AbstractSingleLevel |
    Tol_AbstractMultipleLevels | Tol_HeightAboveGroundAt2m | Tol_HeightAboveGroundAt10m | Tol_HeightAboveSeaAt10m

primrec dump_TypeOfLevel :: "TypeOfLevel \<Rightarrow> string" where
  "dump_TypeOfLevel Tol_Surface = ''surface''"
| "dump_TypeOfLevel Tol_Troposphere = ''troposphere''"
| "dump_TypeOfLevel Tol_EntireAtmosphere = ''entireAtmosphere''"
| "dump_TypeOfLevel Tol_EntireOcean = ''entireOcean''"
| "dump_TypeOfLevel Tol_EntireLake = ''entireLake''"
| "dump_TypeOfLevel Tol_CloudBase = ''cloudBase''"
| "dump_TypeOfLevel Tol_CloudTop = ''cloudTop''"
| "dump_TypeOfLevel Tol_IsothermZero = ''isothermZero''"
| "dump_TypeOfLevel Tol_AdiabaticCondensation = ''adiabaticCondensation''"
| "dump_TypeOfLevel Tol_MaxWind = ''maxWind''"
| "dump_TypeOfLevel Tol_Tropopause = ''tropopause''"
| "dump_TypeOfLevel Tol_Stratosphere = ''stratosphere''"
| "dump_TypeOfLevel Tol_NominalTop = ''nominalTop''"
| "dump_TypeOfLevel Tol_SeaBottom = ''seaBottom''"
| "dump_TypeOfLevel Tol_Atmosphere = ''atmosphere''"
| "dump_TypeOfLevel Tol_CumulonimbusBase = ''cumulonimbusBase''"
| "dump_TypeOfLevel Tol_CumulonimbusTop = ''cumulonimbusTop''"
| "dump_TypeOfLevel Tol_FreeConvection = ''freeConvection''"
| "dump_TypeOfLevel Tol_ConvectiveCondensation = ''convectiveCondensation''"
| "dump_TypeOfLevel Tol_NeutralBuoyancy = ''neutralBuoyancy''"
| "dump_TypeOfLevel Tol_MostUnstableParcel = ''mostUnstableParcel''"
| "dump_TypeOfLevel Tol_MixedLayerParcel = ''mixedLayerParcel''"
| "dump_TypeOfLevel Tol_LowestLevelOfCloudCoverExceedance = ''lowestLevelOfCloudCoverExceedance''"
| "dump_TypeOfLevel Tol_Isothermal = ''isothermal''"
| "dump_TypeOfLevel Tol_IsobaricInPa = ''isobaricInPa''"
| "dump_TypeOfLevel Tol_IsobaricInhPa = ''isobaricInhPa''"
| "dump_TypeOfLevel Tol_IsobaricLayer = ''isobaricLayer''"
| "dump_TypeOfLevel Tol_LowCloudLayer = ''lowCloudLayer''"
| "dump_TypeOfLevel Tol_MediumCloudLayer = ''mediumCloudLayer''"
| "dump_TypeOfLevel Tol_HighCloudLayer = ''highCloudLayer''"
| "dump_TypeOfLevel Tol_MeanSea = ''meanSea''"
| "dump_TypeOfLevel Tol_HeightAboveSea = ''heightAboveSea''"
| "dump_TypeOfLevel Tol_HeightAboveSeaLayer = ''heightAboveSeaLayer''"
| "dump_TypeOfLevel Tol_HeightAboveGround = ''heightAboveGround''"
| "dump_TypeOfLevel Tol_HeightAboveGroundLayer = ''heightAboveGroundLayer''"
| "dump_TypeOfLevel Tol_Sigma = ''sigma''"
| "dump_TypeOfLevel Tol_SigmaLayer = ''sigmaLayer''"
| "dump_TypeOfLevel Tol_Hybrid = ''hybrid''"
| "dump_TypeOfLevel Tol_HybridLayer = ''hybridLayer''"
| "dump_TypeOfLevel Tol_DepthBelowLand = ''depthBelowLand''"
| "dump_TypeOfLevel Tol_DepthBelowLandLayer = ''depthBelowLandLayer''"
| "dump_TypeOfLevel Tol_Theta = ''theta''"
| "dump_TypeOfLevel Tol_ThetaLayer = ''thetaLayer''"
| "dump_TypeOfLevel Tol_PressureFromGround = ''pressureFromGround''"
| "dump_TypeOfLevel Tol_PressureFromGroundLayer = ''pressureFromGroundLayer''"
| "dump_TypeOfLevel Tol_PotentialVorticity = ''potentialVorticity''"
| "dump_TypeOfLevel Tol_Eta = ''eta''"
| "dump_TypeOfLevel Tol_Snow = ''snow''"
| "dump_TypeOfLevel Tol_SnowLayer = ''snowLayer''"
| "dump_TypeOfLevel Tol_MixedLayerDepthGeneric = ''mixedLayerDepthGeneric''"
| "dump_TypeOfLevel Tol_HybridHeight = ''hybridHeight''"
| "dump_TypeOfLevel Tol_HybridPressure = ''hybridPressure''"
| "dump_TypeOfLevel Tol_GeneralVertical = ''generalVertical''"
| "dump_TypeOfLevel Tol_GeneralVerticalLayer = ''generalVerticalLayer''"
| "dump_TypeOfLevel Tol_Soil = ''soil''"
| "dump_TypeOfLevel Tol_SoilLayer = ''soilLayer''"
| "dump_TypeOfLevel Tol_SeaIce = ''seaIce''"
| "dump_TypeOfLevel Tol_SeaIceLayer = ''seaIceLayer''"
| "dump_TypeOfLevel Tol_DepthBelowSea = ''depthBelowSea''"
| "dump_TypeOfLevel Tol_OceanSurface = ''oceanSurface''"
| "dump_TypeOfLevel Tol_DepthBelowSeaLayer = ''depthBelowSeaLayer''"
| "dump_TypeOfLevel Tol_OceanSurfaceToBottom = ''oceanSurfaceToBottom''"
| "dump_TypeOfLevel Tol_LakeBottom = ''lakeBottom''"
| "dump_TypeOfLevel Tol_MixingLayer = ''mixingLayer''"
| "dump_TypeOfLevel Tol_OceanModel = ''oceanModel''"
| "dump_TypeOfLevel Tol_OceanModelLayer = ''oceanModelLayer''"
| "dump_TypeOfLevel Tol_MixedLayerDepthByDensity = ''mixedLayerDepthByDensity''"
| "dump_TypeOfLevel Tol_MixedLayerDepthByTemperature = ''mixedLayerDepthByTemperature''"
| "dump_TypeOfLevel Tol_MixedLayerDepthByDiffusivity = ''mixedLayerDepthByDiffusivity''"
| "dump_TypeOfLevel Tol_SnowTopOverIceOnWater = ''snowTopOverIceOnWater''"
| "dump_TypeOfLevel Tol_SnowLayerOverIceOnWater = ''snowLayerOverIceOnWater''"
| "dump_TypeOfLevel Tol_IceTopOnWater = ''iceTopOnWater''"
| "dump_TypeOfLevel Tol_IceLayerOnWater = ''iceLayerOnWater''"
| "dump_TypeOfLevel Tol_IceTopUnderSnowOnWater = ''iceTopUnderSnowOnWater''"
| "dump_TypeOfLevel Tol_IceLayerUnderSnowOnWater = ''iceLayerUnderSnowOnWater''"
| "dump_TypeOfLevel Tol_IceBottomOnWater = ''iceBottomOnWater''"
| "dump_TypeOfLevel Tol_IndefiniteSoilDepth = ''indefiniteSoilDepth''"
| "dump_TypeOfLevel Tol_MeltPondTop = ''meltPondTop''"
| "dump_TypeOfLevel Tol_MeltPondBottom = ''meltPondBottom''"
| "dump_TypeOfLevel Tol_EntireMeltPond = ''entireMeltPond''"
| "dump_TypeOfLevel Tol_IceLayerAboveWaterSurface = ''iceLayerAboveWaterSurface''"
| "dump_TypeOfLevel Tol_WaterSurfaceToIsothermalOceanLayer = ''waterSurfaceToIsothermalOceanLayer''"
| "dump_TypeOfLevel Tol_TotalSoilLayer = ''totalSoilLayer''"
| "dump_TypeOfLevel Tol_RootZone = ''rootZone''"
| "dump_TypeOfLevel Tol_Roof = ''roof''"
| "dump_TypeOfLevel Tol_RoofLayer = ''roofLayer''"
| "dump_TypeOfLevel Tol_Wall = ''wall''"
| "dump_TypeOfLevel Tol_WallLayer = ''wallLayer''"
| "dump_TypeOfLevel Tol_Road = ''road''"
| "dump_TypeOfLevel Tol_RoadLayer = ''roadLayer''"
| "dump_TypeOfLevel Tol_UrbanCanyon = ''urbanCanyon''"
| "dump_TypeOfLevel Tol_AbstractSingleLevel = ''abstractSingleLevel''"
| "dump_TypeOfLevel Tol_AbstractMultipleLevels = ''abstractMultipleLevels''"
| "dump_TypeOfLevel Tol_HeightAboveGroundAt2m = ''heightAboveGroundAt2m''"
| "dump_TypeOfLevel Tol_HeightAboveGroundAt10m = ''heightAboveGroundAt10m''"
| "dump_TypeOfLevel Tol_HeightAboveSeaAt10m = ''heightAboveSeaAt10m''"

definition typeOfLevels :: "(string \<times> TypeOfLevel) list" where
  "typeOfLevels = [
    (''surface'', Tol_Surface), (''troposphere'', Tol_Troposphere), (''entireAtmosphere'', Tol_EntireAtmosphere),
    (''entireOcean'', Tol_EntireOcean), (''entireLake'', Tol_EntireLake), (''cloudBase'', Tol_CloudBase),
    (''cloudTop'', Tol_CloudTop), (''isothermZero'', Tol_IsothermZero),
    (''adiabaticCondensation'', Tol_AdiabaticCondensation), (''maxWind'', Tol_MaxWind),
    (''tropopause'', Tol_Tropopause), (''stratosphere'', Tol_Stratosphere), (''nominalTop'', Tol_NominalTop),
    (''seaBottom'', Tol_SeaBottom), (''atmosphere'', Tol_Atmosphere), (''cumulonimbusBase'', Tol_CumulonimbusBase),
    (''cumulonimbusTop'', Tol_CumulonimbusTop), (''freeConvection'', Tol_FreeConvection),
    (''convectiveCondensation'', Tol_ConvectiveCondensation), (''neutralBuoyancy'', Tol_NeutralBuoyancy),
    (''mostUnstableParcel'', Tol_MostUnstableParcel), (''mixedLayerParcel'', Tol_MixedLayerParcel),
    (''lowestLevelOfCloudCoverExceedance'', Tol_LowestLevelOfCloudCoverExceedance), (''isothermal'', Tol_Isothermal),
    (''isobaricInPa'', Tol_IsobaricInPa), (''isobaricInhPa'', Tol_IsobaricInhPa),
    (''isobaricLayer'', Tol_IsobaricLayer), (''lowCloudLayer'', Tol_LowCloudLayer),
    (''mediumCloudLayer'', Tol_MediumCloudLayer), (''highCloudLayer'', Tol_HighCloudLayer),
    (''meanSea'', Tol_MeanSea), (''heightAboveSea'', Tol_HeightAboveSea),
    (''heightAboveSeaLayer'', Tol_HeightAboveSeaLayer), (''heightAboveGround'', Tol_HeightAboveGround),
    (''heightAboveGroundLayer'', Tol_HeightAboveGroundLayer), (''sigma'', Tol_Sigma),
    (''sigmaLayer'', Tol_SigmaLayer), (''hybrid'', Tol_Hybrid), (''hybridLayer'', Tol_HybridLayer),
    (''depthBelowLand'', Tol_DepthBelowLand), (''depthBelowLandLayer'', Tol_DepthBelowLandLayer),
    (''theta'', Tol_Theta), (''thetaLayer'', Tol_ThetaLayer), (''pressureFromGround'', Tol_PressureFromGround),
    (''pressureFromGroundLayer'', Tol_PressureFromGroundLayer), (''potentialVorticity'', Tol_PotentialVorticity),
    (''eta'', Tol_Eta), (''snow'', Tol_Snow), (''snowLayer'', Tol_SnowLayer),
    (''mixedLayerDepthGeneric'', Tol_MixedLayerDepthGeneric), (''hybridHeight'', Tol_HybridHeight),
    (''hybridPressure'', Tol_HybridPressure), (''generalVertical'', Tol_GeneralVertical),
    (''generalVerticalLayer'', Tol_GeneralVerticalLayer), (''soil'', Tol_Soil), (''soilLayer'', Tol_SoilLayer),
    (''seaIce'', Tol_SeaIce), (''seaIceLayer'', Tol_SeaIceLayer), (''depthBelowSea'', Tol_DepthBelowSea),
    (''oceanSurface'', Tol_OceanSurface), (''depthBelowSeaLayer'', Tol_DepthBelowSeaLayer),
    (''oceanSurfaceToBottom'', Tol_OceanSurfaceToBottom), (''lakeBottom'', Tol_LakeBottom),
    (''mixingLayer'', Tol_MixingLayer), (''oceanModel'', Tol_OceanModel), (''oceanModelLayer'', Tol_OceanModelLayer),
    (''mixedLayerDepthByDensity'', Tol_MixedLayerDepthByDensity),
    (''mixedLayerDepthByTemperature'', Tol_MixedLayerDepthByTemperature),
    (''mixedLayerDepthByDiffusivity'', Tol_MixedLayerDepthByDiffusivity),
    (''snowTopOverIceOnWater'', Tol_SnowTopOverIceOnWater),
    (''snowLayerOverIceOnWater'', Tol_SnowLayerOverIceOnWater), (''iceTopOnWater'', Tol_IceTopOnWater),
    (''iceLayerOnWater'', Tol_IceLayerOnWater), (''iceTopUnderSnowOnWater'', Tol_IceTopUnderSnowOnWater),
    (''iceLayerUnderSnowOnWater'', Tol_IceLayerUnderSnowOnWater), (''iceBottomOnWater'', Tol_IceBottomOnWater),
    (''indefiniteSoilDepth'', Tol_IndefiniteSoilDepth), (''meltPondTop'', Tol_MeltPondTop),
    (''meltPondBottom'', Tol_MeltPondBottom), (''entireMeltPond'', Tol_EntireMeltPond),
    (''iceLayerAboveWaterSurface'', Tol_IceLayerAboveWaterSurface),
    (''waterSurfaceToIsothermalOceanLayer'', Tol_WaterSurfaceToIsothermalOceanLayer),
    (''totalSoilLayer'', Tol_TotalSoilLayer), (''rootZone'', Tol_RootZone), (''roof'', Tol_Roof),
    (''roofLayer'', Tol_RoofLayer), (''wall'', Tol_Wall), (''wallLayer'', Tol_WallLayer), (''road'', Tol_Road),
    (''roadLayer'', Tol_RoadLayer), (''urbanCanyon'', Tol_UrbanCanyon),
    (''abstractSingleLevel'', Tol_AbstractSingleLevel), (''abstractMultipleLevel'', Tol_AbstractMultipleLevels),
    (''heightAboveGroundAt2m'', Tol_HeightAboveGroundAt2m), (''heightAboveGroundAt10m'', Tol_HeightAboveGroundAt10m),
    (''heightAboveSeaAt10m'', Tol_HeightAboveSeaAt10m)]"

definition parse_TypeOfLevel :: "string \<Rightarrow> TypeOfLevel res" where
  "parse_TypeOfLevel val =
     (case find (\<lambda>p. val = fst p) typeOfLevels of
        Some p \<Rightarrow> Inr (snd p)
      | None \<Rightarrow> Inl DataModellingException)"

lemma parse_TypeOfLevel_map_of:
  "parse_TypeOfLevel val = (case map_of typeOfLevels val of Some v \<Rightarrow> Inr v | None \<Rightarrow> Inl DataModellingException)"
proof -
  have "find (\<lambda>p. val = fst p) xs = map_option (\<lambda>v. (val, v)) (map_of xs val)" for xs :: "(string \<times> TypeOfLevel) list"
    by (induction xs) auto
  then show ?thesis by (simp add: parse_TypeOfLevel_def split: option.splits)
qed

text \<open>The table in terms of the names that are dumped: one of them is spelled differently.\<close>

definition table_name :: "TypeOfLevel \<Rightarrow> string" where
  "table_name v = (if v = Tol_AbstractMultipleLevels then ''abstractMultipleLevel'' else dump_TypeOfLevel v)"

definition all_levels :: "TypeOfLevel list" where
  "all_levels = [
    Tol_Surface, Tol_Troposphere, Tol_EntireAtmosphere, Tol_EntireOcean, Tol_EntireLake, Tol_CloudBase, Tol_CloudTop,
    Tol_IsothermZero, Tol_AdiabaticCondensation, Tol_MaxWind, Tol_Tropopause, Tol_Stratosphere, Tol_NominalTop,
    Tol_SeaBottom, Tol_Atmosphere, Tol_CumulonimbusBase, Tol_CumulonimbusTop, Tol_FreeConvection,
    Tol_ConvectiveCondensation, Tol_NeutralBuoyancy, Tol_MostUnstableParcel, Tol_MixedLayerParcel,
    Tol_LowestLevelOfCloudCoverExceedance, Tol_Isothermal, Tol_IsobaricInPa, Tol_IsobaricInhPa, Tol_IsobaricLayer,
    Tol_LowCloudLayer, Tol_MediumCloudLayer, Tol_HighCloudLayer, Tol_MeanSea, Tol_HeightAboveSea,
    Tol_HeightAboveSeaLayer, Tol_HeightAboveGround, Tol_HeightAboveGroundLayer, Tol_Sigma, Tol_SigmaLayer,
    Tol_Hybrid, Tol_HybridLayer, Tol_DepthBelowLand, Tol_DepthBelowLandLayer, Tol_Theta, Tol_ThetaLayer,
    Tol_PressureFromGround, Tol_PressureFromGroundLayer, Tol_PotentialVorticity, Tol_Eta, Tol_Snow, Tol_SnowLayer,
    Tol_MixedLayerDepthGeneric, Tol_HybridHeight, Tol_HybridPressure, Tol_GeneralVertical, Tol_GeneralVerticalLayer,
    Tol_Soil, Tol_SoilLayer, Tol_SeaIce, Tol_SeaIceLayer, Tol_DepthBelowSea, Tol_OceanSurface,
    Tol_DepthBelowSeaLayer, Tol_OceanSurfaceToBottom, Tol_LakeBottom, Tol_MixingLayer, Tol_OceanModel,
    Tol_OceanModelLayer, Tol_MixedLayerDepthByDensity, Tol_MixedLayerDepthByTemperature,
    Tol_MixedLayerDepthByDiffusivity, Tol_SnowTopOverIceOnWater, Tol_SnowLayerOverIceOnWater, Tol_IceTopOnWater,
    Tol_IceLayerOnWater, Tol_IceTopUnderSnowOnWater, Tol_IceLayerUnderSnowOnWater, Tol_IceBottomOnWater,
    Tol_IndefiniteSoilDepth, Tol_MeltPondTop, Tol_MeltPondBottom, Tol_EntireMeltPond, Tol_IceLayerAboveWaterSurface,
    Tol_WaterSurfaceToIsothermalOceanLayer, Tol_TotalSoilLayer, Tol_RootZone, Tol_Roof, Tol_RoofLayer, Tol_Wall,
    Tol_WallLayer, Tol_Road, Tol_RoadLayer, Tol_UrbanCanyon, Tol_AbstractSingleLevel, Tol_AbstractMultipleLevels,
    Tol_HeightAboveGroundAt2m, Tol_HeightAboveGroundAt10m, Tol_HeightAboveSeaAt10m]"

lemma typeOfLevels_table: "typeOfLevels = map (\<lambda>v. (table_name v, v)) all_levels"
  by (simp add: typeOfLevels_def all_levels_def table_name_def)

lemma all_levels_all: "v \<in> set all_levels"
  by (cases v) (simp_all add: all_levels_def)

lemma typeOfLevels_distinct: "distinct (map fst typeOfLevels)"
  by code_simp

lemma parse_table_name: "parse_TypeOfLevel s = Inr v \<longleftrightarrow> s = table_name v"
proof -
  have "(s, v) \<in> set typeOfLevels \<longleftrightarrow> s = table_name v" for s v
    using all_levels_all [of v] by (auto simp: typeOfLevels_table)
  then have "map_of typeOfLevels s = Some v \<longleftrightarrow> s = table_name v"
    by (simp add: map_of_eq_Some_iff [OF typeOfLevels_distinct])
  then show ?thesis by (cases "map_of typeOfLevels s") (simp_all add: parse_TypeOfLevel_map_of)
qed

lemma dump_not_in_table: "table_name v \<noteq> dump_TypeOfLevel Tol_AbstractMultipleLevels"
  by (cases v) (simp_all add: table_name_def)

text \<open>
  The types of levels are read back from their names, with one exception: \<open>AbstractMultipleLevels\<close> is dumped as
  \<open>abstractMultipleLevels\<close>, which the parser refuses, because its table has the name \<open>abstractMultipleLevel\<close>.
\<close>

theorem type_of_level_round_trip:
  "parse_TypeOfLevel (dump_TypeOfLevel v) =
     (if v = Tol_AbstractMultipleLevels then Inl DataModellingException else Inr v)"
proof (cases "v = Tol_AbstractMultipleLevels")
  case True
  have "map_of typeOfLevels (dump_TypeOfLevel v) = None"
    using dump_not_in_table True by (force simp: map_of_eq_None_iff typeOfLevels_table)
  then show ?thesis using True by (simp add: parse_TypeOfLevel_map_of)
next
  case False
  then show ?thesis by (simp add: parse_table_name table_name_def)
qed

end
