(* ===== verification/NestCodec.thy ===== *)
theory NestCodec
  imports Prelude
begin

text \<open>
  \<^verbatim>\<open>CodecFijNest\<close> of \<^verbatim>\<open>action/renumber-healpix/HEALPix.cc\<close>: the nested index of a pixel of a HEALPix grid has the
  number of the face and the bits of the two coordinates in the face, interleaved. The codec is shown to be one:
  \<open>fij_round_trip\<close>.
\<close>

section \<open>Interleaving of bits\<close>

text \<open>\<^verbatim>\<open>CodecFijNest\<close>: the bits of the two coordinates in a face are interleaved.\<close>

definition spread_mask :: "nat \<Rightarrow> u64" where
  "spread_mask i = [0x00000000ffffffff, 0x0000ffff0000ffff, 0x00ff00ff00ff00ff,
     0x0f0f0f0f0f0f0f0f, 0x3333333333333333, 0x5555555555555555] ! i"

definition to_int :: "u64 \<Rightarrow> int" where
  "to_int b = sint (ucast b :: 32 word)"

definition nest_encode_bits :: "int \<Rightarrow> int" where
  "nest_encode_bits n =
     (let b = (word_of_int n :: u64) AND spread_mask 0;
          b = (b XOR push_bit 16 b) AND spread_mask 1;
          b = (b XOR push_bit 8 b) AND spread_mask 2;
          b = (b XOR push_bit 4 b) AND spread_mask 3;
          b = (b XOR push_bit 2 b) AND spread_mask 4;
          b = (b XOR push_bit 1 b) AND spread_mask 5
      in to_int b)"

definition nest_decode_bits :: "int \<Rightarrow> int" where
  "nest_decode_bits n =
     (let b = (word_of_int n :: u64) AND spread_mask 5;
          b = (b XOR drop_bit 1 b) AND spread_mask 4;
          b = (b XOR drop_bit 2 b) AND spread_mask 3;
          b = (b XOR drop_bit 4 b) AND spread_mask 2;
          b = (b XOR drop_bit 8 b) AND spread_mask 1;
          b = (b XOR drop_bit 16 b) AND spread_mask 0
      in to_int b)"

lemma spread_masks [simp]:
  "spread_mask 0 = 0x00000000ffffffff" "spread_mask (Suc 0) = 0x0000ffff0000ffff"
  "spread_mask 2 = 0x00ff00ff00ff00ff" "spread_mask 3 = 0x0f0f0f0f0f0f0f0f"
  "spread_mask 4 = 0x3333333333333333" "spread_mask 5 = 0x5555555555555555"
  by (simp_all add: spread_mask_def)

lemma less_64_cases:
  fixes m :: nat
  assumes "m < 64"
  shows "m \<in> {0,1,2,3,4,5,6,7,8,9,10,11,12,13,14,15,16,17,18,19,20,21,22,23,24,25,26,27,28,29,30,31,
    32,33,34,35,36,37,38,39,40,41,42,43,44,45,46,47,48,49,50,51,52,53,54,55,56,57,58,59,60,61,62,63}"
  using assms by (simp add: insert_iff) arith

text \<open>
  The bits of \<open>w\<close> in blocks of \<open>k\<close> bits with gaps of \<open>k\<close> bits: every step of the encoder halves the blocks, every
  step of the decoder doubles them.
\<close>

definition blocks :: "nat \<Rightarrow> u64 \<Rightarrow> nat \<Rightarrow> bool" where
  "blocks k w n \<longleftrightarrow> n mod (2 * k) < k \<and> bit w (n div (2 * k) * k + n mod (2 * k))"

lemma bit_split_step:
  fixes b :: u64
  assumes "n < 64"
  shows "bit ((b XOR push_bit k b) AND m) n \<longleftrightarrow> bit m n \<and> bit b n \<noteq> (k \<le> n \<and> bit b (n - k))"
  using assms by (simp only: bit_and_iff bit_xor_iff bit_push_bit_iff) auto

lemma bit_join_step:
  fixes b :: u64
  shows "bit ((b XOR drop_bit k b) AND m) n \<longleftrightarrow> bit m n \<and> bit b n \<noteq> bit b (k + n)"
  by (simp only: bit_and_iff bit_xor_iff bit_drop_bit_eq o_def) auto

lemma encode_start: "n < 64 \<Longrightarrow> bit (w AND spread_mask 0) n = blocks 32 w n"
  by (drule less_64_cases) (elim insertE emptyE; simp add: bit_and_iff blocks_def flip: numeral_2_eq_2)

lemma encode_step_16:
  "(\<And>n. n < 64 \<Longrightarrow> bit b n = blocks 32 w n) \<Longrightarrow> n < 64 \<Longrightarrow>
     bit ((b XOR push_bit 16 b) AND spread_mask 1) n = blocks 16 w n"
  by (drule less_64_cases) (elim insertE emptyE; simp add: bit_split_step blocks_def flip: numeral_2_eq_2)

lemma encode_step_8:
  "(\<And>n. n < 64 \<Longrightarrow> bit b n = blocks 16 w n) \<Longrightarrow> n < 64 \<Longrightarrow>
     bit ((b XOR push_bit 8 b) AND spread_mask 2) n = blocks 8 w n"
  by (drule less_64_cases) (elim insertE emptyE; simp add: bit_split_step blocks_def flip: numeral_2_eq_2)

lemma encode_step_4:
  "(\<And>n. n < 64 \<Longrightarrow> bit b n = blocks 8 w n) \<Longrightarrow> n < 64 \<Longrightarrow>
     bit ((b XOR push_bit 4 b) AND spread_mask 3) n = blocks 4 w n"
  by (drule less_64_cases) (elim insertE emptyE; simp add: bit_split_step blocks_def flip: numeral_2_eq_2)

lemma encode_step_2:
  "(\<And>n. n < 64 \<Longrightarrow> bit b n = blocks 4 w n) \<Longrightarrow> n < 64 \<Longrightarrow>
     bit ((b XOR push_bit 2 b) AND spread_mask 4) n = blocks 2 w n"
  by (drule less_64_cases) (elim insertE emptyE; simp add: bit_split_step blocks_def flip: numeral_2_eq_2)

lemma encode_step_1:
  "(\<And>n. n < 64 \<Longrightarrow> bit b n = blocks 2 w n) \<Longrightarrow> n < 64 \<Longrightarrow>
     bit ((b XOR push_bit 1 b) AND spread_mask 5) n = blocks 1 w n"
  by (subst bit_split_step, assumption, drule less_64_cases)
    (elim insertE emptyE; simp add: blocks_def flip: numeral_2_eq_2)

lemma bits_above: "64 \<le> n \<Longrightarrow> \<not> bit (b :: u64) n"
  using bit_imp_le_length [of b n] by auto

lemma decode_start:
  "(\<And>n. n < 64 \<Longrightarrow> even n \<Longrightarrow> bit b n = bit w (n div 2)) \<Longrightarrow> n < 64 \<Longrightarrow> bit (b AND spread_mask 5) n = blocks 1 w n"
  by (drule less_64_cases) (elim insertE emptyE; simp add: bit_and_iff blocks_def flip: numeral_2_eq_2)

lemma decode_step_1:
  "(\<And>n. n < 64 \<Longrightarrow> bit b n = blocks 1 w n) \<Longrightarrow> n < 64 \<Longrightarrow>
     bit ((b XOR drop_bit 1 b) AND spread_mask 4) n = blocks 2 w n"
  by (drule less_64_cases) (elim insertE emptyE; simp add: bit_join_step blocks_def bits_above flip: numeral_2_eq_2)

lemma decode_step_2:
  "(\<And>n. n < 64 \<Longrightarrow> bit b n = blocks 2 w n) \<Longrightarrow> n < 64 \<Longrightarrow>
     bit ((b XOR drop_bit 2 b) AND spread_mask 3) n = blocks 4 w n"
  by (drule less_64_cases) (elim insertE emptyE; simp add: bit_join_step blocks_def bits_above flip: numeral_2_eq_2)

lemma decode_step_4:
  "(\<And>n. n < 64 \<Longrightarrow> bit b n = blocks 4 w n) \<Longrightarrow> n < 64 \<Longrightarrow>
     bit ((b XOR drop_bit 4 b) AND spread_mask 2) n = blocks 8 w n"
  by (drule less_64_cases) (elim insertE emptyE; simp add: bit_join_step blocks_def bits_above flip: numeral_2_eq_2)

lemma decode_step_8:
  "(\<And>n. n < 64 \<Longrightarrow> bit b n = blocks 8 w n) \<Longrightarrow> n < 64 \<Longrightarrow>
     bit ((b XOR drop_bit 8 b) AND spread_mask 1) n = blocks 16 w n"
  by (drule less_64_cases) (elim insertE emptyE; simp add: bit_join_step blocks_def bits_above flip: numeral_2_eq_2)

lemma decode_step_16:
  "(\<And>n. n < 64 \<Longrightarrow> bit b n = blocks 16 w n) \<Longrightarrow> n < 64 \<Longrightarrow>
     bit ((b XOR drop_bit 16 b) AND spread_mask 0) n = blocks 32 w n"
  by (drule less_64_cases) (elim insertE emptyE; simp add: bit_join_step blocks_def bits_above flip: numeral_2_eq_2)


section \<open>What the codec does\<close>

lemma to_int_bits:
  assumes "\<And>n. 31 \<le> n \<Longrightarrow> \<not> bit b n"
  shows "bit (to_int b) n = bit b n"
  using assms by (cases "n < 31") (auto simp: to_int_def bit_sint_iff bit_ucast_iff min_def not_less)

lemma encode_word:
  assumes "n < 64"
  shows "bit (let b = (w :: u64) AND spread_mask 0;
          b = (b XOR push_bit 16 b) AND spread_mask 1;
          b = (b XOR push_bit 8 b) AND spread_mask 2;
          b = (b XOR push_bit 4 b) AND spread_mask 3;
          b = (b XOR push_bit 2 b) AND spread_mask 4;
          b = (b XOR push_bit 1 b) AND spread_mask 5
      in b) n = blocks 1 w n"
  unfolding Let_def
  by (rule encode_step_1 encode_step_2 encode_step_4 encode_step_8 encode_step_16 encode_start assms | assumption)+

lemma decode_word:
  assumes "\<And>n. n < 64 \<Longrightarrow> even n \<Longrightarrow> bit v n = bit w (n div 2)" and "n < 64"
  shows "bit (let b = (v :: u64) AND spread_mask 5;
          b = (b XOR drop_bit 1 b) AND spread_mask 4;
          b = (b XOR drop_bit 2 b) AND spread_mask 3;
          b = (b XOR drop_bit 4 b) AND spread_mask 2;
          b = (b XOR drop_bit 8 b) AND spread_mask 1;
          b = (b XOR drop_bit 16 b) AND spread_mask 0
      in b) n = blocks 32 w n"
  unfolding Let_def
  by (rule decode_step_16 decode_step_8 decode_step_4 decode_step_2 decode_step_1 decode_start assms | assumption)+

lemma no_high_bit:
  assumes "0 \<le> i" and "i < 2 ^ 15" and "15 \<le> m"
  shows "\<not> bit (i :: int) m"
proof -
  have "i < 2 ^ m" using assms(2,3) by (meson less_le_trans power_increasing one_le_numeral)
  then show ?thesis using assms(1) by (simp add: bit_iff_odd)
qed

text \<open>Below \<open>2 ^ 15\<close> the encoder puts the bits at the even places, and the decoder takes them from there.\<close>

lemma bit_nest_encode:
  assumes "0 \<le> i" and "i < 2 ^ 15"
  shows "bit (nest_encode_bits i) n \<longleftrightarrow> even n \<and> bit i (n div 2)"
proof -
  note high = no_high_bit [OF assms(1,2)]
  have w: "bit (word_of_int i :: u64) m = bit i m" for m
    using high [of m] by (cases "m < 64") (auto simp: bit_word_of_int_iff)
  have enc: "bit (let b = (word_of_int i :: u64) AND spread_mask 0;
          b = (b XOR push_bit 16 b) AND spread_mask 1;
          b = (b XOR push_bit 8 b) AND spread_mask 2;
          b = (b XOR push_bit 4 b) AND spread_mask 3;
          b = (b XOR push_bit 2 b) AND spread_mask 4;
          b = (b XOR push_bit 1 b) AND spread_mask 5
      in b) m \<longleftrightarrow> even m \<and> bit i (m div 2)" (is "bit ?b m \<longleftrightarrow> _") for m
  proof (cases "m < 64")
    case True
    have "m mod 2 < 1 \<longleftrightarrow> even m" by (simp add: even_iff_mod_2_eq_zero)
    then show ?thesis unfolding encode_word [OF True] blocks_def w by auto
  next
    case False
    then show ?thesis using bits_above [of m ?b] high [of "m div 2"] by (simp add: not_less)
  qed
  have "\<not> bit ?b m" if "31 \<le> m" for m
    using enc [of m] high [of "m div 2"] that by auto
  from to_int_bits [OF this] show ?thesis
    using enc [of n] unfolding nest_encode_bits_def Let_def by blast
qed

lemma nest_decode:
  assumes "0 \<le> i" and "i < 2 ^ 15" and "\<And>n. n < 64 \<Longrightarrow> even n \<Longrightarrow> bit v n = bit i (n div 2)"
  shows "nest_decode_bits v = i"
proof (rule bit_eqI)
  fix n
  note high = no_high_bit [OF assms(1,2)]
  have v: "bit (word_of_int v :: u64) m = bit (word_of_int i :: u64) (m div 2)" if "m < 64" "even m" for m
    using assms(3) [OF that] that less_le_trans [OF div_less_dividend [of 2 m]] by (cases "m = 0") (auto simp: bit_word_of_int_iff)
  have dec: "bit (let b = (word_of_int v :: u64) AND spread_mask 5;
          b = (b XOR drop_bit 1 b) AND spread_mask 4;
          b = (b XOR drop_bit 2 b) AND spread_mask 3;
          b = (b XOR drop_bit 4 b) AND spread_mask 2;
          b = (b XOR drop_bit 8 b) AND spread_mask 1;
          b = (b XOR drop_bit 16 b) AND spread_mask 0
      in b) m = bit i m" (is "bit ?b m = _") for m
  proof (cases "m < 64")
    case True
    have "blocks 32 (word_of_int i) m = bit i m"
      using high [of m] True by (cases "m < 32") (auto simp: blocks_def bit_word_of_int_iff not_less)
    with decode_word [OF v True] show ?thesis by simp
  next
    case False
    then show ?thesis using bits_above [of m ?b] high [of m] by (simp add: not_less)
  qed
  have "\<not> bit ?b m" if "31 \<le> m" for m
    using dec [of m] high [of m] that by auto
  from to_int_bits [OF this] show "bit (nest_decode_bits v) n = bit i n"
    using dec [of n] unfolding nest_decode_bits_def Let_def by blast
qed


section \<open>Face, coordinates and nested index\<close>

definition nest_to_fij :: "int \<Rightarrow> nat \<Rightarrow> (int \<times> int \<times> int) res" where
  "nest_to_fij n k =
     (if \<not> 0 \<le> n then Inl AssertionFailed
      else let f = drop_bit (2 * k) n;
               n = n AND (push_bit (2 * k) 1 - 1)
           in Inr (f, nest_decode_bits n, nest_decode_bits (drop_bit 1 n)))"

definition fij_to_nest :: "int \<Rightarrow> int \<Rightarrow> int \<Rightarrow> nat \<Rightarrow> int" where
  "fij_to_nest f i j k =
     push_bit (2 * k) f + nest_encode_bits i + push_bit 1 (nest_encode_bits j)"

lemma plus_disjoint_bits:
  fixes a b :: int
  assumes "\<And>n. \<not> (bit a n \<and> bit b n)"
  shows "a + b = a OR b"
  using assms by (intro disjunctive_add) auto

lemma below_power_bits:
  fixes a :: int
  assumes "\<And>n. m \<le> n \<Longrightarrow> \<not> bit a n"
  shows "0 \<le> a \<and> a < 2 ^ m"
proof -
  have "take_bit m a = a"
    using assms by (intro bit_eqI) (auto simp: bit_take_bit_iff not_less [symmetric])
  then show ?thesis by (metis take_bit_int_less_exp take_bit_nonnegative)
qed

lemma bit_interleaved:
  assumes "0 \<le> i" "i < 2 ^ 15" "0 \<le> j" "j < 2 ^ 15"
  shows "bit (nest_encode_bits i + push_bit 1 (nest_encode_bits j)) n =
    (if even n then bit i (n div 2) else bit j (n div 2))"
proof -
  obtain y where y: "y = push_bit 1 (nest_encode_bits j)" by simp
  have bits: "bit y m \<longleftrightarrow> odd m \<and> bit j (m div 2)" for m
    unfolding y bit_push_bit_iff bit_nest_encode [OF assms(3,4)] by (cases m) (auto elim!: oddE evenE)
  have "nest_encode_bits i + y = nest_encode_bits i OR y"
    by (rule plus_disjoint_bits) (simp add: bit_nest_encode [OF assms(1,2)] bits)
  then show ?thesis
    unfolding y [symmetric] by (simp add: bit_or_iff bit_nest_encode [OF assms(1,2)] bits)
qed

lemma small_coordinate:
  assumes "x < 2 ^ k" and "k \<le> 15"
  shows "(x :: int) < 2 ^ 15"
  using assms by (meson less_le_trans power_increasing one_le_numeral)

lemma interleaved_range:
  assumes "0 \<le> i" "i < 2 ^ k" and "0 \<le> j" "j < 2 ^ k" and "k \<le> 15"
  shows "0 \<le> nest_encode_bits i + push_bit 1 (nest_encode_bits j) \<and>
    nest_encode_bits i + push_bit 1 (nest_encode_bits j) < 2 ^ (2 * k)"
proof (rule below_power_bits)
  fix n assume n: "2 * k \<le> n"
  have high: "\<not> bit x (n div 2)" if "0 \<le> x" "x < 2 ^ k" for x :: int
  proof -
    have "k \<le> n div 2" using n by linarith
    then have "x < 2 ^ (n div 2)" using that by (meson less_le_trans power_increasing one_le_numeral)
    then show ?thesis using that(1) by (simp add: bit_iff_odd)
  qed
  note ij = small_coordinate [OF assms(2,5)] small_coordinate [OF assms(4,5)]
  show "\<not> bit (nest_encode_bits i + push_bit 1 (nest_encode_bits j)) n"
    unfolding bit_interleaved [OF assms(1) ij(1) assms(3) ij(2)]
    using high [OF assms(1,2)] high [OF assms(3,4)] by simp
qed

lemma fij_round_trip:
  assumes "0 \<le> f" and "0 \<le> i" "i < 2 ^ k" and "0 \<le> j" "j < 2 ^ k" and "k \<le> 15"
  shows "nest_to_fij (fij_to_nest f i j k) k = Inr (f, i, j)"
proof -
  obtain n where n_def: "n = nest_encode_bits i + push_bit 1 (nest_encode_bits j)" by simp
  note ij = small_coordinate [OF assms(3,6)] small_coordinate [OF assms(5,6)]
  note bits = bit_interleaved [OF assms(2) ij(1) assms(4) ij(2), folded n_def]
  have n: "0 \<le> n" "n < 2 ^ (2 * k)"
    using interleaved_range [OF assms(2-6)] by (simp_all add: n_def)
  have fn: "fij_to_nest f i j k = f * 2 ^ (2 * k) + n"
    by (simp add: fij_to_nest_def n_def push_bit_eq_mult)
  have f: "drop_bit (2 * k) (f * 2 ^ (2 * k) + n) = f"
    using n by (simp add: drop_bit_eq_div)
  have m: "(f * 2 ^ (2 * k) + n) AND (push_bit (2 * k) 1 - 1) = n"
    using n unfolding push_bit_eq_mult mult_1 mask_eq_exp_minus_1 [symmetric] take_bit_eq_mask [symmetric]
    by (simp add: take_bit_eq_mod)
  have i: "nest_decode_bits n = i"
    using assms ij bits by (intro nest_decode) auto
  have "bit (drop_bit 1 n) m = bit n (Suc m)" for m
    unfolding bit_drop_bit_eq by simp
  then have j: "nest_decode_bits (drop_bit 1 n) = j"
    using assms ij bits by (intro nest_decode) auto
  show ?thesis
    using n assms(1) unfolding nest_to_fij_def fn f m i j Let_def by simp
qed

lemma fij_to_nest_range:
  assumes "0 \<le> f" "f < 12" and "0 \<le> i" "i < 2 ^ k" and "0 \<le> j" "j < 2 ^ k" and "k \<le> 15"
  shows "0 \<le> fij_to_nest f i j k \<and> fij_to_nest f i j k < 12 * 2 ^ (2 * k)"
proof -
  have "fij_to_nest f i j k = f * 2 ^ (2 * k) + (nest_encode_bits i + push_bit 1 (nest_encode_bits j))"
    by (simp add: fij_to_nest_def push_bit_eq_mult)
  moreover have "f * 2 ^ (2 * k) \<le> 11 * 2 ^ (2 * k)"
    using assms(2) by (intro mult_right_mono) auto
  moreover have "0 \<le> f * 2 ^ (2 * k)" using assms(1) by simp
  ultimately show ?thesis using interleaved_range [OF assms(3-7)] by linarith
qed

end
