(* ===== verification/PixelNumbers.thy ===== *)
theory PixelNumbers
  imports NestCodec Complex_Main "HOL-Library.Signed_Division"
begin

text \<open>
  \<^verbatim>\<open>action/renumber-healpix/HEALPix.{h,cc}\<close>: the numbering of the pixels of a HEALPix grid by rings, from north to
  south, and the nested numbering. A C++ \<^verbatim>\<open>int\<close> is an integer; the expressions that are the first to leave its range are
  checked with \<open>chk32\<close>, and for the grids the header allows, up to \<open>2 ^ 13\<close> subdivisions, none does. The square root of
  \<^verbatim>\<open><cmath>\<close> is the one of the real numbers; an \<^verbatim>\<open>assert\<close> that fails is \<open>AssertionFailed\<close>.

  The lemmas follow a pixel through its three regions: the polar caps and the belt, where it lies in a face of the
  north, the equator or the south. They give the pixel's face and coordinates, from which the way back is computed.
\<close>


section \<open>The grid\<close>

record HEALPix =
  hp_Nside :: int
  hp_Npix :: int
  hp_Ncap :: int
  hp_k :: nat

text \<open>
  \<^verbatim>\<open>sqrt\<close> of an integer: the root of the real \<open>n + 1/2\<close> (exact as a double, as is its truncation),
  and a negative argument gives no number.
\<close>

definition int_sqrt :: "int \<Rightarrow> int" where
  "int_sqrt n = (if n < 0 then 0 else \<lfloor>sqrt (of_int n + 1 / 2)\<rfloor>)"

definition div_03 :: "int \<Rightarrow> int \<Rightarrow> int" where
  "div_03 a b =
     (let t = (if push_bit 1 b \<le> a then 1 else 0);
          a = a - t * push_bit 1 b
      in push_bit 1 t + (if b \<le> a then 1 else 0))"

definition is_power_of_2 :: "int \<Rightarrow> bool" where
  "is_power_of_2 n \<longleftrightarrow> length (filter (bit n) [0..<32]) = 1"

definition pll :: "int \<Rightarrow> int res" where
  "pll f =
     (if 0 \<le> f \<and> f < 12 then Inr ([1, 3, 5, 7, 0, 2, 4, 6, 1, 3, 5, 7] ! nat f) else Inl UndefinedBehaviour)"

lemma int_le_sqrt:
  assumes "0 \<le> m"
  shows "of_int m \<le> sqrt (of_int n + 1 / 2) \<longleftrightarrow> m * m \<le> (n :: int)"
proof -
  have "of_int m = sqrt (of_int (m * m))" using assms by (simp add: real_sqrt_mult)
  then have "of_int m \<le> sqrt (of_int n + 1 / 2) \<longleftrightarrow> real_of_int (m * m) \<le> of_int n + 1 / 2"
    by (metis real_sqrt_le_iff)
  also have "\<dots> \<longleftrightarrow> m * m \<le> n" by linarith
  finally show ?thesis .
qed

lemma int_sqrt_iff:
  assumes "0 \<le> n"
  shows "int_sqrt n = s \<longleftrightarrow> 0 \<le> s \<and> s * s \<le> n \<and> n < (s + 1) * (s + 1)"
proof -
  have floor: "int_sqrt n = s \<longleftrightarrow> of_int s \<le> sqrt (of_int n + 1 / 2) \<and> \<not> of_int (s + 1) \<le> sqrt (of_int n + 1 / 2)"
    using assms unfolding int_sqrt_def by (simp add: floor_eq_iff) auto
  have "0 \<le> sqrt (of_int n + 1 / 2)" using assms by simp
  then have "0 \<le> s" if "int_sqrt n = s" using that by (auto simp: int_sqrt_def)
  then show ?thesis
    using floor int_le_sqrt [of s n] int_le_sqrt [of "s + 1" n] by (cases "0 \<le> s") auto
qed

text \<open>The root is computed by two bits at a time, so that the definitions can be evaluated.\<close>

fun root_of :: "nat \<Rightarrow> nat" where
  "root_of n =
     (if n = 0 then 0
      else let s = 2 * root_of (n div 4) in if (s + 1) * (s + 1) \<le> n then s + 1 else s)"

lemma root_of_0 [simp]: "root_of 0 = 0"
  by (subst root_of.simps) simp

declare root_of.simps [simp del]

lemma root_of_bounds: "root_of n * root_of n \<le> n \<and> n < (root_of n + 1) * (root_of n + 1)"
proof (induction n rule: root_of.induct)
  case (1 n)
  show ?case
  proof (cases "n = 0")
    case True
    then show ?thesis by simp
  next
    case False
    obtain s where s: "s = root_of (n div 4)" by simp
    have "s * s \<le> n div 4" "n div 4 < (s + 1) * (s + 1)" using 1 [OF False] s by simp_all
    then have "4 * (s * s) \<le> n" "n < 4 * ((s + 1) * (s + 1))" by linarith+
    moreover have "root_of n = (if (2 * s + 1) * (2 * s + 1) \<le> n then 2 * s + 1 else 2 * s)"
      using False by (subst root_of.simps) (simp only: Let_def s if_False)
    ultimately show ?thesis by (simp add: algebra_simps)
  qed
qed

lemma int_sqrt_code [code]: "int_sqrt n = (if n < 0 then 0 else int (root_of (nat n)))"
proof (cases "n < 0")
  case False
  then have "int (nat n) = n" by simp
  obtain m where m: "m = root_of (nat n)" by simp
  have "int (m * m) \<le> int (nat n)" "int (nat n) < int ((m + 1) * (m + 1))"
    using root_of_bounds [of "nat n"] unfolding m of_nat_le_iff of_nat_less_iff by simp_all
  then have "int m * int m \<le> n" "n < (int m + 1) * (int m + 1)"
    using \<open>int (nat n) = n\<close> by (simp_all add: algebra_simps)
  then have "int_sqrt n = int m" using False by (subst int_sqrt_iff) auto
  then show ?thesis using False m by simp
qed (simp add: int_sqrt_def)

text \<open>The number of the ring of a pixel of the polar caps, from the root.\<close>

lemma ring_of_root:
  assumes "0 \<le> m"
  shows "(\<exists>R. drop_bit 1 (1 + int_sqrt (2 * m + 1)) = R \<and> 1 \<le> R \<and> 2 * R * (R - 1) \<le> m \<and> m < 2 * R * (R + 1))"
proof -
  obtain s where s: "s = int_sqrt (2 * m + 1)" by simp
  obtain R where R: "R = (1 + s) div 2" by simp
  have sq: "0 \<le> s" "s * s \<le> 2 * m + 1" "2 * m + 1 < (s + 1) * (s + 1)"
    using assms int_sqrt_iff [of "2 * m + 1" s] by (simp_all add: s)
  have "s \<noteq> 0" using sq assms by auto
  then have "1 \<le> R" using sq(1) by (simp add: R)
  have "2 * R - 1 \<le> s" "s + 1 \<le> 2 * R + 1" using R by linarith+
  then have "(2 * R - 1) * (2 * R - 1) \<le> s * s" "(s + 1) * (s + 1) \<le> (2 * R + 1) * (2 * R + 1)"
    using \<open>1 \<le> R\<close> sq(1) by (simp_all add: mult_mono)
  then have "(2 * R - 1) * (2 * R - 1) \<le> 2 * m + 1" "2 * m + 1 < (2 * R + 1) * (2 * R + 1)"
    using sq by linarith+
  then have "2 * R * (R - 1) \<le> m" "m < 2 * R * (R + 1)" by (simp_all add: algebra_simps)
  then show ?thesis using \<open>1 \<le> R\<close> by (simp add: drop_bit_eq_div R s)
qed

lemma ring_unique:
  assumes "1 \<le> R" "2 * R * (R - 1) \<le> m" "m < 2 * R * (R + 1)" and "1 \<le> Q" "2 * Q * (Q - 1) \<le> m" "m < 2 * Q * (Q + 1)"
  shows "R = (Q :: int)"
proof (rule ccontr)
  assume "R \<noteq> Q"
  then consider "R + 1 \<le> Q" | "Q + 1 \<le> R" by linarith
  then show False
  proof cases
    case 1
    then have "R * (R + 1) \<le> (Q - 1) * Q" using assms(1) by (intro mult_mono) auto
    then show False using assms by (simp add: algebra_simps)
  next
    case 2
    then have "Q * (Q + 1) \<le> (R - 1) * R" using assms(4) by (intro mult_mono) auto
    then show False using assms by (simp add: algebra_simps)
  qed
qed

lemma ring_place:
  assumes "0 \<le> y" "y < 4 * N" "0 < (N :: int)"
  obtains q x where "y = q * N + x" "0 \<le> q" "q < 4" "0 \<le> x" "x < N"
proof
  show y: "y = (y div N) * N + y mod N" by simp
  show "0 \<le> y div N" using assms by (simp add: pos_imp_zdiv_nonneg_iff)
  show x: "0 \<le> y mod N" "y mod N < N" using assms(3) by simp_all
  show "y div N < 4"
  proof (rule ccontr)
    assume "\<not> y div N < 4"
    then have "4 * N \<le> (y div N) * N" using assms(3) by (intro mult_right_mono) auto
    then show False using y x assms(2) by linarith
  qed
qed

lemma div_03:
  assumes "0 \<le> a" "a < 4 * b"
  shows "div_03 a b = a div b"
proof -
  have b: "0 < b" using assms by linarith
  obtain q x where a: "a = q * b + x" "0 \<le> q" "q < 4" and x: "0 \<le> x" "x < b"
    using ring_place [OF assms b] by blast
  have q: "a div b = q" using a(1) x by simp
  consider "q = 0" | "q = 1" | "q = 2" | "q = 3" using a by linarith
  then show ?thesis unfolding q by cases (use a(1) x in \<open>simp_all add: div_03_def push_bit_eq_mult Let_def\<close>)
qed

definition new_HEALPix :: "int \<Rightarrow> HEALPix res" where
  "new_HEALPix Nside =
     bind_res (chk32 (12 * Nside * Nside)) (\<lambda>Npix.
     bind_res (chk32 (2 * (Nside * (Nside - 1)))) (\<lambda>Ncap.
     if \<not> is_power_of_2 Nside then Inl AssertionFailed
     else if \<not> 0 < Nside then Inl UndefinedBehaviour
     else Inr \<lparr>hp_Nside = Nside, hp_Npix = Npix, hp_Ncap = Ncap, hp_k = nat \<lfloor>log 2 (of_int Nside)\<rfloor>\<rparr>))"

definition to_nest :: "HEALPix \<Rightarrow> int \<Rightarrow> int \<Rightarrow> int \<Rightarrow> int \<Rightarrow> int \<Rightarrow> int res" where
  "to_nest h f ring Nring phi shift =
     bind_res (pll f) (\<lambda>pl.
       let r = push_bit (hp_k h) (2 + drop_bit 2 f) - ring - 1;
           p = 2 * phi - pl * Nring - shift - 1;
           p = (if 2 * hp_Nside h \<le> p then p - 8 * hp_Nside h else p);
           i = drop_bit 1 (r + p);
           j = drop_bit 1 (r - p)
       in if f < 12 \<and> i < hp_Nside h \<and> j < hp_Nside h then Inr (fij_to_nest f i j (hp_k h))
          else Inl AssertionFailed)"

definition cap_ring :: "int \<Rightarrow> int res" where
  "cap_ring n = (if n < 0 then Inl UndefinedBehaviour else Inr (drop_bit 1 (1 + int_sqrt n)))"

definition ring_to_nest :: "HEALPix \<Rightarrow> int \<Rightarrow> int res" where
  "ring_to_nest h r =
     (if r < hp_Ncap h then
        bind_res (chk32 (2 * r + 1)) (\<lambda>n.
        bind_res (cap_ring n) (\<lambda>Nring.
        let phi = 1 + r - 2 * Nring * (Nring - 1);
            f = div_03 (phi - 1) Nring
        in to_nest h f Nring Nring phi 0))
      else if hp_Npix h - hp_Ncap h \<le> r then
        bind_res (chk32 (2 * hp_Npix h)) (\<lambda>n.
        bind_res (cap_ring (n - 2 * r - 1)) (\<lambda>Nring.
        let phi = 1 + r + 2 * Nring * (Nring - 1) + 4 * Nring - hp_Npix h;
            ring = 4 * hp_Nside h - Nring;
            f = div_03 (phi - 1) Nring + 8
        in to_nest h f ring Nring phi 0))
      else
        let ip = r - hp_Ncap h;
            tmp = drop_bit (hp_k h + 2) ip;
            Nring = hp_Nside h;
            phi = ip - tmp * 4 * hp_Nside h + 1;
            ring = tmp + hp_Nside h;
            ifm = 1 + drop_bit (hp_k h) (phi - 1 - drop_bit 1 (1 + tmp));
            ifp = 1 + drop_bit (hp_k h) (phi - 1 - drop_bit 1 (1 - tmp + 2 * hp_Nside h));
            f = (if ifp = ifm then ifp OR 4 else if ifp < ifm then ifp else ifm + 8)
        in to_nest h f ring Nring phi (ring AND 1))"

definition to_ring_local :: "HEALPix \<Rightarrow> int \<Rightarrow> int \<Rightarrow> int \<Rightarrow> int \<Rightarrow> int \<Rightarrow> int res" where
  "to_ring_local h f i j Nring shift =
     bind_res (pll f) (\<lambda>pl.
       let Nring = drop_bit 2 Nring;
           r = (pl * Nring + i - j + 1 + shift) sdiv 2 - 1
       in if r < 4 * Nring then Inr (if r < 0 then r + 4 * hp_Nside h else r) else Inl AssertionFailed)"

definition nest_to_ring :: "HEALPix \<Rightarrow> int \<Rightarrow> int res" where
  "nest_to_ring h n =
     bind_res (nest_to_fij n (hp_k h)) (\<lambda>(f, i, j).
     if \<not> (f < 12 \<and> i < hp_Nside h \<and> j < hp_Nside h) then Inl AssertionFailed
     else let ring = (drop_bit 2 f + 2) * hp_Nside h - i - j - 1 in
       if ring < hp_Nside h then
         let Nring = 4 * ring;
             r0 = 2 * ring * (ring - 1)
         in bind_res (to_ring_local h f i j Nring 0) (\<lambda>r. Inr (r0 + r))
       else if ring < 3 * hp_Nside h then
         let Nring = 4 * hp_Nside h;
             r0 = hp_Ncap h + (ring - hp_Nside h) * Nring;
             shift = (ring - hp_Nside h) AND 1
         in bind_res (to_ring_local h f i j Nring shift) (\<lambda>r. Inr (r0 + r))
       else
         let N = 4 * hp_Nside h - ring;
             Nring = 4 * N;
             r0 = hp_Npix h - 2 * N * (N + 1)
         in bind_res (to_ring_local h f i j Nring 0) (\<lambda>r. Inr (r0 + r)))"


section \<open>The two numberings\<close>

definition grid :: "nat \<Rightarrow> HEALPix" where
  "grid k = \<lparr>hp_Nside = 2 ^ k, hp_Npix = 12 * 2 ^ k * 2 ^ k, hp_Ncap = 2 * (2 ^ k * (2 ^ k - 1)), hp_k = k\<rparr>"

lemma grid_sel [simp]:
  "hp_Nside (grid k) = 2 ^ k" "hp_Npix (grid k) = 12 * 2 ^ k * 2 ^ k"
  "hp_Ncap (grid k) = 2 * (2 ^ k * (2 ^ k - 1))" "hp_k (grid k) = k"
  by (simp_all add: grid_def)

lemma power_13: "k \<le> 13 \<Longrightarrow> (2 :: int) ^ k \<le> 8192"
  using power_increasing [of k 13 "2 :: int"] by simp

lemma square_13: "k \<le> 13 \<Longrightarrow> (2 :: int) ^ k * 2 ^ k \<le> 67108864"
  using mult_mono [OF power_13 power_13, of k k] by simp

lemma new_HEALPix_grid:
  assumes "k \<le> 13"
  shows "new_HEALPix (2 ^ k) = Inr (grid k)"
proof -
  have "{i. i < 32 \<and> bit (2 ^ k :: int) i} = {k}" using assms by (auto simp: bit_exp_iff)
  then have "is_power_of_2 (2 ^ k)"
    by (simp add: is_power_of_2_def length_filter_conv_card cong: conj_cong)
  moreover have "chk32 (12 * 2 ^ k * 2 ^ k) = Inr (12 * 2 ^ k * 2 ^ k)"
    using square_13 [OF assms] by (intro chk32_ok) (simp_all add: mult.assoc)
  moreover have "chk32 (2 * (2 ^ k * (2 ^ k - 1))) = Inr (2 * (2 ^ k * (2 ^ k - 1)))"
  proof -
    have "0 \<le> (2 :: int) ^ k * (2 ^ k - 1)" "(2 :: int) ^ k * (2 ^ k - 1) \<le> 2 ^ k * 2 ^ k"
      by (simp_all add: mult_left_mono)
    then show ?thesis using square_13 [OF assms] by (intro chk32_ok) linarith+
  qed
  ultimately show ?thesis
    unfolding new_HEALPix_def grid_def by (simp add: log_nat_power)
qed

lemma pll_simps [simp]:
  "pll 0 = Inr 1" "pll 1 = Inr 3" "pll 2 = Inr 5" "pll 3 = Inr 7" "pll 4 = Inr 0" "pll 5 = Inr 2"
  "pll 6 = Inr 4" "pll 7 = Inr 6" "pll 8 = Inr 1" "pll 9 = Inr 3" "pll 10 = Inr 5" "pll 11 = Inr 7"
  by (simp_all add: pll_def)

lemma face_cases:
  assumes "0 \<le> f" "f < (12 :: int)"
  obtains "f = 0" | "f = 1" | "f = 2" | "f = 3" | "f = 4" | "f = 5" | "f = 6" | "f = 7" | "f = 8" | "f = 9" | "f = 10" | "f = 11"
proof -
  have "f = 0 \<or> f = 1 \<or> f = 2 \<or> f = 3 \<or> f = 4 \<or> f = 5 \<or> f = 6 \<or> f = 7 \<or> f = 8 \<or> f = 9 \<or> f = 10 \<or> f = 11"
    using assms by presburger
  then show thesis using that by blast
qed

text \<open>
  \<open>to_nest\<close> gives the pixel with the coordinates \<open>i\<close> and \<open>j\<close> of the face \<open>f\<close> if these are what half the sum and the
  difference of \<open>r\<close> and \<open>p\<close> are.
\<close>

lemma to_nest_coordinates:
  assumes "hp_k h = k" and "pll f = Inr pl" and "f < 12" "i < hp_Nside h" "j < hp_Nside h"
    and "(2 + f div 4) * 2 ^ k - ring - 1 = i + j"
    and "2 * phi - pl * Nring - shift - 1 = i - j + (if 2 * hp_Nside h \<le> 2 * phi - pl * Nring - shift - 1 then 8 * hp_Nside h else 0)"
  shows "to_nest h f ring Nring phi shift = Inr (fij_to_nest f i j k)"
proof -
  have r: "push_bit k (2 + drop_bit 2 f) - ring - 1 = i + j"
    using assms(6) by (simp add: push_bit_eq_mult drop_bit_eq_div)
  obtain p where p: "p = 2 * phi - pl * Nring - shift - 1" by simp
  have p': "(if 2 * hp_Nside h \<le> p then p - 8 * hp_Nside h else p) = i - j"
    using assms(7) unfolding p [symmetric] by (auto split: if_splits)
  have half: "drop_bit 1 (i + j + (i - j)) = i" "drop_bit 1 (i + j - (i - j)) = j"
    by (simp_all add: drop_bit_eq_div)
  show ?thesis
    unfolding to_nest_def assms(1,2) bind_res_simps Let_def p [symmetric] r p' half
    using assms(3-5) by simp
qed

lemma cap_ring_of:
  assumes "1 \<le> R" "2 * R * (R - 1) \<le> m" "m < 2 * R * (R + 1)"
  shows "cap_ring (2 * m + 1) = Inr R"
proof -
  have "0 \<le> R * (R - 1)" using assms(1) by simp
  then have m: "0 \<le> m" using assms(2) by linarith
  have "drop_bit 1 (1 + int_sqrt (2 * m + 1)) = R"
    using ring_of_root [OF m] ring_unique [OF _ _ _ assms] by blast
  then show ?thesis using m by (simp add: cap_ring_def del: drop_bit_Suc)
qed

lemma quarter:
  assumes "0 \<le> q" "q < 4" and "0 \<le> x" "x < (R :: int)"
  shows "0 \<le> q * R \<and> q * R + x < 4 * R \<and> div_03 (q * R + x) R = q"
proof -
  have "q * R \<le> 3 * R" using assms by (intro mult_right_mono) auto
  then have less: "q * R + x < 4 * R" using assms by linarith
  moreover have "0 \<le> q * R" using assms by simp
  moreover have "(q * R + x) div R = q" using assms by simp
  ultimately show ?thesis using assms by (simp add: div_03)
qed

lemma ring_sizes: "2 * R * (R + 1) = 2 * R * (R - 1) + 4 * (R :: int)"
  by (simp add: algebra_simps)

lemma cap_size:
  assumes "1 \<le> R" "R < N"
  shows "2 * R * (R + 1) \<le> 2 * (N * (N - 1 :: int))"
proof -
  have "R * (R + 1) \<le> (N - 1) * N" using assms by (intro mult_mono) auto
  then show ?thesis by (simp add: algebra_simps)
qed

lemma npix: "12 * 2 ^ k * 2 ^ k = 12 * ((2 :: int) ^ k * 2 ^ k)"
  by simp

lemma ncap: "2 * (2 ^ k * (2 ^ k - 1)) = 2 * ((2 :: int) ^ k * 2 ^ k) - 2 * 2 ^ k"
  by (simp add: algebra_simps)

lemma ring_to_nest_north:
  assumes "k \<le> 13" and R: "1 \<le> R" "R < 2 ^ k" and q: "0 \<le> q" "q < 4" and x: "0 \<le> x" "x < R"
    and r: "r = 2 * R * (R - 1) + q * R + x"
  shows "ring_to_nest (grid k) r = Inr (fij_to_nest q (2 ^ k - R + x) (2 ^ k - 1 - x) k)"
proof -
  note qR = quarter [OF q x]
  have RR: "0 \<le> 2 * R * (R - 1)" using R by simp
  have r_bounds: "0 \<le> r" "2 * R * (R - 1) \<le> r" "r < 2 * R * (R + 1)"
    using r qR RR x(1) ring_sizes [of R] by linarith+
  have cap: "r < 2 * (2 ^ k * (2 ^ k - 1))" using r_bounds(3) cap_size [OF R] by linarith
  have "(2 :: int) ^ k * (2 ^ k - 1) \<le> 2 ^ k * 2 ^ k" by (simp add: mult_left_mono)
  then have chk: "chk32 (2 * r + 1) = Inr (2 * r + 1)"
    using cap square_13 [OF assms(1)] r_bounds(1) by (intro chk32_ok) linarith+
  have phi: "1 + r - 2 * R * (R - 1) = q * R + x + 1" using r by simp
  have "q = 0 \<or> q = 1 \<or> q = 2 \<or> q = 3" using q by presburger
  then have "pll q = Inr (2 * q + 1)" "q div 4 = 0" by (elim disjE; simp)+
  then have "to_nest (grid k) q R R (q * R + x + 1) 0 = Inr (fij_to_nest q (2 ^ k - R + x) (2 ^ k - 1 - x) k)"
    using R q x by (intro to_nest_coordinates) (auto simp: algebra_simps)
  then show ?thesis
    using cap qR unfolding ring_to_nest_def
    by (simp only: grid_sel if_True chk bind_res_simps cap_ring_of [OF R(1) r_bounds(2,3)] Let_def phi add_diff_cancel_right')
qed

lemma ring_to_nest_south:
  assumes "k \<le> 13" and R: "1 \<le> R" "R < 2 ^ k" and q: "0 \<le> q" "q < 4" and x: "0 \<le> x" "x < R"
    and r: "r = 12 * 2 ^ k * 2 ^ k - 2 * R * (R + 1) + q * R + x"
  shows "ring_to_nest (grid k) r = Inr (fij_to_nest (q + 8) x (R - 1 - x) k)"
proof -
  obtain m where m: "m = 12 * 2 ^ k * 2 ^ k - r - 1" by simp
  note qR = quarter [OF q x]
  have m_bounds: "2 * R * (R - 1) \<le> m" "m < 2 * R * (R + 1)"
    using r m qR x(1) ring_sizes [of R] by linarith+
  have "(2 :: int) ^ k * (2 ^ k - 1) \<le> 2 ^ k * 2 ^ k" by (simp add: mult_left_mono)
  then have south: "12 * 2 ^ k * 2 ^ k - 2 * (2 ^ k * (2 ^ k - 1)) \<le> r" "\<not> r < 2 * (2 ^ k * (2 ^ k - 1))"
    using m_bounds(2) m cap_size [OF R] zero_le_square [of "2 ^ k :: int"] zero_less_power [of "2 :: int" k]
    unfolding npix ncap by linarith+
  have chk: "chk32 (2 * (12 * 2 ^ k * 2 ^ k)) = Inr (2 * (12 * 2 ^ k * 2 ^ k))"
    using square_13 [OF assms(1)] zero_le_square [of "2 ^ k :: int"] unfolding npix by (intro chk32_ok) linarith+
  have root: "2 * (12 * 2 ^ k * 2 ^ k) - 2 * r - 1 = 2 * m + 1" by (simp add: m)
  have phi: "1 + r + 2 * R * (R - 1) + 4 * R - 12 * 2 ^ k * 2 ^ k = q * R + x + 1"
    using r ring_sizes [of R] by simp
  have "q = 0 \<or> q = 1 \<or> q = 2 \<or> q = 3" using q by presburger
  then have "pll (q + 8) = Inr (2 * q + 1)" "(q + 8) div 4 = 2" by (elim disjE; simp)+
  then have "to_nest (grid k) (q + 8) (4 * 2 ^ k - R) R (q * R + x + 1) 0 = Inr (fij_to_nest (q + 8) x (R - 1 - x) k)"
    using R q x by (intro to_nest_coordinates) (auto simp: algebra_simps)
  then show ?thesis
    using south qR unfolding ring_to_nest_def
    by (simp only: grid_sel if_True if_False chk bind_res_simps root cap_ring_of [OF R(1) m_bounds] Let_def phi add_diff_cancel_right')
qed

text \<open>The belt: the ring \<open>t\<close> below the northern cap and the place \<open>y\<close> in it.\<close>

lemma floor_div:
  assumes "q * N \<le> y" "y < (q + 1) * (N :: int)" "0 < N"
  shows "y div N = q"
proof -
  have "y = q * N + (y - q * N)" "0 \<le> y - q * N" "y - q * N < N" using assms by (simp_all add: algebra_simps)
  then show ?thesis
    by (metis add.commute add_cancel_left_right assms(3) div_mult_self1 div_pos_pos_trivial less_irrefl)
qed

lemma ring_to_nest_belt:
  assumes "1 \<le> k" and t: "t = 2 * t2 + sh" "sh \<in> {0, 1}" "0 \<le> t2" "t \<le> 2 * 2 ^ k" and y: "0 \<le> y" "y < 4 * 2 ^ k"
    and r: "r = 2 * (2 ^ k * (2 ^ k - 1)) + t * (4 * 2 ^ k) + y"
    and p: "ifp = (y + t2) div 2 ^ k" and m: "ifm = 1 + (y - (t2 + sh)) div 2 ^ k"
  shows "ring_to_nest (grid k) r =
    to_nest (grid k) (if ifp = ifm then ifp OR 4 else if ifp < ifm then ifp else ifm + 8) (t + 2 ^ k) (2 ^ k) (y + 1) sh"
proof -
  have t0: "0 \<le> t * (4 * 2 ^ k)" using t by auto
  have "t * (4 * 2 ^ k) \<le> 2 * 2 ^ k * (4 * 2 ^ k)" using t(4) by (intro mult_right_mono) auto
  then have "t * (4 * 2 ^ k) \<le> 8 * (2 ^ k * 2 ^ k)" by simp
  then have belt: "\<not> r < 2 * (2 ^ k * (2 ^ k - 1))" "\<not> 12 * 2 ^ k * 2 ^ k - 2 * (2 ^ k * (2 ^ k - 1)) \<le> r"
    using r y t0 unfolding npix ncap by linarith+
  have tmp: "(r - 2 * (2 ^ k * (2 ^ k - 1))) div (4 * 2 ^ k) = t"
    using r y by (intro floor_div) (auto simp: algebra_simps)
  have phi: "r - 2 * (2 ^ k * (2 ^ k - 1)) - t * 4 * 2 ^ k = y" using r by simp
  have a: "(1 + t) div 2 = t2 + sh" and b: "(1 - t + 2 * 2 ^ k) div 2 = 2 ^ k - t2" using t(1,2) by auto
  have ifp: "1 + (y - (2 ^ k - t2)) div 2 ^ k = ifp"
  proof -
    have "(y - (2 ^ k - t2) + 2 ^ k) div 2 ^ k = (y - (2 ^ k - t2)) div 2 ^ k + 1" by (rule div_add_self2) simp
    then show ?thesis unfolding p by simp
  qed
  have "even ((2 :: int) ^ k)" using assms(1) by simp
  then have sh: "(t + 2 ^ k) AND 1 = sh"
    using t(1,2) by (auto simp: and_one_eq mod_2_eq_odd)
  have shift: "(2 :: int) ^ (k + 2) = 4 * 2 ^ k" by simp
  show ?thesis
    using belt unfolding ring_to_nest_def
    by (simp only: grid_sel if_False Let_def drop_bit_eq_div power_one_right shift tmp phi add_diff_cancel_right' a b ifp m sh)
qed

text \<open>The three kinds of faces the belt has: those of the north, of the south and of the equator.\<close>

lemma ring_to_nest_belt_north:
  assumes "1 \<le> k" and t: "t = 2 * t2 + sh" "sh \<in> {0, 1}" "0 \<le> t2" "t \<le> 2 * 2 ^ k" and q: "0 \<le> q" "q < 4"
    and z: "t2 + sh \<le> z" "z < 2 ^ k - t2"
    and r: "r = 2 * (2 ^ k * (2 ^ k - 1)) + t * (4 * 2 ^ k) + (q * 2 ^ k + z)"
  shows "ring_to_nest (grid k) r = Inr (fij_to_nest q (z - (t2 + sh)) (2 ^ k - t2 - 1 - z) k)"
proof -
  have cases: "q = 0 \<or> q = 1 \<or> q = 2 \<or> q = 3" using q by presburger
  have y: "0 \<le> q * 2 ^ k + z" "q * 2 ^ k + z < 4 * 2 ^ k"
    using q z t quarter [OF q, of z "2 ^ k"] by auto
  have p: "q = (q * 2 ^ k + z + t2) div 2 ^ k" using z t by (intro floor_div [symmetric]) (auto simp: algebra_simps)
  have "(q * 2 ^ k + z - (t2 + sh)) div 2 ^ k = q" using z t by (intro floor_div) (auto simp: algebra_simps)
  then have m: "q + 1 = 1 + (q * 2 ^ k + z - (t2 + sh)) div 2 ^ k" by simp
  have "pll q = Inr (2 * q + 1)" "q div 4 = 0" using cases by (elim disjE; simp)+
  then have "to_nest (grid k) q (t + 2 ^ k) (2 ^ k) (q * 2 ^ k + z + 1) sh
      = Inr (fij_to_nest q (z - (t2 + sh)) (2 ^ k - t2 - 1 - z) k)"
    using q z t by (intro to_nest_coordinates) (auto simp: algebra_simps)
  then show ?thesis
    unfolding ring_to_nest_belt [OF assms(1) t y r p m] by simp
qed

lemma ring_to_nest_belt_south:
  assumes "1 \<le> k" and t: "t = 2 * t2 + sh" "sh \<in> {0, 1}" "0 \<le> t2" "t \<le> 2 * 2 ^ k" and q: "0 \<le> q" "q < 4"
    and z: "2 ^ k - t2 \<le> z" "z < t2 + sh" "0 \<le> z" "z < 2 ^ k"
    and r: "r = 2 * (2 ^ k * (2 ^ k - 1)) + t * (4 * 2 ^ k) + (q * 2 ^ k + z)"
  shows "ring_to_nest (grid k) r = Inr (fij_to_nest (q + 8) (2 ^ k + z - (t2 + sh)) (2 * 2 ^ k - t2 - 1 - z) k)"
proof -
  have cases: "q = 0 \<or> q = 1 \<or> q = 2 \<or> q = 3" using q by presburger
  have y: "0 \<le> q * 2 ^ k + z" "q * 2 ^ k + z < 4 * 2 ^ k"
    using q z t quarter [OF q z(3,4)] by auto
  have p: "q + 1 = (q * 2 ^ k + z + t2) div 2 ^ k" using z t by (intro floor_div [symmetric]) (auto simp: algebra_simps)
  have "(q * 2 ^ k + z - (t2 + sh)) div 2 ^ k = q - 1" using z t by (intro floor_div) (auto simp: algebra_simps)
  then have m: "q = 1 + (q * 2 ^ k + z - (t2 + sh)) div 2 ^ k" by simp
  have "pll (q + 8) = Inr (2 * q + 1)" "(q + 8) div 4 = 2" using cases by (elim disjE; simp)+
  then have "to_nest (grid k) (q + 8) (t + 2 ^ k) (2 ^ k) (q * 2 ^ k + z + 1) sh
      = Inr (fij_to_nest (q + 8) (2 ^ k + z - (t2 + sh)) (2 * 2 ^ k - t2 - 1 - z) k)"
    using q z t by (intro to_nest_coordinates) (auto simp: algebra_simps)
  then show ?thesis
    unfolding ring_to_nest_belt [OF assms(1) t y r p m] by simp
qed

definition belt_face :: "int \<Rightarrow> int" where
  "belt_face q = (if q = 4 then 4 else q + 4)"

lemma ring_to_nest_belt_equator:
  assumes "1 \<le> k" and t: "t = 2 * t2 + sh" "sh \<in> {0, 1}" "0 \<le> t2" "t \<le> 2 * 2 ^ k" and q: "0 \<le> q" "q < 5"
    and z: "- t2 \<le> z" "z < 2 ^ k - t2" "z < t2 + sh" "t2 + sh - 2 ^ k \<le> z" and y: "0 \<le> q * 2 ^ k + z" "q * 2 ^ k + z < 4 * 2 ^ k"
    and r: "r = 2 * (2 ^ k * (2 ^ k - 1)) + t * (4 * 2 ^ k) + (q * 2 ^ k + z)"
  shows "ring_to_nest (grid k) r = Inr (fij_to_nest (belt_face q) (2 ^ k + z - (t2 + sh)) (2 ^ k - t2 - 1 - z) k)"
proof -
  have cases: "q = 0 \<or> q = 1 \<or> q = 2 \<or> q = 3 \<or> q = 4" using q by presburger
  have p: "q = (q * 2 ^ k + z + t2) div 2 ^ k" using z t by (intro floor_div [symmetric]) (auto simp: algebra_simps)
  have "(q * 2 ^ k + z - (t2 + sh)) div 2 ^ k = q - 1" using z t by (intro floor_div) (auto simp: algebra_simps)
  then have m: "q = 1 + (q * 2 ^ k + z - (t2 + sh)) div 2 ^ k" by simp
  have f: "q OR 4 = belt_face q" using cases by (elim disjE) (simp_all add: belt_face_def)
  have "pll (belt_face q) = Inr (if q = 4 then 0 else 2 * q)" "belt_face q div 4 = 1" "belt_face q < 12"
    using cases by (elim disjE; simp add: belt_face_def)+
  then have "to_nest (grid k) (belt_face q) (t + 2 ^ k) (2 ^ k) (q * 2 ^ k + z + 1) sh
      = Inr (fij_to_nest (belt_face q) (2 ^ k + z - (t2 + sh)) (2 ^ k - t2 - 1 - z) k)"
    using cases z y t by (intro to_nest_coordinates) (auto simp: algebra_simps)
  then show ?thesis
    unfolding ring_to_nest_belt [OF assms(1) t y r p m] f by simp
qed

section \<open>Back to the rings\<close>

lemma to_ring_local_of:
  assumes "pll f = Inr pl" and "pl * M + i - j + 1 + shift = 2 * (y + 1)" and "y < 4 * M"
  shows "to_ring_local (grid k) f i j (4 * M) shift = Inr (if y < 0 then y + 4 * 2 ^ k else y)"
proof -
  have "(2 * a) sdiv 2 = a" for a :: int by (cases "0 \<le> a") (simp_all add: signed_divide_int_def sgn_if)
  then have "(2 * (y + 1)) sdiv 2 = y + 1" .
  moreover have "drop_bit 2 (4 * M) = M" by (simp add: drop_bit_eq_div)
  ultimately show ?thesis
    using assms(3) unfolding to_ring_local_def assms(1) bind_res_simps Let_def by (simp only: assms(2)) simp
qed

lemma nest_to_ring_fij:
  assumes "k \<le> 13" and "pll f = Inr pl" and "0 \<le> i" "i < 2 ^ k" and "0 \<le> j" "j < 2 ^ k"
    and ring: "ring = (f div 4 + 2) * 2 ^ k - i - j - 1"
  shows "nest_to_ring (grid k) (fij_to_nest f i j k) =
    (if ring < 2 ^ k then
       bind_res (to_ring_local (grid k) f i j (4 * ring) 0) (\<lambda>r. Inr (2 * ring * (ring - 1) + r))
     else if ring < 3 * 2 ^ k then
       bind_res (to_ring_local (grid k) f i j (4 * 2 ^ k) ((ring - 2 ^ k) AND 1))
         (\<lambda>r. Inr (2 * (2 ^ k * (2 ^ k - 1)) + (ring - 2 ^ k) * (4 * 2 ^ k) + r))
     else
       bind_res (to_ring_local (grid k) f i j (4 * (4 * 2 ^ k - ring)) 0)
         (\<lambda>r. Inr (12 * 2 ^ k * 2 ^ k - 2 * (4 * 2 ^ k - ring) * (4 * 2 ^ k - ring + 1) + r)))"
proof -
  have f: "0 \<le> f" "f < 12" using assms(2) by (auto simp: pll_def split: if_splits)
  have "k \<le> 15" using assms(1) by simp
  note trip = fij_round_trip [OF f(1) assms(3-6) this]
  have ring': "(drop_bit 2 f + 2) * 2 ^ k - i - j - 1 = ring" by (simp add: ring drop_bit_eq_div)
  show ?thesis
    using f(2) assms(4,6) unfolding nest_to_ring_def
    by (simp only: grid_sel trip bind_res_simps prod.case if_False Let_def ring' simp_thms)
qed

lemma nest_to_ring_north:
  assumes "k \<le> 13" and R: "1 \<le> R" "R < 2 ^ k" and q: "0 \<le> q" "q < 4" and x: "0 \<le> x" "x < R"
  shows "nest_to_ring (grid k) (fij_to_nest q (2 ^ k - R + x) (2 ^ k - 1 - x) k) = Inr (2 * R * (R - 1) + q * R + x)"
proof -
  note qR = quarter [OF q x]
  have "q = 0 \<or> q = 1 \<or> q = 2 \<or> q = 3" using q by presburger
  then have pl: "pll q = Inr (2 * q + 1)" "q div 4 = 0" by (elim disjE; simp)+
  have local: "to_ring_local (grid k) q (2 ^ k - R + x) (2 ^ k - 1 - x) (4 * R) 0 = Inr (q * R + x)"
    using to_ring_local_of [OF pl(1), of R "2 ^ k - R + x" "2 ^ k - 1 - x" 0 "q * R + x" k] qR x
    by (simp add: algebra_simps)
  have ring: "R = (q div 4 + 2) * 2 ^ k - (2 ^ k - R + x) - (2 ^ k - 1 - x) - 1" using pl by simp
  show ?thesis
    using R x by (subst nest_to_ring_fij [OF assms(1) pl(1) _ _ _ _ ring]) (auto simp: local)
qed

lemma nest_to_ring_south:
  assumes "k \<le> 13" and R: "1 \<le> R" "R < 2 ^ k" and q: "0 \<le> q" "q < 4" and x: "0 \<le> x" "x < R"
  shows "nest_to_ring (grid k) (fij_to_nest (q + 8) x (R - 1 - x) k) =
    Inr (12 * 2 ^ k * 2 ^ k - 2 * R * (R + 1) + q * R + x)"
proof -
  note qR = quarter [OF q x]
  have "q = 0 \<or> q = 1 \<or> q = 2 \<or> q = 3" using q by presburger
  then have pl: "pll (q + 8) = Inr (2 * q + 1)" "(q + 8) div 4 = 2" by (elim disjE; simp)+
  have local: "to_ring_local (grid k) (q + 8) x (R - 1 - x) (4 * R) 0 = Inr (q * R + x)"
    using to_ring_local_of [OF pl(1), of R x "R - 1 - x" 0 "q * R + x" k] qR x
    by (simp add: algebra_simps)
  have ring: "4 * 2 ^ k - R = ((q + 8) div 4 + 2) * 2 ^ k - x - (R - 1 - x) - 1" using pl by simp
  show ?thesis
    using R x by (subst nest_to_ring_fij [OF assms(1) pl(1) _ _ _ _ ring]) (auto simp: local)
qed

text \<open>The pixels of the belt; its last ring is counted from the south, with the same result.\<close>

lemma nest_to_ring_belt:
  assumes "1 \<le> k" "k \<le> 13" and "pll f = Inr pl" and "0 \<le> i" "i < 2 ^ k" and "0 \<le> j" "j < 2 ^ k"
    and t: "t = 2 * t2 + sh" "sh \<in> {0, 1}" "0 \<le> t2" "t \<le> 2 * 2 ^ k"
    and ring: "t + 2 ^ k = (f div 4 + 2) * 2 ^ k - i - j - 1"
    and y: "pl * 2 ^ k + i - j + 1 + sh = 2 * (y + 1)" "y < 4 * 2 ^ k"
  shows "nest_to_ring (grid k) (fij_to_nest f i j k) =
    Inr (2 * (2 ^ k * (2 ^ k - 1)) + t * (4 * 2 ^ k) + (if y < 0 then y + 4 * 2 ^ k else y))"
proof -
  have sh: "t AND 1 = sh" using t(1,2) by (auto simp: and_one_eq mod_2_eq_odd)
  have local: "to_ring_local (grid k) f i j (4 * 2 ^ k) sh = Inr (if y < 0 then y + 4 * 2 ^ k else y)"
    by (rule to_ring_local_of [OF assms(3) y])
  have "even ((2 :: int) ^ k)" using assms(1) by simp
  show ?thesis
  proof (cases "t = 2 * 2 ^ k")
    case True
    then have "sh = 0" using t by (auto dest: sym [of _ "2 * _"]) presburger
    then show ?thesis
      using True local t unfolding nest_to_ring_fij [OF assms(2-7) ring] by (simp add: algebra_simps)
  next
    case False
    then show ?thesis
      using local t sh unfolding nest_to_ring_fij [OF assms(2-7) ring] by auto
  qed
qed

section \<open>The numberings are inverse to each other\<close>

definition pixel_round_trip :: "nat \<Rightarrow> int \<Rightarrow> bool" where
  "pixel_round_trip k r \<longleftrightarrow> (\<exists>n. ring_to_nest (grid k) r = Inr n \<and> 0 \<le> n \<and> n < 12 * 2 ^ (2 * k) \<and> nest_to_ring (grid k) n = Inr r)"

lemma pixel_round_tripI:
  assumes "ring_to_nest (grid k) r = Inr (fij_to_nest f i j k)" and "nest_to_ring (grid k) (fij_to_nest f i j k) = Inr r"
    and "k \<le> 13" "0 \<le> f" "f < 12" "0 \<le> i" "i < 2 ^ k" "0 \<le> j" "j < 2 ^ k"
  shows "pixel_round_trip k r"
  using assms fij_to_nest_range [of f i k j] by (simp add: pixel_round_trip_def)

lemma cap_bound:
  assumes "1 \<le> R" "2 * R * (R - 1) \<le> m" "m < 2 * (2 ^ k * (2 ^ k - 1 :: int))"
  shows "R < 2 ^ k"
proof (rule ccontr)
  assume "\<not> R < 2 ^ k"
  then have "2 ^ k * (2 ^ k - 1) \<le> R * (R - 1)" using assms(1) by (intro mult_mono) auto
  then show False using assms(2,3) by (simp add: mult.assoc)
qed

lemma round_trip_north:
  assumes "k \<le> 13" and "0 \<le> r" "r < 2 * (2 ^ k * (2 ^ k - 1))"
  shows "pixel_round_trip k r"
proof -
  obtain R where R: "1 \<le> R" "2 * R * (R - 1) \<le> r" "r < 2 * R * (R + 1)"
    using ring_of_root [OF assms(2)] by blast
  have less: "R < 2 ^ k" using cap_bound [OF R(1,2) assms(3)] .
  obtain q x where qx: "r - 2 * R * (R - 1) = q * R + x" "0 \<le> q" "q < 4" "0 \<le> x" "x < R"
    using ring_place [of "r - 2 * R * (R - 1)" R] R ring_sizes [of R] by auto
  have r: "r = 2 * R * (R - 1) + q * R + x" using qx(1) by simp
  show ?thesis
    using pixel_round_tripI [OF ring_to_nest_north [OF assms(1) R(1) less qx(2-5) r]
        nest_to_ring_north [OF assms(1) R(1) less qx(2-5), folded r] assms(1)] qx R(1) less by auto
qed

lemma round_trip_south:
  assumes "k \<le> 13" and "12 * 2 ^ k * 2 ^ k - 2 * (2 ^ k * (2 ^ k - 1)) \<le> r" "r < 12 * 2 ^ k * 2 ^ k"
  shows "pixel_round_trip k r"
proof -
  obtain m where m: "m = 12 * 2 ^ k * 2 ^ k - r - 1" by simp
  have m0: "0 \<le> m" "m < 2 * (2 ^ k * (2 ^ k - 1))" using m assms by simp_all
  obtain R where R: "1 \<le> R" "2 * R * (R - 1) \<le> m" "m < 2 * R * (R + 1)"
    using ring_of_root [OF m0(1)] by blast
  have less: "R < 2 ^ k" using cap_bound [OF R(1,2) m0(2)] .
  obtain q x where qx: "2 * R * (R + 1) - m - 1 = q * R + x" "0 \<le> q" "q < 4" "0 \<le> x" "x < R"
    using ring_place [of "2 * R * (R + 1) - m - 1" R] R ring_sizes [of R] by auto
  have r: "r = 12 * 2 ^ k * 2 ^ k - 2 * R * (R + 1) + q * R + x" using qx(1) m by simp
  show ?thesis
    using pixel_round_tripI [OF ring_to_nest_south [OF assms(1) R(1) less qx(2-5) r]
        nest_to_ring_south [OF assms(1) R(1) less qx(2-5), folded r] assms(1)] qx R(1) less by auto
qed

lemma round_trip_equator:
  assumes "1 \<le> k" "k \<le> 13" and t: "t = 2 * t2 + sh" "sh \<in> {0, 1}" "0 \<le> t2" "t \<le> 2 * 2 ^ k" and q: "0 \<le> q" "q < 5"
    and z: "- t2 \<le> z" "z < 2 ^ k - t2" "z < t2 + sh" "t2 + sh - 2 ^ k \<le> z" and y: "0 \<le> q * 2 ^ k + z" "q * 2 ^ k + z < 4 * 2 ^ k"
    and r: "r = 2 * (2 ^ k * (2 ^ k - 1)) + t * (4 * 2 ^ k) + (q * 2 ^ k + z)"
  shows "pixel_round_trip k r"
proof -
  have cases: "q = 0 \<or> q = 1 \<or> q = 2 \<or> q = 3 \<or> q = 4" using q by presburger
  have pl: "pll (belt_face q) = Inr (if q = 4 then 0 else 2 * q)" "belt_face q div 4 = 1" "belt_face q < 12" "0 \<le> belt_face q"
    using cases by (elim disjE; simp add: belt_face_def)+
  obtain i j where ij: "i = 2 ^ k + z - (t2 + sh)" "j = 2 ^ k - t2 - 1 - z" by simp
  have i: "0 \<le> i" "i < 2 ^ k" and j: "0 \<le> j" "j < 2 ^ k" using ij z by simp_all
  have ring: "t + 2 ^ k = (belt_face q div 4 + 2) * 2 ^ k - i - j - 1" using pl ij t by simp
  obtain y' where y': "y' = (if q = 4 then z else q * 2 ^ k + z)" by simp
  have eq: "(if q = 4 then 0 else 2 * q) * 2 ^ k + i - j + 1 + sh = 2 * (y' + 1)"
    using ij y' by (simp add: algebra_simps)
  have less: "y' < 4 * 2 ^ k" using y y' z by auto
  have place: "(if y' < 0 then y' + 4 * 2 ^ k else y') = q * 2 ^ k + z" using y y' by auto
  show ?thesis
    using pixel_round_tripI [OF ring_to_nest_belt_equator [OF assms(1) t q z y r, folded ij]
        nest_to_ring_belt [OF assms(1,2) pl(1) i j t ring eq less, unfolded place, folded r] assms(2) pl(4,3) i j] .
qed

lemma round_trip_belt:
  assumes "1 \<le> k" "k \<le> 13" and "2 * (2 ^ k * (2 ^ k - 1)) \<le> r" "r < 12 * 2 ^ k * 2 ^ k - 2 * (2 ^ k * (2 ^ k - 1))"
  shows "pixel_round_trip k r"
proof -
  obtain N where N: "N = (2 :: int) ^ k" by simp
  have N0: "0 < N" using N by simp
  obtain s where s_def: "s = r - 2 * (N * (N - 1))" by simp
  obtain t y where ty: "t = s div (4 * N)" "y = s mod (4 * N)" by simp
  note t_def = s_def ty
  have y: "0 \<le> y" "y < 4 * N" using ty N0 by simp_all
  have s: "s = t * (4 * N) + y" unfolding ty by (rule div_mult_mod_eq [symmetric])
  have s0: "0 \<le> s" "s < (2 * N + 1) * (4 * N)" using assms(3,4) t_def N by (simp_all add: algebra_simps)
  have t0: "0 \<le> t" using s0(1) t_def N0 by (simp add: pos_imp_zdiv_nonneg_iff)
  have "t < 2 * N + 1"
  proof (rule ccontr)
    assume "\<not> t < 2 * N + 1"
    then have "(2 * N + 1) * (4 * N) \<le> t * (4 * N)" using N0 by (intro mult_right_mono) auto
    then show False using s y s0(2) by linarith
  qed
  then have tN: "t \<le> 2 * 2 ^ k" using N by simp
  obtain t2 sh where t: "t = 2 * t2 + sh" "sh \<in> {0, 1}" "0 \<le> t2"
  proof
    show "t = 2 * (t div 2) + t mod 2" "t mod 2 \<in> {0, 1}" "0 \<le> t div 2" using t0 by auto
  qed
  obtain q z where qz: "y = q * N + z" "0 \<le> q" "q < 4" "0 \<le> z" "z < N"
    using ring_place [OF y N0] by blast
  have r: "r = 2 * (2 ^ k * (2 ^ k - 1)) + t * (4 * 2 ^ k) + (q * 2 ^ k + z)"
    using s t_def(1) qz(1) N by simp
  have bounds: "z < 2 ^ k" "q * 2 ^ k + z < 4 * 2 ^ k" "0 \<le> q * 2 ^ k + z" "t2 + sh \<le> 2 ^ k" "t2 \<le> 2 ^ k"
    using qz y N t tN by auto
  have cases: "q = 0 \<or> q = 1 \<or> q = 2 \<or> q = 3" using qz by presburger
  have pl: "pll q = Inr (2 * q + 1)" "q div 4 = 0" "pll (q + 8) = Inr (2 * q + 1)" "(q + 8) div 4 = 2"
    using cases by (elim disjE; simp)+
  consider (north) "t2 + sh \<le> z" "z < 2 ^ k - t2" | (south) "2 ^ k - t2 \<le> z" "z < t2 + sh"
    | (here) "z < 2 ^ k - t2" "z < t2 + sh" | (turn) "t2 + sh \<le> z" "2 ^ k - t2 \<le> z" by linarith
  then show ?thesis
  proof cases
    case north
    have i: "0 \<le> z - (t2 + sh)" "z - (t2 + sh) < 2 ^ k" and j: "0 \<le> 2 ^ k - t2 - 1 - z" "2 ^ k - t2 - 1 - z < 2 ^ k"
      using north bounds t by auto
    have ring: "t + 2 ^ k = (q div 4 + 2) * 2 ^ k - (z - (t2 + sh)) - (2 ^ k - t2 - 1 - z) - 1" using pl t by simp
    have eq: "(2 * q + 1) * 2 ^ k + (z - (t2 + sh)) - (2 ^ k - t2 - 1 - z) + 1 + sh = 2 * (q * 2 ^ k + z + 1)"
      by (simp add: algebra_simps)
    note nr = nest_to_ring_belt [OF assms(1,2) pl(1) i j t tN ring eq bounds(2)]
    show ?thesis
      using pixel_round_tripI [OF ring_to_nest_belt_north [OF assms(1) t tN qz(2,3) north r]] nr assms(2) qz i j r bounds(3)
      by simp
  next
    case south
    have i: "0 \<le> 2 ^ k + z - (t2 + sh)" "2 ^ k + z - (t2 + sh) < 2 ^ k"
      and j: "0 \<le> 2 * 2 ^ k - t2 - 1 - z" "2 * 2 ^ k - t2 - 1 - z < 2 ^ k"
      using south bounds t qz by auto
    have ring: "t + 2 ^ k = ((q + 8) div 4 + 2) * 2 ^ k - (2 ^ k + z - (t2 + sh)) - (2 * 2 ^ k - t2 - 1 - z) - 1"
      using pl t by simp
    have eq: "(2 * q + 1) * 2 ^ k + (2 ^ k + z - (t2 + sh)) - (2 * 2 ^ k - t2 - 1 - z) + 1 + sh = 2 * (q * 2 ^ k + z + 1)"
      by (simp add: algebra_simps)
    note nr = nest_to_ring_belt [OF assms(1,2) pl(3) i j t tN ring eq bounds(2)]
    show ?thesis
      using pixel_round_tripI [OF ring_to_nest_belt_south [OF assms(1) t tN qz(2,3) south qz(4) bounds(1) r]] nr assms(2) qz i j r bounds(3)
      by simp
  next
    case here
    show ?thesis
      using here t bounds qz by (intro round_trip_equator [OF assms(1,2) t tN qz(2) _ _ here _ bounds(3,2) r]) auto
  next
    case turn
    have "q * 2 ^ k + z = (q + 1) * 2 ^ k + (z - 2 ^ k)" by (simp add: algebra_simps)
    note r' = r [unfolded this] and b' = bounds(3,2) [unfolded this]
    show ?thesis
      using turn t bounds qz by (intro round_trip_equator [OF assms(1,2) t tN _ _ _ _ _ _ b' r']) auto
  qed
qed


lemma pixel_round_trip:
  assumes "1 \<le> k" "k \<le> 13" and "0 \<le> r" "r < 12 * 2 ^ (2 * k)"
  shows "pixel_round_trip k r"
proof -
  have "(2 :: int) ^ (2 * k) = 2 ^ k * 2 ^ k" by (simp add: mult_2 power_add)
  then have "r < 12 * 2 ^ k * 2 ^ k" using assms(4) by simp
  then show ?thesis
    using round_trip_north [OF assms(2,3)] round_trip_south [OF assms(2)] round_trip_belt [OF assms(1,2)]
    by (meson not_le)
qed

lemma nested_pixel:
  assumes "1 \<le> k" "k \<le> 13" and "0 \<le> n" "n < 12 * 2 ^ (2 * k)"
  shows "\<exists>r. 0 \<le> r \<and> r < 12 * 2 ^ (2 * k) \<and> ring_to_nest (grid k) r = Inr n \<and> nest_to_ring (grid k) n = Inr r"
proof -
  obtain A where A: "A = {0..<12 * 2 ^ (2 * k) :: int}" by simp
  obtain f where f: "f = (\<lambda>r. projr (ring_to_nest (grid k) r))" by simp
  have trip: "ring_to_nest (grid k) r = Inr (f r) \<and> f r \<in> A \<and> nest_to_ring (grid k) (f r) = Inr r" if "r \<in> A" for r
    using pixel_round_trip [OF assms(1,2), of r] that unfolding A f pixel_round_trip_def by auto
  have "inj_on f A" using trip by (intro inj_onI) (metis Inr_inject)
  moreover have "f ` A \<subseteq> A" using trip by auto
  ultimately have "f ` A = A" by (intro endo_inj_surj) (simp_all add: A)
  then obtain r where "r \<in> A" "f r = n" using assms(3,4) unfolding A by (metis atLeastLessThan_iff imageE)
  then show ?thesis using trip [of r] unfolding A by auto
qed

text \<open>
  Property C9. On every grid with \<open>2\<close> to \<open>2 ^ 13\<close> subdivisions, the limit the header gives, both numberings are total and
  inverse to each other: a pixel's nested index is in range and leads back to its index by rings, and every index is the
  nested index of a pixel. Neither fails an assertion or overflows.
\<close>

theorem healpix_numberings_inverse:
  assumes "1 \<le> k" "k \<le> 13" and "0 \<le> m" "m < 12 * 2 ^ (2 * k)"
  shows "\<exists>h n r. new_HEALPix (2 ^ k) = Inr h \<and>
    ring_to_nest h m = Inr n \<and> nest_to_ring h n = Inr m \<and> nest_to_ring h m = Inr r \<and> ring_to_nest h r = Inr m \<and>
    {n, r} \<subseteq> {0..<12 * 2 ^ (2 * k)}"
  using new_HEALPix_grid [OF assms(2)] pixel_round_trip [OF assms] nested_pixel [OF assms]
  unfolding pixel_round_trip_def by auto

lemma healpix_numberings_inverse_witness:
  "\<exists>h n r. new_HEALPix (2 ^ 2) = Inr h \<and>
    ring_to_nest h 100 = Inr n \<and> nest_to_ring h n = Inr 100 \<and> nest_to_ring h 100 = Inr r \<and> ring_to_nest h r = Inr 100 \<and>
    {n, r} \<subseteq> {0..<12 * 2 ^ (2 * 2)}"
  by (rule healpix_numberings_inverse) simp_all

text \<open>
  The grid without subdivisions has twelve pixels, and \<^verbatim>\<open>nest_to_ring\<close> is right on it, but
  \<^verbatim>\<open>ring_to_nest\<close> takes the shift of a ring of the belt from the parity of \<open>ring\<close>, which is not that of
  \<open>ring - Nside\<close> when \<open>Nside\<close> is odd: the coordinates become negative, which the assertion does not exclude, and the index
  is far outside of the grid.
\<close>

theorem single_pixel_faces_broken:
  "new_HEALPix 1 = Inr (grid 0) \<and> map (nest_to_ring (grid 0)) [0, 4, 8] = [Inr 0, Inr 4, Inr 8] \<and>
   ring_to_nest (grid 0) 0 = Inr 1431655765"
proof (intro conjI)
  show "new_HEALPix 1 = Inr (grid 0)" using new_HEALPix_grid [of 0] by simp
  have "ring_to_nest \<lparr>hp_Nside = 1, hp_Npix = 12, hp_Ncap = 0, hp_k = 0\<rparr> 0 = Inr 1431655765" by code_simp
  then show "ring_to_nest (grid 0) 0 = Inr 1431655765" by (simp add: grid_def)
  have "map (nest_to_ring \<lparr>hp_Nside = 1, hp_Npix = 12, hp_Ncap = 0, hp_k = 0\<rparr>) [0, 4, 8] = [Inr 0, Inr 4, Inr 8]" by code_simp
  then show "map (nest_to_ring (grid 0)) [0, 4, 8] = [Inr 0, Inr 4, Inr 8]" by (simp add: grid_def)
qed

end
