(* ===== verification/Renumbering.thy ===== *)
theory Renumbering
  imports PixelNumbers Numerals Messages
begin

text \<open>
  The action \<^verbatim>\<open>renumber-healpix\<close> and the generator of its tables: a field on a HEALPix grid is reordered from the numbering
  by rings to the nested one, with a table for the grid from a file the generator has written. The numberings are
  those of \<open>PixelNumbers\<close>, and \<open>renumber_reorders\<close> puts the generator, the file and the action together.
\<close>

section \<open>The tables\<close>

text \<open>
  \<^verbatim>\<open>GenerateCache.cc\<close>: one table per order, under a name with the number of subdivisions in eight digits. An
  \<^verbatim>\<open>int\<close> that is converted to \<^verbatim>\<open>size_t\<close> is taken modulo \<open>2 ^ 64\<close>.
\<close>

definition to_size_t :: "int \<Rightarrow> nat" where
  "to_size_t n = unat (word_of_int n :: u64)"

definition table_name :: "nat \<Rightarrow> string" where
  "table_name Nside =
     (let ds = digits Nside in ''H'' @ replicate (8 - length ds) CHR ''0'' @ ds @ ''_ring2nest'')"

definition ring2nest_table :: "int \<Rightarrow> nat list res" where
  "ring2nest_table Nside =
     bind_res (new_HEALPix Nside) (\<lambda>h.
     map_res (\<lambda>j. bind_res (ring_to_nest h (int j)) (\<lambda>n. Inr (to_size_t n))) [0..<nat Nside * nat Nside * 12])"

definition order_size :: "nat \<Rightarrow> int" where
  "order_size k = sint (word_of_int (2 ^ k) :: i32)"

definition generate_cache :: "nat list \<Rightarrow> (string \<Rightarrow> nat list option) \<Rightarrow> (string \<Rightarrow> nat list option) res" where
  "generate_cache orders entries =
     fold_res (\<lambda>k entries.
       if 64 \<le> k then Inl UndefinedBehaviour
       else bind_res (ring2nest_table (order_size k)) (\<lambda>t. Inr (entries(table_name (2 ^ k) \<mapsto> t)))) orders entries"

section \<open>The action\<close>

text \<open>
  \<^verbatim>\<open>HEALPix_ring2nest.{h,cc}\<close>. The file of the tables is the argument \<open>cache_file\<close>, and \<open>mapping\<close> is the member
  \<^verbatim>\<open>mapping_\<close>, which keeps the tables that were read.
\<close>

definition checkMetadata :: "BaseMetadata \<Rightarrow> unit res" where
  "checkMetadata md =
     (case md_find md ''gridType'' of None \<Rightarrow> Inl UserError | Some g \<Rightarrow>
      case md_find md ''Nside'' of None \<Rightarrow> Inl UserError | Some _ \<Rightarrow>
      case md_find md ''orderingConvention'' of None \<Rightarrow> Inl UserError | Some c \<Rightarrow>
      bind_res (getter as_string g) (\<lambda>gridType.
      if gridType \<noteq> ''healpix'' \<and> gridType \<noteq> ''HEALPix'' then Inl UserError
      else bind_res (getter as_string c) (\<lambda>orderingConvention.
      if orderingConvention \<noteq> ''ring'' then Inl UserError else Inr ())))"

definition makeMapping :: "(string \<Rightarrow> nat list option) \<Rightarrow> nat \<Rightarrow> nat list res" where
  "makeMapping cache_file Nside =
     (case cache_file (table_name Nside) of
        None \<Rightarrow> Inl ForeignException
      | Some t \<Rightarrow> if length t \<noteq> 12 * Nside * Nside mod 2 ^ 64 then Inl UserError else Inr t)"

fun applyMap_loop :: "'v list \<Rightarrow> nat list \<Rightarrow> 'v list \<Rightarrow> 'v list res" where
  "applyMap_loop (v # vs) (n # ns) out = bind_res (write_at out n v) (\<lambda>out. applyMap_loop vs ns out)"
| "applyMap_loop vs ns out = Inr out"

definition applyMap :: "'v \<Rightarrow> nat list \<Rightarrow> 'v message \<Rightarrow> 'v message res" where
  "applyMap zero t msg =
     (case payload msg of
        Values vs \<Rightarrow>
          if length t \<noteq> length vs then Inl SeriousBug
          else bind_res (applyMap_loop vs t (replicate (length t) zero)) (\<lambda>out.
            Inr \<lparr>tag = Field, source = source msg, destination = destination msg,
                 metadata = md_set ''orderingConvention'' (MString ''nested'') (metadata msg), payload = Values out\<rparr>)
      | _ \<Rightarrow> Inl UndefinedBehaviour)"

definition renumber_executeImpl ::
    "(string \<Rightarrow> nat list option) \<Rightarrow> 'v \<Rightarrow> (nat \<Rightarrow> nat list option) \<Rightarrow> 'v message \<Rightarrow>
     ((nat \<Rightarrow> nat list option) \<times> 'v message list) res" where
  "renumber_executeImpl cache_file zero mapping msg =
     (if tag msg \<noteq> Field then Inr (mapping, [msg])
      else bind_res (checkMetadata (metadata msg)) (\<lambda>_.
      bind_res (md_get as_integer ''Nside'' (metadata msg)) (\<lambda>n.
      let key = to_size_t n in
      bind_res (case mapping key of Some t \<Rightarrow> Inr (mapping, t)
                | None \<Rightarrow> bind_res (makeMapping cache_file key) (\<lambda>t. Inr (mapping(key \<mapsto> t), t))) (\<lambda>(mapping, t).
      bind_res (msg_precision msg) (\<lambda>_.
      bind_res (applyMap zero t msg) (\<lambda>out. Inr (mapping, [out])))))))"


section \<open>The table of a grid\<close>

lemma to_size_t_small: "0 \<le> n \<Longrightarrow> n < 2 ^ 64 \<Longrightarrow> int (to_size_t n) = n"
  by (simp add: to_size_t_def unat_eq_nat_uint uint_word_of_int_eq take_bit_int_eq_self)

lemma digits_value_padded: "digits_value (replicate m CHR ''0'' @ ds) = digits_value ds"
proof (induction ds rule: rev_induct)
  case Nil
  show ?case by (induction m) (simp_all add: digits_value_def)
next
  case (snoc c ds)
  then show ?case by (simp add: digits_value_snoc flip: append_assoc)
qed

lemma table_name_value:
  assumes "n < 2 ^ 63"
  shows "stol (tl (table_name n)) = Inr (int n)"
proof -
  let ?ds = "replicate (8 - length (digits n)) CHR ''0'' @ digits n"
  have "tl (table_name n) = ?ds @ ''_ring2nest''" by (simp add: table_name_def Let_def)
  moreover have "list_all is_digit (replicate m CHR ''0'')" for m by (induction m) (simp_all add: is_digit_def)
  then have "list_all is_digit ?ds" using digits_all [of n] by simp
  ultimately show ?thesis
    using assms stol_digits [of ?ds "''_ring2nest''"] by (simp add: digits_value_padded is_digit_def)
qed

lemma table_name_inj: "m < 2 ^ 63 \<Longrightarrow> n < 2 ^ 63 \<Longrightarrow> table_name m = table_name n \<longleftrightarrow> m = n"
  by (metis Inr_inject of_nat_eq_iff table_name_value)

lemma order_size_small: "k < 31 \<Longrightarrow> order_size k = 2 ^ k"
proof -
  assume k: "k < 31"
  have "(2 :: int) ^ k < 2 ^ 31" using k by (intro power_strict_increasing) auto
  moreover have "- (2 ^ 31) \<le> (2 :: int) ^ k" by (rule order_trans [of _ 0]) simp_all
  ultimately show ?thesis
    unfolding order_size_def sint_sbintrunc' by (simp add: signed_take_bit_int_eq_self_iff)
qed

lemma table_order:
  assumes "ring2nest_table (order_size k) = Inr t"
  shows "k < 31"
proof (rule ccontr)
  assume k: "\<not> k < 31"
  have "ring2nest_table (order_size k) \<noteq> Inr t"
  proof (cases "k = 31")
    case True
    have "order_size 31 = - 2147483648" by code_simp
    then show ?thesis using True by (simp add: ring2nest_table_def new_HEALPix_def chk32_def)
  next
    case False
    then have "(2 ^ k :: i32) = 0" using k by (simp add: exp_eq_zero_iff)
    then have "order_size k = 0" unfolding order_size_def of_int_power of_int_numeral by (simp only: sint_0)
    moreover have "\<not> is_power_of_2 0" by (simp add: is_power_of_2_def)
    ultimately show ?thesis by (simp add: ring2nest_table_def new_HEALPix_def)
  qed
  then show False using assms by simp
qed

lemma generated_table:
  assumes "generate_cache orders entries = Inr cache" and "k < 31"
    and "k \<in> set orders \<or> (\<exists>t. ring2nest_table (2 ^ k) = Inr t \<and> entries (table_name (2 ^ k)) = Some t)"
  shows "\<exists>t. ring2nest_table (2 ^ k) = Inr t \<and> cache (table_name (2 ^ k)) = Some t"
  using assms(1,3)
proof (induction orders arbitrary: entries)
  case Nil
  then show ?case by (simp add: generate_cache_def)
next
  case (Cons j orders)
  then obtain t where t: "ring2nest_table (order_size j) = Inr t"
    and rest: "generate_cache orders (entries(table_name (2 ^ j) \<mapsto> t)) = Inr cache"
    by (auto simp: generate_cache_def bind_res_Inr_iff split: if_splits)
  have j: "j < 31" "ring2nest_table (2 ^ j) = Inr t" using table_order [OF t] t order_size_small by simp_all
  have less: "(2 :: nat) ^ i < 2 ^ 63" if "i < 31" for i using that by (intro power_strict_increasing) auto
  have "table_name (2 ^ j) = table_name (2 ^ k) \<longleftrightarrow> j = k"
    using table_name_inj [OF less [OF j(1)] less [OF assms(2)]] by simp
  then show ?case using Cons.prems(2) j by (intro Cons.IH [OF rest]) auto
qed

lemma table_entries:
  assumes "1 \<le> k" "k \<le> 13" and "ring2nest_table (2 ^ k) = Inr t"
  shows "length t = 12 * 2 ^ k * 2 ^ k" and "i < 12 * 2 ^ k * 2 ^ k \<Longrightarrow>
    t ! i < 12 * 2 ^ k * 2 ^ k \<and> nest_to_ring (grid k) (int (t ! i)) = Inr (int i)"
proof -
  have size: "nat (2 ^ k) * nat (2 ^ k) * 12 = 12 * 2 ^ k * 2 ^ k" by (simp add: nat_power_eq)
  have run: "map_res (\<lambda>j. bind_res (ring_to_nest (grid k) (int j)) (\<lambda>n. Inr (to_size_t n))) [0..<12 * 2 ^ k * 2 ^ k] = Inr t"
    using assms(3) unfolding ring2nest_table_def new_HEALPix_grid [OF assms(2)] bind_res_simps size .
  from map_resD [OF run] show len: "length t = 12 * 2 ^ k * 2 ^ k" by simp
  assume i: "i < 12 * 2 ^ k * 2 ^ k"
  have sq: "(2 :: int) ^ (2 * k) = 2 ^ k * 2 ^ k" by (simp add: mult_2 power_add)
  have "int i < int (12 * 2 ^ k * 2 ^ k)" using i by (simp only: of_nat_less_iff)
  then have "int i < 12 * 2 ^ (2 * k)" unfolding sq by simp
  then obtain n where n: "ring_to_nest (grid k) (int i) = Inr n" "0 \<le> n" "n < 12 * 2 ^ (2 * k)" "nest_to_ring (grid k) n = Inr (int i)"
    using pixel_round_trip [OF assms(1,2), of "int i"] unfolding pixel_round_trip_def by auto
  have n': "n < 12 * (2 ^ k * 2 ^ k)" using n(3) unfolding sq .
  then have "n < 2 ^ 64" using square_13 [OF assms(2)] by simp
  then have size_t: "int (to_size_t n) = n" using n(2) by (intro to_size_t_small) simp_all
  have "bind_res (ring_to_nest (grid k) (int i)) (\<lambda>n. Inr (to_size_t n)) = Inr (t ! i)"
    using map_resD [OF run] i by auto
  then have "t ! i = to_size_t n" using n(1) by simp
  moreover have "int (to_size_t n) < int (12 * 2 ^ k * 2 ^ k)" using n' unfolding size_t by simp
  ultimately show "t ! i < 12 * 2 ^ k * 2 ^ k \<and> nest_to_ring (grid k) (int (t ! i)) = Inr (int i)"
    using n(4) size_t unfolding of_nat_less_iff by simp
qed

lemma table_exists:
  assumes "1 \<le> k" "k \<le> 13"
  shows "\<exists>t. ring2nest_table (2 ^ k) = Inr t"
proof -
  have size: "nat (2 ^ k) * nat (2 ^ k) * 12 = 12 * 2 ^ k * 2 ^ k" by (simp add: nat_power_eq)
  have "\<exists>n. ring_to_nest (grid k) (int j) = Inr n" if "j < 12 * 2 ^ k * 2 ^ k" for j
  proof -
    have "int j < int (12 * 2 ^ k * 2 ^ k)" using that by (simp only: of_nat_less_iff)
    then have "int j < 12 * 2 ^ (2 * k)" by (simp add: mult_2 power_add)
    then show ?thesis using pixel_round_trip [OF assms, of "int j"] unfolding pixel_round_trip_def by auto
  qed
  then show ?thesis
    unfolding ring2nest_table_def new_HEALPix_grid [OF assms(2)] bind_res_simps size
    by (intro map_res_total) fastforce
qed

lemma applyMap_loop_scatters:
  assumes "length ns = length vs" "distinct ns" "\<forall>n \<in> set ns. n < length out"
  shows "\<exists>out'. applyMap_loop vs ns out = Inr out' \<and> length out' = length out \<and>
    (\<forall>i < length vs. out' ! (ns ! i) = vs ! i) \<and> (\<forall>n. n \<notin> set ns \<longrightarrow> out' ! n = out ! n)"
  using assms
proof (induction vs ns out rule: applyMap_loop.induct)
  case (1 v vs n ns out)
  obtain out' where "applyMap_loop vs ns (out[n := v]) = Inr out'" "length out' = length out"
    "\<forall>i < length vs. out' ! (ns ! i) = vs ! i" "\<forall>m. m \<notin> set ns \<longrightarrow> out' ! m = out[n := v] ! m"
    using "1.IH" [of "out[n := v]"] "1.prems" by auto
  then show ?case using 1 by (auto simp: nth_Cons split: nat.split)
qed auto

lemma applyMap_table:
  assumes "1 \<le> k" "k \<le> 13" and "ring2nest_table (2 ^ k) = Inr t" and "length vs = 12 * 2 ^ k * 2 ^ k"
  shows "\<exists>out. applyMap_loop vs t (replicate (length t) zero) = Inr out \<and> length out = length vs \<and>
    (\<forall>n < length vs. \<exists>r. nest_to_ring (grid k) (int n) = Inr (int r) \<and> r < length vs \<and> out ! n = vs ! r)"
proof -
  note t = table_entries [OF assms(1-3)]
  have len: "length t = length vs" using t(1) assms(4) by simp
  have entry: "t ! i < length vs \<and> nest_to_ring (grid k) (int (t ! i)) = Inr (int i)" if "i < length vs" for i
    using t(2) [of i] that unfolding assms(4) by simp
  have "distinct t"
    unfolding distinct_conv_nth using entry len by (metis Inr_inject of_nat_eq_iff)
  moreover have range: "set t \<subseteq> {..<length vs}" using entry len by (auto simp: in_set_conv_nth)
  ultimately obtain out where out: "applyMap_loop vs t (replicate (length t) zero) = Inr out" "length out = length vs"
      "\<forall>i < length vs. out ! (t ! i) = vs ! i"
    using applyMap_loop_scatters [of t vs "replicate (length t) zero"] len by auto
  have "set t = {..<length vs}"
    using \<open>distinct t\<close> range len by (intro card_subset_eq) (simp_all add: distinct_card)
  then have "\<exists>r. nest_to_ring (grid k) (int n) = Inr (int r) \<and> r < length vs \<and> out ! n = vs ! r" if "n < length vs" for n
    using that out(3) entry len by (metis in_set_conv_nth lessThan_iff)
  then show ?thesis using out by auto
qed

text \<open>
  Property C10. With a cache file that the generator has written for the order of its grid, the action turns every field
  of a HEALPix grid of \<open>2 ^ k\<close> subdivisions, \<open>k\<close> from 1 to 13, in the numbering by rings into the field in the nested
  numbering: the value at the nested index \<open>n\<close> is the one that was at \<^verbatim>\<open>nest_to_ring(n)\<close>, for all pixels,
  and the metadata say so. The table is kept, so that the next field does not read the file. For a single subdivision,
  which the generator writes a table for by default, the table is broken (\<open>single_pixel_faces_broken\<close>).
\<close>

theorem renumber_reorders:
  assumes "generate_cache orders (\<lambda>_. None) = Inr cache_file" and "k \<in> set orders" "1 \<le> k" "k \<le> 13"
    and "tag msg = Field" and "payload msg = Values vs" and "length vs = 12 * 2 ^ k * 2 ^ k"
    and "md_find (metadata msg) ''gridType'' = Some (MString ''healpix'')"
    and "md_find (metadata msg) ''Nside'' = Some (MInteger (2 ^ k))"
    and "md_find (metadata msg) ''orderingConvention'' = Some (MString ''ring'')"
    and "msg_precision msg = Inr p"
  shows "\<exists>mapping out msg'. renumber_executeImpl cache_file zero (\<lambda>_. None) msg = Inr (mapping, [msg']) \<and>
    renumber_executeImpl (\<lambda>_. None) zero mapping msg = Inr (mapping, [msg']) \<and>
    payload msg' = Values out \<and> length out = length vs \<and>
    md_find (metadata msg') ''orderingConvention'' = Some (MString ''nested'') \<and>
    (\<forall>n < length vs. \<exists>r. nest_to_ring (grid k) (int n) = Inr (int r) \<and> r < length vs \<and> out ! n = vs ! r)"
proof -
  obtain t where t: "ring2nest_table (2 ^ k) = Inr t" "cache_file (table_name (2 ^ k)) = Some t"
    using generated_table [OF assms(1), of k] assms(2,4) by auto
  have len: "length t = length vs" using table_entries(1) [OF assms(3,4) t(1)] assms(7) by simp
  obtain out where out: "applyMap_loop vs t (replicate (length t) zero) = Inr out" "length out = length vs"
      "\<forall>n < length vs. \<exists>r. nest_to_ring (grid k) (int n) = Inr (int r) \<and> r < length vs \<and> out ! n = vs ! r"
    using applyMap_table [OF assms(3,4) t(1) assms(7)] by blast
  have key: "to_size_t (2 ^ k) = 2 ^ k"
  proof -
    have "(2 :: int) ^ k < 2 ^ 64" using assms(4) by (intro power_strict_increasing) auto
    then have "int (to_size_t (2 ^ k)) = 2 ^ k" by (intro to_size_t_small) simp_all
    then have "nat (int (to_size_t (2 ^ k))) = nat (2 ^ k)" by (rule arg_cong)
    then show ?thesis by (simp add: nat_power_eq)
  qed
  have "12 * 2 ^ k * 2 ^ k < (2 :: nat) ^ 64"
  proof -
    have "int (12 * 2 ^ k * 2 ^ k) < int (2 ^ 64)" using square_13 [OF assms(4)] by simp
    then show ?thesis by (simp only: of_nat_less_iff)
  qed
  then have made: "makeMapping cache_file (2 ^ k) = Inr t" using t(2) len assms(7) by (simp add: makeMapping_def)
  obtain msg' where msg': "msg' = \<lparr>tag = Field, source = source msg, destination = destination msg,
      metadata = md_set ''orderingConvention'' (MString ''nested'') (metadata msg), payload = Values out\<rparr>" by simp
  have check: "checkMetadata (metadata msg) = Inr ()" "md_get as_integer ''Nside'' (metadata msg) = Inr (2 ^ k)"
    using assms(8-10) by (simp_all add: checkMetadata_def getter_def md_get_def)
  have applied: "applyMap zero t msg = Inr msg'" using assms(6) len out(1) by (simp add: applyMap_def msg')
  have "renumber_executeImpl cache_file zero (\<lambda>_. None) msg = Inr ([2 ^ k \<mapsto> t], [msg'])"
    "renumber_executeImpl (\<lambda>_. None) zero [2 ^ k \<mapsto> t] msg = Inr ([2 ^ k \<mapsto> t], [msg'])"
    using assms(5,11) check made applied by (simp_all add: renumber_executeImpl_def key)
  then show ?thesis using out(2,3) msg' by (metis message.select_convs(4,5) md_find_set)
qed

abbreviation healpix_field :: "nat message" where
  "healpix_field \<equiv> \<lparr>tag = Field, source = default_peer, destination = default_peer,
     metadata = [(''gridType'', MString ''healpix''), (''Nside'', MInteger (2 ^ 1)), (''orderingConvention'', MString ''ring''),
                 (''misc-precision'', MString ''double'')], payload = Values [0..<48]\<rparr>"

lemma renumber_reorders_witness:
  "\<exists>cache_file mapping out msg'. generate_cache [1] (\<lambda>_. None) = Inr cache_file \<and>
    renumber_executeImpl cache_file 0 (\<lambda>_. None) healpix_field = Inr (mapping, [msg']) \<and>
    renumber_executeImpl (\<lambda>_. None) 0 mapping healpix_field = Inr (mapping, [msg']) \<and>
    payload msg' = Values out \<and>
    (\<forall>n < length [0..<48]. \<exists>r. nest_to_ring (grid 1) (int n) = Inr (int r) \<and> r < length [0..<48] \<and> out ! n = [0..<48] ! r)"
proof -
  obtain t where "ring2nest_table (2 ^ 1) = Inr t" using table_exists [of 1] by auto
  then have "generate_cache [1] (\<lambda>_. None) = Inr [table_name (2 ^ 1) \<mapsto> t]" by (simp add: generate_cache_def order_size_small [of 1, simplified])
  then show ?thesis
    using renumber_reorders [of "[1]" _ 1 healpix_field "[0..<48]" Double 0]
    by (simp add: md_find_def msg_precision_def required_def md_getOpt_def getter_def decodePrecisionTag_def) blast
qed

end
