(* ===== verification/DataRecords.thy ===== *)
theory DataRecords
  imports DataTypes Metadata
begin

text \<open>
  \<^verbatim>\<open>datamod\<close>: descriptions of keys with their types (\<^verbatim>\<open>EntryDef\<close>) and records over them, which are read from
  metadata, completed with defaults, validated and dumped back. The C++ code is generic over a tuple of descriptions;
  here a record is a map from the keys to the values that are set, and the list of its descriptions comes with it. An
  entry that refers to a value of the global parametrization is the value.
\<close>

section \<open>Values and their types\<close>

datatype dm_type =
    T_Int | T_String | T_IntOrString | T_Bool | T_Double | T_Ints | T_Doubles
  | T_Param | T_LevType | T_Repres | T_StatType | T_TimeDuration | T_TypeOfProcessedData

datatype dm_value =
    V_Int int | V_String string | V_Bool bool | V_Double real | V_Ints "int list" | V_Doubles "real list"
  | V_Param int | V_LevType LevType | V_Repres Repres | V_StatType StatType | V_TimeDuration TimeDuration
  | V_TypeOfProcessedData TypeOfProcessedData

fun has_type :: "dm_value \<Rightarrow> dm_type \<Rightarrow> bool" where
  "has_type (V_Int _) T = (T = T_Int \<or> T = T_IntOrString)"
| "has_type (V_String _) T = (T = T_String \<or> T = T_IntOrString)"
| "has_type (V_Bool _) T = (T = T_Bool)"
| "has_type (V_Double _) T = (T = T_Double)"
| "has_type (V_Ints _) T = (T = T_Ints)"
| "has_type (V_Doubles _) T = (T = T_Doubles)"
| "has_type (V_Param _) T = (T = T_Param)"
| "has_type (V_LevType _) T = (T = T_LevType)"
| "has_type (V_Repres _) T = (T = T_Repres)"
| "has_type (V_StatType _) T = (T = T_StatType)"
| "has_type (V_TimeDuration _) T = (T = T_TimeDuration)"
| "has_type (V_TypeOfProcessedData _) T = (T = T_TypeOfProcessedData)"

section \<open>Reading a value\<close>

text \<open>
  \<^verbatim>\<open>ParseType<int64_t>\<close> and \<^verbatim>\<open>ParseType<bool>\<close>: \<^verbatim>\<open>from_chars\<close> takes an optional minus sign and
  digits, all of the string, without white space.
\<close>

definition parse_int64 :: "string \<Rightarrow> int res" where
  "parse_int64 str =
     (let (sign, ds) = (case str of c # cs \<Rightarrow> if c = CHR ''-'' then (- 1, cs) else (1, c # cs) | [] \<Rightarrow> (1, []));
          v = sign * int (digits_value ds)
      in if ds = [] \<or> \<not> list_all is_digit ds \<or> \<not> in_int64 v then Inl DataModellingException else Inr v)"

definition parse_bool_int :: "int \<Rightarrow> bool" where
  "parse_bool_int v = (v > 0)"

definition parse_bool_string :: "string \<Rightarrow> bool res" where
  "parse_bool_string str = bind_res (parse_int64 str) (\<lambda>v. Inr (v > 0))"

text \<open>The conversion of a floating point number to \<^verbatim>\<open>int64_t\<close> drops the fraction; out of range it is undefined.\<close>

definition truncate_int64 :: "real \<Rightarrow> int res" where
  "truncate_int64 d =
     (let i = (if 0 \<le> d then \<lfloor>d\<rfloor> else \<lceil>d\<rceil>) in if in_int64 i then Inr i else Inl UndefinedBehaviour)"

text \<open>
  The values that convert to \<^verbatim>\<open>int64_t\<close>: integers, booleans and floating point numbers. Where a parser is
  called with one of them it is converted, too.
\<close>

fun convert_int64 :: "MetadataValue \<Rightarrow> int res option" where
  "convert_int64 (MInteger i) = Some (Inr i)"
| "convert_int64 (MBool b) = Some (Inr (of_bool b))"
| "convert_int64 (MDouble d) = Some (truncate_int64 d)"
| "convert_int64 (MFloat d) = Some (truncate_int64 d)"
| "convert_int64 _ = None"

text \<open>
  \<^verbatim>\<open>TypeParser<ValueType>::parse\<close>: a value of the type itself, a parser for the type, or a conversion; where the
  types offer none of the three, reading the value throws. The parameter \<open>paramId\<close> is metkit's table of short names.
\<close>

definition via_int64 :: "(int \<Rightarrow> dm_value res) \<Rightarrow> MetadataValue \<Rightarrow> dm_value res" where
  "via_int64 f mv = (case convert_int64 mv of None \<Rightarrow> Inl DataModellingException | Some r \<Rightarrow> bind_res r f)"

definition via_string :: "('a \<Rightarrow> dm_value) \<Rightarrow> (string \<Rightarrow> 'a res) \<Rightarrow> MetadataValue \<Rightarrow> dm_value res" where
  "via_string c f mv = (case mv of MString s \<Rightarrow> bind_res (f s) (\<lambda>v. Inr (c v)) | _ \<Rightarrow> Inl DataModellingException)"

definition parse_value :: "(string \<Rightarrow> int res) \<Rightarrow> dm_type \<Rightarrow> MetadataValue \<Rightarrow> dm_value res" where
  "parse_value paramId T mv =
     (case T of
        T_Int \<Rightarrow> (case mv of MString _ \<Rightarrow> via_string V_Int parse_int64 mv | _ \<Rightarrow> via_int64 (\<lambda>i. Inr (V_Int i)) mv)
      | T_String \<Rightarrow> via_string V_String Inr mv
      | T_IntOrString \<Rightarrow> (case mv of
            MString s \<Rightarrow> Inr (V_String s)
          | MInteger i \<Rightarrow> Inr (V_Int i)
          | MBool b \<Rightarrow> Inr (V_Int (of_bool b))
          | _ \<Rightarrow> Inl DataModellingException)
      | T_Bool \<Rightarrow> (case mv of
            MBool b \<Rightarrow> Inr (V_Bool b)
          | MString _ \<Rightarrow> via_string V_Bool parse_bool_string mv
          | _ \<Rightarrow> via_int64 (\<lambda>i. Inr (V_Bool (parse_bool_int i))) mv)
      | T_Double \<Rightarrow> (case mv of
            MDouble d \<Rightarrow> Inr (V_Double d)
          | MFloat d \<Rightarrow> Inr (V_Double d)
          | MInteger i \<Rightarrow> Inr (V_Double (of_int i))
          | MBool b \<Rightarrow> Inr (V_Double (of_bool b))
          | _ \<Rightarrow> Inl DataModellingException)
      | T_Ints \<Rightarrow> (case mv of MIntegerList is \<Rightarrow> Inr (V_Ints is) | _ \<Rightarrow> Inl DataModellingException)
      | T_Doubles \<Rightarrow> (case mv of MDoubleList ds \<Rightarrow> Inr (V_Doubles ds) | _ \<Rightarrow> Inl DataModellingException)
      | T_Param \<Rightarrow> (case mv of MString _ \<Rightarrow> via_string V_Param paramId mv | _ \<Rightarrow> via_int64 (\<lambda>i. Inr (V_Param i)) mv)
      | T_LevType \<Rightarrow> via_string V_LevType parse_LevType mv
      | T_Repres \<Rightarrow> via_string V_Repres parse_Repres mv
      | T_StatType \<Rightarrow> via_string V_StatType parse_StatType mv
      | T_TimeDuration \<Rightarrow> (case mv of
            MString _ \<Rightarrow> via_string V_TimeDuration (\<lambda>s. parse_TimeDuration (Inr s)) mv
          | _ \<Rightarrow> via_int64 (\<lambda>i. bind_res (parse_TimeDuration (Inl i)) (\<lambda>t. Inr (V_TimeDuration t))) mv)
      | T_TypeOfProcessedData \<Rightarrow> (case mv of
            MString _ \<Rightarrow> via_string V_TypeOfProcessedData parse_TypeOfProcessedData mv
          | _ \<Rightarrow> via_int64 (\<lambda>i. bind_res (parse_code_TypeOfProcessedData i) (\<lambda>t. Inr (V_TypeOfProcessedData t))) mv))"

text \<open>
  \<^verbatim>\<open>TypeDumper<ValueType, Metadata>::dumpToAndVisit\<close>: what is written into the metadata.
\<close>

fun dump_value :: "dm_value \<Rightarrow> MetadataValue" where
  "dump_value (V_Int i) = MInteger i"
| "dump_value (V_String s) = MString s"
| "dump_value (V_Bool b) = MBool b"
| "dump_value (V_Double d) = MDouble d"
| "dump_value (V_Ints is) = MIntegerList is"
| "dump_value (V_Doubles ds) = MDoubleList ds"
| "dump_value (V_Param i) = MInteger i"
| "dump_value (V_LevType l) = MString (dump_LevType l)"
| "dump_value (V_Repres r) = MString (dump_Repres r)"
| "dump_value (V_StatType s) = MString (dump_StatType s)"
| "dump_value (V_TimeDuration t) = (case dump_TimeDuration t of Inl h \<Rightarrow> MInteger h | Inr s \<Rightarrow> MString s)"
| "dump_value (V_TypeOfProcessedData t) = MString (dump_TypeOfProcessedData t)"

section \<open>Descriptions of keys\<close>

datatype EntryTag = Required | Defaulted | Optional

record EntryDef =
  ed_key :: string
  ed_type :: dm_type
  ed_tag :: EntryTag
  ed_default :: "dm_value option"

definition entry :: "dm_type \<Rightarrow> string \<Rightarrow> EntryDef" where
  "entry T key = \<lparr>ed_key = key, ed_type = T, ed_tag = Required, ed_default = None\<rparr>"

definition tagRequired :: "EntryDef \<Rightarrow> EntryDef" where
  "tagRequired e = e\<lparr>ed_tag := Required\<rparr>"

text \<open>It says defaulted and tags the entry as optional.\<close>

definition tagDefaulted :: "EntryDef \<Rightarrow> EntryDef" where
  "tagDefaulted e = e\<lparr>ed_tag := Optional\<rparr>"

definition tagOptional :: "EntryDef \<Rightarrow> EntryDef" where
  "tagOptional e = e\<lparr>ed_tag := Optional\<rparr>"

definition withDefault :: "dm_value \<Rightarrow> EntryDef \<Rightarrow> EntryDef" where
  "withDefault v e = e\<lparr>ed_tag := Defaulted, ed_default := Some v\<rparr>"

lemmas entry_defs = entry_def tagRequired_def tagDefaulted_def tagOptional_def withDefault_def

section \<open>Records\<close>

type_synonym dm_record = "string \<Rightarrow> dm_value option"

record RecordDef =
  rd_entries :: "EntryDef list"
  rd_defaults :: "dm_record \<Rightarrow> dm_record res"
  rd_validate :: "dm_record \<Rightarrow> unit res"

text \<open>
  \<^verbatim>\<open>EntryParser<Metadata>::getByRef\<close>: the lookup is the one of the metadata, with the global parametrization behind
  it; a null value counts as missing.
\<close>

definition getByRef :: "(string \<Rightarrow> int res) \<Rightarrow> EntryDef \<Rightarrow> (string \<Rightarrow> MetadataValue option) \<Rightarrow> dm_value option res" where
  "getByRef paramId e look =
     (case look (ed_key e) of
        None \<Rightarrow> if ed_tag e = Required then Inl DataModellingException else Inr None
      | Some MNull \<Rightarrow> if ed_tag e = Required then Inl DataModellingException else Inr None
      | Some mv \<Rightarrow> bind_res (parse_value paramId (ed_type e) mv) (\<lambda>v. Inr (Some v)))"

definition parseRecord ::
    "(string \<Rightarrow> int res) \<Rightarrow> RecordDef \<Rightarrow> (string \<Rightarrow> MetadataValue option) \<Rightarrow> dm_record \<Rightarrow> dm_record res" where
  "parseRecord paramId R look =
     fold_res (\<lambda>e rec. bind_res (getByRef paramId e look) (\<lambda>v. Inr (rec(ed_key e := v)))) (rd_entries R)"

definition applyEntryDefaults :: "EntryDef \<Rightarrow> dm_record \<Rightarrow> dm_record" where
  "applyEntryDefaults e rec =
     (case ed_default e of
        None \<Rightarrow> rec
      | Some d \<Rightarrow> if rec (ed_key e) = None then rec(ed_key e \<mapsto> d) else rec)"

definition applyRecordDefaults :: "RecordDef \<Rightarrow> dm_record \<Rightarrow> dm_record res" where
  "applyRecordDefaults R rec = rd_defaults R (fold applyEntryDefaults (rd_entries R) rec)"

definition validateEntry :: "EntryDef \<Rightarrow> dm_record \<Rightarrow> unit res" where
  "validateEntry e rec =
     (if ed_tag e \<noteq> Optional \<and> rec (ed_key e) = None then Inl DataModellingException else Inr ())"

definition validateRecord :: "RecordDef \<Rightarrow> dm_record \<Rightarrow> unit res" where
  "validateRecord R rec =
     bind_res (fold_res (\<lambda>e _. validateEntry e rec) (rd_entries R) ()) (\<lambda>_. rd_validate R rec)"

definition readRecord ::
    "(string \<Rightarrow> int res) \<Rightarrow> RecordDef \<Rightarrow> (string \<Rightarrow> MetadataValue option) \<Rightarrow> dm_record res" where
  "readRecord paramId R look =
     bind_res (parseRecord paramId R look Map.empty) (\<lambda>rec.
     bind_res (applyRecordDefaults R rec) (\<lambda>rec.
     bind_res (validateRecord R rec) (\<lambda>_. Inr rec)))"

text \<open>\<^verbatim>\<open>Entry::get\<close> on an entry that is not set throws.\<close>

definition get_entry :: "dm_record \<Rightarrow> string \<Rightarrow> dm_value res" where
  "get_entry rec k = (case rec k of None \<Rightarrow> Inl DataModellingException | Some v \<Rightarrow> Inr v)"

definition dumpEntry :: "EntryDef \<Rightarrow> dm_record \<Rightarrow> BaseMetadata \<Rightarrow> BaseMetadata" where
  "dumpEntry e rec md =
     (case rec (ed_key e) of
        None \<Rightarrow> md_erase (ed_key e) md
      | Some v \<Rightarrow> md_set (ed_key e) (dump_value v) md)"

definition dumpRecord :: "RecordDef \<Rightarrow> dm_record \<Rightarrow> BaseMetadata \<Rightarrow> BaseMetadata" where
  "dumpRecord R rec = fold (\<lambda>e. dumpEntry e rec) (rd_entries R)"

section \<open>Well-typed values\<close>

fun value_ok :: "dm_value \<Rightarrow> bool" where
  "value_ok (V_StatType s) = stat_type_ok s"
| "value_ok (V_TimeDuration (Seconds n)) = in_int64 n"
| "value_ok _ = True"

lemma via_string_Inr:
  "via_string c f mv = Inr v \<longleftrightarrow> (\<exists>str x. mv = MString str \<and> f str = Inr x \<and> v = c x)"
  by (cases mv) (auto simp: via_string_def bind_res_Inr_iff)

lemma via_int64_Inr:
  "via_int64 f mv = Inr v \<longleftrightarrow> (\<exists>r i. convert_int64 mv = Some r \<and> r = Inr i \<and> f i = Inr v)"
  by (auto simp: via_int64_def bind_res_Inr_iff split: option.splits)

lemma parse_TimeDuration_ok:
  assumes "parse_TimeDuration (Inr str) = Inr t"
  shows "value_ok (V_TimeDuration t)"
proof -
  have "stol s = Inr n \<Longrightarrow> in_int64 n" for s n
    by (auto simp: stol_def in_int64_def Let_def split: prod.splits if_splits)
  then show ?thesis
    using assms by (auto simp: parse_TimeDuration_string_def bind_res_Inr_iff split: if_splits)
qed

lemma parse_value_typed:
  assumes "parse_value paramId T mv = Inr v"
  shows "has_type v T \<and> value_ok v"
proof (cases T)
  case T_StatType
  then show ?thesis
    using assms stat_type.parse_iff by (auto simp: parse_value_def via_string_Inr)
next
  case T_TimeDuration
  then show ?thesis
    using assms parse_TimeDuration_ok
    by (cases mv) (auto simp: parse_value_def via_string_Inr via_int64_Inr bind_res_Inr_iff)
qed (use assms in \<open>cases mv; auto simp: parse_value_def via_string_Inr via_int64_Inr bind_res_Inr_iff\<close>)+

lemma parse_dump_value:
  assumes "has_type v T" "value_ok v"
  shows "parse_value paramId T (dump_value v) = Inr v"
proof (cases v)
  case (V_TimeDuration t)
  then show ?thesis
    using assms parse_TimeDuration_dump [of t]
    by (cases t) (auto simp: parse_value_def via_string_def via_int64_def duration_ok_def)
next
  case (V_StatType st)
  then show ?thesis
    using assms stat_type.parse_dump [of st] by (auto simp: parse_value_def via_string_def)
next
  case (V_LevType l)
  then show ?thesis
    using assms lev_type.parse_dump [of l] by (auto simp: parse_value_def via_string_def)
next
  case (V_Repres r)
  then show ?thesis
    using assms repres.parse_dump [of r] by (auto simp: parse_value_def via_string_def)
next
  case (V_TypeOfProcessedData t)
  then show ?thesis
    using assms processed.parse_dump [of t] by (auto simp: parse_value_def via_string_def)
qed (use assms in \<open>auto simp: parse_value_def via_string_def via_int64_def\<close>)

section \<open>Records that are read\<close>

text \<open>
  What every record that has been read satisfies: the keys are those of its description and their values have the
  type that it gives them (\<open>typed\<close>), and the entries that are not optional are set (\<open>set_entries\<close>). The locale is the
  contract of a description: the key-wise defaults and the defaults of the record keep the values typed, unset no key
  that has a default, and change nothing when applied again.
\<close>

definition typed :: "RecordDef \<Rightarrow> dm_record \<Rightarrow> bool" where
  "typed R rec \<longleftrightarrow>
     (\<forall>k v. rec k = Some v \<longrightarrow>
        (\<exists>e\<in>set (rd_entries R). ed_key e = k \<and> has_type v (ed_type e) \<and> value_ok v))"

definition set_entries :: "RecordDef \<Rightarrow> dm_record \<Rightarrow> bool" where
  "set_entries R rec \<longleftrightarrow> (\<forall>e\<in>set (rd_entries R). ed_tag e \<noteq> Optional \<longrightarrow> rec (ed_key e) \<noteq> None)"

definition completes :: "RecordDef \<Rightarrow> dm_record \<Rightarrow> dm_record \<Rightarrow> bool" where
  "completes R rec rec' \<longleftrightarrow>
     (\<forall>e\<in>set (rd_entries R). ed_default e \<noteq> None \<longrightarrow> rec (ed_key e) \<noteq> None \<longrightarrow> rec' (ed_key e) \<noteq> None) \<and>
     (typed R rec \<longrightarrow> typed R rec')"

lemma typed_empty [simp]: "typed R Map.empty"
  by (simp add: typed_def)

lemma typed_upd:
  "typed R rec \<Longrightarrow> e \<in> set (rd_entries R) \<Longrightarrow> (\<And>x. v = Some x \<Longrightarrow> has_type x (ed_type e) \<and> value_ok x) \<Longrightarrow>
   typed R (rec(ed_key e := v))"
  by (auto simp: typed_def)

lemma getByRef_Some:
  "getByRef paramId e look = Inr (Some v) \<Longrightarrow> has_type v (ed_type e) \<and> value_ok v"
  using parse_value_typed
  by (auto simp: getByRef_def bind_res_Inr_iff split: option.splits MetadataValue.splits if_splits)

lemma parseRecord_typed:
  assumes "parseRecord paramId R look Map.empty = Inr rec"
  shows "typed R rec"
  using assms unfolding parseRecord_def
  by (rule fold_res_invariant [where P = "typed R", rotated -1]) (auto simp: bind_res_Inr_iff intro!: typed_upd dest: getByRef_Some)

lemma fold_res_unit: "fold_res (\<lambda>x _. f x) xs () = Inr () \<longleftrightarrow> (\<forall>x\<in>set xs. f x = Inr ())"
  by (induction xs) (auto simp: bind_res_Inr_iff)

lemma validateRecord_Inr:
  "validateRecord R rec = Inr () \<longleftrightarrow> set_entries R rec \<and> rd_validate R rec = Inr ()"
proof -
  have "validateEntry e rec = Inr () \<longleftrightarrow> (ed_tag e \<noteq> Optional \<longrightarrow> rec (ed_key e) \<noteq> None)" for e
    by (auto simp: validateEntry_def)
  then show ?thesis
    by (simp add: validateRecord_def bind_res_Inr_iff fold_res_unit set_entries_def)
qed

lemma readRecord_Inr:
  "readRecord paramId R look = Inr rec \<longleftrightarrow>
     (\<exists>rec0. parseRecord paramId R look Map.empty = Inr rec0 \<and> applyRecordDefaults R rec0 = Inr rec \<and>
       set_entries R rec \<and> rd_validate R rec = Inr ())"
  using validateRecord_Inr [of R] by (auto simp: readRecord_def bind_res_Inr_iff)

text \<open>The metadata after a record has been dumped into them.\<close>

lemma md_find_dumpEntry:
  "md_find (dumpEntry e rec md) k =
     (if k = ed_key e then map_option dump_value (rec k) else md_find md k)"
  by (simp add: dumpEntry_def md_find_erase split: option.splits)

lemma md_find_dumpRecord:
  "md_find (dumpRecord R rec md) k =
     (if k \<in> ed_key ` set (rd_entries R) then map_option dump_value (rec k) else md_find md k)"
proof -
  have "md_find (fold (\<lambda>e. dumpEntry e rec) es md) k =
      (if k \<in> ed_key ` set es then map_option dump_value (rec k) else md_find md k)" for es
    by (induction es arbitrary: md) (auto simp: md_find_dumpEntry)
  then show ?thesis by (simp add: dumpRecord_def)
qed

lemma dump_value_not_null: "dump_value v \<noteq> MNull"
  by (cases v) (auto split: sum.splits)

lemma getByRef_dumped:
  assumes "look (ed_key e) = map_option dump_value v" and "v = None \<Longrightarrow> ed_tag e = Optional \<or> ed_tag e = Defaulted"
    and "\<And>x. v = Some x \<Longrightarrow> has_type x (ed_type e) \<and> value_ok x"
  shows "getByRef paramId e look = Inr v"
proof (cases v)
  case None
  then show ?thesis using assms(1,2) by (auto simp: getByRef_def)
next
  case (Some x)
  then have "parse_value paramId (ed_type e) (dump_value x) = Inr x"
    using assms(3) parse_dump_value by blast
  then show ?thesis
    using Some assms(1) dump_value_not_null [of x] by (cases "dump_value x") (simp_all add: getByRef_def)
qed

section \<open>The contract of a description\<close>

lemma parseRecord_dumped:
  assumes "distinct (map ed_key (rd_entries R))" "typed R rec" "set_entries R rec"
    and look: "\<And>e. e \<in> set (rd_entries R) \<Longrightarrow> look (ed_key e) = map_option dump_value (rec (ed_key e))"
  shows "parseRecord paramId R look Map.empty = Inr rec"
proof -
  have step: "getByRef paramId e look = Inr (rec (ed_key e))" if "e \<in> set (rd_entries R)" for e
  proof (rule getByRef_dumped)
    show "look (ed_key e) = map_option dump_value (rec (ed_key e))" using look that by blast
    show "ed_tag e = Optional \<or> ed_tag e = Defaulted" if "rec (ed_key e) = None"
      using that \<open>e \<in> set (rd_entries R)\<close> assms(3) by (auto simp: set_entries_def)
    show "has_type x (ed_type e) \<and> value_ok x" if x: "rec (ed_key e) = Some x" for x
    proof -
      obtain e' where "e' \<in> set (rd_entries R)" "ed_key e' = ed_key e" "has_type x (ed_type e')" "value_ok x"
        using assms(2) x by (auto simp: typed_def)
      then show ?thesis
        using assms(1) \<open>e \<in> set (rd_entries R)\<close> by (metis distinct_map inj_onD)
    qed
  qed
  have "set es \<subseteq> set (rd_entries R) \<Longrightarrow>
      fold_res (\<lambda>e rec'. bind_res (getByRef paramId e look) (\<lambda>v. Inr (rec'(ed_key e := v)))) es acc =
      Inr (\<lambda>k. if k \<in> ed_key ` set es then rec k else acc k)" for es acc
    by (induction es arbitrary: acc) (auto simp: step fun_eq_iff)
  then have "parseRecord paramId R look Map.empty =
      Inr (\<lambda>k. if k \<in> ed_key ` set (rd_entries R) then rec k else None)"
    by (simp add: parseRecord_def)
  moreover have "(\<lambda>k. if k \<in> ed_key ` set (rd_entries R) then rec k else None) = rec"
  proof (rule ext)
    fix k
    show "(if k \<in> ed_key ` set (rd_entries R) then rec k else None) = rec k"
      using assms(2) by (cases "rec k") (auto simp: typed_def)
  qed
  ultimately show ?thesis by simp
qed

lemma fold_applyEntryDefaults:
  "completes R rec (fold applyEntryDefaults es rec)"
  if "\<And>e d. e \<in> set es \<Longrightarrow> ed_default e = Some d \<Longrightarrow> has_type d (ed_type e) \<and> value_ok d"
    and "set es \<subseteq> set (rd_entries R)"
  using that
proof (induction es arbitrary: rec)
  case (Cons e es)
  have "completes R rec (applyEntryDefaults e rec)"
    using Cons.prems by (auto simp: completes_def applyEntryDefaults_def typed_def split: option.splits)
  moreover have "completes R (applyEntryDefaults e rec) (fold applyEntryDefaults es (applyEntryDefaults e rec))"
    using Cons.prems by (intro Cons.IH) auto
  ultimately show ?case by (fastforce simp: completes_def)
qed (simp add: completes_def)

lemma fold_applyEntryDefaults_sets:
  "e \<in> set es \<Longrightarrow> ed_default e = Some d \<Longrightarrow> fold applyEntryDefaults es rec (ed_key e) \<noteq> None"
proof (induction es arbitrary: rec)
  case (Cons x es)
  have keeps: "r k \<noteq> None \<Longrightarrow> fold applyEntryDefaults es r k \<noteq> None" for r k
    by (induction es arbitrary: r) (auto simp: applyEntryDefaults_def split: option.splits)
  show ?case
  proof (cases "e = x")
    case True
    then have "applyEntryDefaults x rec (ed_key e) \<noteq> None"
      using Cons.prems(2) by (auto simp: applyEntryDefaults_def)
    then show ?thesis using keeps by simp
  qed (use Cons in simp)
qed simp

lemma fold_applyEntryDefaults_id:
  "(\<And>e. e \<in> set es \<Longrightarrow> ed_default e \<noteq> None \<Longrightarrow> rec (ed_key e) \<noteq> None) \<Longrightarrow> fold applyEntryDefaults es rec = rec"
proof (induction es)
  case (Cons e es)
  have "applyEntryDefaults e rec = rec"
    using Cons.prems [of e] by (cases "ed_default e") (auto simp: applyEntryDefaults_def)
  then show ?case using Cons by simp
qed simp

locale record_def =
  fixes R :: RecordDef
  assumes distinct_keys: "distinct (map ed_key (rd_entries R))"
    and default_typed: "e \<in> set (rd_entries R) \<Longrightarrow> ed_default e = Some d \<Longrightarrow> has_type d (ed_type e) \<and> value_ok d"
    and defaults_keep: "rd_defaults R rec = Inr rec' \<Longrightarrow> completes R rec rec'"
    and defaults_stable: "rd_defaults R rec = Inr rec' \<Longrightarrow> rd_defaults R rec' = Inr rec'"
begin

lemma applyRecordDefaults_completes: "applyRecordDefaults R rec = Inr rec' \<Longrightarrow> completes R rec rec'"
  using fold_applyEntryDefaults [of "rd_entries R" R rec] default_typed
    defaults_keep [of "fold applyEntryDefaults (rd_entries R) rec" rec']
  by (fastforce simp: applyRecordDefaults_def completes_def)

lemma applyRecordDefaults_stable:
  assumes "applyRecordDefaults R rec = Inr rec'"
  shows "applyRecordDefaults R rec' = Inr rec'"
proof -
  have run: "rd_defaults R (fold applyEntryDefaults (rd_entries R) rec) = Inr rec'"
    using assms by (simp add: applyRecordDefaults_def)
  have "fold applyEntryDefaults (rd_entries R) rec' = rec'"
    using fold_applyEntryDefaults_sets [of _ "rd_entries R" _ rec] defaults_keep [OF run]
    by (intro fold_applyEntryDefaults_id) (fastforce simp: completes_def)
  then show ?thesis using defaults_stable [OF run] by (simp add: applyRecordDefaults_def)
qed

lemma read_typed:
  assumes "readRecord paramId R look = Inr rec"
  shows "typed R rec \<and> set_entries R rec"
  using assms parseRecord_typed applyRecordDefaults_completes
  by (fastforce simp: readRecord_Inr completes_def)

lemma read_dump:
  assumes "readRecord paramId R look = Inr rec"
    and "\<And>k. md_find (dumpRecord R rec md) k = None \<Longrightarrow> k \<in> ed_key ` set (rd_entries R) \<Longrightarrow> md_find g k = None"
  shows "readRecord paramId R (metadata_find g (dumpRecord R rec md)) = Inr rec"
proof -
  have "typed R rec" "set_entries R rec" "rd_validate R rec = Inr ()" "applyRecordDefaults R rec = Inr rec"
    using assms(1) read_typed applyRecordDefaults_stable by (auto simp: readRecord_Inr)
  moreover have "metadata_find g (dumpRecord R rec md) k = map_option dump_value (rec k)"
    if "k \<in> ed_key ` set (rd_entries R)" for k
    using that assms(2) [of k] by (auto simp: metadata_find_def md_find_dumpRecord split: option.splits)
  ultimately have "parseRecord paramId R (metadata_find g (dumpRecord R rec md)) Map.empty = Inr rec"
    using distinct_keys by (intro parseRecord_dumped) auto
  then show ?thesis
    using \<open>set_entries R rec\<close> \<open>rd_validate R rec = Inr ()\<close> \<open>applyRecordDefaults R rec = Inr rec\<close>
    by (auto simp: readRecord_Inr)
qed

end

end
