(* ===== verification/MarsRecords.thy ===== *)
theory MarsRecords
  imports DataRecords
begin

text \<open>
  The keys of MARS and GRIB that fields are described with (\<^verbatim>\<open>datamod/MarsKeys.h\<close>, \<^verbatim>\<open>datamod/GribKeys.h\<close>), the
  records made of them (\<^verbatim>\<open>datamod/MarsMiscGeo\<close>), and the choice of the record of the geometry. The keys whose types are
  \<^verbatim>\<open>TypeOfLevel\<close> and \<^verbatim>\<open>TypeOfStatisticalProcessing\<close> are not read from metadata and are left out.
\<close>

section \<open>Keys of MARS\<close>

definition ORIGIN :: EntryDef where
  "ORIGIN = withDefault (V_String ''ecmf'') (entry T_IntOrString ''origin'')"

definition CLASS :: EntryDef where
  "CLASS = entry T_String ''class''"

definition STREAM :: EntryDef where
  "STREAM = entry T_String ''stream''"

definition TYPE_key :: EntryDef where
  "TYPE_key = entry T_String ''type''"

definition EXPVER :: EntryDef where
  "EXPVER = entry T_IntOrString ''expver''"

definition MODEL :: EntryDef where
  "MODEL = tagOptional (entry T_String ''model'')"

definition PARAM :: EntryDef where
  "PARAM = entry T_Param ''param''"

definition LEVTYPE :: EntryDef where
  "LEVTYPE = tagOptional (entry T_LevType ''levtype'')"

definition LEVELIST :: EntryDef where
  "LEVELIST = tagOptional (entry T_Int ''levelist'')"

definition DATE :: EntryDef where
  "DATE = entry T_Int ''date''"

definition TIME :: EntryDef where
  "TIME = entry T_Int ''time''"

definition STEP :: EntryDef where
  "STEP = tagOptional (entry T_TimeDuration ''step'')"

definition TIMESPAN :: EntryDef where
  "TIMESPAN = tagOptional (entry T_TimeDuration ''timespan'')"

definition STATTYPE :: EntryDef where
  "STATTYPE = tagOptional (entry T_StatType ''stattype'')"

definition ANOFFSET :: EntryDef where
  "ANOFFSET = tagOptional (entry T_Int ''anoffset'')"

definition HDATE :: EntryDef where
  "HDATE = tagOptional (entry T_Int ''hdate'')"

definition REFDATE :: EntryDef where
  "REFDATE = tagOptional (entry T_Int ''refdate'')"

definition FCMONTH :: EntryDef where
  "FCMONTH = tagOptional (entry T_Int ''fcmonth'')"

definition FCPERIOD :: EntryDef where
  "FCPERIOD = tagOptional (entry T_Int ''fcperiod'')"

definition NUMBER :: EntryDef where
  "NUMBER = tagOptional (entry T_Int ''number'')"

definition IDENT :: EntryDef where
  "IDENT = tagOptional (entry T_Int ''ident'')"

definition INSTRUMENT :: EntryDef where
  "INSTRUMENT = tagOptional (entry T_Int ''instrument'')"

definition CHANNEL :: EntryDef where
  "CHANNEL = tagOptional (entry T_Int ''channel'')"

definition CHEM :: EntryDef where
  "CHEM = tagOptional (entry T_Int ''chem'')"

definition WAVELENGTH :: EntryDef where
  "WAVELENGTH = tagOptional (entry T_Int ''wavelength'')"

definition DIRECTION :: EntryDef where
  "DIRECTION = tagOptional (entry T_Int ''direction'')"

definition FREQUENCY :: EntryDef where
  "FREQUENCY = tagOptional (entry T_Int ''frequency'')"

definition METHOD :: EntryDef where
  "METHOD = tagOptional (entry T_Int ''method'')"

definition SYSTEM :: EntryDef where
  "SYSTEM = tagOptional (entry T_Int ''system'')"

definition ITERATION :: EntryDef where
  "ITERATION = tagOptional (entry T_Int ''iteration'')"

definition DIAGNOSTIC :: EntryDef where
  "DIAGNOSTIC = tagOptional (entry T_Int ''diagnostic'')"

definition DATASET :: EntryDef where
  "DATASET = tagOptional (entry T_String ''dataset'')"

definition RESOLUTION :: EntryDef where
  "RESOLUTION = tagOptional (entry T_String ''resolution'')"

definition ACTIVITY :: EntryDef where
  "ACTIVITY = tagOptional (entry T_String ''activity'')"

definition EXPERIMENT :: EntryDef where
  "EXPERIMENT = tagOptional (entry T_String ''experiment'')"

definition GENERATION :: EntryDef where
  "GENERATION = tagOptional (entry T_Int ''generation'')"

definition REALIZATION :: EntryDef where
  "REALIZATION = tagOptional (entry T_Int ''realization'')"

definition PACKING :: EntryDef where
  "PACKING = tagOptional (entry T_String ''packing'')"

definition GRID :: EntryDef where
  "GRID = tagOptional (entry T_String ''grid'')"

definition TRUNCATION :: EntryDef where
  "TRUNCATION = tagOptional (entry T_Int ''truncation'')"

definition REPRES :: EntryDef where
  "REPRES = tagDefaulted (entry T_Repres ''repres'')"

section \<open>Keys of GRIB and of the parametrization\<close>

definition Discipline :: EntryDef where
  "Discipline = withDefault (V_Int 0) (entry T_Int ''discipline'')"

definition TablesVersion :: EntryDef where
  "TablesVersion = tagOptional (entry T_Int ''tablesVersion'')"

definition LocalTablesVersion :: EntryDef where
  "LocalTablesVersion = tagOptional (entry T_Int ''localTablesVersion'')"

definition ProductionStatusOfProcessedData :: EntryDef where
  "ProductionStatusOfProcessedData = tagOptional (entry T_Int ''productionStatusOfProcessedData'')"

definition TypeOfProcessedDataEntry :: EntryDef where
  "TypeOfProcessedDataEntry = tagOptional (entry T_TypeOfProcessedData ''typeOfProcessedData'')"

definition ShapeOfTheEarth :: EntryDef where
  "ShapeOfTheEarth = withDefault (V_Int 6) (entry T_Int ''shapeOfTheEarth'')"

definition TruncateDegrees :: EntryDef where
  "TruncateDegrees = tagOptional (entry T_Int ''truncateDegrees'')"

definition NumberOfPointsAlongAMeridian :: EntryDef where
  "NumberOfPointsAlongAMeridian = tagOptional (entry T_Int ''numberOfPointsAlongAMeridian'')"

definition NumberOfParallelsBetweenAPoleAndTheEquator :: EntryDef where
  "NumberOfParallelsBetweenAPoleAndTheEquator = entry T_Int ''numberOfParallelsBetweenAPoleAndTheEquator''"

definition LatitudeOfFirstGridPointInDegrees :: EntryDef where
  "LatitudeOfFirstGridPointInDegrees = entry T_Double ''latitudeOfFirstGridPointInDegrees''"

definition LongitudeOfFirstGridPointInDegrees :: EntryDef where
  "LongitudeOfFirstGridPointInDegrees = entry T_Double ''longitudeOfFirstGridPointInDegrees''"

definition LatitudeOfLastGridPointInDegrees :: EntryDef where
  "LatitudeOfLastGridPointInDegrees = entry T_Double ''latitudeOfLastGridPointInDegrees''"

definition LongitudeOfLastGridPointInDegrees :: EntryDef where
  "LongitudeOfLastGridPointInDegrees = entry T_Double ''longitudeOfLastGridPointInDegrees''"

definition IDirectionIncrementInDegrees :: EntryDef where
  "IDirectionIncrementInDegrees = entry T_Double ''iDirectionIncrementInDegrees''"

definition JDirectionIncrementInDegrees :: EntryDef where
  "JDirectionIncrementInDegrees = entry T_Double ''jDirectionIncrementInDegrees''"

definition Pl :: EntryDef where
  "Pl = tagOptional (entry T_Ints ''pl'')"

definition NumberOfPointsAlongAParallel :: EntryDef where
  "NumberOfPointsAlongAParallel = tagOptional (entry T_Int ''numberOfPointsAlongAParallel'')"

definition PentagonalResolutionParameterJ :: EntryDef where
  "PentagonalResolutionParameterJ = entry T_Int ''pentagonalResolutionParameterJ''"

definition PentagonalResolutionParameterK :: EntryDef where
  "PentagonalResolutionParameterK = entry T_Int ''pentagonalResolutionParameterK''"

definition PentagonalResolutionParameterM :: EntryDef where
  "PentagonalResolutionParameterM = entry T_Int ''pentagonalResolutionParameterM''"

definition NSide :: EntryDef where
  "NSide = entry T_Int ''nside''"

definition OrderingConvention :: EntryDef where
  "OrderingConvention = tagOptional (entry T_String ''orderingConvention'')"

definition ProductDefinitionTemplateNumber :: EntryDef where
  "ProductDefinitionTemplateNumber = tagOptional (entry T_Int ''productDefinitionTemplateNumber'')"

definition GeneratingProcessIdentifier :: EntryDef where
  "GeneratingProcessIdentifier = tagOptional (entry T_Int ''generatingProcessIdentifier'')"

definition ScaleFactorOfCentralWaveNumber :: EntryDef where
  "ScaleFactorOfCentralWaveNumber = tagOptional (entry T_Int ''scaleFactorOfCentralWaveNumber'')"

definition ScaledValueOfCentralWaveNumber :: EntryDef where
  "ScaledValueOfCentralWaveNumber = tagOptional (entry T_Int ''scaledValueOfCentralWaveNumber'')"

definition TypeOfEnsembleForecast :: EntryDef where
  "TypeOfEnsembleForecast = tagOptional (entry T_Int ''typeOfEnsembleForecast'')"

definition NumberOfForecastsInEnsemble :: EntryDef where
  "NumberOfForecastsInEnsemble = tagOptional (entry T_Int ''numberOfForecastsInEnsemble'')"

definition SatelliteSeries :: EntryDef where
  "SatelliteSeries = tagOptional (entry T_Int ''satelliteSeries'')"

definition PressureUnits :: EntryDef where
  "PressureUnits = tagOptional (entry T_String ''pressureUnits'')"

definition TypeOfFirstFixedSurface :: EntryDef where
  "TypeOfFirstFixedSurface = tagOptional (entry T_Int ''typeOfFirstFixedSurface'')"

definition TypeOfSecondFixedSurface :: EntryDef where
  "TypeOfSecondFixedSurface = tagOptional (entry T_Int ''typeOfSecondFixedSurface'')"

definition ScaledValueOfFirstFixedSurface :: EntryDef where
  "ScaledValueOfFirstFixedSurface = tagOptional (entry T_Int ''scaledValueOfFirstFixedSurface'')"

definition ScaledValueOfSecondFixedSurface :: EntryDef where
  "ScaledValueOfSecondFixedSurface = tagOptional (entry T_Int ''scaledValueOfSecondFixedSurface'')"

definition ScaleFactorOfFirstFixedSurface :: EntryDef where
  "ScaleFactorOfFirstFixedSurface = tagOptional (entry T_Int ''scaleFactorOfFirstFixedSurface'')"

definition ScaleFactorOfSecondFixedSurface :: EntryDef where
  "ScaleFactorOfSecondFixedSurface = tagOptional (entry T_Int ''scaleFactorOfSecondFixedSurface'')"

definition BitmapPresent :: EntryDef where
  "BitmapPresent = tagOptional (entry T_Bool ''bitmapPresent'')"

definition MissingValue :: EntryDef where
  "MissingValue = tagOptional (entry T_Double ''missingValue'')"

definition BitsPerValue :: EntryDef where
  "BitsPerValue = tagOptional (entry T_Int ''bitsPerValue'')"

definition LaplacianOperator :: EntryDef where
  "LaplacianOperator = tagOptional (entry T_Double ''laplacianOperator'')"

definition PVPresent :: EntryDef where
  "PVPresent = tagOptional (entry T_Bool ''PVPresent'')"

definition Pv :: EntryDef where
  "Pv = tagOptional (entry T_Doubles ''pv'')"

definition InitialStep :: EntryDef where
  "InitialStep = withDefault (V_Int 0) (entry T_Int ''initialStep'')"

definition TimeIncrementInSeconds :: EntryDef where
  "TimeIncrementInSeconds = withDefault (V_Int 3600) (entry T_Int ''timeIncrementInSeconds'')"

definition LengthOfTimeWindow :: EntryDef where
  "LengthOfTimeWindow = tagOptional (entry T_Int ''lengthOfTimeWindow'')"

definition LengthOfTimeWindowInSeconds :: EntryDef where
  "LengthOfTimeWindowInSeconds = tagOptional (entry T_Int ''lengthOfTimeWindowInSeconds'')"

definition ScaleFactorOfWaveDirections :: EntryDef where
  "ScaleFactorOfWaveDirections = tagOptional (entry T_Int ''scaleFactorOfWaveDirections'')"

definition ScaleFactorOfWaveFrequencies :: EntryDef where
  "ScaleFactorOfWaveFrequencies = tagOptional (entry T_Int ''scaleFactorOfWaveFrequencies'')"

definition WaveDirections :: EntryDef where
  "WaveDirections = tagOptional (entry T_Doubles ''waveDirections'')"

definition WaveFrequencies :: EntryDef where
  "WaveFrequencies = tagOptional (entry T_Doubles ''waveFrequencies'')"

lemmas mars_keys =
    ORIGIN_def CLASS_def STREAM_def TYPE_key_def EXPVER_def MODEL_def PARAM_def LEVTYPE_def LEVELIST_def DATE_def
  TIME_def STEP_def TIMESPAN_def STATTYPE_def ANOFFSET_def HDATE_def REFDATE_def FCMONTH_def FCPERIOD_def
  NUMBER_def IDENT_def INSTRUMENT_def CHANNEL_def CHEM_def WAVELENGTH_def DIRECTION_def FREQUENCY_def
  METHOD_def SYSTEM_def ITERATION_def DIAGNOSTIC_def DATASET_def RESOLUTION_def ACTIVITY_def EXPERIMENT_def
  GENERATION_def REALIZATION_def PACKING_def GRID_def TRUNCATION_def REPRES_def

lemmas grib_keys =
    Discipline_def TablesVersion_def LocalTablesVersion_def ProductionStatusOfProcessedData_def
  TypeOfProcessedDataEntry_def ShapeOfTheEarth_def TruncateDegrees_def NumberOfPointsAlongAMeridian_def
  NumberOfParallelsBetweenAPoleAndTheEquator_def LatitudeOfFirstGridPointInDegrees_def
  LongitudeOfFirstGridPointInDegrees_def LatitudeOfLastGridPointInDegrees_def
  LongitudeOfLastGridPointInDegrees_def IDirectionIncrementInDegrees_def JDirectionIncrementInDegrees_def
  Pl_def NumberOfPointsAlongAParallel_def PentagonalResolutionParameterJ_def
  PentagonalResolutionParameterK_def PentagonalResolutionParameterM_def NSide_def OrderingConvention_def
  ProductDefinitionTemplateNumber_def GeneratingProcessIdentifier_def ScaleFactorOfCentralWaveNumber_def
  ScaledValueOfCentralWaveNumber_def TypeOfEnsembleForecast_def NumberOfForecastsInEnsemble_def
  SatelliteSeries_def PressureUnits_def TypeOfFirstFixedSurface_def TypeOfSecondFixedSurface_def
  ScaledValueOfFirstFixedSurface_def ScaledValueOfSecondFixedSurface_def ScaleFactorOfFirstFixedSurface_def
  ScaleFactorOfSecondFixedSurface_def BitmapPresent_def MissingValue_def BitsPerValue_def
  LaplacianOperator_def PVPresent_def Pv_def InitialStep_def TimeIncrementInSeconds_def LengthOfTimeWindow_def
  LengthOfTimeWindowInSeconds_def ScaleFactorOfWaveDirections_def ScaleFactorOfWaveFrequencies_def
  WaveDirections_def WaveFrequencies_def

section \<open>Records\<close>

text \<open>Records without defaults and checks of their own, composed ones are the records one after the other.\<close>

definition plain :: "EntryDef list \<Rightarrow> RecordDef" where
  "plain es = \<lparr>rd_entries = es, rd_defaults = Inr, rd_validate = (\<lambda>_. Inr ())\<rparr>"

definition MarsGeneral :: "EntryDef list" where
  "MarsGeneral = [ORIGIN, CLASS, STREAM, TYPE_key, EXPVER, MODEL]"

definition MarsSeasonal :: "EntryDef list" where
  "MarsSeasonal = [METHOD, SYSTEM]"

definition MarsDestine :: "EntryDef list" where
  "MarsDestine = [DATASET, RESOLUTION, ACTIVITY, EXPERIMENT, GENERATION, REALIZATION]"

definition MarsId :: "EntryDef list" where
  "MarsId = MarsGeneral @ MarsSeasonal @ MarsDestine"

definition MarsTime :: "EntryDef list" where
  "MarsTime = [DATE, TIME, STEP, ANOFFSET, HDATE, REFDATE, FCMONTH, FCPERIOD]"

definition MarsFieldId :: "EntryDef list" where
  "MarsFieldId = [PARAM, LEVTYPE, TIMESPAN, STATTYPE]"

definition MarsFieldDetails :: "EntryDef list" where
  "MarsFieldDetails = [LEVELIST, NUMBER, CHEM, WAVELENGTH, DIRECTION, FREQUENCY, ITERATION, DIAGNOSTIC]"

definition MarsSatellite :: "EntryDef list" where
  "MarsSatellite = [IDENT, INSTRUMENT, CHANNEL]"

definition MarsField :: "EntryDef list" where
  "MarsField = MarsFieldId @ MarsFieldDetails @ MarsSatellite"

definition MarsEncodingDetails :: "EntryDef list" where
  "MarsEncodingDetails = [GRID, TRUNCATION, REPRES, PACKING]"

text \<open>
  The defaults of the record of all MARS keys: exactly one of grid and truncation is given, and the representation
  follows from it; a given one must agree.
\<close>

definition set_repres :: "Repres \<Rightarrow> dm_record \<Rightarrow> dm_record res" where
  "set_repres r mars =
     (case mars ''repres'' of
        Some v \<Rightarrow> if v \<noteq> V_Repres r then Inl DataModellingException else Inr (mars(''repres'' \<mapsto> V_Repres r))
      | None \<Rightarrow> Inr (mars(''repres'' \<mapsto> V_Repres r)))"

definition mars_applyDefaults :: "dm_record \<Rightarrow> dm_record res" where
  "mars_applyDefaults mars =
     (case (mars ''grid'', mars ''truncation'') of
        (None, None) \<Rightarrow> Inl DataModellingException
      | (Some _, Some _) \<Rightarrow> Inl DataModellingException
      | (Some (V_String g), None) \<Rightarrow> bind_res (represFromGrid g) (\<lambda>r. set_repres r mars)
      | (Some _, None) \<Rightarrow> Inl UndefinedBehaviour
      | (None, Some _) \<Rightarrow> set_repres Repres_SH mars)"

definition FullMarsRecord :: RecordDef where
  "FullMarsRecord =
     \<lparr>rd_entries = MarsId @ MarsEncodingDetails @ MarsField @ MarsTime,
      rd_defaults = mars_applyDefaults, rd_validate = (\<lambda>_. Inr ())\<rparr>"

definition MiscRecord :: RecordDef where
  "MiscRecord = plain
     [TablesVersion, GeneratingProcessIdentifier, TypeOfProcessedDataEntry, InitialStep, TimeIncrementInSeconds,
      LengthOfTimeWindow, LengthOfTimeWindowInSeconds, BitmapPresent, MissingValue, TypeOfEnsembleForecast,
      NumberOfForecastsInEnsemble, SatelliteSeries, ScaleFactorOfCentralWaveNumber, ScaledValueOfCentralWaveNumber,
      Pv, ScaleFactorOfWaveDirections, ScaleFactorOfWaveFrequencies, WaveDirections, WaveFrequencies, BitsPerValue,
      LaplacianOperator]"

definition HorizontalGribKeys :: RecordDef where
  "HorizontalGribKeys = plain
     [PressureUnits, TypeOfFirstFixedSurface, TypeOfSecondFixedSurface, ScaledValueOfFirstFixedSurface,
      ScaledValueOfSecondFixedSurface, ScaleFactorOfFirstFixedSurface, ScaleFactorOfSecondFixedSurface]"

definition vertical_applyDefaults :: "dm_record \<Rightarrow> dm_record res" where
  "vertical_applyDefaults v =
     Inr (if v ''pv'' \<noteq> None then v(''PVPresent'' \<mapsto> V_Bool True) else v(''PVPresent'' := None))"

definition VerticalGribKeys :: RecordDef where
  "VerticalGribKeys =
     \<lparr>rd_entries = [PVPresent, Pv], rd_defaults = vertical_applyDefaults, rd_validate = (\<lambda>_. Inr ())\<rparr>"

definition GeoGGRecord :: RecordDef where
  "GeoGGRecord = plain
     [TruncateDegrees, NumberOfPointsAlongAMeridian, NumberOfParallelsBetweenAPoleAndTheEquator,
      LatitudeOfFirstGridPointInDegrees, LongitudeOfFirstGridPointInDegrees,
      LatitudeOfLastGridPointInDegrees, LongitudeOfLastGridPointInDegrees, Pl]"

definition GeoSHRecord :: RecordDef where
  "GeoSHRecord = plain
     [PentagonalResolutionParameterJ, PentagonalResolutionParameterK, PentagonalResolutionParameterM]"

definition GeoLLRecord :: RecordDef where
  "GeoLLRecord = plain
     [NumberOfPointsAlongAParallel, NumberOfPointsAlongAMeridian, LatitudeOfFirstGridPointInDegrees,
      LongitudeOfFirstGridPointInDegrees, LatitudeOfLastGridPointInDegrees, LongitudeOfLastGridPointInDegrees,
      IDirectionIncrementInDegrees, JDirectionIncrementInDegrees]"

definition GeoHEALPixRecord :: RecordDef where
  "GeoHEALPixRecord = plain [NSide, OrderingConvention, tagOptional LongitudeOfFirstGridPointInDegrees]"

lemmas mars_groups = MarsGeneral_def MarsSeasonal_def MarsDestine_def MarsId_def MarsTime_def MarsFieldId_def
  MarsFieldDetails_def MarsSatellite_def MarsField_def MarsEncodingDetails_def

text \<open>
  A scoped record has the keys of the record behind the scope and a hyphen. \<^verbatim>\<open>getGeometryRecord\<close> chooses the record
  and the scope; for a grid the scope is its name.
\<close>

definition scopeRecord :: "RecordDef \<Rightarrow> string \<Rightarrow> RecordDef" where
  "scopeRecord R scope =
     R\<lparr>rd_entries := map (\<lambda>e. e\<lparr>ed_key := scope @ ''-'' @ ed_key e\<rparr>) (rd_entries R)\<rparr>"

definition getGeometryRecord :: "dm_record \<Rightarrow> (RecordDef \<times> string) res" where
  "getGeometryRecord mars =
     bind_res (get_entry mars ''repres'') (\<lambda>r.
     let scoped = (\<lambda>R. bind_res (get_entry mars ''grid'') (\<lambda>g.
           case g of V_String g \<Rightarrow> Inr (R, ''geo-'' @ g) | _ \<Rightarrow> Inl UndefinedBehaviour))
     in case r of
          V_Repres Repres_GG \<Rightarrow> scoped GeoGGRecord
        | V_Repres Repres_LL \<Rightarrow> scoped GeoLLRecord
        | V_Repres Repres_HEALPix \<Rightarrow> scoped GeoHEALPixRecord
        | V_Repres Repres_SH \<Rightarrow> bind_res (get_entry mars ''truncation'') (\<lambda>t.
            case t of V_Int t \<Rightarrow> Inr (GeoSHRecord, ''geo-TCO'' @ int_to_string t) | _ \<Rightarrow> Inl UndefinedBehaviour)
        | _ \<Rightarrow> Inl UndefinedBehaviour)"

text \<open>
  \<^verbatim>\<open>dispatchEntry\<close> walks over all entries and throws at the first whose key is another one, so on a record with
  several keys it never returns.
\<close>

definition containsKey :: "string \<Rightarrow> RecordDef \<Rightarrow> bool" where
  "containsKey key R = list_ex (\<lambda>e. ed_key e = key) (rd_entries R)"

definition dispatchEntry :: "string \<Rightarrow> RecordDef \<Rightarrow> (EntryDef \<Rightarrow> 's \<Rightarrow> 's res) \<Rightarrow> 's \<Rightarrow> 's res" where
  "dispatchEntry key R f =
     fold_res (\<lambda>e s. if ed_key e = key then f e s else Inl DataModellingException) (rd_entries R)"

text \<open>
  The stable interface of the encoder (\<^verbatim>\<open>mars2grib/api/StableAPI\<close>) sets keys by name, from integers and strings.
  \<open>can_set\<close> is the compile-time check whether the type of an entry can be set from such a value.
\<close>

fun can_set :: "dm_type \<Rightarrow> MetadataValue \<Rightarrow> bool" where
  "can_set T (MInteger _) = (T \<notin> {T_String, T_Ints, T_Doubles, T_LevType, T_Repres, T_StatType})"
| "can_set T (MString _) = (T \<notin> {T_Double, T_Ints, T_Doubles})"
| "can_set T (MDoubleList _) = (T = T_Doubles)"
| "can_set T _ = False"

definition setValOrThrow ::
    "(string \<Rightarrow> int res) \<Rightarrow> RecordDef \<Rightarrow> string \<Rightarrow> MetadataValue \<Rightarrow> dm_record \<Rightarrow> dm_record res" where
  "setValOrThrow paramId R key mv =
     dispatchEntry key R (\<lambda>e rec.
       if can_set (ed_type e) mv
       then bind_res (parse_value paramId (ed_type e) mv) (\<lambda>v. Inr (rec(ed_key e \<mapsto> v)))
       else Inl Mars2GribException)"

definition MarsIdentifiers_set ::
    "(string \<Rightarrow> int res) \<Rightarrow> string \<Rightarrow> MetadataValue \<Rightarrow> dm_record \<Rightarrow> dm_record res" where
  "MarsIdentifiers_set paramId = setValOrThrow paramId FullMarsRecord"

text \<open>The keys of the cache of encoders (\<^verbatim>\<open>mars2grib/MarsCachedKeys.h\<close>): those an encoder is configured from.\<close>

definition cache_applyDefaults :: "dm_record \<Rightarrow> dm_record" where
  "cache_applyDefaults rec =
     (let rec = (if rec ''levtype'' = Some (V_LevType Lev_ML) then rec(''levelist'' := None) else rec)
      in rec(''step'' := None, ''direction'' := None, ''frequency'' := None))"

section \<open>The descriptions keep their contract\<close>

lemma record_def_plain:
  assumes "distinct (map ed_key es)"
    and "\<And>e d. e \<in> set es \<Longrightarrow> ed_default e = Some d \<Longrightarrow> has_type d (ed_type e) \<and> value_ok d"
  shows "record_def (plain es)"
  using assms by unfold_locales (auto simp: plain_def completes_def)

lemma set_repres_Inr:
  "set_repres r mars = Inr mars' \<longleftrightarrow>
     mars' = mars(''repres'' \<mapsto> V_Repres r) \<and> (mars ''repres'' = None \<or> mars ''repres'' = Some (V_Repres r))"
  by (auto simp: set_repres_def split: option.splits if_splits)

text \<open>What the record of all MARS keys guarantees when it has been read.\<close>

definition geometry_consistent :: "dm_record \<Rightarrow> bool" where
  "geometry_consistent mars \<longleftrightarrow>
     (\<exists>g r. mars ''grid'' = Some (V_String g) \<and> mars ''truncation'' = None \<and>
        represFromGrid g = Inr r \<and> mars ''repres'' = Some (V_Repres r)) \<or>
     (\<exists>t. mars ''grid'' = None \<and> mars ''truncation'' = Some t \<and> mars ''repres'' = Some (V_Repres Repres_SH))"

lemma mars_applyDefaults_Inr:
  "mars_applyDefaults mars = Inr mars' \<longleftrightarrow>
     (\<exists>r. mars' = mars(''repres'' \<mapsto> V_Repres r) \<and> (mars ''repres'' = None \<or> mars ''repres'' = Some (V_Repres r)) \<and>
       geometry_consistent mars')"
  by (auto simp: mars_applyDefaults_def set_repres_Inr bind_res_Inr_iff geometry_consistent_def
      split: option.splits dm_value.splits)

lemma mars_keys_distinct: "distinct (map ed_key (rd_entries FullMarsRecord))"
  by (simp add: FullMarsRecord_def mars_groups mars_keys entry_defs)

lemma mars_defaults:
  "e \<in> set (rd_entries FullMarsRecord) \<Longrightarrow> ed_default e = Some d \<Longrightarrow> has_type d (ed_type e) \<and> value_ok d"
  by (auto simp: FullMarsRecord_def mars_groups mars_keys entry_defs)

lemma repres_typed: "typed FullMarsRecord mars \<Longrightarrow> typed FullMarsRecord (mars(''repres'' \<mapsto> V_Repres r))"
proof -
  have "REPRES \<in> set (rd_entries FullMarsRecord)" "ed_key REPRES = ''repres''" "ed_type REPRES = T_Repres"
    by (simp_all add: FullMarsRecord_def mars_groups REPRES_def entry_defs)
  then show "typed FullMarsRecord mars \<Longrightarrow> ?thesis"
    using typed_upd [of FullMarsRecord mars REPRES "Some (V_Repres r)"] by simp
qed

interpretation mars: record_def FullMarsRecord
proof (unfold_locales, rule mars_keys_distinct, rule mars_defaults)
  fix rec rec'
  assume "rd_defaults FullMarsRecord rec = Inr rec'"
  then have run: "mars_applyDefaults rec = Inr rec'" by (simp add: FullMarsRecord_def)
  then obtain r where rec': "rec' = rec(''repres'' \<mapsto> V_Repres r)" and "geometry_consistent rec'"
    by (auto simp: mars_applyDefaults_Inr)
  then show "completes FullMarsRecord rec rec'" using repres_typed by (simp add: completes_def)
  show "rd_defaults FullMarsRecord rec' = Inr rec'"
    using rec' \<open>geometry_consistent rec'\<close> by (auto simp: FullMarsRecord_def mars_applyDefaults_Inr)
qed

interpretation misc: record_def MiscRecord
  unfolding MiscRecord_def by (rule record_def_plain) (auto simp: grib_keys entry_defs)

interpretation horizontal: record_def HorizontalGribKeys
  unfolding HorizontalGribKeys_def by (rule record_def_plain) (auto simp: grib_keys entry_defs)

interpretation geo_gg: record_def GeoGGRecord
  unfolding GeoGGRecord_def by (rule record_def_plain) (auto simp: grib_keys entry_defs)

interpretation geo_sh: record_def GeoSHRecord
  unfolding GeoSHRecord_def by (rule record_def_plain) (auto simp: grib_keys entry_defs)

interpretation geo_ll: record_def GeoLLRecord
  unfolding GeoLLRecord_def by (rule record_def_plain) (auto simp: grib_keys entry_defs)

interpretation geo_healpix: record_def GeoHEALPixRecord
  unfolding GeoHEALPixRecord_def by (rule record_def_plain) (auto simp: grib_keys entry_defs)

interpretation vertical: record_def VerticalGribKeys
proof unfold_locales
  fix rec rec'
  assume "rd_defaults VerticalGribKeys rec = Inr rec'"
  then have rec': "rec' = rec(''PVPresent'' := if rec ''pv'' = None then None else Some (V_Bool True))"
    by (auto simp: VerticalGribKeys_def vertical_applyDefaults_def)
  have "PVPresent \<in> set (rd_entries VerticalGribKeys)" "ed_key PVPresent = ''PVPresent''" "ed_type PVPresent = T_Bool"
    by (simp_all add: VerticalGribKeys_def PVPresent_def entry_defs)
  then have "typed VerticalGribKeys rec \<Longrightarrow> typed VerticalGribKeys rec'"
    using typed_upd [of VerticalGribKeys rec PVPresent "if rec ''pv'' = None then None else Some (V_Bool True)"]
    by (auto simp: rec' split: if_splits)
  then show "completes VerticalGribKeys rec rec'"
    by (simp add: completes_def VerticalGribKeys_def PVPresent_def Pv_def entry_defs)
  show "rd_defaults VerticalGribKeys rec' = Inr rec'"
    by (simp add: VerticalGribKeys_def vertical_applyDefaults_def rec')
qed (auto simp: VerticalGribKeys_def grib_keys entry_defs)

section \<open>Geometry\<close>

text \<open>A record that is consistent always has its record of the geometry, with the scope the encoders look it up under.\<close>

lemma getGeometryRecord_total:
  assumes "typed FullMarsRecord mars" "geometry_consistent mars"
  shows "\<exists>R scope. getGeometryRecord mars = Inr (R, scope) \<and>
           ((\<exists>g. mars ''grid'' = Some (V_String g) \<and> scope = ''geo-'' @ g \<and>
              R \<in> {GeoGGRecord, GeoLLRecord, GeoHEALPixRecord}) \<or>
            (\<exists>t. mars ''truncation'' = Some (V_Int t) \<and> scope = ''geo-TCO'' @ int_to_string t \<and> R = GeoSHRecord))"
  using assms(2) unfolding geometry_consistent_def
proof (elim disjE exE conjE)
  fix g r
  assume g: "mars ''grid'' = Some (V_String g)" "represFromGrid g = Inr r" "mars ''repres'' = Some (V_Repres r)"
  then have "r \<noteq> Repres_SH" by (auto simp: represFromGrid_def split: list.splits if_splits)
  then show ?thesis using g by (cases r) (auto simp: getGeometryRecord_def get_entry_def)
next
  fix t
  assume t: "mars ''truncation'' = Some t" "mars ''repres'' = Some (V_Repres Repres_SH)"
  have "e = TRUNCATION" if "e \<in> set (rd_entries FullMarsRecord)" "ed_key e = ''truncation''" for e
    using that by (auto simp: FullMarsRecord_def mars_groups mars_keys entry_defs)
  then have "has_type t T_Int"
    using assms(1) t(1) by (fastforce simp: typed_def TRUNCATION_def entry_defs)
  then obtain i where "t = V_Int i" by (cases t) auto
  then show ?thesis using t by (simp add: getGeometryRecord_def get_entry_def)
qed

section \<open>Properties\<close>

text \<open>
  Property C13. Reading a field's MARS keys from its metadata yields a well-typed record or throws: every key that is set
  is one of the description with a value of the type it declares, the seven keys that identify the field and the origin are set,
  exactly one of grid and truncation is given, and the representation is the one that follows from it. So choosing the
  record of the geometry never throws.
\<close>

theorem mars_record_typed:
  assumes "readRecord paramId FullMarsRecord look = Inr mars"
  shows "typed FullMarsRecord mars \<and>
         (\<forall>k\<in>{''origin'', ''class'', ''stream'', ''type'', ''expver'', ''param'', ''date'', ''time'', ''repres''}. mars k \<noteq> None) \<and>
         geometry_consistent mars \<and> (\<exists>geometry. getGeometryRecord mars = Inr geometry)"
proof -
  have "typed FullMarsRecord mars" "set_entries FullMarsRecord mars"
    using mars.read_typed assms by blast+
  moreover have "geometry_consistent mars"
    using assms by (auto simp: readRecord_Inr applyRecordDefaults_def FullMarsRecord_def mars_applyDefaults_Inr)
  moreover have "\<forall>k\<in>{''origin'', ''class'', ''stream'', ''type'', ''expver'', ''param'', ''date'', ''time''}. mars k \<noteq> None"
    using \<open>set_entries FullMarsRecord mars\<close>
    by (simp add: set_entries_def FullMarsRecord_def mars_groups mars_keys entry_defs)
  moreover have "mars ''repres'' \<noteq> None"
    using \<open>geometry_consistent mars\<close> by (auto simp: geometry_consistent_def)
  ultimately show ?thesis using getGeometryRecord_total by fastforce
qed

definition sample_field :: BaseMetadata where
  "sample_field =
     [(''class'', MString ''od''), (''stream'', MString ''oper''), (''type'', MString ''fc''),
      (''expver'', MString ''0001''), (''param'', MInteger 130), (''date'', MInteger 20240101),
      (''time'', MString ''1200''), (''grid'', MString ''N320''), (''levtype'', MString ''pl''), (''step'', MInteger 6)]"

definition no_short_names :: "string \<Rightarrow> int res" where
  "no_short_names _ = Inl ForeignException"

lemma sample_field_read:
  "\<exists>mars. readRecord no_short_names FullMarsRecord (md_find sample_field) = Inr mars"
proof -
  have "case readRecord no_short_names FullMarsRecord (md_find sample_field) of Inl _ \<Rightarrow> False | Inr _ \<Rightarrow> True"
    by code_simp
  then show ?thesis by (cases "readRecord no_short_names FullMarsRecord (md_find sample_field)") auto
qed

lemma mars_record_typed_witness:
  "\<exists>mars. readRecord no_short_names FullMarsRecord (md_find sample_field) = Inr mars \<and> typed FullMarsRecord mars \<and>
     geometry_consistent mars \<and> (\<exists>geometry. getGeometryRecord mars = Inr geometry)"
  using sample_field_read mars_record_typed by blast

text \<open>
  Property C14. Dumping a record of MARS keys into any metadata and reading it again gives back the record, even when its
  missing keys were set in the metadata before. That they are missing from the global parametrization, too, is a
  condition: the dump only erases them from the metadata of the message.
\<close>

theorem mars_record_round_trip:
  assumes "readRecord paramId FullMarsRecord look = Inr mars"
    and "\<And>e. e \<in> set (rd_entries FullMarsRecord) \<Longrightarrow> mars (ed_key e) = None \<Longrightarrow> md_find g (ed_key e) = None"
  shows "readRecord paramId FullMarsRecord (metadata_find g (dumpRecord FullMarsRecord mars md)) = Inr mars"
  using assms by (intro mars.read_dump) (auto simp: md_find_dumpRecord)

lemma mars_record_round_trip_witness:
  "\<exists>mars. readRecord no_short_names FullMarsRecord (md_find sample_field) = Inr mars \<and>
     readRecord no_short_names FullMarsRecord (metadata_find [] (dumpRecord FullMarsRecord mars [(''number'', MInteger 3)])) =
       Inr mars"
  using sample_field_read mars_record_round_trip [where g = "[]" and md = "[(''number'', MInteger 3)]"] by fastforce

text \<open>
  No MARS identifier can be set through the stable interface, and no key of a geometry: the search for the
  key throws at the first entry that has another one, which on a record of two entries or more is the first or the
  second, whether the key is in the record or not.
\<close>

theorem identifiers_cannot_be_set:
  "(\<exists>e. MarsIdentifiers_set paramId key mv mars = Inl e) \<and>
   (R \<in> {GeoGGRecord, GeoLLRecord, GeoSHRecord, GeoHEALPixRecord} \<longrightarrow> (\<exists>e. setValOrThrow paramId R key mv geo = Inl e))"
proof -
  have refused: "\<exists>e. setValOrThrow paramId R key mv rec = Inl e"
    if "rd_entries R = e1 # e2 # es" "ed_key e1 \<noteq> ed_key e2" for R e1 e2 es rec
    using that by (cases "setValOrThrow paramId R key mv rec")
      (auto simp: setValOrThrow_def dispatchEntry_def bind_res_Inr_iff split: if_splits)
  have "\<exists>e. MarsIdentifiers_set paramId key mv mars = Inl e"
    unfolding MarsIdentifiers_set_def
    by (rule refused [of _ ORIGIN CLASS]) (simp_all add: FullMarsRecord_def mars_groups mars_keys entry_defs)
  moreover have "\<exists>e. setValOrThrow paramId GeoGGRecord key mv geo = Inl e"
    by (rule refused [of _ TruncateDegrees NumberOfPointsAlongAMeridian])
      (simp_all add: GeoGGRecord_def plain_def grib_keys entry_defs)
  moreover have "\<exists>e. setValOrThrow paramId GeoLLRecord key mv geo = Inl e"
    by (rule refused [of _ NumberOfPointsAlongAParallel NumberOfPointsAlongAMeridian])
      (simp_all add: GeoLLRecord_def plain_def grib_keys entry_defs)
  moreover have "\<exists>e. setValOrThrow paramId GeoSHRecord key mv geo = Inl e"
    by (rule refused [of _ PentagonalResolutionParameterJ PentagonalResolutionParameterK])
      (simp_all add: GeoSHRecord_def plain_def grib_keys entry_defs)
  moreover have "\<exists>e. setValOrThrow paramId GeoHEALPixRecord key mv geo = Inl e"
    by (rule refused [of _ NSide OrderingConvention])
      (simp_all add: GeoHEALPixRecord_def plain_def grib_keys entry_defs)
  ultimately show ?thesis by auto
qed

lemma identifiers_cannot_be_set_witness:
  "(\<exists>e. setValOrThrow no_short_names GeoSHRecord ''pentagonalResolutionParameterJ'' (MInteger 7) Map.empty = Inl e)"
  using identifiers_cannot_be_set [where R = GeoSHRecord and paramId = no_short_names] by blast

end
