(* ===== verification/MarsMatchers.thy ===== *)
theory MarsMatchers
  imports MarsRecords
begin

text \<open>
  The matchers of the rule tables (\<^verbatim>\<open>mars2grib/rules/Matcher.h\<close>, \<^verbatim>\<open>mars2grib/rules/ParamMatcher.h\<close>): predicates on
  records of MARS keys, and what they say about the parameter of a record. A member pointer is the key.
\<close>

section \<open>Comparing values\<close>

text \<open>
  The order of the value types. A duration is a \<^verbatim>\<open>std::variant\<close>, and variants are ordered by the alternative first: every
  duration in hours is before every duration in seconds.
\<close>

fun duration_less :: "TimeDuration \<Rightarrow> TimeDuration \<Rightarrow> bool" where
  "duration_less (Hours a) (Hours b) = (a < b)"
| "duration_less (Hours a) (Seconds b) = True"
| "duration_less (Seconds a) (Hours b) = False"
| "duration_less (Seconds a) (Seconds b) = (a < b)"

fun value_less :: "dm_value \<Rightarrow> dm_value \<Rightarrow> bool" where
  "value_less (V_Int a) (V_Int b) = (a < b)"
| "value_less (V_Param a) (V_Param b) = (a < b)"
| "value_less (V_TimeDuration a) (V_TimeDuration b) = duration_less a b"
| "value_less _ _ = False"

definition value_le :: "dm_value \<Rightarrow> dm_value \<Rightarrow> bool" where
  "value_le v w \<longleftrightarrow> value_less v w \<or> v = w"

section \<open>Matchers\<close>

datatype dm_op = Greater | GreaterEqual | Less | LessEqual

datatype matcher =
    Range string dm_value dm_value
  | Ranges "matcher list"
  | OneOf string "dm_value list"
  | NoneOf string "dm_value list"
  | Has string
  | Missing string
  | MatchOp string dm_op dm_value
  | All "matcher list"
  | Any "matcher list"

fun apply_op :: "dm_op \<Rightarrow> dm_value \<Rightarrow> dm_value \<Rightarrow> bool" where
  "apply_op Greater v w = value_less w v"
| "apply_op GreaterEqual v w = value_le w v"
| "apply_op Less v w = value_less v w"
| "apply_op LessEqual v w = value_le v w"

fun matches :: "matcher \<Rightarrow> dm_record \<Rightarrow> bool" where
  "matches (Range k lo hi) rec = (case rec k of None \<Rightarrow> False | Some v \<Rightarrow> value_le lo v \<and> value_le v hi)"
| "matches (Ranges rs) rec = (\<exists>r\<in>set rs. matches r rec)"
| "matches (OneOf k vs) rec = (case rec k of None \<Rightarrow> False | Some v \<Rightarrow> v \<in> set vs)"
| "matches (NoneOf k vs) rec = (case rec k of None \<Rightarrow> True | Some v \<Rightarrow> v \<notin> set vs)"
| "matches (Has k) rec = (rec k \<noteq> None)"
| "matches (Missing k) rec = (rec k = None)"
| "matches (MatchOp k op w) rec = (case rec k of None \<Rightarrow> False | Some v \<Rightarrow> apply_op op v w)"
| "matches (All ms) rec = (\<forall>m\<in>set ms. matches m rec)"
| "matches (Any ms) rec = (\<exists>m\<in>set ms. matches m rec)"

text \<open>
  \<^verbatim>\<open>matchParams\<close> takes parameters and ranges of them; its overloads collect both into one matcher.
\<close>

datatype param_arg = P int | paramRange int int

definition matchParams :: "param_arg list \<Rightarrow> matcher" where
  "matchParams args =
     Any [OneOf ''param'' (concat (map (\<lambda>a. case a of P p \<Rightarrow> [V_Param p] | paramRange _ _ \<Rightarrow> []) args)),
          Ranges (concat (map (\<lambda>a. case a of P p \<Rightarrow> []
                                           | paramRange a b \<Rightarrow> [Range ''param'' (V_Param a) (V_Param b)]) args))]"

text \<open>All the tables rely on of a record: its parameter, if it is set, is a parameter.\<close>

definition param_typed :: "dm_record \<Rightarrow> bool" where
  "param_typed mars \<longleftrightarrow> (\<forall>v. mars ''param'' = Some v \<longrightarrow> has_type v T_Param)"

lemma typed_param:
  assumes "typed FullMarsRecord mars"
  shows "param_typed mars"
proof -
  have "\<forall>e\<in>set (rd_entries FullMarsRecord). ed_key e = ''param'' \<longrightarrow> ed_type e = T_Param"
    by (simp add: FullMarsRecord_def mars_groups mars_keys entry_defs)
  then show ?thesis using assms unfolding typed_def param_typed_def by metis
qed

section \<open>The parameters a matcher accepts\<close>

text \<open>
  The intervals of parameters outside of which a matcher is false, if it limits the parameter at all.
\<close>

fun param_of :: "dm_value \<Rightarrow> int option" where
  "param_of (V_Param p) = Some p"
| "param_of _ = None"

fun points :: "dm_value list \<Rightarrow> (int \<times> int) list" where
  "points [] = []"
| "points (v # vs) = (case param_of v of Some p \<Rightarrow> (p, p) # points vs | None \<Rightarrow> points vs)"

definition both :: "(int \<times> int) list option \<Rightarrow> (int \<times> int) list option \<Rightarrow> (int \<times> int) list option" where
  "both a b = (case a of None \<Rightarrow> None | Some is \<Rightarrow> map_option (\<lambda>js. is @ js) b)"

fun intervals :: "matcher \<Rightarrow> (int \<times> int) list option" where
  "intervals (Range k a b) =
     (if k \<noteq> ''param'' then None
      else case (param_of a, param_of b) of (Some p, Some q) \<Rightarrow> Some [(p, q)] | _ \<Rightarrow> None)"
| "intervals (OneOf k vs) = (if k \<noteq> ''param'' then None else Some (points vs))"
| "intervals (Ranges ms) =
     fold (\<lambda>m acc. both acc (intervals m)) ms (Some [])"
| "intervals (Any ms) =
     fold (\<lambda>m acc. both acc (intervals m)) ms (Some [])"
| "intervals (All ms) = fold (\<lambda>m acc. case acc of Some is \<Rightarrow> Some is | None \<Rightarrow> intervals m) ms None"
| "intervals _ = None"

definition in_intervals :: "int \<Rightarrow> (int \<times> int) list \<Rightarrow> bool" where
  "in_intervals p is \<longleftrightarrow> (\<exists>(a, b)\<in>set is. a \<le> p \<and> p \<le> b)"

definition has_param :: "dm_record \<Rightarrow> (int \<times> int) list \<Rightarrow> bool" where
  "has_param rec is \<longleftrightarrow> (\<exists>p. rec ''param'' = Some (V_Param p) \<and> in_intervals p is)"

lemma has_param_append: "has_param rec (is @ js) \<longleftrightarrow> has_param rec is \<or> has_param rec js"
  by (auto simp: has_param_def in_intervals_def)

lemma param_of_Some: "param_of v = Some p \<longleftrightarrow> v = V_Param p"
  by (cases v) auto

lemma points_iff: "in_intervals p (points vs) \<longleftrightarrow> V_Param p \<in> set vs"
  by (induction vs) (auto simp: in_intervals_def param_of_Some split: option.splits)

lemma fold_union_Some:
  "fold (\<lambda>m acc. both acc (f m)) ms acc = Some ks \<Longrightarrow>
   \<exists>is. acc = Some is \<and> set is \<subseteq> set ks \<and> (\<forall>m\<in>set ms. \<exists>js. f m = Some js \<and> set js \<subseteq> set ks)"
proof (induction ms arbitrary: acc)
  case (Cons m ms)
  from Cons.IH [of "both acc (f m)"] Cons.prems obtain "is" where
    "both acc (f m) = Some is" "set is \<subseteq> set ks" "\<forall>m\<in>set ms. \<exists>js. f m = Some js \<and> set js \<subseteq> set ks"
    by auto
  then show ?case by (auto simp: both_def split: option.splits)
qed simp

lemma fold_first_Some:
  "fold (\<lambda>m acc. case acc of Some is \<Rightarrow> Some is | None \<Rightarrow> f m) ms acc = Some ks \<Longrightarrow>
   acc = Some ks \<or> (\<exists>m\<in>set ms. f m = Some ks)"
  by (induction ms arbitrary: acc) (auto split: option.splits)

lemma has_param_mono: "has_param rec js \<Longrightarrow> set js \<subseteq> set ks \<Longrightarrow> has_param rec ks"
  by (auto simp: has_param_def in_intervals_def)

lemma intervals_sound:
  "intervals m = Some is \<Longrightarrow> matches m rec \<Longrightarrow> (\<And>v. rec ''param'' = Some v \<Longrightarrow> has_type v T_Param) \<Longrightarrow> has_param rec is"
proof (induction m arbitrary: "is")
  case (Range k a b)
  then obtain v where "rec ''param'' = Some v" "value_le a v" "value_le v b" by (auto split: if_splits option.splits)
  then show ?case
    using Range by (cases v) (auto simp: has_param_def in_intervals_def value_le_def param_of_Some
        split: if_splits option.splits)
next
  case (OneOf k vs)
  then obtain v where "rec ''param'' = Some v" "v \<in> set vs" by (auto split: if_splits option.splits)
  then show ?case
    using OneOf points_iff [of _ vs] by (cases v) (auto simp: has_param_def split: if_splits)
next
  case (Ranges ms)
  then obtain m where "m \<in> set ms" "matches m rec" by auto
  moreover obtain js where "intervals m = Some js" "set js \<subseteq> set is"
    using fold_union_Some [of intervals ms "Some []" "is"] Ranges.prems(1) \<open>m \<in> set ms\<close> by auto
  ultimately show ?case using Ranges.IH Ranges.prems(3) has_param_mono by blast
next
  case (Any ms)
  then obtain m where "m \<in> set ms" "matches m rec" by auto
  moreover obtain js where "intervals m = Some js" "set js \<subseteq> set is"
    using fold_union_Some [of intervals ms "Some []" "is"] Any.prems(1) \<open>m \<in> set ms\<close> by auto
  ultimately show ?case using Any.IH Any.prems(3) has_param_mono by blast
next
  case (All ms)
  then obtain m where "m \<in> set ms" "intervals m = Some is" using fold_first_Some [of intervals ms None] by auto
  then show ?case using All by auto
qed auto

section \<open>Tables whose parameters are disjoint\<close>

text \<open>
  Whether the intervals of a list of matchers are disjoint is decided on the sorted list of all of them: each one ends
  before the next begins, or is the next one again, in the same matcher.
\<close>

fun separated :: "(int \<times> int \<times> nat) list \<Rightarrow> bool" where
  "separated ((a, b, i) # (c, d, j) # xs) =
     (a \<le> b \<and> (b < c \<or> (a = c \<and> b = d \<and> i = j)) \<and> separated ((c, d, j) # xs))"
| "separated [(a, b, i)] = (a \<le> b)"
| "separated [] = True"

definition labelled :: "(int \<times> int) list list \<Rightarrow> (int \<times> int \<times> nat) list" where
  "labelled iss = concat (map (\<lambda>(i, is). map (\<lambda>(a, b). (a, b, i)) is) (enumerate 0 iss))"

definition disjoint_intervals :: "(int \<times> int) list list \<Rightarrow> bool" where
  "disjoint_intervals iss \<longleftrightarrow> separated (sort_key fst (labelled iss))"

lemma separated_tail: "separated (x # xs) \<Longrightarrow> separated xs"
  by (induction "x # xs" rule: separated.induct) auto

lemma separated_later:
  "separated ((a, b, i) # xs) \<Longrightarrow> (c, d, j) \<in> set xs \<Longrightarrow> b < c \<and> c \<le> d \<or> a = c \<and> b = d \<and> i = j"
proof (induction xs arbitrary: a b i)
  case (Cons x xs)
  obtain a' b' i' where x: "x = (a', b', i')" by (cases x) auto
  have sep: "separated ((a', b', i') # xs)" and le: "a \<le> b" and before: "b < a' \<or> (a = a' \<and> b = b' \<and> i = i')"
    using Cons.prems(1) by (simp_all add: x)
  have le': "a' \<le> b'" using sep by (cases xs) auto
  show ?case
  proof (cases "(c, d, j) = x")
    case True
    then show ?thesis using before le' by (auto simp: x)
  next
    case False
    then have "b' < c \<and> c \<le> d \<or> a' = c \<and> b' = d \<and> i' = j" using Cons.IH [OF sep] Cons.prems(2) by auto
    then show ?thesis using before le' by auto
  qed
qed simp

lemma separated_unique:
  "separated xs \<Longrightarrow> (a, b, i) \<in> set xs \<Longrightarrow> (c, d, j) \<in> set xs \<Longrightarrow> a \<le> p \<Longrightarrow> p \<le> b \<Longrightarrow> c \<le> p \<Longrightarrow> p \<le> d \<Longrightarrow> i = j"
proof (induction xs)
  case (Cons x xs)
  show ?case
  proof (cases "(a, b, i) = x \<or> (c, d, j) = x")
    case True
    then show ?thesis
      using Cons.prems separated_later [of a b i xs c d j] separated_later [of c d j xs a b i] by auto
  next
    case False
    then show ?thesis using Cons separated_tail [of x xs] by auto
  qed
qed simp

lemma labelled_iff: "(a, b, i) \<in> set (labelled iss) \<longleftrightarrow> i < length iss \<and> (a, b) \<in> set (iss ! i)"
proof -
  have "(a, b, i) \<in> set (labelled iss) \<longleftrightarrow> (\<exists>q\<in>set (enumerate 0 iss). i = fst q \<and> (a, b) \<in> set (snd q))"
    by (force simp: labelled_def)
  also have "\<dots> \<longleftrightarrow> i < length iss \<and> (a, b) \<in> set (iss ! i)"
    by (auto simp: in_set_enumerate_eq intro!: bexI [of _ "(i, iss ! i)"])
  finally show ?thesis .
qed

lemma disjoint_intervals_unique:
  assumes "disjoint_intervals iss" "i < length iss" "j < length iss"
    and "in_intervals p (iss ! i)" "in_intervals p (iss ! j)"
  shows "i = j"
proof -
  obtain a b c d where "(a, b) \<in> set (iss ! i)" "a \<le> p" "p \<le> b" "(c, d) \<in> set (iss ! j)" "c \<le> p" "p \<le> d"
    using assms(4,5) by (auto simp: in_intervals_def)
  then show ?thesis
    using assms(1-3) separated_unique [of "sort_key fst (labelled iss)" a b i c d j p]
    by (simp add: disjoint_intervals_def labelled_iff)
qed

end
