(* ===== verification/Mars2Mars.thy ===== *)
theory Mars2Mars
  imports MarsMatchers
begin

text \<open>
  \<^verbatim>\<open>mars2mars\<close>: rules that rename parameters, move fields to other levels and scale values before a field is encoded. A
  rule is a matcher with setters, a list of rules applies them one after the other to the record that the earlier ones
  have changed, and throws when a second one applies.
\<close>

section \<open>Rules\<close>

datatype setter = SetMars string dm_value | SetMisc string dm_value | SetScaleFactor real

datatype rule = Rule matcher "setter list" | RuleList "rule list"

type_synonym MappingResult = "real option"

type_synonym records = "dm_record \<times> dm_record"

fun apply_setter :: "setter \<Rightarrow> records \<times> MappingResult \<Rightarrow> (records \<times> MappingResult) res" where
  "apply_setter (SetMars k v) ((mars, misc), factor) = Inr ((mars(k \<mapsto> v), misc), factor)"
| "apply_setter (SetMisc k v) ((mars, misc), factor) = Inr ((mars, misc(k \<mapsto> v)), factor)"
| "apply_setter (SetScaleFactor x) (s, factor) = (if factor \<noteq> None then Inl Mars2MarsException else Inr (s, Some x))"

fun apply_rule :: "rule \<Rightarrow> records \<Rightarrow> (records \<times> MappingResult option) res"
  and apply_rules :: "rule list \<Rightarrow> records \<times> MappingResult option \<Rightarrow> (records \<times> MappingResult option) res" where
  "apply_rule (Rule m ss) s =
     (if matches m (fst s)
      then bind_res (fold_res apply_setter ss (s, None)) (\<lambda>(s, factor). Inr (s, Some factor))
      else Inr (s, None))"
| "apply_rule (RuleList rs) s = apply_rules rs (s, None)"
| "apply_rules [] (s, applied) = Inr (s, applied)"
| "apply_rules (r # rs) (s, applied) =
     bind_res (apply_rule r s) (\<lambda>(s, result).
     case result of
       None \<Rightarrow> apply_rules rs (s, applied)
     | Some x \<Rightarrow> if applied \<noteq> None then Inl Mars2MarsException else apply_rules rs (s, Some x))"

definition applyMappings :: "rule \<Rightarrow> dm_record \<Rightarrow> dm_record \<Rightarrow> (records \<times> MappingResult option) res" where
  "applyMappings rules mars misc = apply_rule rules (mars, misc)"

section \<open>The tables\<close>

definition fixParam35ToSol1 :: rule where
  "fixParam35ToSol1 = Rule (All [matchParams [P 35],
     OneOf ''levtype'' [V_LevType Lev_SFC]]) [SetMars ''levtype'' (V_LevType Lev_SOL),
     SetMars ''levelist'' (V_Int 1), SetMars ''param'' (V_Param 262024)]"

definition fixParam36ToSol2 :: rule where
  "fixParam36ToSol2 = Rule (All [matchParams [P 36],
     OneOf ''levtype'' [V_LevType Lev_SFC]]) [SetMars ''levtype'' (V_LevType Lev_SOL),
     SetMars ''levelist'' (V_Int 2), SetMars ''param'' (V_Param 262024)]"

definition fixParam37ToSol3 :: rule where
  "fixParam37ToSol3 = Rule (All [matchParams [P 37],
     OneOf ''levtype'' [V_LevType Lev_SFC]]) [SetMars ''levtype'' (V_LevType Lev_SOL),
     SetMars ''levelist'' (V_Int 3), SetMars ''param'' (V_Param 262024)]"

definition fixParam38ToSol4 :: rule where
  "fixParam38ToSol4 = Rule (All [matchParams [P 38],
     OneOf ''levtype'' [V_LevType Lev_SFC]]) [SetMars ''levtype'' (V_LevType Lev_SOL),
     SetMars ''levelist'' (V_Int 4), SetMars ''param'' (V_Param 262024)]"

definition fixParam39ToSol1 :: rule where
  "fixParam39ToSol1 = Rule (All [matchParams [P 39],
     OneOf ''levtype'' [V_LevType Lev_SFC]]) [SetMars ''levtype'' (V_LevType Lev_SOL),
     SetMars ''levelist'' (V_Int 1), SetMars ''param'' (V_Param 260199)]"

definition fixParam40ToSol2 :: rule where
  "fixParam40ToSol2 = Rule (All [matchParams [P 40],
     OneOf ''levtype'' [V_LevType Lev_SFC]]) [SetMars ''levtype'' (V_LevType Lev_SOL),
     SetMars ''levelist'' (V_Int 2), SetMars ''param'' (V_Param 260199)]"

definition fixParam41ToSol3 :: rule where
  "fixParam41ToSol3 = Rule (All [matchParams [P 41],
     OneOf ''levtype'' [V_LevType Lev_SFC]]) [SetMars ''levtype'' (V_LevType Lev_SOL),
     SetMars ''levelist'' (V_Int 3), SetMars ''param'' (V_Param 260199)]"

definition fixParam42ToSol4 :: rule where
  "fixParam42ToSol4 = Rule (All [matchParams [P 42],
     OneOf ''levtype'' [V_LevType Lev_SFC]]) [SetMars ''levtype'' (V_LevType Lev_SOL),
     SetMars ''levelist'' (V_Int 4), SetMars ''param'' (V_Param 260199)]"

definition fixParam139ToSol1 :: rule where
  "fixParam139ToSol1 = Rule (All [matchParams [P 139],
     OneOf ''levtype'' [V_LevType Lev_SFC]]) [SetMars ''levtype'' (V_LevType Lev_SOL),
     SetMars ''levelist'' (V_Int 1), SetMars ''param'' (V_Param 260360)]"

definition fixParam170ToSol2 :: rule where
  "fixParam170ToSol2 = Rule (All [matchParams [P 170],
     OneOf ''levtype'' [V_LevType Lev_SFC]]) [SetMars ''levtype'' (V_LevType Lev_SOL),
     SetMars ''levelist'' (V_Int 2), SetMars ''param'' (V_Param 260360)]"

definition fixParam183ToSol3 :: rule where
  "fixParam183ToSol3 = Rule (All [matchParams [P 183],
     OneOf ''levtype'' [V_LevType Lev_SFC]]) [SetMars ''levtype'' (V_LevType Lev_SOL),
     SetMars ''levelist'' (V_Int 3), SetMars ''param'' (V_Param 260360)]"

definition fixParam236ToSol4 :: rule where
  "fixParam236ToSol4 = Rule (All [matchParams [P 236],
     OneOf ''levtype'' [V_LevType Lev_SFC]]) [SetMars ''levtype'' (V_LevType Lev_SOL),
     SetMars ''levelist'' (V_Int 4), SetMars ''param'' (V_Param 260360)]"

definition fixTablesVersionChemAccum :: rule where
  "fixTablesVersionChemAccum = Rule (All [matchParams [P 228080, P 228081, P 228082, P 233032, P 233033, P 233034,
     P 233035, P 235062, P 235063, P 235064]]) [SetMisc ''tablesVersion'' (V_Int 30)]"

definition fixTablesVersionChemInstant :: rule where
  "fixTablesVersionChemInstant = Rule (All [matchParams [P 228083, P 228084,
     P 228085]]) [SetMisc ''tablesVersion'' (V_Int 30)]"

definition fixCloudParam164 :: rule where
  "fixCloudParam164 = Rule (All [matchParams [P 164]]) [SetMars ''param'' (V_Param 228164), SetScaleFactor 100]"

definition fixCloudParam186 :: rule where
  "fixCloudParam186 = Rule (All [matchParams [P 186]]) [SetMars ''param'' (V_Param 3073), SetScaleFactor 100]"

definition fixCloudParam187 :: rule where
  "fixCloudParam187 = Rule (All [matchParams [P 187]]) [SetMars ''param'' (V_Param 3074), SetScaleFactor 100]"

definition fixCloudParam188 :: rule where
  "fixCloudParam188 = Rule (All [matchParams [P 188]]) [SetMars ''param'' (V_Param 3075), SetScaleFactor 100]"

definition fixConvectivePrecip143 :: rule where
  "fixConvectivePrecip143 = Rule (All [matchParams [P 143]]) [SetMars ''param'' (V_Param 228143),
     SetScaleFactor 1000]"

definition fixTotalPrecip228 :: rule where
  "fixTotalPrecip228 = Rule (All [matchParams [P 228]]) [SetMars ''param'' (V_Param 228228), SetScaleFactor 1000]"

definition fixHeightAboveGround2m :: rule where
  "fixHeightAboveGround2m = Rule (All [OneOf ''levtype'' [V_LevType Lev_SFC], OneOf ''levelist'' [V_Int 0],
     matchParams [P 167, P 168, P 174096, P 228037]]) [SetMars ''levelist'' (V_Int 2)]"

definition fixHeightAboveGround10m :: rule where
  "fixHeightAboveGround10m = Rule (All [OneOf ''levtype'' [V_LevType Lev_SFC], OneOf ''levelist'' [V_Int 0],
     matchParams [P 228029, P 228131, P 228132, P 165, P 166, P 207]]) [SetMars ''levelist'' (V_Int 10)]"

definition fixHeightAboveSea :: rule where
  "fixHeightAboveSea = Rule (All [matchParams [P 140233, P 140245, P 140249]]) [SetMars ''levelist'' (V_Int 10)]"

definition fixMapToSol :: rule where
  "fixMapToSol = Rule (All [OneOf ''levtype'' [V_LevType Lev_SFC], Has ''levelist'', NoneOf ''levelist'' [V_Int 0],
     matchParams [P 33, P 238, P 228038, P 228141, P 235080, P 237080, P 238080, P 239080, P 260360, P 262000,
     P 262024, P 260199]]) [SetMars ''levtype'' (V_LevType Lev_SOL)]"

definition fixRunOffWaterParam205 :: rule where
  "fixRunOffWaterParam205 = Rule (All [matchParams [P 205]]) [SetMars ''param'' (V_Param 231002),
     SetScaleFactor 1000]"

definition fixSnowfallWaterEquivParam :: rule where
  "fixSnowfallWaterEquivParam = Rule (All [matchParams [P 144]]) [SetMars ''param'' (V_Param 228144),
     SetScaleFactor 1000]"

definition fixSnowCover :: rule where
  "fixSnowCover = Rule (All [matchParams [P 260289]]) [SetMars ''param'' (V_Param 260038), SetScaleFactor 100]"

definition fixTimespanMax2T :: rule where
  "fixTimespanMax2T = Rule (All [matchParams [P 121, P 228026, P 201]]) [SetMars ''param'' (V_Param 237167)]"

definition fixTimespanMaxCape :: rule where
  "fixTimespanMaxCape = Rule (All [matchParams [P 228035]]) [SetMars ''param'' (V_Param 237117)]"

definition fixTimespanMaxMuCapes :: rule where
  "fixTimespanMaxMuCapes = Rule (All [matchParams [P 228036]]) [SetMars ''param'' (V_Param 237321)]"

definition fixTimespanMaxPrecipRate :: rule where
  "fixTimespanMaxPrecipRate = Rule (All [matchParams [P 228222, P 228224,
     P 228226]]) [SetMars ''param'' (V_Param 237055)]"

definition fixTimespanMaxWindGust :: rule where
  "fixTimespanMaxWindGust = Rule (All [matchParams [P 123, P 228028, P 49]]) [SetMars ''param'' (V_Param 237318)]"

definition fixTimespanMeanFlashDensity :: rule where
  "fixTimespanMeanFlashDensity = Rule (All [matchParams [P 228051, P 228057,
     P 228058]]) [SetMars ''param'' (V_Param 235326)]"

definition fixTimespanMin2T :: rule where
  "fixTimespanMin2T = Rule (All [matchParams [P 122, P 228027, P 202]]) [SetMars ''param'' (V_Param 238167)]"

definition fixTimespanMinPrecipRate :: rule where
  "fixTimespanMinPrecipRate = Rule (All [matchParams [P 228223, P 228225,
     P 228227]]) [SetMars ''param'' (V_Param 238055)]"

definition fixTimespanModePrecip :: rule where
  "fixTimespanModePrecip = Rule (All [matchParams [P 260320, P 260321,
     P 260339]]) [SetMars ''param'' (V_Param 260683)]"

definition fixTimespanSeverityPrecip :: rule where
  "fixTimespanSeverityPrecip = Rule (All [matchParams [P 260318, P 260319,
     P 260338]]) [SetMars ''param'' (V_Param 260682)]"

definition fixWindspeedU100m :: rule where
  "fixWindspeedU100m = Rule (All [OneOf ''levtype'' [V_LevType Lev_SFC],
     matchParams [P 228246]]) [SetMars ''levtype'' (V_LevType Lev_HL), SetMars ''levelist'' (V_Int 100),
     SetMars ''param'' (V_Param 131)]"

definition fixWindspeedU200m :: rule where
  "fixWindspeedU200m = Rule (All [OneOf ''levtype'' [V_LevType Lev_SFC],
     matchParams [P 228239]]) [SetMars ''levtype'' (V_LevType Lev_HL), SetMars ''levelist'' (V_Int 200),
     SetMars ''param'' (V_Param 131)]"

definition fixWindspeedV100m :: rule where
  "fixWindspeedV100m = Rule (All [OneOf ''levtype'' [V_LevType Lev_SFC],
     matchParams [P 228247]]) [SetMars ''levtype'' (V_LevType Lev_HL), SetMars ''levelist'' (V_Int 100),
     SetMars ''param'' (V_Param 132)]"

definition fixWindspeedV200m :: rule where
  "fixWindspeedV200m = Rule (All [OneOf ''levtype'' [V_LevType Lev_SFC],
     matchParams [P 228240]]) [SetMars ''levtype'' (V_LevType Lev_HL), SetMars ''levelist'' (V_Int 200),
     SetMars ''param'' (V_Param 132)]"

definition fixWindspeed100m :: rule where
  "fixWindspeed100m = Rule (All [OneOf ''levtype'' [V_LevType Lev_SFC],
     matchParams [P 228241]]) [SetMars ''levtype'' (V_LevType Lev_HL), SetMars ''levelist'' (V_Int 200),
     SetMars ''param'' (V_Param 10)]"

definition fixWindspeed200m :: rule where
  "fixWindspeed200m = Rule (All [OneOf ''levtype'' [V_LevType Lev_SFC],
     matchParams [P 228249]]) [SetMars ''levtype'' (V_LevType Lev_HL), SetMars ''levelist'' (V_Int 100),
     SetMars ''param'' (V_Param 10)]"

definition ruleWaveBitsPerValueS1 :: rule where
  "ruleWaveBitsPerValueS1 = Rule (All [MatchOp ''step'' Greater (V_TimeDuration (Hours 1)),
     matchParams [P 22824]]) [SetMisc ''bitsPerValue'' (V_Int 24)]"

definition ruleWaveBitsPerValue :: rule where
  "ruleWaveBitsPerValue = Rule (All [matchParams [paramRange 140098 140105, paramRange 140112 140129,
     paramRange 140207 140209, paramRange 140211 140212, paramRange 140214 140232, paramRange 140234 140239,
     P 140244, paramRange 140251 140254]]) [SetMisc ''bitsPerValue'' (V_Int 24)]"

definition incrementalType4IRules :: rule where
  "incrementalType4IRules = RuleList [Rule (matchParams [P 200130]) [SetMars ''param'' (V_Param 130)],
     Rule (matchParams [P 200133]) [SetMars ''param'' (V_Param 133)],
     Rule (matchParams [P 200138]) [SetMars ''param'' (V_Param 138)],
     Rule (matchParams [P 200152]) [SetMars ''param'' (V_Param 152)],
     Rule (matchParams [P 200155]) [SetMars ''param'' (V_Param 155)],
     Rule (matchParams [P 200203]) [SetMars ''param'' (V_Param 203)]]"

definition wmoUnitMapping :: rule where
  "wmoUnitMapping = RuleList [fixCloudParam164, fixCloudParam186, fixCloudParam187, fixCloudParam188,
     fixConvectivePrecip143, fixTotalPrecip228, fixRunOffWaterParam205, fixSnowfallWaterEquivParam,
     fixSnowCover]"

definition fixIFSOutput :: rule where
  "fixIFSOutput = RuleList [fixTablesVersionChemAccum, fixTablesVersionChemInstant, fixHeightAboveGround2m,
     fixHeightAboveGround10m, fixHeightAboveSea, fixMapToSol, fixWindspeedU100m, fixWindspeedU200m,
     fixWindspeedV100m, fixWindspeedV200m, fixWindspeed100m, fixWindspeed200m]"

definition mapDeprecatedGrib1ToGrib2 :: rule where
  "mapDeprecatedGrib1ToGrib2 = RuleList [fixParam35ToSol1, fixParam36ToSol2, fixParam37ToSol3, fixParam38ToSol4,
     fixParam39ToSol1, fixParam40ToSol2, fixParam41ToSol3, fixParam42ToSol4, fixParam139ToSol1,
     fixParam170ToSol2, fixParam183ToSol3, fixParam236ToSol4, fixTimespanMax2T, fixTimespanMaxCape,
     fixTimespanMaxMuCapes, fixTimespanMaxPrecipRate, fixTimespanMaxWindGust, fixTimespanMeanFlashDensity,
     fixTimespanMin2T, fixTimespanMinPrecipRate, fixTimespanModePrecip, fixTimespanSeverityPrecip]"

definition mapBitsPerValue :: rule where
  "mapBitsPerValue = RuleList [ruleWaveBitsPerValueS1, ruleWaveBitsPerValue]"

definition allRulesNoWMOMapping :: rule where
  "allRulesNoWMOMapping = RuleList [incrementalType4IRules, fixIFSOutput, mapDeprecatedGrib1ToGrib2]"

definition allRules :: rule where
  "allRules = RuleList [wmoUnitMapping, incrementalType4IRules, fixIFSOutput, mapDeprecatedGrib1ToGrib2]"


section \<open>Lists of exclusive rules\<close>

text \<open>The rules of nested lists in the order in which they are applied.\<close>

fun leaves :: "rule \<Rightarrow> (matcher \<times> setter list) list" where
  "leaves (Rule m ss) = [(m, ss)]"
| "leaves (RuleList rs) = concat (map leaves rs)"

text \<open>What one rule does to the records, and what its setters make of the keys.\<close>

definition fire :: "setter list \<Rightarrow> records \<Rightarrow> records \<times> MappingResult" where
  "fire ss s = (case fold_res apply_setter ss (s, None) of Inr r \<Rightarrow> r | Inl _ \<Rightarrow> (s, None))"

fun known :: "setter list \<Rightarrow> string \<Rightarrow> dm_value option" where
  "known [] = Map.empty"
| "known (SetMars k v # ss) = [k \<mapsto> v] ++ known ss"
| "known (_ # ss) = known ss"

fun known_misc :: "setter list \<Rightarrow> string \<Rightarrow> dm_value option" where
  "known_misc [] = Map.empty"
| "known_misc (SetMisc k v # ss) = [k \<mapsto> v] ++ known_misc ss"
| "known_misc (_ # ss) = known_misc ss"

fun factors :: "setter list \<Rightarrow> real list" where
  "factors [] = []"
| "factors (SetScaleFactor x # ss) = x # factors ss"
| "factors (_ # ss) = factors ss"

definition first_match :: "(matcher \<times> setter list) list \<Rightarrow> dm_record \<Rightarrow> (matcher \<times> setter list) option" where
  "first_match ls mars = find (\<lambda>r. matches (fst r) mars) ls"

definition fires_first :: "(matcher \<times> setter list) list \<Rightarrow> records \<Rightarrow> records \<times> MappingResult option" where
  "fires_first ls s =
     (case first_match ls (fst s) of
        None \<Rightarrow> (s, None)
      | Some r \<Rightarrow> (fst (fire (snd r) s), Some (snd (fire (snd r) s))))"

text \<open>
  What a set of rules has to satisfy for the lists of it to be unambiguous, on the records that \<open>ok\<close> admits: no setter
  throws, no two rules match the same record, and after a rule no other one matches.
\<close>

locale exclusive_rules =
  fixes table :: "(matcher \<times> setter list) set" and ok :: "dm_record \<Rightarrow> bool"
  assumes setters_succeed: "(m, ss) \<in> table \<Longrightarrow> \<exists>r. fold_res apply_setter ss (s, None) = Inr r"
    and matches_once: "(m, ss) \<in> table \<Longrightarrow> (m', ss') \<in> table \<Longrightarrow> ok mars \<Longrightarrow> matches m mars \<Longrightarrow> matches m' mars \<Longrightarrow>
      (m, ss) = (m', ss')"
    and settled: "(m, ss) \<in> table \<Longrightarrow> (m', ss') \<in> table \<Longrightarrow> (m, ss) \<noteq> (m', ss') \<Longrightarrow> ok (fst s) \<Longrightarrow> matches m (fst s) \<Longrightarrow>
      \<not> matches m' (fst (fst (fire ss s)))"
begin

lemma apply_Rule:
  "(m, ss) \<in> table \<Longrightarrow> apply_rule (Rule m ss) s =
     (if matches m (fst s) then Inr (fst (fire ss s), Some (snd (fire ss s))) else Inr (s, None))"
  using setters_succeed [of m ss s] by (auto simp: fire_def split: prod.splits)

end

lemma apply_rules_skip:
  "(\<And>r. r \<in> set rs \<Longrightarrow> apply_rule r s = Inr (s, None)) \<Longrightarrow> apply_rules rs (s, a) = Inr (s, a)"
  by (induction rs) auto

lemma apply_no_match:
  "(\<And>m ss. (m, ss) \<in> set (leaves r) \<Longrightarrow> \<not> matches m (fst s)) \<Longrightarrow> apply_rule r s = Inr (s, None)"
proof (induction r)
  case (RuleList rs)
  have "apply_rules rs (s, None) = Inr (s, None)"
  proof (rule apply_rules_skip)
    fix r
    assume "r \<in> set rs"
    then show "apply_rule r s = Inr (s, None)"
      using RuleList.prems by (intro RuleList.IH) auto
  qed
  then show ?case by simp
qed simp

lemma first_match_None: "first_match ls mars = None \<longleftrightarrow> (\<forall>r\<in>set ls. \<not> matches (fst r) mars)"
  by (auto simp: first_match_def find_None_iff)

lemma first_match_Some: "first_match ls mars = Some r \<Longrightarrow> r \<in> set ls \<and> matches (fst r) mars"
  by (auto simp: first_match_def find_Some_iff)

lemma first_match_append:
  "first_match (xs @ ys) mars = (case first_match xs mars of None \<Rightarrow> first_match ys mars | Some r \<Rightarrow> Some r)"
  by (induction xs) (auto simp: first_match_def)

context exclusive_rules
begin

lemma apply_rules_first:
  assumes "\<And>r s. r \<in> set rs \<Longrightarrow> ok (fst s) \<Longrightarrow> apply_rule r s = Inr (fires_first (leaves r) s)"
    and "set (concat (map leaves rs)) \<subseteq> table" "distinct (concat (map leaves rs))" "ok (fst s)"
  shows "apply_rules rs (s, None) = Inr (fires_first (concat (map leaves rs)) s)"
  using assms
proof (induction rs)
  case (Cons r rs)
  have r: "apply_rule r s = Inr (fires_first (leaves r) s)" using Cons.prems(1) [of r s] Cons.prems(4) by simp
  have rs: "apply_rules rs (s, None) = Inr (fires_first (concat (map leaves rs)) s)"
    using Cons.prems by (intro Cons.IH) auto
  show ?case
  proof (cases "first_match (leaves r) (fst s)")
    case None
    then show ?thesis using r rs by (simp add: fires_first_def first_match_append)
  next
    case (Some x)
    obtain m ss where x: "x = (m, ss)" by (cases x)
    then have m: "(m, ss) \<in> set (leaves r)" "matches m (fst s)" using first_match_Some [OF Some] by auto
    have "apply_rule q (fst (fire ss s)) = Inr (fst (fire ss s), None)" if "q \<in> set rs" for q
    proof (rule apply_no_match)
      fix m' ss'
      assume m': "(m', ss') \<in> set (leaves q)"
      then have "(m, ss) \<noteq> (m', ss')" using that m(1) Cons.prems(3) by auto
      moreover have "(m, ss) \<in> table" "(m', ss') \<in> table" using m(1) m' that Cons.prems(2) by auto
      ultimately show "\<not> matches m' (fst (fst (fire ss s)))" using settled m(2) Cons.prems(4) by blast
    qed
    then have "apply_rules rs (fst (fire ss s), a) = Inr (fst (fire ss s), a)" for a
      by (rule apply_rules_skip)
    then show ?thesis using r Some x by (simp add: fires_first_def first_match_append)
  qed
qed (simp add: fires_first_def first_match_def)

lemma apply_fires_first:
  "set (leaves r) \<subseteq> table \<Longrightarrow> distinct (leaves r) \<Longrightarrow> ok (fst s) \<Longrightarrow> apply_rule r s = Inr (fires_first (leaves r) s)"
proof (induction r arbitrary: s)
  case (Rule m ss)
  then show ?case by (simp add: apply_Rule fires_first_def first_match_def del: apply_rule.simps)
next
  case (RuleList rs)
  have "apply_rules rs (s, None) = Inr (fires_first (concat (map leaves rs)) s)"
  proof (rule apply_rules_first)
    fix r and s :: records
    assume r: "r \<in> set rs" "ok (fst s)"
    then have "leaves r \<noteq> [] \<longrightarrow> leaves r \<in> set (removeAll [] (map leaves rs))" by auto
    then have "distinct (leaves r)"
      using RuleList.prems(2) by (cases "leaves r = []") (auto simp: distinct_concat_iff)
    moreover have "set (leaves r) \<subseteq> table" using RuleList.prems(1) r(1) by auto
    ultimately show "apply_rule r s = Inr (fires_first (leaves r) s)" using RuleList.IH [OF r(1)] r(2) by blast
  qed (use RuleList.prems in auto)
  then show ?case by simp
qed

text \<open>The order and the nesting of the rules do not matter.\<close>

lemma first_match_eq:
  assumes "(m, ss) \<in> set ls" "set ls \<subseteq> table" "ok mars" "matches m mars"
  shows "first_match ls mars = Some (m, ss)"
proof (cases "first_match ls mars")
  case None
  then show ?thesis using assms(1,4) by (auto simp: first_match_None)
next
  case (Some r)
  obtain m' ss' where r: "r = (m', ss')" by (cases r)
  then have "(m', ss') \<in> set ls" "matches m' mars" using first_match_Some [OF Some] by auto
  then show ?thesis using matches_once [of m ss m' ss' mars] assms Some r by auto
qed

lemma first_match_any_order:
  assumes "set ls = set ls'" "set ls \<subseteq> table" "ok mars"
  shows "first_match ls mars = first_match ls' mars"
proof (cases "first_match ls mars")
  case None
  then show ?thesis using assms(1) first_match_None by metis
next
  case (Some r)
  then show ?thesis
    using first_match_Some [OF Some] first_match_eq [of "fst r" "snd r" ls' mars] assms by simp
qed

lemma any_order:
  assumes "set (leaves r) = set (leaves r')" "set (leaves r) \<subseteq> table" "distinct (leaves r)" "distinct (leaves r')"
    and "ok (fst s)"
  shows "apply_rule r s = apply_rule r' s"
  using assms first_match_any_order [of "leaves r" "leaves r'" "fst s"]
  by (simp add: apply_fires_first fires_first_def)

lemma applied_again:
  assumes "set (leaves r) \<subseteq> table" "distinct (leaves r)" "ok (fst s)" "ok (fst s')" "apply_rule r s = Inr (s', Some x)"
  obtains m ss where "(m, ss) \<in> set (leaves r)" "matches m (fst s)" "(s', x) = fire ss s"
    and "apply_rule r s' = (if matches m (fst s') then Inr (fst (fire ss s'), Some (snd (fire ss s'))) else Inr (s', None))"
proof -
  obtain y where y: "first_match (leaves r) (fst s) = Some y" "s' = fst (fire (snd y) s)" "x = snd (fire (snd y) s)"
    using assms(5) by (auto simp: apply_fires_first [OF assms(1-3)] fires_first_def split: option.splits)
  obtain m ss where m: "y = (m, ss)" by (cases y)
  have mem: "(m, ss) \<in> set (leaves r)" "matches m (fst s)" using first_match_Some [OF y(1)] m by auto
  have others: "\<not> matches m' (fst s')" if "(m', ss') \<in> set (leaves r)" "(m', ss') \<noteq> (m, ss)" for m' ss'
  proof -
    have "(m, ss) \<in> table" "(m', ss') \<in> table" using mem(1) that(1) assms(1) by auto
    then show ?thesis using settled that(2) mem(2) assms(3) y(2) m by fastforce
  qed
  have "apply_rule r s' = (if matches m (fst s') then Inr (fst (fire ss s'), Some (snd (fire ss s'))) else Inr (s', None))"
  proof (cases "matches m (fst s')")
    case True
    then have "first_match (leaves r) (fst s') = Some (m, ss)"
      using first_match_eq mem(1) assms(1,4) by blast
    then show ?thesis using True by (simp add: apply_fires_first [OF assms(1,2,4)] fires_first_def)
  next
    case False
    then have "first_match (leaves r) (fst s') = None"
      using others by (fastforce simp: first_match_None)
    then show ?thesis using False by (simp add: apply_fires_first [OF assms(1,2,4)] fires_first_def)
  qed
  then show thesis using that [OF mem] y(2,3) m by simp
qed

end

section \<open>Deciding the contract\<close>

text \<open>
  After a rule the keys it sets are known; a matcher that is false on every record with these values is recognised by
  \<open>definitely_false\<close>.
\<close>

fun definitely_false :: "(string \<Rightarrow> dm_value option) \<Rightarrow> matcher \<Rightarrow> bool" where
  "definitely_false kn (Range k a b) = (case kn k of None \<Rightarrow> False | Some v \<Rightarrow> \<not> (value_le a v \<and> value_le v b))"
| "definitely_false kn (OneOf k vs) = (case kn k of None \<Rightarrow> False | Some v \<Rightarrow> v \<notin> set vs)"
| "definitely_false kn (NoneOf k vs) = (case kn k of None \<Rightarrow> False | Some v \<Rightarrow> v \<in> set vs)"
| "definitely_false kn (Missing k) = (kn k \<noteq> None)"
| "definitely_false kn (Has k) = False"
| "definitely_false kn (MatchOp k op w) = (case kn k of None \<Rightarrow> False | Some v \<Rightarrow> \<not> apply_op op v w)"
| "definitely_false kn (Ranges ms) = (\<forall>m\<in>set ms. definitely_false kn m)"
| "definitely_false kn (Any ms) = (\<forall>m\<in>set ms. definitely_false kn m)"
| "definitely_false kn (All ms) = (\<exists>m\<in>set ms. definitely_false kn m)"

lemma definitely_false_sound:
  "definitely_false kn m \<Longrightarrow> (\<And>k v. kn k = Some v \<Longrightarrow> rec k = Some v) \<Longrightarrow> \<not> matches m rec"
  by (induction m) (fastforce split: option.splits)+

lemma map_add_twice: "m ++ n ++ n = m ++ n"
  by (rule ext) (simp add: map_add_def split: option.splits)

lemma map_upd_add: "m ++ ([k \<mapsto> v] ++ n) = m(k \<mapsto> v) ++ n"
  by (rule ext) (simp add: map_add_def split: option.splits)

lemma fold_setters:
  "length (factors ss) \<le> (if factor = None then 1 else 0) \<Longrightarrow>
   fold_res apply_setter ss ((mars, misc), factor) =
     Inr ((mars ++ known ss, misc ++ known_misc ss), case factors ss of [] \<Rightarrow> factor | x # _ \<Rightarrow> Some x)"
proof (induction ss arbitrary: mars misc factor)
  case (Cons x ss)
  then show ?case
    by (cases x) (auto simp: map_upd_add simp del: map_add_assoc fun_upd_apply split: list.splits if_splits)
qed simp

lemma fire_eq:
  "length (factors ss) \<le> 1 \<Longrightarrow>
   fire ss s = ((fst s ++ known ss, snd s ++ known_misc ss), case factors ss of [] \<Rightarrow> None | x # _ \<Rightarrow> Some x)"
  using fold_setters [of ss None "fst s" "snd s"] by (simp add: fire_def)

text \<open>
  The check of a table: at most one scale factor in a rule, disjoint intervals of parameters, and after a rule that sets
  the parameter every other rule is false.
\<close>

definition sets_param :: "setter list \<Rightarrow> bool" where
  "sets_param ss \<longleftrightarrow> known ss ''param'' \<noteq> None"

definition check_table :: "(matcher \<times> setter list) list \<Rightarrow> bool" where
  "check_table ls \<longleftrightarrow>
     list_all (\<lambda>(m, ss). length (factors ss) \<le> 1 \<and> intervals m \<noteq> None) ls \<and>
     disjoint_intervals (map (\<lambda>(m, _). the (intervals m)) ls) \<and>
     list_all (\<lambda>(i, m, ss). sets_param ss \<longrightarrow>
       list_all (\<lambda>(j, m', _). i = j \<or> definitely_false (known ss) m') (enumerate 0 ls)) (enumerate 0 ls)"

lemma check_table_exclusive:
  assumes "check_table ls"
  shows "exclusive_rules (set ls) param_typed"
proof
  have sep: "disjoint_intervals (map (\<lambda>(m, _). the (intervals m)) ls)"
    using assms by (simp add: check_table_def)
  have one: "length (factors ss) \<le> 1 \<and> (\<exists>is. intervals m = Some is)" if "(m, ss) \<in> set ls" for m ss
    using assms that by (auto simp: check_table_def list_all_iff)
  have ints: "\<exists>p. mars ''param'' = Some (V_Param p) \<and> in_intervals p (map (\<lambda>(m, _). the (intervals m)) ls ! i)"
    if "i < length ls" "ls ! i = (m, ss)" "param_typed mars" "matches m mars" for i m ss mars
  proof -
    have "(m, ss) \<in> set ls" using that(1,2) nth_mem [of i ls] by simp
    then obtain "is" where "intervals m = Some is" using one by blast
    then show ?thesis
      using that intervals_sound [of m "is" mars] by (auto simp: param_typed_def has_param_def)
  qed
  have unique: "i = j"
    if "i < length ls" "ls ! i = (m, ss)" "j < length ls" "ls ! j = (m', ss')" "param_typed mars" "matches m mars"
      "param_typed mars'" "matches m' mars'" "mars ''param'' = mars' ''param''"
    for i j m ss m' ss' mars mars'
    using ints [of i m ss mars] ints [of j m' ss' mars'] disjoint_intervals_unique [OF sep, of i j] that by auto
  fix m ss m' ss' mars s
  show "(m, ss) \<in> set ls \<Longrightarrow> \<exists>r. fold_res apply_setter ss (s, None) = Inr r"
    using one [of m ss] fold_setters [of ss None "fst s" "snd s"] by auto
  show "(m, ss) = (m', ss')"
    if "(m, ss) \<in> set ls" "(m', ss') \<in> set ls" "param_typed mars" "matches m mars" "matches m' mars"
    using that unique unfolding in_set_conv_nth by metis
  show "\<not> matches m' (fst (fst (fire ss s)))"
    if p: "(m, ss) \<in> set ls" "(m', ss') \<in> set ls" "(m, ss) \<noteq> (m', ss')" "param_typed (fst s)" "matches m (fst s)"
  proof -
    obtain i j where ij: "i < length ls" "ls ! i = (m, ss)" "j < length ls" "ls ! j = (m', ss')" "i \<noteq> j"
      using p(1-3) unfolding in_set_conv_nth by metis
    have after: "fst (fst (fire ss s)) = fst s ++ known ss" using one [OF p(1)] fire_eq by simp
    show ?thesis
    proof (cases "sets_param ss")
      case True
      have "(i, m, ss) \<in> set (enumerate 0 ls)" "(j, m', ss') \<in> set (enumerate 0 ls)"
        using ij by (auto simp: in_set_enumerate_eq)
      then have "definitely_false (known ss) m'"
        using assms True ij(5) by (fastforce simp: check_table_def list_all_iff)
      then show ?thesis using definitely_false_sound [of "known ss" m'] by (auto simp: after map_add_def)
    next
      case False
      then have same: "(fst s ++ known ss) ''param'' = fst s ''param''"
        by (simp add: sets_param_def map_add_def)
      then have "param_typed (fst s ++ known ss)" using p(4) by (simp add: param_typed_def)
      then show ?thesis
        using unique [OF ij(1,2,3,4) p(4,5), of "fst s ++ known ss"] same ij(5) by (auto simp: after)
    qed
  qed
qed

text \<open>What the setters of a table write: one of three keys, with a value of its type, and no factor twice.\<close>

definition setter_typed :: "setter \<Rightarrow> bool" where
  "setter_typed x =
     (case x of
        SetMars k v \<Rightarrow>
          k = ''param'' \<and> has_type v T_Param \<or> k = ''levtype'' \<and> has_type v T_LevType \<or> k = ''levelist'' \<and> has_type v T_Int
      | _ \<Rightarrow> True)"

definition check_setters :: "(matcher \<times> setter list) list \<Rightarrow> bool" where
  "check_setters ls \<longleftrightarrow>
     list_all (\<lambda>(m, ss). list_all setter_typed ss \<and> (factors ss \<noteq> [] \<longrightarrow> definitely_false (known ss) m)) ls"

lemma known_in: "known ss k = Some v \<Longrightarrow> SetMars k v \<in> set ss"
  by (induction ss rule: known.induct) (auto split: if_splits)

lemma known_typed:
  assumes "list_all setter_typed ss" "typed FullMarsRecord mars"
  shows "typed FullMarsRecord (mars ++ known ss)"
  using assms
proof (induction ss arbitrary: mars rule: known.induct)
  case (2 k v ss)
  have entries: "PARAM \<in> set (rd_entries FullMarsRecord)" "LEVTYPE \<in> set (rd_entries FullMarsRecord)"
      "LEVELIST \<in> set (rd_entries FullMarsRecord)"
    by (simp_all add: FullMarsRecord_def mars_groups)
  have ok: "has_type v T_Param \<or> has_type v T_LevType \<or> has_type v T_Int \<Longrightarrow> value_ok v" by (cases v) auto
  have "typed FullMarsRecord (mars(k \<mapsto> v))"
    using 2(2,3) ok typed_upd [OF 2(3) entries(1), of "Some v"] typed_upd [OF 2(3) entries(2), of "Some v"]
      typed_upd [OF 2(3) entries(3), of "Some v"]
    by (auto simp: setter_typed_def PARAM_def LEVTYPE_def LEVELIST_def entry_defs)
  then show ?case using 2(1,2) by (simp add: map_upd_add del: map_add_assoc)
qed (simp_all add: known_misc.simps)

lemma check_allRules: "check_table (leaves allRules)"
  by code_simp

lemma check_allRules_setters: "check_setters (leaves allRules)"
  by code_simp

lemma distinct_allRules: "distinct (leaves allRules)"
  by code_simp

interpretation all: exclusive_rules "set (leaves allRules)" param_typed
  by (rule check_table_exclusive) (rule check_allRules)

section \<open>Properties\<close>

text \<open>
  Property C15. The order in which the rules are listed and how the lists are nested does not matter: any list of the same
  rules does to every record what the list of all rules does.
\<close>

theorem mappings_any_order:
  assumes "set (leaves rules) = set (leaves allRules)" "distinct (leaves rules)" "typed FullMarsRecord mars"
  shows "applyMappings rules mars misc = applyMappings allRules mars misc"
  unfolding applyMappings_def
  by (rule all.any_order) (use assms distinct_allRules typed_param in auto)

definition reordered :: rule where
  "reordered = RuleList [mapDeprecatedGrib1ToGrib2, fixIFSOutput, wmoUnitMapping, incrementalType4IRules]"

lemma mappings_any_order_witness:
  "applyMappings reordered [''param'' \<mapsto> V_Param 35, ''levtype'' \<mapsto> V_LevType Lev_SFC] Map.empty =
   applyMappings allRules [''param'' \<mapsto> V_Param 35, ''levtype'' \<mapsto> V_LevType Lev_SFC] Map.empty"
proof (rule mappings_any_order)
  show "set (leaves reordered) = set (leaves allRules)"
    by (auto simp: reordered_def allRules_def)
  show "distinct (leaves reordered)"
    using distinct_allRules by (auto simp: reordered_def allRules_def)
  show "typed FullMarsRecord [''param'' \<mapsto> V_Param 35, ''levtype'' \<mapsto> V_LevType Lev_SFC]"
    by (auto simp: typed_def FullMarsRecord_def mars_groups PARAM_def LEVTYPE_def entry_defs)
qed

text \<open>
  Property C16. No record makes the rules ambiguous: applying them never throws, a well-typed record stays well-typed, and
  applying them to their result changes neither record and asks for no second scaling of the values.
\<close>

theorem mappings_applied_once:
  assumes "typed FullMarsRecord mars"
  shows "\<exists>mars' misc' result again.
           applyMappings allRules mars misc = Inr ((mars', misc'), result) \<and> typed FullMarsRecord mars' \<and>
           applyMappings allRules mars' misc' = Inr ((mars', misc'), again) \<and> again \<in> {None, Some None}"
proof -
  let ?s = "(mars, misc)"
  obtain s' result where run: "apply_rule allRules ?s = Inr (s', result)"
    using all.apply_fires_first [of allRules ?s] distinct_allRules typed_param [OF assms]
    by (cases "fires_first (leaves allRules) ?s") auto
  show ?thesis
  proof (cases result)
    case None
    then have "s' = ?s"
      using run all.apply_fires_first [of allRules ?s] distinct_allRules typed_param [OF assms]
      by (auto simp: fires_first_def split: option.splits)
    then show ?thesis using run None assms by (auto simp: applyMappings_def)
  next
    case (Some x)
    have fired: "fire ss s = ((fst s ++ known ss, snd s ++ known_misc ss), case factors ss of [] \<Rightarrow> None | f # _ \<Rightarrow> Some f)"
        and ok: "list_all setter_typed ss" "factors ss \<noteq> [] \<Longrightarrow> definitely_false (known ss) m"
      if "(m, ss) \<in> set (leaves allRules)" for m ss s
      using that check_allRules check_allRules_setters fire_eq [of ss s]
      by (auto simp: check_table_def check_setters_def list_all_iff)
    have typed: "typed FullMarsRecord (fst s')"
    proof -
      obtain y where "first_match (leaves allRules) mars = Some y" "s' = fst (fire (snd y) ?s)"
        using run Some all.apply_fires_first [of allRules ?s] distinct_allRules typed_param [OF assms]
        by (auto simp: fires_first_def split: option.splits)
      then show ?thesis
        using first_match_Some fired(1) [of "fst y" "snd y" ?s] ok(1) [of "fst y" "snd y"] known_typed [OF _ assms]
        by fastforce
    qed
    obtain m ss where m: "(m, ss) \<in> set (leaves allRules)" "(s', x) = fire ss ?s"
        and again: "apply_rule allRules s' =
          (if matches m (fst s') then Inr (fst (fire ss s'), Some (snd (fire ss s'))) else Inr (s', None))"
    proof (rule all.applied_again [of allRules ?s s' x])
      show "apply_rule allRules ?s = Inr (s', Some x)" using run Some by simp
    qed (use distinct_allRules typed_param [OF assms] typed_param [OF typed] in auto)
    have s': "s' = (mars ++ known ss, misc ++ known_misc ss)" using m(2) fired(1) [OF m(1)] by auto
    have "fst (fire ss s') = s'" using fired(1) [OF m(1)] by (simp add: s' map_add_twice)
    moreover have "snd (fire ss s') = None" if "matches m (fst s')"
      using fired(1) [OF m(1)] ok(2) [OF m(1)] definitely_false_sound [of "known ss" m "fst s'"] that
      by (cases "factors ss") (auto simp: s' map_add_def)
    ultimately show ?thesis
      using run again typed Some by (cases "matches m (fst s')") (auto simp: applyMappings_def s')
  qed
qed

lemma mappings_applied_once_witness:
  "\<exists>mars' misc' result again.
     applyMappings allRules [''param'' \<mapsto> V_Param 164] Map.empty = Inr ((mars', misc'), result) \<and>
     typed FullMarsRecord mars' \<and> applyMappings allRules mars' misc' = Inr ((mars', misc'), again) \<and>
     again \<in> {None, Some None}"
  by (rule mappings_applied_once) (simp add: typed_def FullMarsRecord_def mars_groups PARAM_def entry_defs)

text \<open>
  The bits per value of wave fields are raised for steps of more than one hour. For a step in seconds the
  rule applies whatever the step is, because durations are compared as variants, where seconds are always greater
  than hours: a field at step zero gets the setting, while one hour given in hours does not.
\<close>

theorem seconds_exceed_hours:
  assumes "mars ''param'' = Some (V_Param 22824)" and "h \<le> 1"
  shows "applyMappings mapBitsPerValue (mars(''step'' \<mapsto> V_TimeDuration (Seconds n))) misc =
           Inr ((mars(''step'' \<mapsto> V_TimeDuration (Seconds n)), misc(''bitsPerValue'' \<mapsto> V_Int 24)), Some None) \<and>
         applyMappings mapBitsPerValue (mars(''step'' \<mapsto> V_TimeDuration (Hours h))) misc =
           Inr ((mars(''step'' \<mapsto> V_TimeDuration (Hours h)), misc), None)"
  using assms
  by (simp add: applyMappings_def mapBitsPerValue_def ruleWaveBitsPerValueS1_def ruleWaveBitsPerValue_def
      matchParams_def value_le_def)

lemma seconds_exceed_hours_witness:
  "applyMappings mapBitsPerValue ([''param'' \<mapsto> V_Param 22824](''step'' \<mapsto> V_TimeDuration (Seconds 0))) Map.empty =
     Inr (([''param'' \<mapsto> V_Param 22824](''step'' \<mapsto> V_TimeDuration (Seconds 0)), Map.empty(''bitsPerValue'' \<mapsto> V_Int 24)),
          Some None) \<and>
   applyMappings mapBitsPerValue ([''param'' \<mapsto> V_Param 22824](''step'' \<mapsto> V_TimeDuration (Hours 1))) Map.empty =
     Inr (([''param'' \<mapsto> V_Param 22824](''step'' \<mapsto> V_TimeDuration (Hours 1)), Map.empty), None)"
  by (rule seconds_exceed_hours) simp_all

end
