(* ===== verification/ProductCategories.thy ===== *)
theory ProductCategories
  imports DataTypes
begin

text \<open>
  The categories that a product definition template is chosen by, and the table that chooses it
  (\<^verbatim>\<open>mars2grib/generated/InferPDT.h\<close>, generated from the templates of GRIB).
\<close>

section \<open>Categories\<close>

datatype TimeExtent =
    TimeExtent_None | TimeExtent_TimeRange | TimeExtent_PointInTime

fun dump_TimeExtent :: "TimeExtent \<Rightarrow> string" where
  "dump_TimeExtent TimeExtent_None = ''None''"
| "dump_TimeExtent TimeExtent_TimeRange = ''timeRange''"
| "dump_TimeExtent TimeExtent_PointInTime = ''pointInTime''"

definition parse_TimeExtent :: "string \<Rightarrow> TimeExtent res" where
  "parse_TimeExtent str =
     (if str = ''None'' then Inr TimeExtent_None
      else if str = ''timeRange'' then Inr TimeExtent_TimeRange
      else if str = ''pointInTime'' then Inr TimeExtent_PointInTime
      else Inl Mars2GribException)"

interpretation pdt_TimeExtent: codec "\<lambda>_. True" dump_TimeExtent parse_TimeExtent
proof
  show "parse_TimeExtent (dump_TimeExtent v) = Inr v" for v by (cases v) (simp_all add: parse_TimeExtent_def)
  show "parse_TimeExtent d = Inr v \<Longrightarrow> True \<and> dump_TimeExtent v = d" for d v
    unfolding parse_TimeExtent_def by (erule if_chainE, hypsubst, simp)+ simp
qed

datatype TimeFormat =
    TimeFormat_None | TimeFormat_LocalTime | TimeFormat_WithReferencePeriod

fun dump_TimeFormat :: "TimeFormat \<Rightarrow> string" where
  "dump_TimeFormat TimeFormat_None = ''None''"
| "dump_TimeFormat TimeFormat_LocalTime = ''localTime''"
| "dump_TimeFormat TimeFormat_WithReferencePeriod = ''withReferencePeriod''"

definition parse_TimeFormat :: "string \<Rightarrow> TimeFormat res" where
  "parse_TimeFormat str =
     (if str = ''None'' then Inr TimeFormat_None
      else if str = ''localTime'' then Inr TimeFormat_LocalTime
      else if str = ''withReferencePeriod'' then Inr TimeFormat_WithReferencePeriod
      else Inl Mars2GribException)"

interpretation pdt_TimeFormat: codec "\<lambda>_. True" dump_TimeFormat parse_TimeFormat
proof
  show "parse_TimeFormat (dump_TimeFormat v) = Inr v" for v by (cases v) (simp_all add: parse_TimeFormat_def)
  show "parse_TimeFormat d = Inr v \<Longrightarrow> True \<and> dump_TimeFormat v = d" for d v
    unfolding parse_TimeFormat_def by (erule if_chainE, hypsubst, simp)+ simp
qed

datatype SpatialExtent =
    SpatialExtent_None | SpatialExtent_RandomPatterns | SpatialExtent_GeneralisedTile |
    SpatialExtent_ClusterStatCircular | SpatialExtent_FocalStatistics | SpatialExtent_ClusterStatRectangular

fun dump_SpatialExtent :: "SpatialExtent \<Rightarrow> string" where
  "dump_SpatialExtent SpatialExtent_None = ''None''"
| "dump_SpatialExtent SpatialExtent_RandomPatterns = ''randomPatterns''"
| "dump_SpatialExtent SpatialExtent_ClusterStatCircular = ''clusterStatCircular''"
| "dump_SpatialExtent SpatialExtent_GeneralisedTile = ''generalisedTile''"
| "dump_SpatialExtent SpatialExtent_FocalStatistics = ''focalStatistics''"
| "dump_SpatialExtent SpatialExtent_ClusterStatRectangular = ''clusterStatRectangular''"

definition parse_SpatialExtent :: "string \<Rightarrow> SpatialExtent res" where
  "parse_SpatialExtent str =
     (if str = ''None'' then Inr SpatialExtent_None
      else if str = ''randomPatterns'' then Inr SpatialExtent_RandomPatterns
      else if str = ''clusterStatCircular'' then Inr SpatialExtent_ClusterStatCircular
      else if str = ''generalisedTile'' then Inr SpatialExtent_GeneralisedTile
      else if str = ''focalStatistics'' then Inr SpatialExtent_FocalStatistics
      else if str = ''clusterStatRectangular'' then Inr SpatialExtent_ClusterStatRectangular
      else Inl Mars2GribException)"

interpretation pdt_SpatialExtent: codec "\<lambda>_. True" dump_SpatialExtent parse_SpatialExtent
proof
  show "parse_SpatialExtent (dump_SpatialExtent v) = Inr v" for v by (cases v) (simp_all add: parse_SpatialExtent_def)
  show "parse_SpatialExtent d = Inr v \<Longrightarrow> True \<and> dump_SpatialExtent v = d" for d v
    unfolding parse_SpatialExtent_def by (erule if_chainE, hypsubst, simp)+ simp
qed

datatype ProcessType =
    ProcessType_None | ProcessType_Percentile | ProcessType_Quantile | ProcessType_Probability |
    ProcessType_Reforecast | ProcessType_Categorial | ProcessType_DerivedForecast

fun dump_ProcessType :: "ProcessType \<Rightarrow> string" where
  "dump_ProcessType ProcessType_None = ''None''"
| "dump_ProcessType ProcessType_Percentile = ''percentile''"
| "dump_ProcessType ProcessType_Quantile = ''quantile''"
| "dump_ProcessType ProcessType_Probability = ''probability''"
| "dump_ProcessType ProcessType_Reforecast = ''reforecast''"
| "dump_ProcessType ProcessType_Categorial = ''categorial''"
| "dump_ProcessType ProcessType_DerivedForecast = ''derivedForecast''"

definition parse_ProcessType :: "string \<Rightarrow> ProcessType res" where
  "parse_ProcessType str =
     (if str = ''None'' then Inr ProcessType_None
      else if str = ''percentile'' then Inr ProcessType_Percentile
      else if str = ''quantile'' then Inr ProcessType_Quantile
      else if str = ''probability'' then Inr ProcessType_Probability
      else if str = ''reforecast'' then Inr ProcessType_Reforecast
      else if str = ''categorial'' then Inr ProcessType_Categorial
      else if str = ''derivedForecast'' then Inr ProcessType_DerivedForecast
      else Inl Mars2GribException)"

interpretation pdt_ProcessType: codec "\<lambda>_. True" dump_ProcessType parse_ProcessType
proof
  show "parse_ProcessType (dump_ProcessType v) = Inr v" for v by (cases v) (simp_all add: parse_ProcessType_def)
  show "parse_ProcessType d = Inr v \<Longrightarrow> True \<and> dump_ProcessType v = d" for d v
    unfolding parse_ProcessType_def by (erule if_chainE, hypsubst, simp)+ simp
qed

datatype ProcessSubType =
    ProcessSubType_None | ProcessSubType_LargeEnsemble | ProcessSubType_Ensemble

fun dump_ProcessSubType :: "ProcessSubType \<Rightarrow> string" where
  "dump_ProcessSubType ProcessSubType_None = ''None''"
| "dump_ProcessSubType ProcessSubType_LargeEnsemble = ''largeEnsemble''"
| "dump_ProcessSubType ProcessSubType_Ensemble = ''ensemble''"

definition parse_ProcessSubType :: "string \<Rightarrow> ProcessSubType res" where
  "parse_ProcessSubType str =
     (if str = ''None'' then Inr ProcessSubType_None
      else if str = ''largeEnsemble'' then Inr ProcessSubType_LargeEnsemble
      else if str = ''ensemble'' then Inr ProcessSubType_Ensemble
      else Inl Mars2GribException)"

interpretation pdt_ProcessSubType: codec "\<lambda>_. True" dump_ProcessSubType parse_ProcessSubType
proof
  show "parse_ProcessSubType (dump_ProcessSubType v) = Inr v" for v by (cases v) (simp_all add: parse_ProcessSubType_def)
  show "parse_ProcessSubType d = Inr v \<Longrightarrow> True \<and> dump_ProcessSubType v = d" for d v
    unfolding parse_ProcessSubType_def by (erule if_chainE, hypsubst, simp)+ simp
qed

datatype ProductCategory =
    ProductCategory_None | ProductCategory_Aerosol | ProductCategory_CcittIA5 | ProductCategory_CrossSect |
    ProductCategory_Radar | ProductCategory_SpatialStatisticalProcessing | ProductCategory_Wave |
    ProductCategory_PostProcess | ProductCategory_Chemical | ProductCategory_Partitioned |
    ProductCategory_Hovmoeller | ProductCategory_Optical | ProductCategory_SpatioTemporalTile |
    ProductCategory_Satellite

fun dump_ProductCategory :: "ProductCategory \<Rightarrow> string" where
  "dump_ProductCategory ProductCategory_None = ''None''"
| "dump_ProductCategory ProductCategory_Aerosol = ''aerosol''"
| "dump_ProductCategory ProductCategory_CcittIA5 = ''ccittIA5''"
| "dump_ProductCategory ProductCategory_CrossSect = ''crossSect''"
| "dump_ProductCategory ProductCategory_Radar = ''radar''"
| "dump_ProductCategory ProductCategory_SpatialStatisticalProcessing = ''spatialStatisticalProcessing''"
| "dump_ProductCategory ProductCategory_Wave = ''wave''"
| "dump_ProductCategory ProductCategory_PostProcess = ''postProcess''"
| "dump_ProductCategory ProductCategory_Chemical = ''chemical''"
| "dump_ProductCategory ProductCategory_Partitioned = ''partitioned''"
| "dump_ProductCategory ProductCategory_Hovmoeller = ''hovmoeller''"
| "dump_ProductCategory ProductCategory_Optical = ''optical''"
| "dump_ProductCategory ProductCategory_SpatioTemporalTile = ''spatioTemporalTile''"
| "dump_ProductCategory ProductCategory_Satellite = ''satellite''"

definition parse_ProductCategory :: "string \<Rightarrow> ProductCategory res" where
  "parse_ProductCategory str =
     (if str = ''None'' then Inr ProductCategory_None
      else if str = ''aerosol'' then Inr ProductCategory_Aerosol
      else if str = ''ccittIA5'' then Inr ProductCategory_CcittIA5
      else if str = ''crossSect'' then Inr ProductCategory_CrossSect
      else if str = ''radar'' then Inr ProductCategory_Radar
      else if str = ''spatialStatisticalProcessing'' then Inr ProductCategory_SpatialStatisticalProcessing
      else if str = ''wave'' then Inr ProductCategory_Wave
      else if str = ''postProcess'' then Inr ProductCategory_PostProcess
      else if str = ''chemical'' then Inr ProductCategory_Chemical
      else if str = ''partitioned'' then Inr ProductCategory_Partitioned
      else if str = ''hovmoeller'' then Inr ProductCategory_Hovmoeller
      else if str = ''optical'' then Inr ProductCategory_Optical
      else if str = ''spatioTemporalTile'' then Inr ProductCategory_SpatioTemporalTile
      else if str = ''satellite'' then Inr ProductCategory_Satellite
      else Inl Mars2GribException)"

interpretation pdt_ProductCategory: codec "\<lambda>_. True" dump_ProductCategory parse_ProductCategory
proof
  show "parse_ProductCategory (dump_ProductCategory v) = Inr v" for v by (cases v) (simp_all add: parse_ProductCategory_def)
  show "parse_ProductCategory d = Inr v \<Longrightarrow> True \<and> dump_ProductCategory v = d" for d v
    unfolding parse_ProductCategory_def by (erule if_chainE, hypsubst, simp)+ simp
qed

datatype ProductSubCategory =
    ProductSubCategory_None | ProductSubCategory_SpectraFormula | ProductSubCategory_QualityValue |
    ProductSubCategory_PeriodRange | ProductSubCategory_SpectraList | ProductSubCategory_SourceSink |
    ProductSubCategory_StatisticalOverLatLong | ProductSubCategory_RadioNuclide |
    ProductSubCategory_OpticalSourceSink | ProductSubCategory_Distribution | ProductSubCategory_Optical

fun dump_ProductSubCategory :: "ProductSubCategory \<Rightarrow> string" where
  "dump_ProductSubCategory ProductSubCategory_None = ''None''"
| "dump_ProductSubCategory ProductSubCategory_SpectraFormula = ''spectraFormula''"
| "dump_ProductSubCategory ProductSubCategory_QualityValue = ''qualityValue''"
| "dump_ProductSubCategory ProductSubCategory_PeriodRange = ''periodRange''"
| "dump_ProductSubCategory ProductSubCategory_SpectraList = ''spectraList''"
| "dump_ProductSubCategory ProductSubCategory_SourceSink = ''sourceSink''"
| "dump_ProductSubCategory ProductSubCategory_StatisticalOverLatLong = ''statisticalOverLatLong''"
| "dump_ProductSubCategory ProductSubCategory_RadioNuclide = ''radioNuclide''"
| "dump_ProductSubCategory ProductSubCategory_OpticalSourceSink = ''opticalSourceSink''"
| "dump_ProductSubCategory ProductSubCategory_Distribution = ''distribution''"
| "dump_ProductSubCategory ProductSubCategory_Optical = ''optical''"

definition parse_ProductSubCategory :: "string \<Rightarrow> ProductSubCategory res" where
  "parse_ProductSubCategory str =
     (if str = ''None'' then Inr ProductSubCategory_None
      else if str = ''spectraFormula'' then Inr ProductSubCategory_SpectraFormula
      else if str = ''qualityValue'' then Inr ProductSubCategory_QualityValue
      else if str = ''periodRange'' then Inr ProductSubCategory_PeriodRange
      else if str = ''spectraList'' then Inr ProductSubCategory_SpectraList
      else if str = ''sourceSink'' then Inr ProductSubCategory_SourceSink
      else if str = ''statisticalOverLatLong'' then Inr ProductSubCategory_StatisticalOverLatLong
      else if str = ''radioNuclide'' then Inr ProductSubCategory_RadioNuclide
      else if str = ''opticalSourceSink'' then Inr ProductSubCategory_OpticalSourceSink
      else if str = ''distribution'' then Inr ProductSubCategory_Distribution
      else if str = ''optical'' then Inr ProductSubCategory_Optical
      else Inl Mars2GribException)"

interpretation pdt_ProductSubCategory: codec "\<lambda>_. True" dump_ProductSubCategory parse_ProductSubCategory
proof
  show "parse_ProductSubCategory (dump_ProductSubCategory v) = Inr v" for v by (cases v) (simp_all add: parse_ProductSubCategory_def)
  show "parse_ProductSubCategory d = Inr v \<Longrightarrow> True \<and> dump_ProductSubCategory v = d" for d v
    unfolding parse_ProductSubCategory_def by (erule if_chainE, hypsubst, simp)+ simp
qed

record PDTCat =
  timeExtent :: TimeExtent
  timeFormat :: TimeFormat
  spatialExtent :: SpatialExtent
  processType :: ProcessType
  processSubType :: ProcessSubType
  productCategory :: ProductCategory
  productSubCategory :: ProductSubCategory

definition cat ::
    "TimeExtent \<Rightarrow> TimeFormat \<Rightarrow> SpatialExtent \<Rightarrow> ProcessType \<Rightarrow> ProcessSubType \<Rightarrow> ProductCategory \<Rightarrow>
     ProductSubCategory \<Rightarrow> PDTCat" where
  "cat te tf se pt pst pc psc =
     \<lparr>timeExtent = te, timeFormat = tf, spatialExtent = se, processType = pt, processSubType = pst,
      productCategory = pc, productSubCategory = psc\<rparr>"

text \<open>Every category has a default, so the categories of a new product are all set.\<close>

definition default_PDTCat :: PDTCat where
  "default_PDTCat =
     cat TimeExtent_None TimeFormat_None SpatialExtent_None ProcessType_None ProcessSubType_None
       ProductCategory_None ProductSubCategory_None"

section \<open>The table\<close>

definition pdt_table_None :: "(PDTCat \<times> int) list" where
  "pdt_table_None =
     [(cat TimeExtent_None TimeFormat_None SpatialExtent_None ProcessType_None ProcessSubType_None
         ProductCategory_Satellite ProductSubCategory_None, 31),
      (cat TimeExtent_None TimeFormat_None SpatialExtent_None ProcessType_None ProcessSubType_None
         ProductCategory_Satellite ProductSubCategory_QualityValue, 35),
      (cat TimeExtent_None TimeFormat_None SpatialExtent_None ProcessType_None ProcessSubType_None
         ProductCategory_Radar ProductSubCategory_None, 20),
      (cat TimeExtent_None TimeFormat_None SpatialExtent_None ProcessType_None ProcessSubType_None
         ProductCategory_CcittIA5 ProductSubCategory_None, 254)]"

definition pdt_table_TimeRange :: "(PDTCat \<times> int) list" where
  "pdt_table_TimeRange =
     [(cat TimeExtent_TimeRange TimeFormat_None SpatialExtent_None ProcessType_None ProcessSubType_None
         ProductCategory_None ProductSubCategory_None, 8),
      (cat TimeExtent_TimeRange TimeFormat_None SpatialExtent_None ProcessType_None ProcessSubType_None
         ProductCategory_Aerosol ProductSubCategory_None, 46),
      (cat TimeExtent_TimeRange TimeFormat_None SpatialExtent_None ProcessType_None ProcessSubType_None
         ProductCategory_Aerosol ProductSubCategory_SourceSink, 82),
      (cat TimeExtent_TimeRange TimeFormat_None SpatialExtent_None ProcessType_None ProcessSubType_None
         ProductCategory_CrossSect ProductSubCategory_None, 1001),
      (cat TimeExtent_TimeRange TimeFormat_None SpatialExtent_None ProcessType_None ProcessSubType_None
         ProductCategory_PostProcess ProductSubCategory_None, 72),
      (cat TimeExtent_TimeRange TimeFormat_None SpatialExtent_None ProcessType_None ProcessSubType_None
         ProductCategory_Chemical ProductSubCategory_None, 42),
      (cat TimeExtent_TimeRange TimeFormat_None SpatialExtent_None ProcessType_None ProcessSubType_None
         ProductCategory_Chemical ProductSubCategory_Distribution, 67),
      (cat TimeExtent_TimeRange TimeFormat_None SpatialExtent_None ProcessType_None ProcessSubType_None
         ProductCategory_Chemical ProductSubCategory_SourceSink, 78),
      (cat TimeExtent_TimeRange TimeFormat_None SpatialExtent_None ProcessType_None ProcessSubType_None
         ProductCategory_Chemical ProductSubCategory_RadioNuclide, 126),
      (cat TimeExtent_TimeRange TimeFormat_None SpatialExtent_None ProcessType_None ProcessSubType_None
         ProductCategory_Hovmoeller ProductSubCategory_None, 1101),
      (cat TimeExtent_TimeRange TimeFormat_None SpatialExtent_None ProcessType_None ProcessSubType_None
         ProductCategory_Optical ProductSubCategory_None, 110),
      (cat TimeExtent_TimeRange TimeFormat_None SpatialExtent_None ProcessType_None ProcessSubType_None
         ProductCategory_SpatioTemporalTile ProductSubCategory_None, 62),
      (cat TimeExtent_TimeRange TimeFormat_None SpatialExtent_None ProcessType_None ProcessSubType_LargeEnsemble
         ProductCategory_None ProductSubCategory_None, 118),
      (cat TimeExtent_TimeRange TimeFormat_None SpatialExtent_None ProcessType_None ProcessSubType_Ensemble
         ProductCategory_None ProductSubCategory_None, 11),
      (cat TimeExtent_TimeRange TimeFormat_None SpatialExtent_None ProcessType_None ProcessSubType_Ensemble
         ProductCategory_Aerosol ProductSubCategory_None, 85),
      (cat TimeExtent_TimeRange TimeFormat_None SpatialExtent_None ProcessType_None ProcessSubType_Ensemble
         ProductCategory_Aerosol ProductSubCategory_SourceSink, 84),
      (cat TimeExtent_TimeRange TimeFormat_None SpatialExtent_None ProcessType_None ProcessSubType_Ensemble
         ProductCategory_PostProcess ProductSubCategory_None, 73),
      (cat TimeExtent_TimeRange TimeFormat_None SpatialExtent_None ProcessType_None ProcessSubType_Ensemble
         ProductCategory_Chemical ProductSubCategory_None, 43),
      (cat TimeExtent_TimeRange TimeFormat_None SpatialExtent_None ProcessType_None ProcessSubType_Ensemble
         ProductCategory_Chemical ProductSubCategory_Distribution, 68),
      (cat TimeExtent_TimeRange TimeFormat_None SpatialExtent_None ProcessType_None ProcessSubType_Ensemble
         ProductCategory_Chemical ProductSubCategory_SourceSink, 79),
      (cat TimeExtent_TimeRange TimeFormat_None SpatialExtent_None ProcessType_None ProcessSubType_Ensemble
         ProductCategory_Chemical ProductSubCategory_RadioNuclide, 127),
      (cat TimeExtent_TimeRange TimeFormat_None SpatialExtent_None ProcessType_None ProcessSubType_Ensemble
         ProductCategory_Optical ProductSubCategory_None, 111),
      (cat TimeExtent_TimeRange TimeFormat_None SpatialExtent_None ProcessType_None ProcessSubType_Ensemble
         ProductCategory_SpatioTemporalTile ProductSubCategory_None, 63),
      (cat TimeExtent_TimeRange TimeFormat_None SpatialExtent_None ProcessType_None ProcessSubType_Ensemble
         ProductCategory_Satellite ProductSubCategory_None, 34),
      (cat TimeExtent_TimeRange TimeFormat_None SpatialExtent_None ProcessType_Percentile ProcessSubType_None
         ProductCategory_None ProductSubCategory_None, 10),
      (cat TimeExtent_TimeRange TimeFormat_None SpatialExtent_None ProcessType_Quantile ProcessSubType_None
         ProductCategory_None ProductSubCategory_None, 87),
      (cat TimeExtent_TimeRange TimeFormat_None SpatialExtent_None ProcessType_Probability ProcessSubType_None
         ProductCategory_None ProductSubCategory_None, 9),
      (cat TimeExtent_TimeRange TimeFormat_None SpatialExtent_None ProcessType_Probability ProcessSubType_Ensemble
         ProductCategory_None ProductSubCategory_None, 120),
      (cat TimeExtent_TimeRange TimeFormat_None SpatialExtent_None ProcessType_Reforecast ProcessSubType_Ensemble
         ProductCategory_None ProductSubCategory_None, 61),
      (cat TimeExtent_TimeRange TimeFormat_None SpatialExtent_None ProcessType_Categorial ProcessSubType_None
         ProductCategory_None ProductSubCategory_None, 91),
      (cat TimeExtent_TimeRange TimeFormat_None SpatialExtent_None ProcessType_DerivedForecast ProcessSubType_Ensemble
         ProductCategory_None ProductSubCategory_None, 12),
      (cat TimeExtent_TimeRange TimeFormat_None SpatialExtent_ClusterStatCircular ProcessType_DerivedForecast
         ProcessSubType_Ensemble ProductCategory_None ProductSubCategory_None, 14),
      (cat TimeExtent_TimeRange TimeFormat_None SpatialExtent_GeneralisedTile ProcessType_None ProcessSubType_None
         ProductCategory_None ProductSubCategory_None, 114),
      (cat TimeExtent_TimeRange TimeFormat_None SpatialExtent_GeneralisedTile ProcessType_None ProcessSubType_Ensemble
         ProductCategory_None ProductSubCategory_None, 116),
      (cat TimeExtent_TimeRange TimeFormat_None SpatialExtent_FocalStatistics ProcessType_Probability
         ProcessSubType_Ensemble ProductCategory_None ProductSubCategory_None, 122),
      (cat TimeExtent_TimeRange TimeFormat_None SpatialExtent_ClusterStatRectangular ProcessType_DerivedForecast
         ProcessSubType_Ensemble ProductCategory_None ProductSubCategory_None, 13),
      (cat TimeExtent_TimeRange TimeFormat_LocalTime SpatialExtent_None ProcessType_None ProcessSubType_None
         ProductCategory_None ProductSubCategory_None, 95),
      (cat TimeExtent_TimeRange TimeFormat_LocalTime SpatialExtent_None ProcessType_None ProcessSubType_None
         ProductCategory_PostProcess ProductSubCategory_None, 97),
      (cat TimeExtent_TimeRange TimeFormat_LocalTime SpatialExtent_None ProcessType_None ProcessSubType_Ensemble
         ProductCategory_None ProductSubCategory_None, 96),
      (cat TimeExtent_TimeRange TimeFormat_LocalTime SpatialExtent_None ProcessType_None ProcessSubType_Ensemble
         ProductCategory_PostProcess ProductSubCategory_None, 98),
      (cat TimeExtent_TimeRange TimeFormat_WithReferencePeriod SpatialExtent_None ProcessType_None ProcessSubType_None
         ProductCategory_None ProductSubCategory_None, 105),
      (cat TimeExtent_TimeRange TimeFormat_WithReferencePeriod SpatialExtent_None ProcessType_None
         ProcessSubType_Ensemble ProductCategory_None ProductSubCategory_None, 106),
      (cat TimeExtent_TimeRange TimeFormat_WithReferencePeriod SpatialExtent_None ProcessType_Probability
         ProcessSubType_None ProductCategory_None ProductSubCategory_None, 112),
      (cat TimeExtent_TimeRange TimeFormat_WithReferencePeriod SpatialExtent_None ProcessType_DerivedForecast
         ProcessSubType_Ensemble ProductCategory_None ProductSubCategory_None, 107),
      (cat TimeExtent_TimeRange TimeFormat_WithReferencePeriod SpatialExtent_FocalStatistics ProcessType_Probability
         ProcessSubType_Ensemble ProductCategory_None ProductSubCategory_None, 123)]"

definition pdt_table_PointInTime :: "(PDTCat \<times> int) list" where
  "pdt_table_PointInTime =
     [(cat TimeExtent_PointInTime TimeFormat_None SpatialExtent_None ProcessType_None ProcessSubType_None
         ProductCategory_None ProductSubCategory_None, 0),
      (cat TimeExtent_PointInTime TimeFormat_None SpatialExtent_None ProcessType_None ProcessSubType_None
         ProductCategory_Aerosol ProductSubCategory_Optical, 48),
      (cat TimeExtent_PointInTime TimeFormat_None SpatialExtent_None ProcessType_None ProcessSubType_None
         ProductCategory_Aerosol ProductSubCategory_OpticalSourceSink, 80),
      (cat TimeExtent_PointInTime TimeFormat_None SpatialExtent_None ProcessType_None ProcessSubType_None
         ProductCategory_CrossSect ProductSubCategory_None, 1000),
      (cat TimeExtent_PointInTime TimeFormat_None SpatialExtent_None ProcessType_None ProcessSubType_None
         ProductCategory_CrossSect ProductSubCategory_StatisticalOverLatLong, 1002),
      (cat TimeExtent_PointInTime TimeFormat_None SpatialExtent_None ProcessType_None ProcessSubType_None
         ProductCategory_SpatialStatisticalProcessing ProductSubCategory_None, 15),
      (cat TimeExtent_PointInTime TimeFormat_None SpatialExtent_None ProcessType_None ProcessSubType_None
         ProductCategory_Wave ProductSubCategory_SpectraFormula, 101),
      (cat TimeExtent_PointInTime TimeFormat_None SpatialExtent_None ProcessType_None ProcessSubType_None
         ProductCategory_Wave ProductSubCategory_SpectraList, 99),
      (cat TimeExtent_PointInTime TimeFormat_None SpatialExtent_None ProcessType_None ProcessSubType_None
         ProductCategory_Wave ProductSubCategory_PeriodRange, 103),
      (cat TimeExtent_PointInTime TimeFormat_None SpatialExtent_None ProcessType_None ProcessSubType_None
         ProductCategory_PostProcess ProductSubCategory_None, 70),
      (cat TimeExtent_PointInTime TimeFormat_None SpatialExtent_None ProcessType_None ProcessSubType_None
         ProductCategory_Chemical ProductSubCategory_None, 40),
      (cat TimeExtent_PointInTime TimeFormat_None SpatialExtent_None ProcessType_None ProcessSubType_None
         ProductCategory_Chemical ProductSubCategory_Distribution, 57),
      (cat TimeExtent_PointInTime TimeFormat_None SpatialExtent_None ProcessType_None ProcessSubType_None
         ProductCategory_Chemical ProductSubCategory_SourceSink, 76),
      (cat TimeExtent_PointInTime TimeFormat_None SpatialExtent_None ProcessType_None ProcessSubType_None
         ProductCategory_Chemical ProductSubCategory_RadioNuclide, 124),
      (cat TimeExtent_PointInTime TimeFormat_None SpatialExtent_None ProcessType_None ProcessSubType_None
         ProductCategory_Partitioned ProductSubCategory_None, 53),
      (cat TimeExtent_PointInTime TimeFormat_None SpatialExtent_None ProcessType_None ProcessSubType_None
         ProductCategory_Hovmoeller ProductSubCategory_None, 1100),
      (cat TimeExtent_PointInTime TimeFormat_None SpatialExtent_None ProcessType_None ProcessSubType_None
         ProductCategory_Optical ProductSubCategory_None, 108),
      (cat TimeExtent_PointInTime TimeFormat_None SpatialExtent_None ProcessType_None ProcessSubType_None
         ProductCategory_SpatioTemporalTile ProductSubCategory_None, 55),
      (cat TimeExtent_PointInTime TimeFormat_None SpatialExtent_None ProcessType_None ProcessSubType_None
         ProductCategory_Satellite ProductSubCategory_None, 32),
      (cat TimeExtent_PointInTime TimeFormat_None SpatialExtent_None ProcessType_None ProcessSubType_LargeEnsemble
         ProductCategory_None ProductSubCategory_None, 117),
      (cat TimeExtent_PointInTime TimeFormat_None SpatialExtent_None ProcessType_None ProcessSubType_Ensemble
         ProductCategory_None ProductSubCategory_None, 1),
      (cat TimeExtent_PointInTime TimeFormat_None SpatialExtent_None ProcessType_None ProcessSubType_Ensemble
         ProductCategory_Aerosol ProductSubCategory_None, 45),
      (cat TimeExtent_PointInTime TimeFormat_None SpatialExtent_None ProcessType_None ProcessSubType_Ensemble
         ProductCategory_Aerosol ProductSubCategory_Optical, 49),
      (cat TimeExtent_PointInTime TimeFormat_None SpatialExtent_None ProcessType_None ProcessSubType_Ensemble
         ProductCategory_Aerosol ProductSubCategory_OpticalSourceSink, 81),
      (cat TimeExtent_PointInTime TimeFormat_None SpatialExtent_None ProcessType_None ProcessSubType_Ensemble
         ProductCategory_Wave ProductSubCategory_SpectraFormula, 102),
      (cat TimeExtent_PointInTime TimeFormat_None SpatialExtent_None ProcessType_None ProcessSubType_Ensemble
         ProductCategory_Wave ProductSubCategory_SpectraList, 100),
      (cat TimeExtent_PointInTime TimeFormat_None SpatialExtent_None ProcessType_None ProcessSubType_Ensemble
         ProductCategory_Wave ProductSubCategory_PeriodRange, 104),
      (cat TimeExtent_PointInTime TimeFormat_None SpatialExtent_None ProcessType_None ProcessSubType_Ensemble
         ProductCategory_PostProcess ProductSubCategory_None, 71),
      (cat TimeExtent_PointInTime TimeFormat_None SpatialExtent_None ProcessType_None ProcessSubType_Ensemble
         ProductCategory_Chemical ProductSubCategory_None, 41),
      (cat TimeExtent_PointInTime TimeFormat_None SpatialExtent_None ProcessType_None ProcessSubType_Ensemble
         ProductCategory_Chemical ProductSubCategory_Distribution, 58),
      (cat TimeExtent_PointInTime TimeFormat_None SpatialExtent_None ProcessType_None ProcessSubType_Ensemble
         ProductCategory_Chemical ProductSubCategory_SourceSink, 77),
      (cat TimeExtent_PointInTime TimeFormat_None SpatialExtent_None ProcessType_None ProcessSubType_Ensemble
         ProductCategory_Chemical ProductSubCategory_RadioNuclide, 125),
      (cat TimeExtent_PointInTime TimeFormat_None SpatialExtent_None ProcessType_None ProcessSubType_Ensemble
         ProductCategory_Partitioned ProductSubCategory_None, 54),
      (cat TimeExtent_PointInTime TimeFormat_None SpatialExtent_None ProcessType_None ProcessSubType_Ensemble
         ProductCategory_Optical ProductSubCategory_None, 109),
      (cat TimeExtent_PointInTime TimeFormat_None SpatialExtent_None ProcessType_None ProcessSubType_Ensemble
         ProductCategory_SpatioTemporalTile ProductSubCategory_None, 59),
      (cat TimeExtent_PointInTime TimeFormat_None SpatialExtent_None ProcessType_None ProcessSubType_Ensemble
         ProductCategory_Satellite ProductSubCategory_None, 33),
      (cat TimeExtent_PointInTime TimeFormat_None SpatialExtent_None ProcessType_Percentile ProcessSubType_None
         ProductCategory_None ProductSubCategory_None, 6),
      (cat TimeExtent_PointInTime TimeFormat_None SpatialExtent_None ProcessType_Quantile ProcessSubType_None
         ProductCategory_None ProductSubCategory_None, 86),
      (cat TimeExtent_PointInTime TimeFormat_None SpatialExtent_None ProcessType_Probability ProcessSubType_None
         ProductCategory_None ProductSubCategory_None, 5),
      (cat TimeExtent_PointInTime TimeFormat_None SpatialExtent_None ProcessType_Probability ProcessSubType_Ensemble
         ProductCategory_None ProductSubCategory_None, 119),
      (cat TimeExtent_PointInTime TimeFormat_None SpatialExtent_None ProcessType_Reforecast ProcessSubType_Ensemble
         ProductCategory_None ProductSubCategory_None, 60),
      (cat TimeExtent_PointInTime TimeFormat_None SpatialExtent_None ProcessType_Categorial ProcessSubType_None
         ProductCategory_None ProductSubCategory_None, 51),
      (cat TimeExtent_PointInTime TimeFormat_None SpatialExtent_None ProcessType_DerivedForecast
         ProcessSubType_Ensemble ProductCategory_None ProductSubCategory_None, 2),
      (cat TimeExtent_PointInTime TimeFormat_None SpatialExtent_RandomPatterns ProcessType_None
         ProcessSubType_LargeEnsemble ProductCategory_None ProductSubCategory_None, 143),
      (cat TimeExtent_PointInTime TimeFormat_None SpatialExtent_ClusterStatCircular ProcessType_DerivedForecast
         ProcessSubType_Ensemble ProductCategory_None ProductSubCategory_None, 4),
      (cat TimeExtent_PointInTime TimeFormat_None SpatialExtent_GeneralisedTile ProcessType_None ProcessSubType_None
         ProductCategory_None ProductSubCategory_None, 113),
      (cat TimeExtent_PointInTime TimeFormat_None SpatialExtent_GeneralisedTile ProcessType_None
         ProcessSubType_Ensemble ProductCategory_None ProductSubCategory_None, 115),
      (cat TimeExtent_PointInTime TimeFormat_None SpatialExtent_FocalStatistics ProcessType_Probability
         ProcessSubType_Ensemble ProductCategory_None ProductSubCategory_None, 121),
      (cat TimeExtent_PointInTime TimeFormat_None SpatialExtent_ClusterStatRectangular ProcessType_DerivedForecast
         ProcessSubType_Ensemble ProductCategory_None ProductSubCategory_None, 3),
      (cat TimeExtent_PointInTime TimeFormat_LocalTime SpatialExtent_None ProcessType_None ProcessSubType_None
         ProductCategory_None ProductSubCategory_None, 88),
      (cat TimeExtent_PointInTime TimeFormat_LocalTime SpatialExtent_None ProcessType_None ProcessSubType_None
         ProductCategory_PostProcess ProductSubCategory_None, 93),
      (cat TimeExtent_PointInTime TimeFormat_LocalTime SpatialExtent_None ProcessType_None ProcessSubType_Ensemble
         ProductCategory_None ProductSubCategory_None, 92),
      (cat TimeExtent_PointInTime TimeFormat_LocalTime SpatialExtent_None ProcessType_None ProcessSubType_Ensemble
         ProductCategory_PostProcess ProductSubCategory_None, 94)]"

definition inferProductDefinitionTemplateNumber :: "PDTCat \<Rightarrow> int res" where
  "inferProductDefinitionTemplateNumber c =
     (case map_of (pdt_table_None @ pdt_table_TimeRange @ pdt_table_PointInTime) c of
        Some n \<Rightarrow> Inr n
      | None \<Rightarrow> Inl Mars2GribException)"

section \<open>Properties\<close>

lemma pdt_numbers_distinct: "distinct (map snd (pdt_table_None @ pdt_table_TimeRange @ pdt_table_PointInTime))"
  by code_simp

lemma distinct_snd_unique: "distinct (map snd xs) \<Longrightarrow> (a, n) \<in> set xs \<Longrightarrow> (b, n) \<in> set xs \<Longrightarrow> a = b"
  by (induction xs) force+

text \<open>
  Property C32. The choice of the template loses nothing: no template number is chosen for two different products, so the
  number of a field determines all of its categories.
\<close>

theorem template_determines_categories:
  assumes "inferProductDefinitionTemplateNumber c = Inr n" "inferProductDefinitionTemplateNumber c' = Inr n"
  shows "c = c'"
  using assms distinct_snd_unique [OF pdt_numbers_distinct, of c n c']
  by (auto simp: inferProductDefinitionTemplateNumber_def split: option.splits dest!: map_of_SomeD)

lemma template_determines_categories_witness:
  "inferProductDefinitionTemplateNumber default_PDTCat = Inl Mars2GribException \<and>
   {c. inferProductDefinitionTemplateNumber c = Inr 11} =
      {cat TimeExtent_TimeRange TimeFormat_None SpatialExtent_None ProcessType_None ProcessSubType_Ensemble
         ProductCategory_None ProductSubCategory_None}"
proof -
  have "inferProductDefinitionTemplateNumber
      (cat TimeExtent_TimeRange TimeFormat_None SpatialExtent_None ProcessType_None ProcessSubType_Ensemble
         ProductCategory_None ProductSubCategory_None) = Inr 11"
    by code_simp
  moreover have "inferProductDefinitionTemplateNumber default_PDTCat = Inl Mars2GribException"
    by code_simp
  ultimately show ?thesis using template_determines_categories by blast
qed

end
