(* ===== verification/EncoderRules.thy ===== *)
theory EncoderRules
  imports ProductCategories LevelTypes MarsMatchers
begin

text \<open>
  The configuration of an encoder (\<^verbatim>\<open>mars2grib/EncoderConf.h\<close>, \<^verbatim>\<open>mars2grib/sections\<close>) and the rules that build
  it from the MARS keys of a field (\<^verbatim>\<open>mars2grib/rules\<close>, \<^verbatim>\<open>mars2grib/Rules.cc\<close>).
\<close>

section \<open>The configuration\<close>

text \<open>
  A section or configurator that is not set is \<open>None\<close>. Those that are created get the defaults of their entries at
  once (\<open>ensure\<close> is \<^verbatim>\<open>Entry::ensureInit\<close>), so an entry with a default is a plain field; configurators and sections that
  only have a type or a template number are that value.
\<close>

datatype TimeRangeType =
    TimeRange_FixedTimeRange | TimeRange_SinceLastPostProcessingStep | TimeRange_SinceBeginningOfForecast

fun dump_TimeRangeType :: "TimeRangeType \<Rightarrow> string" where
  "dump_TimeRangeType TimeRange_FixedTimeRange = ''fixed-timerange''"
| "dump_TimeRangeType TimeRange_SinceLastPostProcessingStep = ''since-last-post-processing-step''"
| "dump_TimeRangeType TimeRange_SinceBeginningOfForecast = ''since-beginning-of-forecast''"

definition parse_TimeRangeType :: "string \<Rightarrow> TimeRangeType res" where
  "parse_TimeRangeType str =
     (if str = ''fixed-timerange'' then Inr TimeRange_FixedTimeRange
      else if str = ''since-last-post-processing-step'' then Inr TimeRange_SinceLastPostProcessingStep
      else if str = ''since-beginning-of-forecast'' then Inr TimeRange_SinceBeginningOfForecast
      else Inl Mars2GribException)"

interpretation time_range_type: codec "\<lambda>_. True" dump_TimeRangeType parse_TimeRangeType
proof
  show "parse_TimeRangeType (dump_TimeRangeType v) = Inr v" for v by (cases v) (simp_all add: parse_TimeRangeType_def)
  show "parse_TimeRangeType d = Inr v \<Longrightarrow> True \<and> dump_TimeRangeType v = d" for d v
    unfolding parse_TimeRangeType_def by (erule if_chainE, hypsubst, simp)+ simp
qed

record TablesConfigurator =
  tables_type :: string
  conf_tablesVersion :: "int option"
  conf_localTablesVersion :: int

record OriginConfigurator =
  origin_type :: string
  subCentre :: int

record IdentificationSection =
  identification_template :: int
  origin :: OriginConfigurator
  dataType :: string
  referenceTime :: string
  tables :: TablesConfigurator

record TimeRangeConfigurator =
  timeRange_type :: "TimeRangeType option"
  typeOfStatisticalProcessing :: "TypeOfStatisticalProcessing option"
  overallLengthOfTimeRange :: "string option"

record LevelConfigurator =
  level_type :: "TypeOfLevel option"
  fixedLevel :: "int option"

record ParamConfigurator =
  param_type :: string
  datasetForLocal :: "string option"

record ProductSection =
  product_template :: "int option"
  pdtCat :: "PDTCat option"
  param :: ParamConfigurator
  model :: string
  pointInTime :: "string option"
  timeRange :: "TimeRangeConfigurator option"
  level :: "LevelConfigurator option"
  process :: "string option"
  randomPatterns :: "string option"
  chemical :: "string option"
  dirFreq :: "string option"
  periodRange :: "string option"
  satellite :: "string option"

record SectionsConf =
  conf_type :: "string option"
  indicator :: "int option"
  identification :: "IdentificationSection option"
  localUse :: "int option"
  grid_template :: "int option"
  product :: "ProductSection option"
  dataRepres :: "int option"

definition default_identification :: IdentificationSection where
  "default_identification =
     \<lparr>identification_template = 0, origin = \<lparr>origin_type = ''default'', subCentre = 0\<rparr>, dataType = ''default'',
      referenceTime = ''default'',
      tables = \<lparr>tables_type = ''default'', conf_tablesVersion = None, conf_localTablesVersion = 0\<rparr>\<rparr>"

definition default_timeRange :: TimeRangeConfigurator where
  "default_timeRange =
     \<lparr>timeRange_type = None, typeOfStatisticalProcessing = None, overallLengthOfTimeRange = None\<rparr>"

definition default_level :: LevelConfigurator where
  "default_level = \<lparr>level_type = None, fixedLevel = None\<rparr>"

definition default_product :: ProductSection where
  "default_product =
     \<lparr>product_template = None, pdtCat = None, param = \<lparr>param_type = ''paramId'', datasetForLocal = None\<rparr>,
      model = ''default'', pointInTime = None, timeRange = None, level = None, process = None,
      randomPatterns = None, chemical = None, dirFreq = None, periodRange = None, satellite = None\<rparr>"

definition empty_SectionsConf :: SectionsConf where
  "empty_SectionsConf =
     \<lparr>conf_type = None, indicator = None, identification = None, localUse = None, grid_template = None, product = None,
      dataRepres = None\<rparr>"

definition ensure :: "'a \<Rightarrow> 'a option \<Rightarrow> 'a" where
  "ensure d v = (case v of None \<Rightarrow> d | Some x \<Rightarrow> x)"

section \<open>Setters\<close>

definition modify_product :: "(ProductSection \<Rightarrow> ProductSection) \<Rightarrow> SectionsConf \<Rightarrow> SectionsConf" where
  "modify_product f c = c\<lparr>product := Some (f (ensure default_product (product c)))\<rparr>"

definition modify_cat :: "(PDTCat \<Rightarrow> PDTCat) \<Rightarrow> SectionsConf \<Rightarrow> SectionsConf" where
  "modify_cat f = modify_product (\<lambda>p. p\<lparr>pdtCat := Some (f (ensure default_PDTCat (pdtCat p)))\<rparr>)"

definition modify_timeRange :: "(TimeRangeConfigurator \<Rightarrow> TimeRangeConfigurator) \<Rightarrow> SectionsConf \<Rightarrow> SectionsConf" where
  "modify_timeRange f = modify_product (\<lambda>p. p\<lparr>timeRange := Some (f (ensure default_timeRange (timeRange p)))\<rparr>)"

definition modify_level :: "(LevelConfigurator \<Rightarrow> LevelConfigurator) \<Rightarrow> SectionsConf \<Rightarrow> SectionsConf" where
  "modify_level f = modify_product (\<lambda>p. p\<lparr>level := Some (f (ensure default_level (level p)))\<rparr>)"

definition modify_tables :: "(TablesConfigurator \<Rightarrow> TablesConfigurator) \<Rightarrow> SectionsConf \<Rightarrow> SectionsConf" where
  "modify_tables f c =
     (let i = ensure default_identification (identification c) in c\<lparr>identification := Some (i\<lparr>tables := f (tables i)\<rparr>)\<rparr>)"

definition pointInTime_set :: "SectionsConf \<Rightarrow> SectionsConf" where
  "pointInTime_set c =
     modify_product (\<lambda>p. p\<lparr>pointInTime := Some (ensure ''default'' (pointInTime p))\<rparr>)
       (modify_cat (\<lambda>k. k\<lparr>timeExtent := TimeExtent_PointInTime\<rparr>) c)"

definition timeRange_set :: "TimeRangeType \<Rightarrow> TypeOfStatisticalProcessing \<Rightarrow> SectionsConf \<Rightarrow> SectionsConf" where
  "timeRange_set type proc c =
     modify_timeRange (\<lambda>t. t\<lparr>typeOfStatisticalProcessing := Some proc\<rparr>)
       (modify_timeRange (\<lambda>t. t\<lparr>timeRange_type := Some type\<rparr>)
         (modify_cat (\<lambda>k. k\<lparr>timeExtent := TimeExtent_TimeRange\<rparr>) c))"

definition overallLengthOfTimeRange_set :: "string \<Rightarrow> SectionsConf \<Rightarrow> SectionsConf" where
  "overallLengthOfTimeRange_set l = modify_timeRange (\<lambda>t. t\<lparr>overallLengthOfTimeRange := Some l\<rparr>)"

definition ensure_process :: "SectionsConf \<Rightarrow> SectionsConf" where
  "ensure_process = modify_product (\<lambda>p. p\<lparr>process := Some (ensure ''default'' (process p))\<rparr>)"

definition ensemble_set :: "SectionsConf \<Rightarrow> SectionsConf" where
  "ensemble_set c = ensure_process (modify_cat (\<lambda>k. k\<lparr>processSubType := ProcessSubType_Ensemble\<rparr>) c)"

definition largeEnsemble_set :: "SectionsConf \<Rightarrow> SectionsConf" where
  "largeEnsemble_set c = ensure_process (modify_cat (\<lambda>k. k\<lparr>processSubType := ProcessSubType_LargeEnsemble\<rparr>) c)"

definition reforecast_set :: "SectionsConf \<Rightarrow> SectionsConf" where
  "reforecast_set c = ensure_process (modify_cat (\<lambda>k. k\<lparr>processType := ProcessType_Reforecast\<rparr>) c)"

definition derivedForecast_set :: "SectionsConf \<Rightarrow> SectionsConf" where
  "derivedForecast_set c =
     modify_product (\<lambda>p. p\<lparr>process := Some ''derived''\<rparr>)
       (ensure_process (modify_cat (\<lambda>k. k\<lparr>processType := ProcessType_DerivedForecast\<rparr>) c))"

definition chemical_set :: "SectionsConf \<Rightarrow> SectionsConf" where
  "chemical_set c =
     modify_cat (\<lambda>k. k\<lparr>productCategory := ProductCategory_Chemical\<rparr>)
       (modify_product (\<lambda>p. p\<lparr>chemical := Some (ensure ''chemical'' (chemical p))\<rparr>) c)"

definition periodRange_set :: "SectionsConf \<Rightarrow> SectionsConf" where
  "periodRange_set c =
     modify_cat (\<lambda>k. k\<lparr>productCategory := ProductCategory_Wave, productSubCategory := ProductSubCategory_PeriodRange\<rparr>)
       (modify_product (\<lambda>p. p\<lparr>periodRange := Some (ensure ''default'' (periodRange p))\<rparr>) c)"

definition dirFreq_set :: "SectionsConf \<Rightarrow> SectionsConf" where
  "dirFreq_set c =
     modify_cat (\<lambda>k. k\<lparr>productCategory := ProductCategory_Wave, productSubCategory := ProductSubCategory_SpectraList\<rparr>)
       (modify_product (\<lambda>p. p\<lparr>dirFreq := Some (ensure ''default'' (dirFreq p))\<rparr>) c)"

definition satellite_set :: "SectionsConf \<Rightarrow> SectionsConf" where
  "satellite_set c =
     modify_cat (\<lambda>k. k\<lparr>productCategory := ProductCategory_Satellite\<rparr>)
       (modify_product (\<lambda>p. p\<lparr>satellite := Some (ensure ''default'' (satellite p))\<rparr>) c)"

definition randomPattern_set :: "SectionsConf \<Rightarrow> SectionsConf" where
  "randomPattern_set c =
     modify_cat (\<lambda>k. k\<lparr>spatialExtent := SpatialExtent_RandomPatterns\<rparr>)
       (modify_product (\<lambda>p. p\<lparr>randomPatterns := Some (ensure ''default'' (randomPatterns p))\<rparr>) c)"

definition typeOfLevel_set :: "TypeOfLevel \<Rightarrow> SectionsConf \<Rightarrow> SectionsConf" where
  "typeOfLevel_set type = modify_level (\<lambda>l. l\<lparr>level_type := Some type\<rparr>)"

definition fixedLevel_set :: "int \<Rightarrow> SectionsConf \<Rightarrow> SectionsConf" where
  "fixedLevel_set lvl = modify_level (\<lambda>l. l\<lparr>fixedLevel := Some lvl\<rparr>)"

definition localUse_set :: "int \<Rightarrow> SectionsConf \<Rightarrow> SectionsConf" where
  "localUse_set num c = c\<lparr>localUse := Some num\<rparr>"

definition dataRepres_set :: "int \<Rightarrow> SectionsConf \<Rightarrow> SectionsConf" where
  "dataRepres_set num c = c\<lparr>dataRepres := Some num\<rparr>"

definition grid_set :: "int \<Rightarrow> SectionsConf \<Rightarrow> SectionsConf" where
  "grid_set num c = c\<lparr>grid_template := Some num\<rparr>"

definition tablesConfig_set :: "string \<Rightarrow> SectionsConf \<Rightarrow> SectionsConf" where
  "tablesConfig_set type = modify_tables (\<lambda>t. t\<lparr>tables_type := type\<rparr>)"

definition tablesVersion_set :: "int \<Rightarrow> SectionsConf \<Rightarrow> SectionsConf" where
  "tablesVersion_set version = modify_tables (\<lambda>t. t\<lparr>conf_tablesVersion := Some version\<rparr>)"

definition localTablesVersion_set :: "int \<Rightarrow> SectionsConf \<Rightarrow> SectionsConf" where
  "localTablesVersion_set version = modify_tables (\<lambda>t. t\<lparr>conf_localTablesVersion := version\<rparr>)"

section \<open>Rules\<close>

text \<open>
  A list of exclusive rules applies all its rules and throws when a second one matches; a chain throws when its first rule
  matches and a later one does not.
\<close>

datatype enc_rule =
    EncRule matcher "(SectionsConf \<Rightarrow> SectionsConf) list"
  | ExclusiveRuleList string "enc_rule list"
  | ChainedRuleList "enc_rule list"

definition setAll :: "(SectionsConf \<Rightarrow> SectionsConf) list \<Rightarrow> SectionsConf \<Rightarrow> SectionsConf" where
  "setAll setters c = fold (\<lambda>f. f) setters c"

type_synonym applied_rule = "SectionsConf \<Rightarrow> (SectionsConf \<times> bool) res"

fun exclusive_list :: "applied_rule list \<Rightarrow> SectionsConf \<times> bool \<Rightarrow> (SectionsConf \<times> bool) res" where
  "exclusive_list [] (c, applied) = Inr (c, applied)"
| "exclusive_list (rule # rules) (c, applied) =
     bind_res (rule c) (\<lambda>(c, matched).
     if \<not> matched then exclusive_list rules (c, applied)
     else if applied then Inl Mars2GribException
     else exclusive_list rules (c, True))"

fun chained_list :: "bool \<Rightarrow> applied_rule list \<Rightarrow> SectionsConf \<Rightarrow> (SectionsConf \<times> bool) res" where
  "chained_list first_rule [] c = Inr (c, True)"
| "chained_list first_rule (rule # rules) c =
     bind_res (rule c) (\<lambda>(c, matched).
     if matched then chained_list False rules c
     else if first_rule then Inr (c, False)
     else Inl Mars2GribException)"

fun enc_apply :: "enc_rule \<Rightarrow> dm_record \<Rightarrow> applied_rule" where
  "enc_apply (EncRule m setters) rec c = (if matches m rec then Inr (setAll setters c, True) else Inr (c, False))"
| "enc_apply (ExclusiveRuleList name rules) rec c = exclusive_list (map (\<lambda>r. enc_apply r rec) rules) (c, False)"
| "enc_apply (ChainedRuleList rules) rec c = chained_list True (map (\<lambda>r. enc_apply r rec) rules) c"

section \<open>The tables\<close>

definition matchChemical :: matcher where
  "matchChemical = All [Has ''chem'', Missing ''wavelength'', MatchOp ''chem'' Less (V_Int 900)]"

definition matchAerosol :: matcher where
  "matchAerosol = All [Has ''chem'', Missing ''wavelength'', MatchOp ''chem'' GreaterEqual (V_Int 900)]"

definition matchLevType :: "LevType \<Rightarrow> matcher" where
  "matchLevType lt = OneOf ''levtype'' [V_LevType lt]"

definition makeGridRule :: "Repres \<Rightarrow> int \<Rightarrow> enc_rule" where
  "makeGridRule repres num = EncRule (OneOf ''repres'' [V_Repres repres]) [grid_set num]"

definition gridRules :: enc_rule where
  "gridRules =
     ExclusiveRuleList ''gridRules'' [makeGridRule Repres_LL 0,
     makeGridRule Repres_GG 40,
     makeGridRule Repres_SH 50]"

definition localSectionRules :: enc_rule where
  "localSectionRules =
     ExclusiveRuleList ''localSectionRules'' [EncRule (All [Missing ''anoffset'', NoneOf ''class'' [V_String
     ''d1''], Missing ''method'', Missing ''channel'']) [localUse_set 1],
     EncRule (All [Missing ''anoffset'', NoneOf ''class'' [V_String ''d1''], Has ''method'']) [localUse_set 15],
     EncRule (All [Missing ''anoffset'', NoneOf ''class'' [V_String ''d1''], Missing ''method'', Has ''channel'',
     OneOf ''type'' [V_String ''em'', V_String ''es'']]) [localUse_set 14],
     EncRule (All [Has ''anoffset'', NoneOf ''class'' [V_String ''d1'']]) [localUse_set 36],
     EncRule (All [Missing ''anoffset'', OneOf ''class'' [V_String ''d1'']]) [localUse_set 1001],
     EncRule (All [Has ''anoffset'', OneOf ''class'' [V_String ''d1'']]) [localUse_set 1036]]"

definition processTypesRules :: enc_rule where
  "processTypesRules =
     ExclusiveRuleList ''processTypesRules'' [EncRule (All [NoneOf ''levtype'' [V_LevType Lev_AL], Missing
     ''number'', Missing ''hdate'', NoneOf ''type'' [V_String ''em'', V_String ''es'']]) [],
     EncRule (All [NoneOf ''levtype'' [V_LevType Lev_AL], Has ''number'', Missing ''hdate'']) [ensemble_set],
     EncRule (All [NoneOf ''levtype'' [V_LevType Lev_AL], Has ''number'', Has ''hdate'']) [reforecast_set,
     ensemble_set],
     EncRule (All [NoneOf ''levtype'' [V_LevType Lev_AL], Missing ''number'', Missing ''hdate'', OneOf ''type''
     [V_String ''em'', V_String ''es'']]) [derivedForecast_set, ensemble_set],
     EncRule (All [matchLevType Lev_AL, Has ''number'', Missing ''hdate'']) [largeEnsemble_set],
     EncRule (All [matchLevType Lev_AL, Has ''number'', Has ''hdate'']) [reforecast_set, largeEnsemble_set]]"

definition packingRules :: enc_rule where
  "packingRules =
     ExclusiveRuleList ''packingRules'' [EncRule (OneOf ''packing'' [V_String ''simple'']) [dataRepres_set 0],
     EncRule (OneOf ''packing'' [V_String ''ccsds'']) [dataRepres_set 42],
     EncRule (OneOf ''packing'' [V_String ''complex'']) [dataRepres_set 51]]"

definition singleSatelliteRule :: enc_rule where
  "singleSatelliteRule =
     EncRule (matchParams [paramRange 260510 260512]) [pointInTime_set, satellite_set]"

definition derivedEnsembleForecastSatelliteRule :: enc_rule where
  "derivedEnsembleForecastSatelliteRule =
     EncRule (matchParams [P 194]) [pointInTime_set, typeOfLevel_set Tol_Surface]"

definition satelliteRules :: enc_rule where
  "satelliteRules =
     ExclusiveRuleList ''satelliteRules'' [ChainedRuleList [EncRule (All [Has ''channel'', NoneOf ''type''
     [V_String ''em'', V_String ''es'']]) [], singleSatelliteRule],
     ChainedRuleList [EncRule (All [Has ''channel'', OneOf ''type'' [V_String ''em'', V_String ''es'']]) [],
     derivedEnsembleForecastSatelliteRule],
     ChainedRuleList [EncRule (Missing ''channel'') []]]"

definition sfc_rules_1 :: "enc_rule list" where
  "sfc_rules_1 =
     [EncRule (matchParams [P 228023]) [pointInTime_set, typeOfLevel_set Tol_CloudBase],
      EncRule (matchParams [P 59, P 78, P 79, P 136, P 137, P 164, P 206, paramRange 162059 162063, P 162071, P
      162072, P 162093, P 228001, P 228044, P 228050, P 228052, P 228088, P 228089, P 228090, P 228164, P 260132])
      [pointInTime_set, typeOfLevel_set Tol_EntireAtmosphere],
      EncRule (matchParams [P 228007, P 228011]) [pointInTime_set, typeOfLevel_set Tol_EntireLake],
      EncRule (matchParams [P 121]) [timeRange_set TimeRange_FixedTimeRange Proc_Maximum,
      overallLengthOfTimeRange_set ''6h'', typeOfLevel_set Tol_HeightAboveGroundAt2m, fixedLevel_set 2],
      EncRule (matchParams [P 122]) [timeRange_set TimeRange_FixedTimeRange Proc_Minimum,
      overallLengthOfTimeRange_set ''6h'', typeOfLevel_set Tol_HeightAboveGroundAt2m, fixedLevel_set 2],
      EncRule (matchParams [P 201, P 237167, P 237168]) [timeRange_set TimeRange_SinceLastPostProcessingStep
      Proc_Maximum, typeOfLevel_set Tol_HeightAboveGroundAt2m, fixedLevel_set 2],
      EncRule (matchParams [P 202, P 238167, P 238168]) [timeRange_set TimeRange_SinceLastPostProcessingStep
      Proc_Minimum, typeOfLevel_set Tol_HeightAboveGroundAt2m, fixedLevel_set 2],
      EncRule (matchParams [P 228004, P 235168]) [timeRange_set TimeRange_SinceLastPostProcessingStep
      Proc_Average, typeOfLevel_set Tol_HeightAboveGroundAt2m, fixedLevel_set 2],
      EncRule (matchParams [P 239167, P 239168]) [timeRange_set TimeRange_SinceLastPostProcessingStep
      Proc_StandardDeviation, typeOfLevel_set Tol_HeightAboveGroundAt2m, fixedLevel_set 2],
      EncRule (matchParams [P 123]) [timeRange_set TimeRange_FixedTimeRange Proc_Maximum,
      overallLengthOfTimeRange_set ''6h'', typeOfLevel_set Tol_HeightAboveGroundAt10m, fixedLevel_set 10],
      EncRule (matchParams [P 228028]) [timeRange_set TimeRange_FixedTimeRange Proc_Maximum,
      overallLengthOfTimeRange_set ''3h'', typeOfLevel_set Tol_HeightAboveGroundAt10m, fixedLevel_set 10],
      EncRule (matchParams [P 49, P 237165, P 237166, P 237207, P 237318]) [timeRange_set
      TimeRange_SinceLastPostProcessingStep Proc_Maximum, typeOfLevel_set Tol_HeightAboveGroundAt10m,
      fixedLevel_set 10],
      EncRule (matchParams [P 141233, P 141245]) [timeRange_set TimeRange_SinceLastPostProcessingStep
      Proc_Average, typeOfLevel_set Tol_HeightAboveSeaAt10m, fixedLevel_set 10],
      EncRule (matchParams [P 143233, P 143245]) [timeRange_set TimeRange_SinceLastPostProcessingStep
      Proc_Maximum, typeOfLevel_set Tol_HeightAboveSeaAt10m, fixedLevel_set 10],
      EncRule (matchParams [P 144233, P 144245]) [timeRange_set TimeRange_SinceLastPostProcessingStep
      Proc_Minimum, typeOfLevel_set Tol_HeightAboveSeaAt10m, fixedLevel_set 10],
      EncRule (matchParams [P 145233, P 145245]) [timeRange_set TimeRange_SinceLastPostProcessingStep
      Proc_StandardDeviation, typeOfLevel_set Tol_HeightAboveSeaAt10m, fixedLevel_set 10],
      EncRule (matchParams [P 235087, P 235088, P 235136, P 235137, P 235087, P 235088, P 235137, P 235288, P
      235287, P 235290, P 235326, P 235383]) [timeRange_set TimeRange_SinceLastPostProcessingStep Proc_Average,
      typeOfLevel_set Tol_EntireAtmosphere],
      EncRule (matchParams [P 237087, P 237088, P 237326, P 237288, P 237290, P 237137, P 237287]) [timeRange_set
      TimeRange_SinceLastPostProcessingStep Proc_Maximum, typeOfLevel_set Tol_EntireAtmosphere],
      EncRule (matchParams [P 238087, P 238088, P 238326, P 238288, P 238290, P 238137, P 238287]) [timeRange_set
      TimeRange_SinceLastPostProcessingStep Proc_Minimum, typeOfLevel_set Tol_EntireAtmosphere],
      EncRule (matchParams [P 239087, P 239088, P 239326, P 239288, P 239290, P 239137, P 239287]) [timeRange_set
      TimeRange_SinceLastPostProcessingStep Proc_StandardDeviation, typeOfLevel_set Tol_EntireAtmosphere],
      EncRule (matchParams [P 228005, P 235165, P 235166]) [timeRange_set TimeRange_SinceLastPostProcessingStep
      Proc_Average, typeOfLevel_set Tol_HeightAboveGroundAt10m, fixedLevel_set 10],
      EncRule (matchParams [P 238165, P 238166, P 238207]) [timeRange_set TimeRange_SinceLastPostProcessingStep
      Proc_Minimum, typeOfLevel_set Tol_HeightAboveGroundAt10m, fixedLevel_set 10],
      EncRule (matchParams [P 239165, P 239166, P 239207]) [timeRange_set TimeRange_SinceLastPostProcessingStep
      Proc_StandardDeviation, typeOfLevel_set Tol_HeightAboveGroundAt10m, fixedLevel_set 10],
      EncRule (matchParams [P 235151]) [timeRange_set TimeRange_SinceLastPostProcessingStep Proc_Average,
      typeOfLevel_set Tol_MeanSea],
      EncRule (matchParams [P 237151]) [timeRange_set TimeRange_SinceLastPostProcessingStep Proc_Maximum,
      typeOfLevel_set Tol_MeanSea]]"

definition sfc_rules_2 :: "enc_rule list" where
  "sfc_rules_2 =
     [EncRule (matchParams [P 238151]) [timeRange_set TimeRange_SinceLastPostProcessingStep Proc_Minimum,
      typeOfLevel_set Tol_MeanSea],
      EncRule (matchParams [P 239151]) [timeRange_set TimeRange_SinceLastPostProcessingStep
      Proc_StandardDeviation, typeOfLevel_set Tol_MeanSea],
      EncRule (matchParams [P 235039, P 235040, P 235049, P 235050, P 235053]) [timeRange_set
      TimeRange_SinceLastPostProcessingStep Proc_Average, typeOfLevel_set Tol_NominalTop],
      EncRule (matchParams [paramRange 141101 141105, P 141208, P 141209, P 141215, P 141216, P 141220, P 141229,
      P 141232, P 235020, P 235021, paramRange 235029 235031, paramRange 235033 235038, paramRange 235041 235043,
      P 235048, P 235051, P 235052, P 235055, P 235058, paramRange 235078 235080, P 235083, P 235084, P 235093, P
      235134, P 235159, P 235189, P 235263, P 235283, P 235339]) [timeRange_set
      TimeRange_SinceLastPostProcessingStep Proc_Average, typeOfLevel_set Tol_Surface],
      EncRule (matchParams [P 235108]) [timeRange_set TimeRange_SinceLastPostProcessingStep Proc_Average,
      typeOfLevel_set Tol_LowCloudLayer],
      EncRule (matchParams [P 237108]) [timeRange_set TimeRange_SinceLastPostProcessingStep Proc_Maximum,
      typeOfLevel_set Tol_LowCloudLayer],
      EncRule (matchParams [P 238108]) [timeRange_set TimeRange_SinceLastPostProcessingStep Proc_Minimum,
      typeOfLevel_set Tol_LowCloudLayer],
      EncRule (matchParams [P 239108]) [timeRange_set TimeRange_SinceLastPostProcessingStep
      Proc_StandardDeviation, typeOfLevel_set Tol_LowCloudLayer],
      EncRule (matchParams [P 235090, P 235091]) [timeRange_set TimeRange_SinceLastPostProcessingStep
      Proc_Average, typeOfLevel_set Tol_MixingLayer],
      EncRule (matchParams [P 237090, P 237091]) [timeRange_set TimeRange_SinceLastPostProcessingStep
      Proc_Maximum, typeOfLevel_set Tol_MixingLayer],
      EncRule (matchParams [P 238090, P 238091]) [timeRange_set TimeRange_SinceLastPostProcessingStep
      Proc_Minimum, typeOfLevel_set Tol_MixingLayer],
      EncRule (matchParams [P 239090, P 239091]) [timeRange_set TimeRange_SinceLastPostProcessingStep
      Proc_StandardDeviation, typeOfLevel_set Tol_MixingLayer],
      EncRule (matchParams [P 235322]) [timeRange_set TimeRange_SinceLastPostProcessingStep Proc_Average,
      typeOfLevel_set Tol_Tropopause],
      EncRule (matchParams [P 237322]) [timeRange_set TimeRange_SinceLastPostProcessingStep Proc_Maximum,
      typeOfLevel_set Tol_Tropopause],
      EncRule (matchParams [P 238322]) [timeRange_set TimeRange_SinceLastPostProcessingStep Proc_Minimum,
      typeOfLevel_set Tol_Tropopause],
      EncRule (matchParams [P 239322]) [timeRange_set TimeRange_SinceLastPostProcessingStep
      Proc_StandardDeviation, typeOfLevel_set Tol_Tropopause],
      EncRule (matchParams [P 235077, P 235094]) [timeRange_set TimeRange_SinceLastPostProcessingStep
      Proc_Average, typeOfLevel_set Tol_SoilLayer],
      EncRule (matchParams [P 237077, P 237094]) [timeRange_set TimeRange_SinceLastPostProcessingStep
      Proc_Maximum, typeOfLevel_set Tol_SoilLayer],
      EncRule (matchParams [P 238077, P 238094]) [timeRange_set TimeRange_SinceLastPostProcessingStep
      Proc_Minimum, typeOfLevel_set Tol_SoilLayer],
      EncRule (matchParams [P 239077, P 239094]) [timeRange_set TimeRange_SinceLastPostProcessingStep
      Proc_StandardDeviation, typeOfLevel_set Tol_SoilLayer],
      EncRule (matchParams [P 235309]) [timeRange_set TimeRange_SinceLastPostProcessingStep Proc_Average,
      typeOfLevel_set Tol_IceLayerOnWater],
      EncRule (matchParams [P 237309]) [timeRange_set TimeRange_SinceLastPostProcessingStep Proc_Maximum,
      typeOfLevel_set Tol_IceLayerOnWater],
      EncRule (matchParams [P 238309]) [timeRange_set TimeRange_SinceLastPostProcessingStep Proc_Minimum,
      typeOfLevel_set Tol_IceLayerOnWater],
      EncRule (matchParams [P 239309]) [timeRange_set TimeRange_SinceLastPostProcessingStep
      Proc_StandardDeviation, typeOfLevel_set Tol_IceLayerOnWater],
      EncRule (matchParams [P 263024]) [timeRange_set TimeRange_SinceLastPostProcessingStep Proc_Average,
      typeOfLevel_set Tol_SeaIceLayer]]"

definition sfc_rules_3 :: "enc_rule list" where
  "sfc_rules_3 =
     [EncRule (matchParams [P 265024]) [timeRange_set TimeRange_SinceLastPostProcessingStep Proc_Maximum,
      typeOfLevel_set Tol_SeaIceLayer],
      EncRule (matchParams [P 266024]) [timeRange_set TimeRange_SinceLastPostProcessingStep Proc_Minimum,
      typeOfLevel_set Tol_SeaIceLayer],
      EncRule (matchParams [P 267024]) [timeRange_set TimeRange_SinceLastPostProcessingStep
      Proc_StandardDeviation, typeOfLevel_set Tol_SeaIceLayer],
      EncRule (matchParams [P 260683]) [timeRange_set TimeRange_SinceLastPostProcessingStep Proc_Mode,
      typeOfLevel_set Tol_Surface],
      EncRule (matchParams [P 260682]) [timeRange_set TimeRange_SinceLastPostProcessingStep Proc_Severity,
      typeOfLevel_set Tol_Surface],
      EncRule (matchParams [P 129172]) [pointInTime_set, typeOfLevel_set Tol_HeightAboveGround],
      EncRule (matchParams [P 165, P 166, P 207, P 228029, P 228131, P 228132, P 260260]) [pointInTime_set,
      typeOfLevel_set Tol_HeightAboveGroundAt10m, fixedLevel_set 10],
      EncRule (matchParams [P 167, P 168, P 174096, P 228037, P 260242]) [pointInTime_set, typeOfLevel_set
      Tol_HeightAboveGroundAt2m, fixedLevel_set 2],
      EncRule (matchParams [P 140245, P 140249, P 140233]) [pointInTime_set, typeOfLevel_set
      Tol_HeightAboveSeaAt10m, fixedLevel_set 10],
      EncRule (matchParams [P 3075]) [pointInTime_set, typeOfLevel_set Tol_HighCloudLayer],
      EncRule (matchParams [P 3074]) [pointInTime_set, typeOfLevel_set Tol_MediumCloudLayer],
      EncRule (matchParams [P 3073]) [pointInTime_set, typeOfLevel_set Tol_LowCloudLayer],
      EncRule (matchParams [P 228014]) [pointInTime_set, typeOfLevel_set Tol_IceLayerOnWater],
      EncRule (matchParams [P 228013]) [pointInTime_set, typeOfLevel_set Tol_IceTopOnWater],
      EncRule (matchParams [P 228010]) [pointInTime_set, typeOfLevel_set Tol_LakeBottom],
      EncRule (matchParams [P 235305]) [timeRange_set TimeRange_SinceLastPostProcessingStep Proc_Average,
      typeOfLevel_set Tol_LakeBottom],
      EncRule (matchParams [P 237305]) [timeRange_set TimeRange_SinceLastPostProcessingStep Proc_Maximum,
      typeOfLevel_set Tol_LakeBottom],
      EncRule (matchParams [P 238305]) [timeRange_set TimeRange_SinceLastPostProcessingStep Proc_Minimum,
      typeOfLevel_set Tol_LakeBottom],
      EncRule (matchParams [P 239305]) [timeRange_set TimeRange_SinceLastPostProcessingStep
      Proc_StandardDeviation, typeOfLevel_set Tol_LakeBottom],
      EncRule (matchParams [P 151]) [pointInTime_set, typeOfLevel_set Tol_MeanSea],
      EncRule (matchParams [P 262118]) [pointInTime_set, typeOfLevel_set Tol_DepthBelowSeaLayer],
      EncRule (matchParams [P 228231, P 228232, P 228233, P 228234]) [pointInTime_set, typeOfLevel_set
      Tol_MixedLayerParcel],
      EncRule (matchParams [P 228008, P 228009]) [pointInTime_set, typeOfLevel_set Tol_MixingLayer],
      EncRule (matchParams [P 228235, P 228236, P 228237]) [pointInTime_set, typeOfLevel_set
      Tol_MostUnstableParcel],
      EncRule (matchParams [P 178, P 179, P 208, P 209, P 212]) [timeRange_set
      TimeRange_SinceLastPostProcessingStep Proc_Accumulation, typeOfLevel_set Tol_NominalTop]]"

definition sfc_rules_4 :: "enc_rule list" where
  "sfc_rules_4 =
     [EncRule (matchParams [P 228045]) [pointInTime_set, typeOfLevel_set Tol_Tropopause],
      EncRule (All [matchParams [P 228080, P 228081, P 228082, paramRange 233032 233035, P 235062, P 235063, P
      235064], matchChemical]) [timeRange_set TimeRange_SinceLastPostProcessingStep Proc_Accumulation,
      chemical_set, typeOfLevel_set Tol_Surface, tablesConfig_set ''custom'', localTablesVersion_set 0,
      tablesVersion_set 30],
      EncRule (matchParams [P 8, P 9, P 20, P 44, P 45, P 47, P 50, P 57, P 58, paramRange 142 147, P 169, P 175,
      P 176, P 177, P 180, P 181, P 182, P 189, P 195, P 196, P 197, P 205, P 210, P 211, P 213, P 228, P 239, P
      240, P 3062, P 3099, paramRange 162100 162113, paramRange 222001 222256, P 228021, P 228022, P 228129, P
      228130, P 228143, P 228144, P 228216, P 228228, P 228251, P 231001, P 231002, P 231003, P 231005, P 231010,
      P 231012, P 231057, P 231058, paramRange 233000 233031, P 260259]) [timeRange_set
      TimeRange_SinceLastPostProcessingStep Proc_Accumulation, typeOfLevel_set Tol_Surface],
      EncRule (matchParams [P 228051, P 228053]) [timeRange_set TimeRange_FixedTimeRange Proc_Average,
      overallLengthOfTimeRange_set ''1h'', typeOfLevel_set Tol_Surface],
      EncRule (matchParams [P 228057, P 228059]) [timeRange_set TimeRange_FixedTimeRange Proc_Average,
      overallLengthOfTimeRange_set ''3h'', typeOfLevel_set Tol_Surface],
      EncRule (matchParams [P 228058, P 228060]) [timeRange_set TimeRange_FixedTimeRange Proc_Average,
      overallLengthOfTimeRange_set ''6h'', typeOfLevel_set Tol_Surface],
      EncRule (matchParams [P 228026, P 228222]) [timeRange_set TimeRange_FixedTimeRange Proc_Maximum,
      overallLengthOfTimeRange_set ''3h'', typeOfLevel_set Tol_Surface],
      EncRule (matchParams [P 228224, P 228035, P 228036]) [timeRange_set TimeRange_FixedTimeRange Proc_Maximum,
      overallLengthOfTimeRange_set ''6h'', typeOfLevel_set Tol_Surface],
      EncRule (matchParams [P 228027, P 228223]) [timeRange_set TimeRange_FixedTimeRange Proc_Minimum,
      overallLengthOfTimeRange_set ''3h'', typeOfLevel_set Tol_Surface],
      EncRule (matchParams [P 228225]) [timeRange_set TimeRange_FixedTimeRange Proc_Minimum,
      overallLengthOfTimeRange_set ''6h'', typeOfLevel_set Tol_Surface],
      EncRule (matchParams [P 260320]) [timeRange_set TimeRange_FixedTimeRange Proc_Mode,
      overallLengthOfTimeRange_set ''1h'', typeOfLevel_set Tol_Surface],
      EncRule (matchParams [P 260321]) [timeRange_set TimeRange_FixedTimeRange Proc_Mode,
      overallLengthOfTimeRange_set ''3h'', typeOfLevel_set Tol_Surface],
      EncRule (matchParams [P 260339]) [timeRange_set TimeRange_FixedTimeRange Proc_Mode,
      overallLengthOfTimeRange_set ''6h'', typeOfLevel_set Tol_Surface],
      EncRule (matchParams [P 260318]) [timeRange_set TimeRange_FixedTimeRange Proc_Severity,
      overallLengthOfTimeRange_set ''1h'', typeOfLevel_set Tol_Surface],
      EncRule (matchParams [P 260319]) [timeRange_set TimeRange_FixedTimeRange Proc_Severity,
      overallLengthOfTimeRange_set ''3h'', typeOfLevel_set Tol_Surface],
      EncRule (matchParams [P 260338]) [timeRange_set TimeRange_FixedTimeRange Proc_Severity,
      overallLengthOfTimeRange_set ''6h'', typeOfLevel_set Tol_Surface],
      EncRule (matchParams [paramRange 15 18, paramRange 26 32, P 33, paramRange 34 43, paramRange 66 67, P 74, P
      129, P 134, P 139, P 141, P 148, P 159, paramRange 160 163, P 170, paramRange 172 174, paramRange 186 188, P
      198, paramRange 229 232, paramRange 234 236, P 238, paramRange 243 245, P 3020, P 3067, P 160198, P 200199,
      P 210200, P 210201, P 210202, P 228003, P 228012, paramRange 210186 210191, P 210262, P 210263, P 210264,
      paramRange 228015 228020, P 228024, P 228032, paramRange 228046 228048, P 228141, paramRange 228217 228221,
      P 260004, P 260005, P 260015, P 260038, P 260048, P 260109, P 260121, P 260123, P 260255, P 260289, P
      260292, P 260293, P 260509, P 260688, P 261001, P 261002, P 261014, P 261015, P 261016, P 261018, P 262000,
      P 262100, P 262139, P 262140, P 262144, P 262124]) [pointInTime_set, typeOfLevel_set Tol_Surface],
      EncRule (All [matchParams [paramRange 228083 228085], matchChemical]) [pointInTime_set, chemical_set,
      typeOfLevel_set Tol_Surface],
      EncRule (matchParams [paramRange 140098 140105, paramRange 140112 140113, paramRange 140121 140129,
      paramRange 140131 140134, paramRange 140207 140209, paramRange 140211 140212, paramRange 140214 140232,
      paramRange 140234 140239, P 140244, paramRange 140246 140248, paramRange 140252 140254]) [pointInTime_set,
      typeOfLevel_set Tol_Surface],
      EncRule (matchParams [paramRange 140114 140120]) [pointInTime_set, periodRange_set, typeOfLevel_set
      Tol_Surface],
      EncRule (matchParams [paramRange 143101 143105, P 143208, P 143209, P 143215, P 143216, P 143220, P 143229,
      P 143232, P 228226, P 237013, P 237041, P 237042, P 237055, P 237078, P 237080, P 237083, P 237084, P
      237093, P 237117, P 237134, P 237159, P 237263, P 237321]) [timeRange_set
      TimeRange_SinceLastPostProcessingStep Proc_Maximum, typeOfLevel_set Tol_Surface],
      EncRule (matchParams [paramRange 144101 144105, P 144208, P 144209, P 144215, P 144216, P 144220, P 144229,
      P 144232, P 228227, P 238055, P 238013, P 238041, P 238042, P 238078, P 238080, P 238083, P 238084, P
      238093, P 238134, P 238159, P 238263]) [timeRange_set TimeRange_SinceLastPostProcessingStep Proc_Minimum,
      typeOfLevel_set Tol_Surface],
      EncRule (matchParams [paramRange 145101 145105, P 145208, P 145209, P 145215, P 145216, P 145220, P 145229,
      P 145232, P 239041, P 239042, P 239078, P 239080, P 239083, P 239084, P 239093, P 239134, P 239159, P
      239263]) [timeRange_set TimeRange_SinceLastPostProcessingStep Proc_StandardDeviation, typeOfLevel_set
      Tol_Surface],
      EncRule (matchParams [P 140251]) [pointInTime_set, dirFreq_set],
      EncRule (matchParams [P 262104]) [pointInTime_set, typeOfLevel_set Tol_Isothermal]]"

definition sfc_rules_5 :: "enc_rule list" where
  "sfc_rules_5 =
     [singleSatelliteRule]"

definition paramSFCRules :: enc_rule where
  "paramSFCRules = ExclusiveRuleList ''paramSFCRules'' (sfc_rules_1 @ sfc_rules_2 @ sfc_rules_3 @ sfc_rules_4 @ sfc_rules_5)"

definition paramHLRules :: enc_rule where
  "paramHLRules =
     ExclusiveRuleList ''paramHLRules'' [EncRule (matchParams [P 10, P 54, P 130, P 131, P 132, P 157, P 246, P
     247, P 3031]) [pointInTime_set, typeOfLevel_set Tol_HeightAboveGround],
     EncRule (matchParams [P 235097, P 235131, P 235132]) [timeRange_set TimeRange_SinceLastPostProcessingStep
     Proc_Average, typeOfLevel_set Tol_HeightAboveGround],
     EncRule (matchParams [P 237097, P 237131, P 237132]) [timeRange_set TimeRange_SinceLastPostProcessingStep
     Proc_Maximum, typeOfLevel_set Tol_HeightAboveGround],
     EncRule (matchParams [P 238097, P 238131, P 238132]) [timeRange_set TimeRange_SinceLastPostProcessingStep
     Proc_Minimum, typeOfLevel_set Tol_HeightAboveGround],
     EncRule (matchParams [P 239097, P 239131, P 239132]) [timeRange_set TimeRange_SinceLastPostProcessingStep
     Proc_StandardDeviation, typeOfLevel_set Tol_HeightAboveGround]]"

definition paramMLRules :: enc_rule where
  "paramMLRules =
     ExclusiveRuleList ''paramMLRules'' [EncRule (matchParams [P 21, P 22, P 23, P 75, P 76, P 77, paramRange 129
     133, P 135, P 138, P 152, P 155, P 156, P 157, P 203, P 246, P 247, P 248, P 260290, P 260292, P 260293])
     [pointInTime_set, typeOfLevel_set Tol_Hybrid],
     EncRule (matchParams [paramRange 162100 162113]) [timeRange_set TimeRange_SinceLastPostProcessingStep
     Proc_Accumulation, typeOfLevel_set Tol_Hybrid]]"

definition plLevelRules :: "enc_rule \<Rightarrow> enc_rule" where
  "plLevelRules mkTail =
     ExclusiveRuleList ''plLevelRules'' [ChainedRuleList [EncRule (MatchOp ''levelist'' GreaterEqual (V_Int 100))
     [typeOfLevel_set Tol_IsobaricInhPa], mkTail],
     ChainedRuleList [EncRule (MatchOp ''levelist'' Less (V_Int 100)) [typeOfLevel_set Tol_IsobaricInPa], mkTail]]"

definition paramPLRules :: enc_rule where
  "paramPLRules =
     plLevelRules (ExclusiveRuleList ''paramPLRules'' [EncRule (matchParams [P 1, P 2, P 10, P 60, P 75, P 76,
     paramRange 129 135, P 138, P 152, P 155, P 157, P 203, P 246, P 247, P 248, P 157, P 260290])
     [pointInTime_set],
     EncRule (matchParams [P 235100, paramRange 235129 235133, P 235135, P 235138, P 235152, P 235155, P 235157, P
     235203, P 235246, P 263107]) [timeRange_set TimeRange_SinceLastPostProcessingStep Proc_Average]])"

definition paramPTRules :: enc_rule where
  "paramPTRules =
     ExclusiveRuleList ''paramPTRules'' [EncRule (matchParams [P 53, P 54, P 60, P 131, P 132, P 133, P 138, P
     155, P 203]) [pointInTime_set, typeOfLevel_set Tol_Theta],
     EncRule (matchParams [P 235100, P 235203]) [timeRange_set TimeRange_SinceLastPostProcessingStep Proc_Average,
     typeOfLevel_set Tol_Theta],
     EncRule (matchParams [P 237203]) [timeRange_set TimeRange_SinceLastPostProcessingStep Proc_Maximum,
     typeOfLevel_set Tol_Theta],
     EncRule (matchParams [P 238203]) [timeRange_set TimeRange_SinceLastPostProcessingStep Proc_Minimum,
     typeOfLevel_set Tol_Theta],
     EncRule (matchParams [P 239203]) [timeRange_set TimeRange_SinceLastPostProcessingStep Proc_StandardDeviation,
     typeOfLevel_set Tol_Theta]]"

definition paramPVRules :: enc_rule where
  "paramPVRules =
     ExclusiveRuleList ''paramPVRules'' [EncRule (matchParams [P 3, P 54, P 129, P 131, P 132, P 133, P 203])
     [pointInTime_set, typeOfLevel_set Tol_PotentialVorticity],
     EncRule (matchParams [P 235098, P 235269]) [timeRange_set TimeRange_SinceLastPostProcessingStep Proc_Average,
     typeOfLevel_set Tol_PotentialVorticity]]"

definition paramSOLRules :: enc_rule where
  "paramSOLRules =
     ExclusiveRuleList ''paramSOLRules'' [EncRule (matchParams [P 262000, P 262024]) [pointInTime_set,
     typeOfLevel_set Tol_SeaIceLayer],
     EncRule (matchParams [P 33, P 74, P 238, P 228038, P 228141]) [pointInTime_set, typeOfLevel_set
     Tol_SnowLayer],
     EncRule (matchParams [P 260360, P 260199, P 183]) [pointInTime_set, typeOfLevel_set Tol_SoilLayer],
     EncRule (matchParams [P 235077]) [timeRange_set TimeRange_SinceLastPostProcessingStep Proc_Average,
     typeOfLevel_set Tol_SoilLayer],
     EncRule (matchParams [P 235078, P 235080]) [timeRange_set TimeRange_SinceLastPostProcessingStep Proc_Average,
     typeOfLevel_set Tol_SnowLayer],
     EncRule (matchParams [P 237080]) [timeRange_set TimeRange_SinceLastPostProcessingStep Proc_Maximum,
     typeOfLevel_set Tol_SnowLayer],
     EncRule (matchParams [P 238080]) [timeRange_set TimeRange_SinceLastPostProcessingStep Proc_Minimum,
     typeOfLevel_set Tol_SnowLayer],
     EncRule (matchParams [P 239080]) [timeRange_set TimeRange_SinceLastPostProcessingStep Proc_StandardDeviation,
     typeOfLevel_set Tol_SnowLayer]]"

definition paramAlRules :: enc_rule where
  "paramAlRules =
     ExclusiveRuleList ''paramALRules'' [EncRule (matchParams [paramRange 213101 213160]) [pointInTime_set,
     randomPattern_set, typeOfLevel_set Tol_AbstractSingleLevel]]"

definition horizontalRules :: enc_rule where
  "horizontalRules =
     ExclusiveRuleList ''horizontalRules'' [ChainedRuleList [EncRule (All [matchLevType Lev_SFC, Missing
     ''channel'']) [], paramSFCRules],
     EncRule (All [matchLevType Lev_SFC, Has ''channel'']) [],
     EncRule (All [Missing ''levtype'', Has ''channel'']) [],
     ChainedRuleList [EncRule (matchLevType Lev_HL) [], paramHLRules],
     ChainedRuleList [EncRule (matchLevType Lev_ML) [], paramMLRules],
     ChainedRuleList [EncRule (matchLevType Lev_PL) [], paramPLRules],
     ChainedRuleList [EncRule (matchLevType Lev_PT) [], paramPTRules],
     ChainedRuleList [EncRule (matchLevType Lev_PV) [], paramPVRules],
     ChainedRuleList [EncRule (matchLevType Lev_SOL) [], paramSOLRules],
     ChainedRuleList [EncRule (matchLevType Lev_AL) [], paramAlRules]]"

definition encoder_rules :: enc_rule where
  "encoder_rules =
     ChainedRuleList [gridRules, localSectionRules, processTypesRules, horizontalRules, satelliteRules,
     packingRules]"


text \<open>
  \<^verbatim>\<open>buildEncoderConf\<close>: the rules on an empty configuration, then the defaults, with the template number of the product
  inferred from its categories, then the checks that required entries are set. \<^verbatim>\<open>ProductSection::validate\<close> takes its
  argument as a reference that is not constant, which is why the records of this kind count as having no checks of their
  own, and it is never called.
\<close>

definition product_applyDefaults :: "ProductSection \<Rightarrow> ProductSection res" where
  "product_applyDefaults p =
     (case pdtCat p of
        None \<Rightarrow> Inr p
      | Some k \<Rightarrow> bind_res (inferProductDefinitionTemplateNumber k) (\<lambda>n.
          case product_template p of
            Some m \<Rightarrow> if m \<noteq> n then Inl Mars2GribException else Inr (p\<lparr>product_template := Some n\<rparr>)
          | None \<Rightarrow> Inr (p\<lparr>product_template := Some n\<rparr>)))"

definition sections_applyDefaults :: "SectionsConf \<Rightarrow> SectionsConf res" where
  "sections_applyDefaults c =
     bind_res (product_applyDefaults (ensure default_product (product c))) (\<lambda>p.
     Inr \<lparr>conf_type = Some (ensure ''grib2'' (conf_type c)), indicator = Some (ensure 0 (indicator c)),
          identification = Some (ensure default_identification (identification c)),
          localUse = Some (ensure 0 (localUse c)), grid_template = Some (ensure 0 (grid_template c)),
          product = Some p, dataRepres = Some (ensure 0 (dataRepres c))\<rparr>)"

definition sections_validate :: "SectionsConf \<Rightarrow> unit res" where
  "sections_validate c =
     (case product c of
        None \<Rightarrow> Inl DataModellingException
      | Some p \<Rightarrow>
          if product_template p = None \<or>
             (case timeRange p of None \<Rightarrow> False
              | Some t \<Rightarrow> timeRange_type t = None \<or> typeOfStatisticalProcessing t = None) \<or>
             (case level p of None \<Rightarrow> False | Some l \<Rightarrow> level_type l = None)
          then Inl DataModellingException else Inr ())"

definition buildEncoderConf :: "dm_record \<Rightarrow> SectionsConf res" where
  "buildEncoderConf mars =
     bind_res (enc_apply encoder_rules mars empty_SectionsConf) (\<lambda>(c, matched).
     if \<not> matched then Inl Mars2GribException
     else bind_res (sections_applyDefaults c) (\<lambda>c. bind_res (sections_validate c) (\<lambda>_. Inr c)))"

end
