(* ===== verification/EncoderTables.thy ===== *)
theory EncoderTables
  imports EncoderRules
begin

text \<open>
  The tables of the encoder are unambiguous: no record of MARS keys makes two rules of an exclusive list match, so the
  rule tree selects the first rule that matches and the exception for a second match is never thrown.
\<close>

section \<open>The first rule that matches\<close>

fun applies :: "enc_rule \<Rightarrow> dm_record \<Rightarrow> bool" where
  "applies (EncRule m setters) rec = matches m rec"
| "applies (ExclusiveRuleList name rules) rec = (\<exists>r\<in>set rules. applies r rec)"
| "applies (ChainedRuleList []) rec = True"
| "applies (ChainedRuleList (r # rules)) rec = applies r rec"

fun unambiguous :: "enc_rule \<Rightarrow> dm_record \<Rightarrow> bool" where
  "unambiguous (EncRule m setters) rec = True"
| "unambiguous (ExclusiveRuleList name rules) rec =
     (sorted_wrt (\<lambda>r r'. \<not> (applies r rec \<and> applies r' rec)) rules \<and> (\<forall>r\<in>set rules. unambiguous r rec))"
| "unambiguous (ChainedRuleList rules) rec = (\<forall>r\<in>set rules. unambiguous r rec)"

fun first_list :: "applied_rule list \<Rightarrow> applied_rule" where
  "first_list [] c = Inr (c, False)"
| "first_list (rule # rules) c =
     bind_res (rule c) (\<lambda>(c, matched). if matched then Inr (c, True) else first_list rules c)"

fun enc_first :: "enc_rule \<Rightarrow> dm_record \<Rightarrow> applied_rule" where
  "enc_first (EncRule m setters) rec c = (if matches m rec then Inr (setAll setters c, True) else Inr (c, False))"
| "enc_first (ExclusiveRuleList name rules) rec c = first_list (map (\<lambda>r. enc_first r rec) rules) c"
| "enc_first (ChainedRuleList rules) rec c = chained_list True (map (\<lambda>r. enc_first r rec) rules) c"

lemma exclusive_none:
  "\<forall>r\<in>set rules. \<forall>c. g r c = Inr (c, False) \<Longrightarrow> exclusive_list (map g rules) (c, b) = Inr (c, b)"
  by (induction rules) auto

lemma enc_apply_skip: "\<not> applies rule rec \<Longrightarrow> enc_apply rule rec c = Inr (c, False)"
proof (induction rule arbitrary: c)
  case (ExclusiveRuleList name rules)
  then show ?case by (auto intro!: exclusive_none)
next
  case (ChainedRuleList rules)
  then show ?case by (cases rules) auto
qed auto

lemma chained_list_applied: "chained_list False rules c = Inr (c', b) \<Longrightarrow> b"
  by (induction rules arbitrary: c) (auto simp: bind_res_Inr_iff split: if_splits)

lemma exclusive_list_applied:
  "exclusive_list (map g rules) (c, a) = Inr (c', b) \<Longrightarrow>
   \<forall>r\<in>set rules. \<forall>c c' b. g r c = Inr (c', b) \<longrightarrow> b = f r \<Longrightarrow> b = (a \<or> (\<exists>r\<in>set rules. f r))"
proof (induction rules arbitrary: c a)
  case (Cons r rules)
  from Cons.prems(1) obtain c1 m where r: "g r c = Inr (c1, m)"
    and rest: "(if \<not> m then exclusive_list (map g rules) (c1, a) else if a then Inl Mars2GribException
                else exclusive_list (map g rules) (c1, True)) = Inr (c', b)"
    by (auto simp: bind_res_Inr_iff)
  have "m = f r" using Cons.prems(2) r by auto
  then show ?case
    using rest Cons.IH [of c1 a] Cons.IH [of c1 True] Cons.prems(2) by (auto split: if_splits)
qed simp

lemma enc_apply_applied: "enc_apply rule rec c = Inr (c', b) \<Longrightarrow> b = applies rule rec"
proof (induction rule arbitrary: c c' b)
  case (ExclusiveRuleList name rules)
  then show ?case
    using exclusive_list_applied [of "\<lambda>r. enc_apply r rec" rules c False c' b "\<lambda>r. applies r rec"] by auto
next
  case (ChainedRuleList rules)
  then show ?case
  proof (cases rules)
    case (Cons r rs)
    then obtain c1 m where r: "enc_apply r rec c = Inr (c1, m)"
      and rest: "(if m then chained_list False (map (\<lambda>r. enc_apply r rec) rs) c1
                  else if True then Inr (c1, False) else Inl Mars2GribException) = Inr (c', b)"
      using ChainedRuleList.prems by (auto simp: bind_res_Inr_iff)
    have "m = applies r rec" using ChainedRuleList.IH [OF _ r] Cons by simp
    then show ?thesis using rest Cons chained_list_applied by (auto split: if_splits)
  qed simp
qed (auto split: if_splits)

text \<open>On an unambiguous tree the lists of exclusive rules stop at their first match.\<close>

lemma exclusive_after:
  "\<forall>r\<in>set rules. \<not> applies r rec \<Longrightarrow> exclusive_list (map (\<lambda>r. enc_apply r rec) rules) (c, b) = Inr (c, b)"
  by (rule exclusive_none) (simp add: enc_apply_skip)

lemma exclusive_first:
  "sorted_wrt (\<lambda>r r'. \<not> (applies r rec \<and> applies r' rec)) rules \<Longrightarrow>
   exclusive_list (map (\<lambda>r. enc_apply r rec) rules) (c, False) = first_list (map (\<lambda>r. enc_apply r rec) rules) c"
proof (induction rules arbitrary: c)
  case (Cons r rules)
  show ?case
  proof (cases "enc_apply r rec c")
    case (Inr x)
    obtain c1 m where x: "x = (c1, m)" by (cases x)
    have m: "m = applies r rec" using enc_apply_applied [of r rec c c1 m] Inr x by simp
    then have "m \<Longrightarrow> exclusive_list (map (\<lambda>r. enc_apply r rec) rules) (c1, True) = Inr (c1, True)"
      using Cons.prems by (auto intro!: exclusive_after)
    then show ?thesis using Cons Inr x by auto
  qed simp
qed simp

lemma chained_first:
  "\<forall>r\<in>set rules. \<forall>c. g r c = h r c \<Longrightarrow> chained_list b (map g rules) c = chained_list b (map h rules) c"
proof (induction rules arbitrary: b c)
  case (Cons r rules)
  then show ?case by (cases "h r c") (auto split: if_splits)
qed simp

lemma first_first: "\<forall>r\<in>set rules. \<forall>c. g r c = h r c \<Longrightarrow> first_list (map g rules) c = first_list (map h rules) c"
proof (induction rules arbitrary: c)
  case (Cons r rules)
  then show ?case by (cases "h r c") (auto split: if_splits)
qed simp

lemma enc_apply_first: "unambiguous rule rec \<Longrightarrow> enc_apply rule rec c = enc_first rule rec c"
proof (induction rule arbitrary: c)
  case (ExclusiveRuleList name rules)
  then show ?case by (simp add: exclusive_first first_first [of rules "\<lambda>r. enc_apply r rec" "\<lambda>r. enc_first r rec"])
next
  case (ChainedRuleList rules)
  then show ?case by (simp add: chained_first [of rules "\<lambda>r. enc_apply r rec" "\<lambda>r. enc_first r rec"])
qed simp

section \<open>Tables whose parameters are disjoint\<close>

text \<open>
  The rules of a table of parameters are exclusive when the intervals of all of them, merged in increasing order, do not
  overlap. \<open>covers\<close> counts the intervals around a parameter.
\<close>

fun merge :: "(int \<times> int) list \<Rightarrow> (int \<times> int) list \<Rightarrow> (int \<times> int) list" where
  "merge [] ys = ys"
| "merge xs [] = xs"
| "merge (x # xs) (y # ys) = (if fst x \<le> fst y then x # merge xs (y # ys) else y # merge (x # xs) ys)"

fun merge_adjacent :: "(int \<times> int) list list \<Rightarrow> (int \<times> int) list list" where
  "merge_adjacent (x # y # zs) = merge x y # merge_adjacent zs"
| "merge_adjacent zs = zs"

lemma length_merge_adjacent: "length (merge_adjacent xs) \<le> length xs"
  by (induction xs rule: merge_adjacent.induct) auto

function merge_all :: "(int \<times> int) list list \<Rightarrow> (int \<times> int) list" where
  "merge_all [] = []"
| "merge_all [x] = x"
| "merge_all (x # y # zs) = merge_all (merge x y # merge_adjacent zs)"
  by pat_completeness auto
termination
  by (relation "measure length") (auto simp: le_imp_less_Suc length_merge_adjacent)

fun increasing :: "(int \<times> int) list \<Rightarrow> bool" where
  "increasing ((a, b) # (c, d) # xs) = (a \<le> b \<and> b < c \<and> increasing ((c, d) # xs))"
| "increasing [(a, b)] = (a \<le> b)"
| "increasing [] = True"

definition covers :: "int \<Rightarrow> (int \<times> int) list \<Rightarrow> nat" where
  "covers p is = length (filter (\<lambda>(a, b). a \<le> p \<and> p \<le> b) is)"

lemma covers_simps [simp]:
  "covers p [] = 0"
  "covers p ((a, b) # is) = (if a \<le> p \<and> p \<le> b then 1 else 0) + covers p is"
  "covers p (is @ js) = covers p is + covers p js"
  by (simp_all add: covers_def)

lemma covers_merge: "covers p (merge xs ys) = covers p xs + covers p ys"
proof (induction xs ys rule: merge.induct)
  case (3 x xs y ys)
  then show ?case by (cases x; cases y) auto
qed auto

lemma covers_merge_adjacent: "sum_list (map (covers p) (merge_adjacent xss)) = sum_list (map (covers p) xss)"
  by (induction xss rule: merge_adjacent.induct) (auto simp: covers_merge)

lemma covers_merge_all: "covers p (merge_all xss) = sum_list (map (covers p) xss)"
  by (induction xss rule: merge_all.induct) (auto simp: covers_merge covers_merge_adjacent)

lemma covers_above: "increasing ((a, b) # is) \<Longrightarrow> p \<le> b \<Longrightarrow> covers p is = 0"
proof (induction "is" arbitrary: a b)
  case (Cons i "is")
  obtain c d where i: "i = (c, d)" by (cases i)
  then show ?case using Cons.prems Cons.IH [of c d] by (cases "is") auto
qed simp

lemma increasing_tail: "increasing (i # is) \<Longrightarrow> increasing is"
  by (cases i; cases "is") auto

lemma covers_increasing: "increasing is \<Longrightarrow> covers p is \<le> 1"
proof (induction "is")
  case (Cons i "is")
  obtain a b where i: "i = (a, b)" by (cases i)
  then show ?case using Cons covers_above [of a b "is" p] increasing_tail [of i "is"] by auto
qed simp

definition singletons :: "(int \<times> int) list \<Rightarrow> (int \<times> int) list list" where
  "singletons is = map (\<lambda>i. [i]) is"

lemma covers_singletons: "sum_list (map (covers p) (singletons is)) = covers p is"
  by (induction "is") (auto simp: singletons_def)

fun rule_intervals :: "enc_rule \<Rightarrow> (int \<times> int) list" where
  "rule_intervals (EncRule m setters) = (case intervals m of Some is \<Rightarrow> remdups is | None \<Rightarrow> [])"
| "rule_intervals _ = []"

fun limited :: "enc_rule \<Rightarrow> bool" where
  "limited (EncRule m setters) = (intervals m \<noteq> None)"
| "limited _ = False"

definition param_table :: "enc_rule list \<Rightarrow> bool" where
  "param_table rules \<longleftrightarrow>
     list_all limited rules \<and> increasing (merge_all (concat (map (\<lambda>r. singletons (rule_intervals r)) rules)))"

lemma covers_rules:
  "sum_list (map (covers p) (concat (map (\<lambda>r. singletons (rule_intervals r)) rules))) =
   sum_list (map (\<lambda>r. covers p (rule_intervals r)) rules)"
  by (induction rules) (auto simp: covers_singletons)

lemma covers_positive: "in_intervals p is \<Longrightarrow> 1 \<le> covers p is"
  by (auto simp: in_intervals_def covers_def Suc_le_eq filter_empty_conv)

lemma limited_applies:
  assumes "limited r" "applies r rec" "param_typed rec"
  shows "\<exists>p. rec ''param'' = Some (V_Param p) \<and> 1 \<le> covers p (rule_intervals r)"
proof -
  obtain m ss "is" where r: "r = EncRule m ss" "intervals m = Some is" using assms(1) by (cases r) auto
  then have "has_param rec is" using assms intervals_sound [of m "is" rec] by (simp add: param_typed_def)
  then obtain p where "rec ''param'' = Some (V_Param p)" "in_intervals p (remdups is)"
    by (auto simp: has_param_def in_intervals_def)
  then show ?thesis using r covers_positive [of p "remdups is"] by auto
qed

lemma param_table_exclusive:
  assumes "param_table rules" "param_typed rec"
  shows "sorted_wrt (\<lambda>r r'. \<not> (applies r rec \<and> applies r' rec)) rules"
proof -
  have "sum_list (map (\<lambda>r. covers p (rule_intervals r)) rules) \<le> 1" for p
    using assms(1) covers_increasing [of "merge_all (concat (map (\<lambda>r. singletons (rule_intervals r)) rules))" p]
    by (simp add: param_table_def covers_merge_all covers_rules)
  moreover have "list_all limited rules" using assms(1) by (simp add: param_table_def)
  ultimately show ?thesis
  proof (induction rules)
    case (Cons r rules)
    have IH: "sorted_wrt (\<lambda>r r'. \<not> (applies r rec \<and> applies r' rec)) rules"
      using Cons.IH Cons.prems add_leD2 by (auto intro: order_trans [OF le_add2])
    have "\<not> applies r' rec" if app: "applies r rec" "r' \<in> set rules" for r'
    proof
      assume "applies r' rec"
      then obtain p where p: "rec ''param'' = Some (V_Param p)" "1 \<le> covers p (rule_intervals r')"
        using limited_applies [of r' rec] Cons.prems(2) app(2) assms(2) by (auto simp: list_all_iff)
      moreover have "1 \<le> covers p (rule_intervals r)"
        using limited_applies [of r rec] Cons.prems(2) app(1) assms(2) p(1) by auto
      moreover have "covers p (rule_intervals r') \<le> sum_list (map (\<lambda>r. covers p (rule_intervals r)) rules)"
        using app(2) by (simp add: member_le_sum_list)
      ultimately show False using Cons.prems(1) [of p] by simp
    qed
    then show ?case using IH by simp
  qed simp
qed

lemma param_tables:
  "param_table (sfc_rules_1 @ sfc_rules_2 @ sfc_rules_3 @ sfc_rules_4 @ sfc_rules_5)"
  by code_simp

fun rules_of :: "enc_rule \<Rightarrow> enc_rule list" where
  "rules_of (ExclusiveRuleList name rules) = rules"
| "rules_of (ChainedRuleList rules) = rules"
| "rules_of (EncRule m setters) = []"

lemma small_param_tables:
  "list_all (\<lambda>r. param_table (rules_of r)) [paramHLRules, paramMLRules, paramPTRules, paramPVRules, paramSOLRules, paramAlRules]"
  by code_simp

lemma pl_table: "list_all (\<lambda>r. param_table (rules_of (rules_of r ! 1))) (rules_of paramPLRules)"
  by code_simp

abbreviation exclusive_in :: "dm_record \<Rightarrow> enc_rule list \<Rightarrow> bool" where
  "exclusive_in rec \<equiv> sorted_wrt (\<lambda>r r'. \<not> (applies r rec \<and> applies r' rec))"

lemma exclusive_small:
  "exclusive_in rec (rules_of gridRules)"
  "exclusive_in rec (rules_of localSectionRules)"
  "exclusive_in rec (rules_of processTypesRules)"
  "exclusive_in rec (rules_of packingRules)"
  "exclusive_in rec (rules_of satelliteRules)"
  by (auto simp: gridRules_def makeGridRule_def localSectionRules_def processTypesRules_def packingRules_def
      satelliteRules_def matchLevType_def split: option.splits)

lemma exclusive_levels: "exclusive_in rec (rules_of (plLevelRules r))"
  by (auto simp: plLevelRules_def value_le_def split: option.splits elim: value_less.elims)

lemma exclusive_horizontal: "exclusive_in rec (rules_of horizontalRules)"
  by (auto simp: horizontalRules_def matchLevType_def split: option.splits)

lemma unambiguous_param_table:
  assumes "param_table rules" "param_typed rec"
  shows "unambiguous (ExclusiveRuleList name rules) rec"
proof -
  have "unambiguous r rec" if "r \<in> set rules" for r
    using assms(1) that by (cases r) (auto simp: param_table_def list_all_iff)
  then show ?thesis using param_table_exclusive [OF assms] by simp
qed

lemma unambiguous_tables:
  assumes "param_typed rec"
  shows "unambiguous paramSFCRules rec" "unambiguous paramHLRules rec" "unambiguous paramMLRules rec"
    "unambiguous paramPTRules rec" "unambiguous paramPVRules rec" "unambiguous paramSOLRules rec"
    "unambiguous paramAlRules rec"
  using assms unambiguous_param_table param_tables small_param_tables
  by (simp_all add: paramSFCRules_def paramHLRules_def paramMLRules_def paramPTRules_def paramPVRules_def
      paramSOLRules_def paramAlRules_def del: unambiguous.simps)

lemma unambiguous_levels: "unambiguous rule rec \<Longrightarrow> unambiguous (plLevelRules rule) rec"
  using exclusive_levels [of rec rule] by (simp add: plLevelRules_def)

lemma unambiguous_pl:
  assumes "param_typed rec"
  shows "unambiguous paramPLRules rec"
proof -
  obtain name rules where pl: "paramPLRules = plLevelRules (ExclusiveRuleList name rules)"
    using paramPLRules_def by blast
  have "param_table rules" using pl_table unfolding pl by (simp add: plLevelRules_def)
  then show ?thesis unfolding pl by (intro unambiguous_levels unambiguous_param_table assms)
qed

lemma unambiguous_horizontal: "param_typed rec \<Longrightarrow> unambiguous horizontalRules rec"
  using unambiguous_tables [of rec] unambiguous_pl [of rec] exclusive_horizontal [of rec]
  by (simp add: horizontalRules_def)

lemma unambiguous_encoder_rules: "param_typed rec \<Longrightarrow> unambiguous encoder_rules rec"
  using exclusive_small [of rec] unambiguous_horizontal [of rec]
  by (simp add: encoder_rules_def gridRules_def makeGridRule_def localSectionRules_def processTypesRules_def
      packingRules_def satelliteRules_def singleSatelliteRule_def derivedEnsembleForecastSatelliteRule_def)

text \<open>
  Property C17. The rules of the encoder are unambiguous: for every record of MARS keys whose values have their types,
  the rule tree does what a search for the first matching rule of each list does; the exception of a list of exclusive
  rules for a second match is never thrown.
\<close>

theorem encoder_rules_first_match:
  assumes "typed FullMarsRecord mars"
  shows "enc_apply encoder_rules mars c = enc_first encoder_rules mars c"
  using assms by (intro enc_apply_first unambiguous_encoder_rules typed_param)

lemma encoder_rules_first_match_witness:
  "enc_apply encoder_rules [''param'' \<mapsto> V_Param 130, ''levtype'' \<mapsto> V_LevType Lev_PL, ''levelist'' \<mapsto> V_Int 500] empty_SectionsConf =
   enc_first encoder_rules [''param'' \<mapsto> V_Param 130, ''levtype'' \<mapsto> V_LevType Lev_PL, ''levelist'' \<mapsto> V_Int 500] empty_SectionsConf"
  by (rule encoder_rules_first_match)
    (auto simp: typed_def FullMarsRecord_def mars_groups PARAM_def LEVTYPE_def LEVELIST_def entry_defs)

end
