(* ===== verification/EncoderOutcome.thy ===== *)
theory EncoderOutcome
  imports EncoderTables
begin

text \<open>
  What the rules of the encoder guarantee of a configuration they build (\<^verbatim>\<open>mars2grib/Rules.cc\<close>,
  \<^verbatim>\<open>mars2grib/EncoderConf.h\<close>): every product has exactly one description of its time, the one its categories say. The
  proofs are triples of a rule tree: a condition before, and one after, if the tree matches.
\<close>

section \<open>Triples of rule trees\<close>

definition produces :: "dm_record \<Rightarrow> (SectionsConf \<Rightarrow> bool) \<Rightarrow> enc_rule \<Rightarrow> (SectionsConf \<Rightarrow> bool) \<Rightarrow> bool" where
  "produces rec A rule B \<longleftrightarrow> (\<forall>c c'. A c \<longrightarrow> enc_first rule rec c = Inr (c', True) \<longrightarrow> B c')"

lemma first_list_skip:
  "first_list (map g rules) c = Inr (c', False) \<Longrightarrow> \<forall>r\<in>set rules. \<forall>c c'. g r c = Inr (c', False) \<longrightarrow> c' = c \<Longrightarrow> c' = c"
proof (induction rules arbitrary: c)
  case (Cons r rules)
  then obtain c1 where "g r c = Inr (c1, False)" "first_list (map g rules) c1 = Inr (c', False)"
    by (auto simp: bind_res_Inr_iff split: if_splits)
  then show ?case using Cons by auto
qed simp

lemma enc_first_skip: "enc_first rule rec c = Inr (c', False) \<Longrightarrow> c' = c"
proof (induction rule arbitrary: c c')
  case (ExclusiveRuleList name rules)
  then show ?case using first_list_skip [of "\<lambda>r. enc_first r rec" rules c c'] by auto
next
  case (ChainedRuleList rules)
  show ?case
  proof (cases rules)
    case (Cons r rs)
    then obtain c1 m where r: "enc_first r rec c = Inr (c1, m)"
      and rest: "(if m then chained_list False (map (\<lambda>r. enc_first r rec) rs) c1
                  else if True then Inr (c1, False) else Inl Mars2GribException) = Inr (c', False)"
      using ChainedRuleList.prems by (auto simp: bind_res_Inr_iff)
    then have "\<not> m" "c1 = c'" using chained_list_applied [of _ c1 c' False] by (auto split: if_splits)
    then show ?thesis using r ChainedRuleList.IH [of r c c'] Cons by simp
  qed (use ChainedRuleList.prems in simp)
qed (auto split: if_splits)

lemma produces_EncRule: "(\<And>c. matches m rec \<Longrightarrow> A c \<Longrightarrow> B (setAll ss c)) \<Longrightarrow> produces rec A (EncRule m ss) B"
  by (auto simp: produces_def)

lemma first_list_True:
  "first_list (map g rules) c = Inr (c', True) \<Longrightarrow> \<forall>r\<in>set rules. \<forall>c c'. g r c = Inr (c', False) \<longrightarrow> c' = c \<Longrightarrow>
   \<exists>r\<in>set rules. g r c = Inr (c', True)"
proof (induction rules arbitrary: c)
  case (Cons r rules)
  from Cons.prems(1) obtain c1 m where r: "g r c = Inr (c1, m)"
    and rest: "(if m then Inr (c1, True) else first_list (map g rules) c1) = Inr (c', True)"
    by (auto simp: bind_res_Inr_iff)
  show ?case
  proof (cases m)
    case True
    then show ?thesis using r rest by auto
  next
    case False
    then have "c1 = c" using Cons.prems(2) r by auto
    then show ?thesis using Cons.IH [of c] Cons.prems(2) rest False by auto
  qed
qed simp

lemma produces_exclusive:
  "(\<And>r. r \<in> set rules \<Longrightarrow> produces rec A r B) \<Longrightarrow> produces rec A (ExclusiveRuleList name rules) B"
  using first_list_True [of "\<lambda>r. enc_first r rec" rules] enc_first_skip
  by (fastforce simp: produces_def)

lemma produces_each: "list_all (\<lambda>r. produces rec A r B) rules \<Longrightarrow> produces rec A (ExclusiveRuleList name rules) B"
  by (rule produces_exclusive) (simp add: list_all_iff)

lemma chained_list_True: "chained_list b rules c = Inr (c', True) \<Longrightarrow> chained_list True rules c = Inr (c', True)"
  by (cases rules) (auto simp: bind_res_Inr_iff split: if_splits)

lemma produces_nil: "produces rec A (ChainedRuleList []) A"
  by (simp add: produces_def)

lemma produces_chain:
  assumes "produces rec A r B" "produces rec B (ChainedRuleList rules) C"
  shows "produces rec A (ChainedRuleList (r # rules)) C"
  unfolding produces_def
proof (intro allI impI)
  fix c c'
  assume "A c" "enc_first (ChainedRuleList (r # rules)) rec c = Inr (c', True)"
  then obtain c1 where "enc_first r rec c = Inr (c1, True)"
    "chained_list False (map (\<lambda>r. enc_first r rec) rules) c1 = Inr (c', True)"
    by (cases "enc_first r rec c") (auto split: if_splits)
  then show "C c'" using assms \<open>A c\<close> chained_list_True by (fastforce simp: produces_def)
qed

lemmas produces_intros = produces_EncRule produces_exclusive produces_nil produces_chain

section \<open>The time of a product\<close>

definition conf_product :: "SectionsConf \<Rightarrow> ProductSection" where
  "conf_product c = ensure default_product (product c)"

definition conf_cat :: "SectionsConf \<Rightarrow> PDTCat" where
  "conf_cat c = ensure default_PDTCat (pdtCat (conf_product c))"

definition untimed :: "SectionsConf \<Rightarrow> bool" where
  "untimed c \<longleftrightarrow> pointInTime (conf_product c) = None \<and> timeRange (conf_product c) = None \<and>
     timeExtent (conf_cat c) = TimeExtent_None"

definition timed :: "SectionsConf \<Rightarrow> bool" where
  "timed c \<longleftrightarrow> product c \<noteq> None \<and> pdtCat (conf_product c) \<noteq> None \<and>
     (case timeRange (conf_product c) of
        None \<Rightarrow> pointInTime (conf_product c) \<noteq> None \<and> timeExtent (conf_cat c) = TimeExtent_PointInTime
      | Some t \<Rightarrow> pointInTime (conf_product c) = None \<and> timeExtent (conf_cat c) = TimeExtent_TimeRange \<and>
          timeRange_type t \<noteq> None \<and> typeOfStatisticalProcessing t \<noteq> None)"

definition level_ok :: "SectionsConf \<Rightarrow> bool" where
  "level_ok c \<longleftrightarrow> (case level (conf_product c) of None \<Rightarrow> True | Some l \<Rightarrow> level_type l \<noteq> None)"

lemma ensure_simps [simp]: "ensure d None = d" "ensure d (Some x) = x"
  by (simp_all add: ensure_def)

lemmas setter_defs = pointInTime_set_def timeRange_set_def overallLengthOfTimeRange_set_def ensure_process_def
  ensemble_set_def largeEnsemble_set_def reforecast_set_def derivedForecast_set_def chemical_set_def periodRange_set_def
  dirFreq_set_def satellite_set_def randomPattern_set_def typeOfLevel_set_def fixedLevel_set_def localUse_set_def
  dataRepres_set_def grid_set_def tablesConfig_set_def tablesVersion_set_def localTablesVersion_set_def
  modify_product_def modify_cat_def modify_timeRange_def modify_level_def modify_tables_def

lemmas time_defs = untimed_def timed_def level_ok_def conf_product_def conf_cat_def

lemma timing_setters [simp]:
  "untimed c \<Longrightarrow> timed (pointInTime_set c)"
  "untimed c \<Longrightarrow> timed (timeRange_set type proc c)"
  "untimed c \<Longrightarrow> timed (overallLengthOfTimeRange_set l (timeRange_set type proc c))"
  by (auto simp: setter_defs time_defs Let_def split: option.splits)

text \<open>The setters that have nothing to do with the time of a product keep it, and those but two its level.\<close>

lemma untimed_setters [simp]:
  "untimed (ensemble_set c) \<longleftrightarrow> untimed c"
  "untimed (largeEnsemble_set c) \<longleftrightarrow> untimed c"
  "untimed (reforecast_set c) \<longleftrightarrow> untimed c"
  "untimed (derivedForecast_set c) \<longleftrightarrow> untimed c"
  "untimed (chemical_set c) \<longleftrightarrow> untimed c"
  "untimed (periodRange_set c) \<longleftrightarrow> untimed c"
  "untimed (dirFreq_set c) \<longleftrightarrow> untimed c"
  "untimed (satellite_set c) \<longleftrightarrow> untimed c"
  "untimed (randomPattern_set c) \<longleftrightarrow> untimed c"
  "untimed (localUse_set n c) \<longleftrightarrow> untimed c"
  "untimed (dataRepres_set n c) \<longleftrightarrow> untimed c"
  "untimed (grid_set n c) \<longleftrightarrow> untimed c"
  "untimed (tablesConfig_set type c) \<longleftrightarrow> untimed c"
  "untimed (tablesVersion_set n c) \<longleftrightarrow> untimed c"
  "untimed (localTablesVersion_set n c) \<longleftrightarrow> untimed c"
  "untimed (typeOfLevel_set lev c) \<longleftrightarrow> untimed c"
  "untimed (fixedLevel_set n c) \<longleftrightarrow> untimed c"
  by (auto simp: setter_defs time_defs default_product_def default_PDTCat_def cat_def Let_def ensure_def split: option.splits)

lemma timed_setters [simp]:
  "timed (ensemble_set c) \<longleftrightarrow> timed c"
  "timed (largeEnsemble_set c) \<longleftrightarrow> timed c"
  "timed (reforecast_set c) \<longleftrightarrow> timed c"
  "timed (derivedForecast_set c) \<longleftrightarrow> timed c"
  "timed (chemical_set c) \<longleftrightarrow> timed c"
  "timed (periodRange_set c) \<longleftrightarrow> timed c"
  "timed (dirFreq_set c) \<longleftrightarrow> timed c"
  "timed (satellite_set c) \<longleftrightarrow> timed c"
  "timed (randomPattern_set c) \<longleftrightarrow> timed c"
  "timed (localUse_set n c) \<longleftrightarrow> timed c"
  "timed (dataRepres_set n c) \<longleftrightarrow> timed c"
  "timed (grid_set n c) \<longleftrightarrow> timed c"
  "timed (tablesConfig_set type c) \<longleftrightarrow> timed c"
  "timed (tablesVersion_set n c) \<longleftrightarrow> timed c"
  "timed (localTablesVersion_set n c) \<longleftrightarrow> timed c"
  "timed (typeOfLevel_set lev c) \<longleftrightarrow> timed c"
  "timed (fixedLevel_set n c) \<longleftrightarrow> timed c"
  by (auto simp: setter_defs time_defs default_product_def default_PDTCat_def cat_def Let_def ensure_def split: option.splits)

lemma level_setters [simp]:
  "level_ok (ensemble_set c) \<longleftrightarrow> level_ok c"
  "level_ok (largeEnsemble_set c) \<longleftrightarrow> level_ok c"
  "level_ok (reforecast_set c) \<longleftrightarrow> level_ok c"
  "level_ok (derivedForecast_set c) \<longleftrightarrow> level_ok c"
  "level_ok (chemical_set c) \<longleftrightarrow> level_ok c"
  "level_ok (periodRange_set c) \<longleftrightarrow> level_ok c"
  "level_ok (dirFreq_set c) \<longleftrightarrow> level_ok c"
  "level_ok (satellite_set c) \<longleftrightarrow> level_ok c"
  "level_ok (randomPattern_set c) \<longleftrightarrow> level_ok c"
  "level_ok (localUse_set n c) \<longleftrightarrow> level_ok c"
  "level_ok (dataRepres_set n c) \<longleftrightarrow> level_ok c"
  "level_ok (grid_set n c) \<longleftrightarrow> level_ok c"
  "level_ok (tablesConfig_set type c) \<longleftrightarrow> level_ok c"
  "level_ok (tablesVersion_set n c) \<longleftrightarrow> level_ok c"
  "level_ok (localTablesVersion_set n c) \<longleftrightarrow> level_ok c"
  "level_ok (pointInTime_set c) \<longleftrightarrow> level_ok c"
  "level_ok (timeRange_set rtype proc c) \<longleftrightarrow> level_ok c"
  "level_ok (overallLengthOfTimeRange_set len c) \<longleftrightarrow> level_ok c"
  by (auto simp: setter_defs time_defs default_product_def default_PDTCat_def cat_def Let_def ensure_def split: option.splits)

lemma level_set [simp]:
  "level_ok (typeOfLevel_set lev c)"
  "level_ok (fixedLevel_set n (typeOfLevel_set lev c))"
  by (auto simp: setter_defs time_defs)

definition unfinished :: "SectionsConf \<Rightarrow> bool" where
  "unfinished c \<longleftrightarrow> untimed c \<and> level_ok c"

definition finished :: "SectionsConf \<Rightarrow> bool" where
  "finished c \<longleftrightarrow> timed c \<and> level_ok c"

text \<open>Every rule of the tables of parameters describes the time exactly once.\<close>

fun describes_time :: "enc_rule \<Rightarrow> bool" where
  "describes_time (EncRule m setters) = (\<forall>c. unfinished c \<longrightarrow> finished (setAll setters c))"
| "describes_time _ = False"

lemmas describes_simps = unfinished_def finished_def setAll_def

lemma sfc_describe_time:
  "list_all describes_time sfc_rules_1" "list_all describes_time sfc_rules_2" "list_all describes_time sfc_rules_3"
  "list_all describes_time sfc_rules_4" "list_all describes_time sfc_rules_5"
  by (simp_all add: sfc_rules_1_def sfc_rules_2_def sfc_rules_3_def sfc_rules_4_def sfc_rules_5_def
      singleSatelliteRule_def describes_simps)

lemma tables_describe_time:
  "list_all (\<lambda>r. list_all describes_time (rules_of r))
     [paramHLRules, paramMLRules, paramPTRules, paramPVRules, paramSOLRules, paramAlRules]"
  by (simp add: paramHLRules_def paramMLRules_def paramPTRules_def paramPVRules_def paramSOLRules_def paramAlRules_def
      describes_simps)

lemma pl_describes_time: "list_all (\<lambda>r. list_all describes_time (rules_of (rules_of r ! 1))) (rules_of paramPLRules)"
  by (simp add: paramPLRules_def plLevelRules_def describes_simps)

text \<open>No satellite product is in a table for a type of level.\<close>

definition satellite_table :: "enc_rule list" where
  "satellite_table = [singleSatelliteRule, derivedEnsembleForecastSatelliteRule]"

lemma tables_without_satellite:
  "list_all (\<lambda>r. param_table (rules_of r @ satellite_table))
     [paramHLRules, paramMLRules, paramPTRules, paramPVRules, paramSOLRules, paramAlRules]"
  by code_simp

lemma pl_without_satellite:
  "list_all (\<lambda>r. param_table (rules_of (rules_of r ! 1) @ satellite_table)) (rules_of paramPLRules)"
  by code_simp

section \<open>The configuration\<close>

text \<open>
  Without a channel the tables describe the time. With one, the rules for the levels may already have described it, but
  not for a satellite product.
\<close>

definition levels_done :: "dm_record \<Rightarrow> SectionsConf \<Rightarrow> bool" where
  "levels_done rec c \<longleftrightarrow>
     (if rec ''channel'' = None then finished c else list_ex (\<lambda>r. applies r rec) satellite_table \<longrightarrow> unfinished c)"

lemma produces_described: "describes_time r \<Longrightarrow> produces rec unfinished r finished"
  by (cases r) (auto intro!: produces_EncRule)

lemma produces_table: "list_all describes_time rules \<Longrightarrow> produces rec unfinished (ExclusiveRuleList name rules) finished"
  by (intro produces_exclusive produces_described) (simp add: list_all_iff)

lemma applied_EncRule: "enc_first (EncRule m ss) rec c = Inr (c', True) \<Longrightarrow> matches m rec"
  by (auto split: if_splits)

lemma produces_level_table:
  assumes "list_all describes_time rules" "param_table (rules @ satellite_table)" "param_typed rec"
  shows "produces rec unfinished (ExclusiveRuleList name rules) (levels_done rec)"
proof (rule produces_exclusive)
  fix r
  assume r: "r \<in> set rules"
  then have d: "describes_time r" using assms(1) by (auto simp: list_all_iff)
  then obtain m ss where m: "r = EncRule m ss" by (cases r) auto
  have "\<not> list_ex (\<lambda>r. applies r rec) satellite_table" if "matches m rec"
    using param_table_exclusive [OF assms(2,3)] r that m by (fastforce simp: sorted_wrt_append list_ex_iff)
  then show "produces rec unfinished r (levels_done rec)"
    using d by (auto simp: m levels_done_def intro!: produces_EncRule)
qed

lemma produces_weaken: "produces rec A rule B \<Longrightarrow> (\<And>c. B c \<Longrightarrow> C c) \<Longrightarrow> produces rec A rule C"
  by (auto simp: produces_def)

lemma produces_noop: "produces rec A (EncRule m []) A"
  by (auto simp: setAll_def intro!: produces_EncRule)

lemma produces_guarded:
  "(matches m rec \<Longrightarrow> produces rec A rule B) \<Longrightarrow> produces rec A (ChainedRuleList [EncRule m [], rule]) B"
proof (cases "matches m rec")
  case True
  then show "(matches m rec \<Longrightarrow> produces rec A rule B) \<Longrightarrow> ?thesis"
    by (intro produces_chain [OF produces_noop] produces_chain [OF _ produces_nil])
qed (simp add: produces_def)

lemma produces_sfc: "produces rec unfinished paramSFCRules finished"
  unfolding paramSFCRules_def using sfc_describe_time by (intro produces_table) simp

lemma produces_levels:
  assumes "param_typed rec"
    and "r \<in> {paramHLRules, paramMLRules, paramPTRules, paramPVRules, paramSOLRules, paramAlRules}"
  shows "produces rec unfinished r (levels_done rec)"
proof -
  have "list_all describes_time (rules_of r)" "param_table (rules_of r @ satellite_table)"
    using assms(2) tables_describe_time tables_without_satellite by auto
  moreover obtain name where "r = ExclusiveRuleList name (rules_of r)"
    using assms(2) by (auto simp: paramHLRules_def paramMLRules_def paramPTRules_def paramPVRules_def
        paramSOLRules_def paramAlRules_def)
  ultimately show ?thesis using produces_level_table [of "rules_of r" rec name] assms(1) by simp
qed

lemma produces_pl:
  assumes "param_typed rec"
  shows "produces rec unfinished paramPLRules (levels_done rec)"
proof -
  obtain name rules where pl: "paramPLRules = plLevelRules (ExclusiveRuleList name rules)"
    using paramPLRules_def by blast
  have tail: "produces rec unfinished (ExclusiveRuleList name rules) (levels_done rec)"
    using pl_describes_time pl_without_satellite unfolding pl
    by (intro produces_level_table assms) (simp_all add: plLevelRules_def)
  have level: "produces rec unfinished (EncRule m [typeOfLevel_set lev]) unfinished" for m lev
    by (rule produces_EncRule) (simp add: describes_simps)
  have "produces rec unfinished (ChainedRuleList [EncRule m [typeOfLevel_set lev], ExclusiveRuleList name rules])
      (levels_done rec)" for m lev
    using level tail by (blast intro: produces_chain produces_nil)
  then show ?thesis unfolding pl plLevelRules_def by (intro produces_exclusive) auto
qed

lemma produces_horizontal:
  assumes "param_typed rec"
  shows "produces rec unfinished horizontalRules (levels_done rec)"
proof -
  have "produces rec unfinished (ChainedRuleList [EncRule (All [matchLevType Lev_SFC, Missing ''channel'']) [],
      paramSFCRules]) (levels_done rec)"
    by (intro produces_guarded produces_weaken [OF produces_sfc]) (simp add: levels_done_def)
  moreover have "produces rec unfinished (EncRule (All [g, Has ''channel'']) []) (levels_done rec)" for g
    by (auto simp: levels_done_def setAll_def intro!: produces_EncRule)
  moreover have "produces rec unfinished (ChainedRuleList [EncRule m [], r]) (levels_done rec)"
    if "r \<in> {paramHLRules, paramMLRules, paramPLRules, paramPTRules, paramPVRules, paramSOLRules, paramAlRules}" for m r
    using that produces_levels [OF assms, of r] produces_pl [OF assms] by (intro produces_guarded) auto
  ultimately show ?thesis
    unfolding horizontalRules_def by (intro produces_each) simp
qed

lemma produces_satellite: "produces rec (levels_done rec) satelliteRules finished"
proof -
  have sat: "produces rec (levels_done rec) r finished"
    if "r \<in> set satellite_table" "rec ''channel'' \<noteq> None" for r
  proof -
    have "describes_time r" using that(1) by (auto simp: satellite_table_def singleSatelliteRule_def
        derivedEnsembleForecastSatelliteRule_def describes_simps)
    moreover obtain m ss where m: "r = EncRule m ss" using calculation by (cases r) auto
    ultimately show ?thesis
      using that by (fastforce simp: m levels_done_def list_ex_iff intro!: produces_EncRule)
  qed
  moreover have "produces rec (levels_done rec) (ChainedRuleList [EncRule (Missing ''channel'') []]) finished"
    by (rule produces_chain [OF _ produces_nil]) (auto simp: levels_done_def setAll_def intro!: produces_EncRule)
  ultimately show ?thesis
    unfolding satelliteRules_def by (intro produces_exclusive) (auto simp: satellite_table_def intro!: produces_guarded)
qed

text \<open>The rules that do not describe the time keep what is known of it.\<close>

lemma produces_kept:
  "r \<in> {gridRules, localSectionRules, processTypesRules} \<Longrightarrow> produces rec unfinished r unfinished"
  "produces rec finished packingRules finished"
  by (auto simp: gridRules_def makeGridRule_def localSectionRules_def processTypesRules_def packingRules_def describes_simps
      intro!: produces_exclusive produces_EncRule)

lemma produces_encoder_rules: "param_typed rec \<Longrightarrow> produces rec unfinished encoder_rules finished"
  unfolding encoder_rules_def
  by (intro produces_chain [OF produces_kept(1)] produces_chain [OF produces_horizontal]
      produces_chain [OF produces_satellite] produces_chain [OF produces_kept(2)] produces_nil) simp_all

lemma unfinished_empty: "unfinished empty_SectionsConf"
  by (simp add: unfinished_def time_defs empty_SectionsConf_def default_product_def default_PDTCat_def cat_def)

lemma encoder_rules_finish:
  assumes "param_typed rec" "enc_apply encoder_rules rec empty_SectionsConf = Inr (c, True)"
  shows "finished c"
  using assms produces_encoder_rules [of rec] unfinished_empty
  by (auto simp: produces_def enc_apply_first [OF unambiguous_encoder_rules])

section \<open>Building a configuration\<close>

text \<open>The checks of a product that \<^verbatim>\<open>validateRecord\<close> does not find, since they take it as not constant.\<close>

definition product_validate :: "ProductSection \<Rightarrow> unit res" where
  "product_validate p =
     (if product_template p = None \<and> pdtCat p = None then Inl Mars2GribException
      else if timeRange p \<noteq> None \<and> pointInTime p \<noteq> None then Inl Mars2GribException
      else if timeRange p = None \<and> pointInTime p = None then Inl Mars2GribException
      else Inr ())"

lemma product_applyDefaults_Inr:
  "product_applyDefaults p = Inr p' \<Longrightarrow> pdtCat p = Some k \<Longrightarrow>
   \<exists>n. inferProductDefinitionTemplateNumber k = Inr n \<and> p' = p\<lparr>product_template := Some n\<rparr>"
  by (auto simp: product_applyDefaults_def bind_res_Inr_iff split: option.splits if_splits)

lemma buildEncoderConf_product:
  assumes "typed FullMarsRecord mars" "enc_apply encoder_rules mars empty_SectionsConf = Inr (c, True)"
    and "sections_applyDefaults c = Inr conf"
  obtains p k n where "product conf = Some p" "pdtCat p = Some k" "product_template p = Some n"
    "inferProductDefinitionTemplateNumber k = Inr n" "finished conf"
proof -
  have fin: "finished c" using assms(1,2) encoder_rules_finish typed_param by blast
  then obtain q k where q: "product c = Some q" "pdtCat q = Some k"
    by (auto simp: finished_def timed_def conf_product_def)
  then obtain n where n: "product_applyDefaults q = Inr (q\<lparr>product_template := Some n\<rparr>)"
    "inferProductDefinitionTemplateNumber k = Inr n"
    using assms(3) product_applyDefaults_Inr by (fastforce simp: sections_applyDefaults_def bind_res_Inr_iff)
  then have "product conf = Some (q\<lparr>product_template := Some n\<rparr>)"
    using assms(3) q by (auto simp: sections_applyDefaults_def)
  moreover from this have "finished conf"
    using fin q by (auto simp: finished_def time_defs split: option.splits)
  ultimately show ?thesis using that q n by simp
qed

text \<open>
  Property C19. A configuration that is built for a record of MARS keys describes the product and its time: the product
  has the template of its categories, it is either a point in time or a range of time, whichever its categories say, and
  the checks that are never run on it would pass.
\<close>

theorem encoder_conf_describes_time:
  assumes "typed FullMarsRecord mars" "buildEncoderConf mars = Inr conf"
  shows "\<exists>p k n. product conf = Some p \<and> pdtCat p = Some k \<and> product_template p = Some n \<and>
           inferProductDefinitionTemplateNumber k = Inr n \<and> product_validate p = Inr () \<and>
           (timeExtent k = TimeExtent_PointInTime \<longleftrightarrow> pointInTime p \<noteq> None) \<and>
           (timeExtent k = TimeExtent_TimeRange \<longleftrightarrow> timeRange p \<noteq> None)"
proof -
  obtain c where "enc_apply encoder_rules mars empty_SectionsConf = Inr (c, True)" "sections_applyDefaults c = Inr conf"
    using assms(2) by (auto simp: buildEncoderConf_def bind_res_Inr_iff split: if_splits)
  then obtain p k n where p: "product conf = Some p" "pdtCat p = Some k" "product_template p = Some n"
    "inferProductDefinitionTemplateNumber k = Inr n" "finished conf"
    using buildEncoderConf_product assms(1) by blast
  have "product_validate p = Inr () \<and> (timeExtent k = TimeExtent_PointInTime \<longleftrightarrow> pointInTime p \<noteq> None) \<and>
      (timeExtent k = TimeExtent_TimeRange \<longleftrightarrow> timeRange p \<noteq> None)"
    using p by (auto simp: product_validate_def finished_def timed_def conf_product_def conf_cat_def split: option.splits)
  then show ?thesis using p by blast
qed

definition isobaric_field :: dm_record where
  "isobaric_field =
     [''repres'' \<mapsto> V_Repres Repres_GG, ''class'' \<mapsto> V_String ''od'', ''type'' \<mapsto> V_String ''fc'',
      ''levtype'' \<mapsto> V_LevType Lev_PL, ''levelist'' \<mapsto> V_Int 500, ''param'' \<mapsto> V_Param 130,
      ''packing'' \<mapsto> V_String ''ccsds'']"

lemma isobaric_field_typed: "typed FullMarsRecord isobaric_field"
  by (auto simp: isobaric_field_def typed_def FullMarsRecord_def mars_groups REPRES_def CLASS_def TYPE_key_def
      LEVTYPE_def LEVELIST_def PARAM_def PACKING_def entry_defs)

lemma isobaric_field_conf: "\<exists>conf. buildEncoderConf isobaric_field = Inr conf"
proof -
  have "case buildEncoderConf isobaric_field of Inl _ \<Rightarrow> False | Inr _ \<Rightarrow> True"
    by code_simp
  then show ?thesis by (cases "buildEncoderConf isobaric_field") auto
qed

lemma encoder_conf_describes_time_witness:
  "\<exists>conf p k. buildEncoderConf isobaric_field = Inr conf \<and> product conf = Some p \<and> pdtCat p = Some k \<and>
     product_validate p = Inr ()"
  using isobaric_field_conf encoder_conf_describes_time [OF isobaric_field_typed] by blast

text \<open>The errors of the rules and of the defaults are all of one kind.\<close>

lemma exclusive_errors:
  "exclusive_list (map g rules) cb = Inl e \<Longrightarrow> \<forall>r\<in>set rules. \<forall>c e. g r c = Inl e \<longrightarrow> e = Mars2GribException \<Longrightarrow>
   e = Mars2GribException"
proof (induction rules arbitrary: cb)
  case (Cons r rules)
  then show ?case by (cases cb) (auto simp: bind_res_Inl_iff split: if_splits)
qed auto

lemma chained_errors:
  "chained_list b (map g rules) c = Inl e \<Longrightarrow> \<forall>r\<in>set rules. \<forall>c e. g r c = Inl e \<longrightarrow> e = Mars2GribException \<Longrightarrow>
   e = Mars2GribException"
  by (induction rules arbitrary: b c) (auto simp: bind_res_Inl_iff split: if_splits)

lemma enc_apply_errors: "enc_apply rule rec c = Inl e \<Longrightarrow> e = Mars2GribException"
proof (induction rule arbitrary: c e)
  case (ExclusiveRuleList name rules)
  then show ?case using exclusive_errors [of "\<lambda>r. enc_apply r rec" rules "(c, False)" e] by auto
next
  case (ChainedRuleList rules)
  then show ?case using chained_errors [of True "\<lambda>r. enc_apply r rec" rules c e] by auto
qed (simp split: if_splits)

lemma infer_errors: "inferProductDefinitionTemplateNumber k = Inl e \<Longrightarrow> e = Mars2GribException"
  by (auto simp: inferProductDefinitionTemplateNumber_def split: option.splits)

text \<open>
  Property C40. Building a configuration fails in one way only, with the exception of the mapping to GRIB: no required
  entry of a configuration is ever missing once the rules have matched.
\<close>

theorem encoder_conf_errors:
  assumes "typed FullMarsRecord mars" "buildEncoderConf mars = Inl e"
  shows "e = Mars2GribException"
proof (cases "enc_apply encoder_rules mars empty_SectionsConf")
  case (Inl e')
  then show ?thesis using assms(2) enc_apply_errors by (auto simp: buildEncoderConf_def)
next
  case (Inr x)
  then obtain c b where c: "enc_apply encoder_rules mars empty_SectionsConf = Inr (c, b)" by (cases x) auto
  show ?thesis
  proof (cases "b \<and> (\<exists>conf. sections_applyDefaults c = Inr conf)")
    case True
    then obtain conf where conf: "sections_applyDefaults c = Inr conf" by blast
    then obtain p k n where "product conf = Some p" "product_template p = Some n" "finished conf"
      using buildEncoderConf_product assms(1) c True by (metis (full_types))
    then have "sections_validate conf = Inr ()"
      by (auto simp: sections_validate_def finished_def timed_def level_ok_def conf_product_def split: option.splits)
    then show ?thesis using assms(2) c conf True by (simp add: buildEncoderConf_def)
  next
    case False
    then show ?thesis
      using assms(2) c infer_errors
      by (cases "sections_applyDefaults c") (auto simp: buildEncoderConf_def sections_applyDefaults_def
          product_applyDefaults_def bind_res_Inl_iff split: option.splits if_splits)
  qed
qed

lemma encoder_conf_errors_witness:
  "buildEncoderConf (isobaric_field(''param'' \<mapsto> V_Param 131072)) = Inl Mars2GribException"
proof -
  let ?mars = "isobaric_field(''param'' \<mapsto> V_Param 131072)"
  have "typed FullMarsRecord ?mars"
    using typed_upd [OF isobaric_field_typed, of PARAM "Some (V_Param 131072)"]
    by (simp add: FullMarsRecord_def mars_groups PARAM_def entry_defs)
  moreover have "case buildEncoderConf ?mars of Inl _ \<Rightarrow> True | Inr _ \<Rightarrow> False"
    by code_simp
  ultimately show ?thesis
    using encoder_conf_errors [of ?mars] by (cases "buildEncoderConf ?mars") auto
qed

text \<open>
  Property C31. Two kinds of fields can never be encoded: those on a HEALPix grid, for which there is a description of the
  geometry but no rule, and satellite products of a channel that are neither ensemble means nor standard deviations,
  of another class than d1, with neither a method nor an analysis offset: there is a rule for the product but none for
  its local section.
\<close>

theorem never_encoded:
  assumes "mars ''repres'' = Some (V_Repres Repres_HEALPix) \<or>
     mars ''channel'' \<noteq> None \<and> mars ''type'' \<notin> {Some (V_String ''em''), Some (V_String ''es'')} \<and>
     mars ''class'' \<noteq> Some (V_String ''d1'') \<and> mars ''method'' = None \<and> mars ''anoffset'' = None"
  shows "buildEncoderConf mars = Inl Mars2GribException"
proof -
  have "\<not> applies gridRules mars \<or> \<not> applies localSectionRules mars"
    using assms by (auto simp: gridRules_def makeGridRule_def localSectionRules_def split: option.splits)
  moreover have "\<not> applies gridRules mars \<Longrightarrow> buildEncoderConf mars = Inl Mars2GribException"
    by (simp add: buildEncoderConf_def encoder_rules_def enc_apply_skip)
  moreover have "buildEncoderConf mars = Inl Mars2GribException" if "\<not> applies localSectionRules mars"
  proof (cases "enc_apply gridRules mars empty_SectionsConf")
    case (Inl e)
    then show ?thesis using enc_apply_errors by (auto simp: buildEncoderConf_def encoder_rules_def)
  next
    case (Inr x)
    then show ?thesis
      using that by (cases x) (auto simp: buildEncoderConf_def encoder_rules_def enc_apply_skip)
  qed
  ultimately show ?thesis by blast
qed

lemma never_encoded_witness:
  "buildEncoderConf [''repres'' \<mapsto> V_Repres Repres_GG, ''class'' \<mapsto> V_String ''od'', ''type'' \<mapsto> V_String ''ssd'',
     ''channel'' \<mapsto> V_Int 1, ''param'' \<mapsto> V_Param 260510] = Inl Mars2GribException"
  by (rule never_encoded) simp

end
