(* ===== verification/EncoderCache.thy ===== *)
theory EncoderCache
  imports EncoderOutcome
begin

text \<open>
  The cache of prepared encoders (\<^verbatim>\<open>mars2grib/EncoderCache\<close>, \<^verbatim>\<open>mars2grib/MarsCachedKeys.h\<close>) over the Fortran encoder
  (\<^verbatim>\<open>mars2grib/multiom\<close>) and eccodes. These are not part of the repository: their functions are the fields of a record,
  and one that fails returns \<open>None\<close>. A configuration that is found in the cache is the one that would be built anew.
\<close>

section \<open>The foreign encoder\<close>

text \<open>
  \<open>'d\<close> is a dictionary of the Fortran encoder, \<open>'e\<close> an encoder and \<open>'h\<close> a handle of eccodes. The encoder is opened from
  the exported configuration; whatever it does with a handle is one function for each of its steps.
\<close>

record ('d, 'e, 'h) foreign =
  dict_create :: "string \<Rightarrow> 'd option"
  dict_set :: "string \<Rightarrow> MetadataValue \<Rightarrow> 'd \<Rightarrow> 'd option"
  encoder_open :: "SectionsConf \<Rightarrow> 'e option"
  encoder_prepare :: "'e \<Rightarrow> 'd \<Rightarrow> 'd \<Rightarrow> 'd \<Rightarrow> 'h \<Rightarrow> 'h option"
  encoder_allocate :: "'e \<Rightarrow> 'd \<Rightarrow> 'd \<Rightarrow> 'd \<Rightarrow> 'h \<Rightarrow> 'h option"
  encoder_preset :: "'e \<Rightarrow> 'd \<Rightarrow> 'd \<Rightarrow> 'd \<Rightarrow> 'h \<Rightarrow> 'h option"
  encoder_runtime :: "'e \<Rightarrow> 'd \<Rightarrow> 'd \<Rightarrow> 'd \<Rightarrow> 'h \<Rightarrow> 'h option"
  default_sample :: 'h
  handle_set :: "string \<Rightarrow> MetadataValue \<Rightarrow> 'h \<Rightarrow> 'h res"

definition success :: "'a option \<Rightarrow> 'a res" where
  "success r = (case r of None \<Rightarrow> Inl Mars2GribException | Some x \<Rightarrow> Inr x)"

datatype MultIOMDictKind =
    Dict_Options | Dict_MARS | Dict_Parametrization | Dict_ReducedGG | Dict_RegularLL | Dict_SH | Dict_HEALPix

fun multIOMDictKindString :: "MultIOMDictKind \<Rightarrow> string" where
  "multIOMDictKindString Dict_Options = ''options''"
| "multIOMDictKindString Dict_MARS = ''mars''"
| "multIOMDictKindString Dict_Parametrization = ''parametrization''"
| "multIOMDictKindString Dict_ReducedGG = ''reduced-gg''"
| "multIOMDictKindString Dict_RegularLL = ''regular-ll''"
| "multIOMDictKindString Dict_SH = ''sh''"
| "multIOMDictKindString Dict_HEALPix = ''HEALPix''"

definition MultIOMDict_create :: "('d, 'e, 'h) foreign \<Rightarrow> MultIOMDictKind \<Rightarrow> 'd res" where
  "MultIOMDict_create api kind = success (dict_create api (multIOMDictKindString kind))"

text \<open>What a value is written as: a flag as a number, the type of processed data by its code.\<close>

fun dump_dict_value :: "dm_value \<Rightarrow> MetadataValue" where
  "dump_dict_value (V_TypeOfProcessedData t) = MInteger (code_TypeOfProcessedData t)"
| "dump_dict_value (V_Bool b) = MInteger (of_bool b)"
| "dump_dict_value v = dump_value v"

definition dumpRecordDict :: "('d, 'e, 'h) foreign \<Rightarrow> RecordDef \<Rightarrow> dm_record \<Rightarrow> 'd \<Rightarrow> 'd res" where
  "dumpRecordDict api R rec =
     fold_res (\<lambda>e d. case rec (ed_key e) of
                       None \<Rightarrow> Inr d
                     | Some v \<Rightarrow> success (dict_set api (ed_key e) (dump_dict_value v) d)) (rd_entries R)"

definition MultIOMRawEncoder_open :: "('d, 'e, 'h) foreign \<Rightarrow> SectionsConf \<Rightarrow> 'e res" where
  "MultIOMRawEncoder_open api conf = success (encoder_open api conf)"

definition allocateAndPreset :: "('d, 'e, 'h) foreign \<Rightarrow> 'e \<Rightarrow> 'h \<Rightarrow> 'd \<Rightarrow> 'd \<Rightarrow> 'd \<Rightarrow> 'h res" where
  "allocateAndPreset api encoder workSample mars par geo =
     bind_res (success (encoder_prepare api encoder mars par geo workSample)) (\<lambda>h.
     bind_res (success (encoder_allocate api encoder mars par geo h)) (\<lambda>h.
     success (encoder_preset api encoder mars par geo h)))"

definition MultIOMRawEncoder_runtime :: "('d, 'e, 'h) foreign \<Rightarrow> 'e \<Rightarrow> 'h \<Rightarrow> 'd \<Rightarrow> 'd \<Rightarrow> 'd \<Rightarrow> 'h res" where
  "MultIOMRawEncoder_runtime api encoder workSample mars par geo =
     success (encoder_runtime api encoder mars par geo workSample)"

section \<open>The keys of the cache\<close>

text \<open>
  Reading a record from another one copies its entries. The defaults of the keys of the cache hide those of the record of
  all MARS keys.
\<close>

definition MarsCacheRecord :: RecordDef where
  "MarsCacheRecord = FullMarsRecord\<lparr>rd_defaults := \<lambda>rec. Inr (cache_applyDefaults rec)\<rparr>"

definition copyRecord :: "RecordDef \<Rightarrow> dm_record \<Rightarrow> dm_record" where
  "copyRecord R rec = fold (\<lambda>e r. r(ed_key e := rec (ed_key e))) (rd_entries R) Map.empty"

definition readRecord_record :: "RecordDef \<Rightarrow> dm_record \<Rightarrow> dm_record res" where
  "readRecord_record R rec =
     bind_res (applyRecordDefaults R (copyRecord R rec)) (\<lambda>rec.
     bind_res (validateRecord R rec) (\<lambda>_. Inr rec))"

section \<open>The cache\<close>

record ('e, 'h) CacheEntry =
  sections :: SectionsConf
  encoder :: 'e
  preparedSample :: 'h

text \<open>Keys are compared entry by entry.\<close>

type_synonym cache_key = "dm_value option list"

type_synonym ('e, 'h) EncoderCache = "cache_key \<Rightarrow> ('e, 'h) CacheEntry option"

definition PrehashedMarsKeys :: "dm_record \<Rightarrow> cache_key res" where
  "PrehashedMarsKeys marsKeys =
     bind_res (readRecord_record MarsCacheRecord marsKeys) (\<lambda>rec.
     Inr (map (\<lambda>e. rec (ed_key e)) (rd_entries MarsCacheRecord)))"

definition prepareSample :: "('d, 'e, 'h) foreign \<Rightarrow> 'h \<Rightarrow> dm_record \<Rightarrow> 'h res" where
  "prepareSample api sample mars =
     bind_res (get_entry mars ''repres'') (\<lambda>r.
     if r = V_Repres Repres_SH
     then fold_res (\<lambda>(k, v). handle_set api k v)
            [(''numberOfDataPoints'', MInteger 6), (''numberOfValues'', MInteger 6), (''bitsPerValue'', MInteger 16),
             (''typeOfFirstFixedSurface'', MInteger 105), (''values'', MDoubleList [1, 2, 3, 4, 5, 6]),
             (''scaleFactorOfFirstFixedSurface'', MInteger 0), (''scaledValueOfFirstFixedSurface'', MInteger 0),
             (''gridDefinitionTemplateNumber'', MInteger 50), (''J'', MInteger 1), (''K'', MInteger 1),
             (''M'', MInteger 1), (''spectralType'', MInteger 1), (''spectralMode'', MInteger 1),
             (''numberOfOctectsForNumberOfPoints'', MInteger 0), (''interpretationOfNumberOfPoints'', MInteger 0),
             (''dataRepresentationTemplateNumber'', MInteger 51)] sample
     else Inr sample)"

text \<open>An operation of the cache returns its result and the cache, which it keeps when it throws.\<close>

definition makeEntry ::
    "('d, 'e, 'h) foreign \<Rightarrow> dm_record \<Rightarrow> 'd \<Rightarrow> 'd \<Rightarrow> 'd \<Rightarrow> ('e, 'h) CacheEntry res" where
  "makeEntry api marsKeys mars misc geo =
     bind_res (buildEncoderConf marsKeys) (\<lambda>conf.
     bind_res (MultIOMRawEncoder_open api conf) (\<lambda>enc.
     bind_res (prepareSample api (default_sample api) marsKeys) (\<lambda>sample.
     bind_res (allocateAndPreset api enc sample mars misc geo) (\<lambda>sample.
     Inr \<lparr>sections = conf, encoder = enc, preparedSample = sample\<rparr>))))"

definition makeOrGetEntry ::
    "('d, 'e, 'h) foreign \<Rightarrow> dm_record \<Rightarrow> 'd \<Rightarrow> 'd \<Rightarrow> 'd \<Rightarrow> ('e, 'h) EncoderCache \<Rightarrow>
     ('e, 'h) CacheEntry res \<times> ('e, 'h) EncoderCache" where
  "makeOrGetEntry api marsKeys mars misc geo cache =
     (case PrehashedMarsKeys marsKeys of
        Inl e \<Rightarrow> (Inl e, cache)
      | Inr key \<Rightarrow>
          (case cache key of
             Some cached \<Rightarrow> (Inr cached, cache)
           | None \<Rightarrow>
               (case makeEntry api marsKeys mars misc geo of
                  Inl e \<Rightarrow> (Inl e, cache)
                | Inr cached \<Rightarrow> (Inr cached, cache(key \<mapsto> cached)))))"

definition getHandle_dicts ::
    "('d, 'e, 'h) foreign \<Rightarrow> dm_record \<Rightarrow> 'd \<Rightarrow> 'd \<Rightarrow> 'd \<Rightarrow> ('e, 'h) EncoderCache \<Rightarrow> 'h res \<times> ('e, 'h) EncoderCache" where
  "getHandle_dicts api marsKeys mars misc geo cache =
     (case makeOrGetEntry api marsKeys mars misc geo cache of
        (Inl e, cache) \<Rightarrow> (Inl e, cache)
      | (Inr cached, cache) \<Rightarrow>
          (MultIOMRawEncoder_runtime api (encoder cached) (preparedSample cached) mars misc geo, cache))"

definition geometry_kind :: "dm_record \<Rightarrow> MultIOMDictKind res" where
  "geometry_kind marsKeys =
     bind_res (get_entry marsKeys ''repres'') (\<lambda>r.
     case r of
       V_Repres Repres_GG \<Rightarrow> Inr Dict_ReducedGG
     | V_Repres Repres_HEALPix \<Rightarrow> Inr Dict_HEALPix
     | V_Repres Repres_LL \<Rightarrow> Inr Dict_RegularLL
     | V_Repres Repres_SH \<Rightarrow> Inr Dict_SH
     | _ \<Rightarrow> Inl Mars2GribException)"

definition make_dicts ::
    "('d, 'e, 'h) foreign \<Rightarrow> dm_record \<Rightarrow> dm_record \<Rightarrow> RecordDef \<times> dm_record \<Rightarrow> ('d \<times> 'd \<times> 'd) res" where
  "make_dicts api marsKeys miscKeys geoKeys =
     bind_res (MultIOMDict_create api Dict_MARS) (\<lambda>mars.
     bind_res (MultIOMDict_create api Dict_Parametrization) (\<lambda>misc.
     bind_res (dumpRecordDict api FullMarsRecord marsKeys mars) (\<lambda>mars.
     bind_res (dumpRecordDict api MiscRecord miscKeys misc) (\<lambda>misc.
     bind_res (geometry_kind marsKeys) (\<lambda>kind.
     bind_res (MultIOMDict_create api kind) (\<lambda>geom.
     bind_res (dumpRecordDict api (fst geoKeys) (snd geoKeys) geom) (\<lambda>geom.
     Inr (mars, misc, geom))))))))"

text \<open>Keys that are set on the finished handle.\<close>

definition set_if :: "('d, 'e, 'h) foreign \<Rightarrow> string \<Rightarrow> dm_value option \<Rightarrow> 'h \<Rightarrow> 'h res" where
  "set_if api k v h = (case v of None \<Rightarrow> Inr h | Some v \<Rightarrow> handle_set api k (dump_value v) h)"

definition finish_handle :: "('d, 'e, 'h) foreign \<Rightarrow> dm_record \<Rightarrow> dm_record \<Rightarrow> 'h \<Rightarrow> 'h res" where
  "finish_handle api marsKeys miscKeys h =
     bind_res (get_entry marsKeys ''repres'') (\<lambda>r.
     bind_res (if r = V_Repres Repres_GG then handle_set api ''shapeOfTheEarth'' (MInteger 6) h else Inr h) (\<lambda>h.
     bind_res (set_if api ''bitmapPresent'' (miscKeys ''bitmapPresent'') h) (\<lambda>h.
     set_if api ''missingValue'' (miscKeys ''missingValue'') h)))"

text \<open>Whatever is thrown below is nested in the exception of the mapping to GRIB.\<close>

definition nested :: "'a res \<Rightarrow> 'a res" where
  "nested r = (case r of Inl UndefinedBehaviour \<Rightarrow> Inl UndefinedBehaviour | Inl e \<Rightarrow> Inl Mars2GribException | Inr x \<Rightarrow> Inr x)"

definition getHandle ::
    "('d, 'e, 'h) foreign \<Rightarrow> dm_record \<Rightarrow> dm_record \<Rightarrow> RecordDef \<times> dm_record \<Rightarrow> ('e, 'h) EncoderCache \<Rightarrow>
     'h res \<times> ('e, 'h) EncoderCache" where
  "getHandle api marsKeys miscKeys geoKeys cache =
     (case make_dicts api marsKeys miscKeys geoKeys of
        Inl e \<Rightarrow> (nested (Inl e), cache)
      | Inr (mars, misc, geom) \<Rightarrow>
          (let (r, cache') = getHandle_dicts api marsKeys mars misc geom cache
           in (nested (bind_res r (finish_handle api marsKeys miscKeys)), cache')))"

section \<open>The rules only use keys of the cache\<close>

fun uses_keys :: "string set \<Rightarrow> matcher \<Rightarrow> bool" where
  "uses_keys ks (Range k a b) = (k \<in> ks)"
| "uses_keys ks (OneOf k vs) = (k \<in> ks)"
| "uses_keys ks (NoneOf k vs) = (k \<in> ks)"
| "uses_keys ks (Has k) = (k \<in> ks)"
| "uses_keys ks (Missing k) = (k \<in> ks)"
| "uses_keys ks (MatchOp k op v) = (k \<in> ks)"
| "uses_keys ks (Ranges ms) = list_all (uses_keys ks) ms"
| "uses_keys ks (All ms) = list_all (uses_keys ks) ms"
| "uses_keys ks (Any ms) = list_all (uses_keys ks) ms"

fun rule_uses :: "string set \<Rightarrow> enc_rule \<Rightarrow> bool" where
  "rule_uses ks (EncRule m setters) = uses_keys ks m"
| "rule_uses ks (ExclusiveRuleList name rules) = list_all (rule_uses ks) rules"
| "rule_uses ks (ChainedRuleList rules) = list_all (rule_uses ks) rules"

definition agree :: "string set \<Rightarrow> dm_record \<Rightarrow> dm_record \<Rightarrow> bool" where
  "agree ks rec rec' \<longleftrightarrow> (\<forall>k\<in>ks. rec k = rec' k)"

lemma matches_agree: "uses_keys ks m \<Longrightarrow> agree ks rec rec' \<Longrightarrow> matches m rec = matches m rec'"
  by (induction m) (auto simp: agree_def list_all_iff)

lemma exclusive_list_cong:
  "\<forall>r\<in>set rules. \<forall>c. g r c = h r c \<Longrightarrow> exclusive_list (map g rules) cb = exclusive_list (map h rules) cb"
proof (induction rules arbitrary: cb)
  case (Cons r rules)
  obtain c b where cb: "cb = (c, b)" by (cases cb)
  show ?case
  proof (cases "h r c")
    case (Inr x)
    obtain c1 m where "x = (c1, m)" by (cases x)
    then show ?thesis using Cons Inr by (simp add: cb)
  qed (use Cons in \<open>simp add: cb\<close>)
qed simp

lemma enc_apply_agree: "rule_uses ks rule \<Longrightarrow> agree ks rec rec' \<Longrightarrow> enc_apply rule rec c = enc_apply rule rec' c"
proof (induction rule arbitrary: c)
  case (EncRule m setters)
  then show ?case using matches_agree [of ks m rec rec'] by simp
next
  case (ExclusiveRuleList name rules)
  then show ?case
    by (auto simp: list_all_iff intro!: exclusive_list_cong)
next
  case (ChainedRuleList rules)
  then show ?case by (auto simp: list_all_iff intro!: chained_first)
qed

lemma uses_matchParams [simp]: "''param'' \<in> ks \<Longrightarrow> uses_keys ks (matchParams args)"
  by (auto simp: matchParams_def list_all_iff split: param_arg.splits)

definition rule_keys :: "string set" where
  "rule_keys = {''repres'', ''anoffset'', ''class'', ''method'', ''channel'', ''type'', ''levtype'', ''number'', ''hdate'',
     ''param'', ''chem'', ''wavelength'', ''packing''}"

lemma tables_use:
  "rule_uses rule_keys gridRules" "rule_uses rule_keys localSectionRules" "rule_uses rule_keys processTypesRules"
  "rule_uses rule_keys satelliteRules" "rule_uses rule_keys packingRules"
  "rule_uses rule_keys paramHLRules" "rule_uses rule_keys paramMLRules" "rule_uses rule_keys paramPTRules"
  "rule_uses rule_keys paramPVRules" "rule_uses rule_keys paramSOLRules" "rule_uses rule_keys paramAlRules"
  by (simp_all add: gridRules_def makeGridRule_def localSectionRules_def processTypesRules_def satelliteRules_def
      singleSatelliteRule_def derivedEnsembleForecastSatelliteRule_def packingRules_def paramHLRules_def paramMLRules_def
      paramPTRules_def paramPVRules_def paramSOLRules_def paramAlRules_def matchLevType_def rule_keys_def)

lemma sfc_uses: "rule_uses rule_keys paramSFCRules"
  by (simp add: paramSFCRules_def sfc_rules_1_def sfc_rules_2_def sfc_rules_3_def sfc_rules_4_def sfc_rules_5_def
      singleSatelliteRule_def matchChemical_def matchAerosol_def rule_keys_def)

lemma pl_uses: "rule_uses (insert ''levelist'' rule_keys) paramPLRules"
  by (simp add: paramPLRules_def plLevelRules_def rule_keys_def)

definition same_rules :: "dm_record \<Rightarrow> dm_record \<Rightarrow> bool" where
  "same_rules rec rec' \<longleftrightarrow>
     agree rule_keys rec rec' \<and> (rec ''levtype'' = Some (V_LevType Lev_PL) \<longrightarrow> rec ''levelist'' = rec' ''levelist'')"

lemma same_horizontal:
  assumes "same_rules rec rec'"
  shows "enc_apply horizontalRules rec c = enc_apply horizontalRules rec' c"
proof -
  have agree: "agree rule_keys rec rec'" and lev: "rec ''levtype'' = rec' ''levtype''"
    using assms by (auto simp: same_rules_def agree_def rule_keys_def)
  let ?pl = "ChainedRuleList [EncRule (matchLevType Lev_PL) [], paramPLRules]"
  have pl: "enc_apply ?pl rec c = enc_apply ?pl rec' c" for c
  proof (cases "rec ''levtype'' = Some (V_LevType Lev_PL)")
    case True
    then have "agree (insert ''levelist'' rule_keys) rec rec'" using assms by (simp add: same_rules_def agree_def)
    moreover have "rule_uses (insert ''levelist'' rule_keys) ?pl"
      using pl_uses by (simp add: matchLevType_def rule_keys_def)
    ultimately show ?thesis using enc_apply_agree by blast
  next
    case False
    then have "\<not> applies ?pl rec" "\<not> applies ?pl rec'"
      using lev by (auto simp: matchLevType_def split: option.splits)
    then show ?thesis using enc_apply_skip by metis
  qed
  have "enc_apply r rec c = enc_apply r rec' c" if "r \<in> set (rules_of horizontalRules)" for r c
  proof (cases "r = ?pl")
    case False
    then have "rule_uses rule_keys r"
      using that tables_use sfc_uses by (auto simp: horizontalRules_def matchLevType_def rule_keys_def)
    then show ?thesis using agree enc_apply_agree by blast
  qed (simp only: pl)
  then have "\<forall>r\<in>set (rules_of horizontalRules). \<forall>c. enc_apply r rec c = enc_apply r rec' c" by blast
  moreover obtain name where "horizontalRules = ExclusiveRuleList name (rules_of horizontalRules)"
    by (simp add: horizontalRules_def)
  ultimately show ?thesis
    using exclusive_list_cong [of "rules_of horizontalRules" "\<lambda>r. enc_apply r rec" "\<lambda>r. enc_apply r rec'" "(c, False)"]
    by (metis enc_apply.simps(2))
qed

lemma same_buildEncoderConf:
  assumes "same_rules rec rec'"
  shows "buildEncoderConf rec = buildEncoderConf rec'"
proof -
  have "enc_apply r rec c = enc_apply r rec' c"
    if "r \<in> {gridRules, localSectionRules, processTypesRules, horizontalRules, satelliteRules, packingRules}" for r c
    using that assms same_horizontal tables_use enc_apply_agree by (auto simp: same_rules_def)
  then have "enc_apply encoder_rules rec c = enc_apply encoder_rules rec' c" for c
    unfolding encoder_rules_def enc_apply.simps by (intro chained_first) auto
  then show ?thesis by (simp add: buildEncoderConf_def)
qed

section \<open>The cache holds what the rules build\<close>

lemma fold_copy:
  "fold (\<lambda>e r. r(ed_key e := rec (ed_key e))) es r k = (if k \<in> ed_key ` set es then rec k else r k)"
  by (induction es arbitrary: r) auto

lemma copyRecord_key: "k \<in> ed_key ` set (rd_entries R) \<Longrightarrow> copyRecord R rec k = rec k"
  by (simp add: copyRecord_def fold_copy)

lemma copyRecord_fun: "copyRecord R rec = (\<lambda>k. if k \<in> ed_key ` set (rd_entries R) then rec k else None)"
  by (rule ext) (simp add: copyRecord_def fold_copy)

lemma mars_key_set:
  "ed_key ` set (rd_entries FullMarsRecord) \<supseteq> insert ''levelist'' rule_keys"
  by (simp add: FullMarsRecord_def mars_groups mars_keys entry_defs rule_keys_def)

lemma mars_entry_defaults: "fold applyEntryDefaults (rd_entries FullMarsRecord) rec = applyEntryDefaults ORIGIN rec"
proof -
  have "\<forall>e\<in>set es. ed_default e = None \<Longrightarrow> fold applyEntryDefaults es r = r" for es r
    by (induction es) (auto simp: applyEntryDefaults_def)
  moreover have "rd_entries FullMarsRecord = ORIGIN # tl (rd_entries FullMarsRecord)"
    by (simp add: FullMarsRecord_def mars_groups)
  moreover have "\<forall>e\<in>set (tl (rd_entries FullMarsRecord)). ed_default e = None"
    by (simp add: FullMarsRecord_def mars_groups mars_keys entry_defs)
  ultimately show ?thesis by (metis fold_simps(2))
qed

definition cached_keys :: "dm_record \<Rightarrow> dm_record" where
  "cached_keys mars =
     cache_applyDefaults (fold applyEntryDefaults (rd_entries FullMarsRecord) (copyRecord FullMarsRecord mars))"

lemma cached_keys_key:
  assumes "k \<in> insert ''levelist'' rule_keys"
  shows "cached_keys mars k =
     (if k = ''levelist'' \<and> mars ''levtype'' = Some (V_LevType Lev_ML) then None else mars k)"
proof -
  have same: "applyEntryDefaults ORIGIN (copyRecord FullMarsRecord mars) k = mars k"
    if k: "k \<in> insert ''levelist'' rule_keys" for k
  proof -
    have "k \<noteq> ''origin''" using k by (auto simp: rule_keys_def)
    moreover have "copyRecord FullMarsRecord mars k = mars k" by (rule copyRecord_key [OF subsetD [OF mars_key_set k]])
    ultimately show ?thesis by (simp add: applyEntryDefaults_def ORIGIN_def entry_defs)
  qed
  show ?thesis
    using assms same [of k] same [of "''levtype''"]
    by (auto simp: cached_keys_def mars_entry_defaults cache_applyDefaults_def Let_def rule_keys_def)
qed

lemma cached_keys_step: "cached_keys (mars(''step'' := v)) = cached_keys mars"
proof
  fix k
  have "''step'' \<in> ed_key ` set (rd_entries FullMarsRecord)"
    by (simp add: FullMarsRecord_def mars_groups mars_keys entry_defs)
  then have "copyRecord FullMarsRecord (mars(''step'' := v)) = (copyRecord FullMarsRecord mars)(''step'' := v)"
    by (simp only: copyRecord_fun) (auto intro!: ext)
  then show "cached_keys (mars(''step'' := v)) k = cached_keys mars k"
    by (auto simp: cached_keys_def mars_entry_defaults cache_applyDefaults_def Let_def applyEntryDefaults_def ORIGIN_def
        entry_defs)
qed

lemma PrehashedMarsKeys_cached:
  "PrehashedMarsKeys mars =
     bind_res (validateRecord MarsCacheRecord (cached_keys mars)) (\<lambda>_.
     Inr (map (\<lambda>e. cached_keys mars (ed_key e)) (rd_entries FullMarsRecord)))"
proof -
  have "applyRecordDefaults MarsCacheRecord (copyRecord MarsCacheRecord mars) = Inr (cached_keys mars)"
    by (simp add: applyRecordDefaults_def MarsCacheRecord_def cached_keys_def copyRecord_def)
  then show ?thesis
    by (simp add: PrehashedMarsKeys_def readRecord_record_def MarsCacheRecord_def bind_res_assoc)
qed

lemma PrehashedMarsKeys_Inr:
  "PrehashedMarsKeys mars = Inr key \<Longrightarrow> key = map (\<lambda>e. cached_keys mars (ed_key e)) (rd_entries FullMarsRecord)"
  by (auto simp: PrehashedMarsKeys_cached bind_res_Inr_iff)

lemma same_keys_same_rules:
  assumes "PrehashedMarsKeys mars = Inr key" "PrehashedMarsKeys mars' = Inr key"
  shows "same_rules mars mars'"
proof -
  have "map (\<lambda>e. cached_keys mars (ed_key e)) (rd_entries FullMarsRecord) =
      map (\<lambda>e. cached_keys mars' (ed_key e)) (rd_entries FullMarsRecord)"
    using assms PrehashedMarsKeys_Inr by metis
  then have eq: "cached_keys mars k = cached_keys mars' k" if "k \<in> insert ''levelist'' rule_keys" for k
    using that mars_key_set by (auto simp: map_eq_conv)
  have keys: "mars k = mars' k" if "k \<in> rule_keys" for k
    using eq [of k] cached_keys_key [of k mars] cached_keys_key [of k mars'] that by (auto simp: rule_keys_def)
  then have "mars ''levtype'' = mars' ''levtype''" by (simp add: rule_keys_def)
  then show ?thesis
    using eq [of "''levelist''"] cached_keys_key [of "''levelist''" mars] cached_keys_key [of "''levelist''" mars'] keys
    by (auto simp: same_rules_def agree_def)
qed

text \<open>
  The invariant of the cache: an entry has the configuration of every record of MARS keys with its key. It is stated over
  any sequence of fields that are encoded, whatever the foreign encoder does.
\<close>

definition cache_ok :: "('e, 'h) EncoderCache \<Rightarrow> bool" where
  "cache_ok cache \<longleftrightarrow>
     (\<forall>mars key cached. PrehashedMarsKeys mars = Inr key \<longrightarrow> cache key = Some cached \<longrightarrow>
        buildEncoderConf mars = Inr (sections cached))"

type_synonym field_keys = "dm_record \<times> dm_record \<times> RecordDef \<times> dm_record"

fun encode_fields ::
    "('d, 'e, 'h) foreign \<Rightarrow> field_keys list \<Rightarrow> ('e, 'h) EncoderCache \<Rightarrow> 'h res list \<times> ('e, 'h) EncoderCache" where
  "encode_fields api [] cache = ([], cache)"
| "encode_fields api ((mars, misc, geo) # fs) cache =
     (let (r, cache) = getHandle api mars misc geo cache; (rs, cache) = encode_fields api fs cache in (r # rs, cache))"

lemma makeEntry_sections: "makeEntry api marsKeys mars misc geo = Inr cached \<Longrightarrow> buildEncoderConf marsKeys = Inr (sections cached)"
  by (auto simp: makeEntry_def bind_res_Inr_iff)

lemma makeOrGetEntry_ok:
  assumes "cache_ok cache" "makeOrGetEntry api marsKeys mars misc geo cache = (r, cache')"
  shows "cache_ok cache'" "r = Inr cached \<Longrightarrow> buildEncoderConf marsKeys = Inr (sections cached)"
proof -
  have new: "cache_ok (cache(key \<mapsto> cached))"
    if "PrehashedMarsKeys marsKeys = Inr key" "buildEncoderConf marsKeys = Inr (sections cached)" for key cached
    using assms(1) that same_keys_same_rules same_buildEncoderConf
    by (force simp: cache_ok_def split: if_splits)
  show "cache_ok cache'"
  proof (cases "PrehashedMarsKeys marsKeys")
    case (Inr key)
    then show ?thesis
      using assms new [OF Inr] makeEntry_sections [of api marsKeys mars misc geo]
      by (cases "makeEntry api marsKeys mars misc geo") (auto simp: makeOrGetEntry_def split: option.splits)
  qed (use assms in \<open>simp add: makeOrGetEntry_def\<close>)
  show "buildEncoderConf marsKeys = Inr (sections cached)" if r: "r = Inr cached"
  proof (cases "PrehashedMarsKeys marsKeys")
    case (Inr key)
    then show ?thesis
      using assms r makeEntry_sections [of api marsKeys mars misc geo]
      by (cases "makeEntry api marsKeys mars misc geo") (auto simp: makeOrGetEntry_def cache_ok_def split: option.splits)
  qed (use assms r in \<open>simp add: makeOrGetEntry_def\<close>)
qed

lemma getHandle_dicts_ok:
  assumes "cache_ok cache" "getHandle_dicts api marsKeys mars misc geo cache = (r, cache')"
  shows "cache_ok cache'"
proof -
  obtain x c where "makeOrGetEntry api marsKeys mars misc geo cache = (x, c)" by fastforce
  then show ?thesis
    using assms makeOrGetEntry_ok(1) [OF assms(1)] by (cases x) (auto simp: getHandle_dicts_def)
qed

lemma getHandle_ok:
  assumes "cache_ok cache" "getHandle api marsKeys miscKeys geoKeys cache = (r, cache')"
  shows "cache_ok cache'"
proof (cases "make_dicts api marsKeys miscKeys geoKeys")
  case (Inr x)
  obtain mars misc geom where x: "x = (mars, misc, geom)" by (cases x)
  obtain y c where "getHandle_dicts api marsKeys mars misc geom cache = (y, c)" by fastforce
  then show ?thesis using assms getHandle_dicts_ok [OF assms(1)] Inr x by (auto simp: getHandle_def)
qed (use assms in \<open>simp add: getHandle_def\<close>)

lemma encode_fields_ok: "cache_ok cache \<Longrightarrow> encode_fields api fs cache = (rs, cache') \<Longrightarrow> cache_ok cache'"
proof (induction fs arbitrary: cache rs cache')
  case (Cons f fs)
  obtain mars misc geo where f: "f = (mars, misc, geo)" by (cases f)
  obtain r c where r: "getHandle api mars misc geo cache = (r, c)" by fastforce
  obtain ss c' where ss: "encode_fields api fs c = (ss, c')" by fastforce
  have "cache_ok c" using getHandle_ok [OF Cons.prems(1) r] .
  then show ?case using Cons.IH [OF _ ss] Cons.prems(2) r ss by (simp add: f)
qed simp

text \<open>
  Property C18. Whatever fields have been encoded before and whatever the foreign encoder does, an entry of the cache that is
  used for a field has the configuration the rules build for this field, although the key of the cache leaves out its
  step, direction and frequency, and its level on model levels.
\<close>

theorem cached_configuration_is_fresh:
  assumes "encode_fields api fs Map.empty = (rs, cache)"
    and "makeOrGetEntry api marsKeys mars misc geo cache = (Inr cached, cache')"
  shows "buildEncoderConf marsKeys = Inr (sections cached)"
proof (rule makeOrGetEntry_ok(2) [OF encode_fields_ok [OF _ assms(1)] assms(2) refl])
  show "cache_ok Map.empty" by (simp add: cache_ok_def)
qed

text \<open>A foreign encoder that records what it is asked to do.\<close>

definition recorder :: "((string \<times> MetadataValue) list, SectionsConf, (string \<times> MetadataValue) list) foreign" where
  "recorder =
     \<lparr>dict_create = (\<lambda>kind. Some []), dict_set = (\<lambda>k v d. Some ((k, v) # d)), encoder_open = Some,
      encoder_prepare = (\<lambda>e mars par geo h. Some h), encoder_allocate = (\<lambda>e mars par geo h. Some h),
      encoder_preset = (\<lambda>e mars par geo h. Some h), encoder_runtime = (\<lambda>e mars par geo h. Some (mars @ h)),
      default_sample = [], handle_set = (\<lambda>k v h. Inr ((k, v) # h))\<rparr>"

definition forecast_field :: "int \<Rightarrow> dm_record" where
  "forecast_field hours = isobaric_field
     (''origin'' \<mapsto> V_String ''ecmf'', ''stream'' \<mapsto> V_String ''oper'', ''expver'' \<mapsto> V_String ''0001'',
      ''date'' \<mapsto> V_Int 20240101, ''time'' \<mapsto> V_Int 1200, ''grid'' \<mapsto> V_String ''N320'',
      ''step'' \<mapsto> V_TimeDuration (Hours hours))"

definition one_encoded :: "(SectionsConf, (string \<times> MetadataValue) list) EncoderCache" where
  "one_encoded = snd (encode_fields recorder [(forecast_field 6, Map.empty, GeoGGRecord, Map.empty)] Map.empty)"

lemma forecast_keys:
  "\<exists>key. PrehashedMarsKeys (forecast_field 6) = Inr key"
proof -
  have "case PrehashedMarsKeys (forecast_field 6) of Inl _ \<Rightarrow> False | Inr key \<Rightarrow> True"
    by code_simp
  then show ?thesis by (cases "PrehashedMarsKeys (forecast_field 6)") auto
qed

lemma forecast_same_keys: "PrehashedMarsKeys (forecast_field 12) = PrehashedMarsKeys (forecast_field 6)"
proof -
  have "forecast_field 12 = (forecast_field 6)(''step'' \<mapsto> V_TimeDuration (Hours 12))"
    by (simp add: forecast_field_def)
  then show ?thesis by (simp only: PrehashedMarsKeys_cached cached_keys_step)
qed

lemma forecast_entry: "\<exists>cached. makeEntry recorder (forecast_field 6) mars misc geo = Inr cached"
proof -
  have "case makeEntry recorder (forecast_field 6) [] [] [] of Inl _ \<Rightarrow> False | Inr _ \<Rightarrow> True"
    by code_simp
  moreover have "makeEntry recorder (forecast_field 6) mars misc geo = makeEntry recorder (forecast_field 6) [] [] []"
    by (simp add: makeEntry_def allocateAndPreset_def recorder_def)
  ultimately show ?thesis by (cases "makeEntry recorder (forecast_field 6) [] [] []") auto
qed

lemma forecast_dicts:
  "\<exists>mars misc geom. make_dicts recorder (forecast_field 6) Map.empty (GeoGGRecord, Map.empty) = Inr (mars, misc, geom)"
proof -
  have "case make_dicts recorder (forecast_field 6) Map.empty (GeoGGRecord, Map.empty) of Inl _ \<Rightarrow> False | Inr _ \<Rightarrow> True"
    by code_simp
  then show ?thesis by (cases "make_dicts recorder (forecast_field 6) Map.empty (GeoGGRecord, Map.empty)") auto
qed

lemma cached_configuration_is_fresh_witness:
  "\<exists>key cached. PrehashedMarsKeys (forecast_field 6) = Inr key \<and> one_encoded key = Some cached \<and>
     makeOrGetEntry recorder (forecast_field 12) [] [] [] one_encoded = (Inr cached, one_encoded) \<and>
     buildEncoderConf (forecast_field 12) = Inr (sections cached)"
proof -
  obtain key where key: "PrehashedMarsKeys (forecast_field 6) = Inr key" using forecast_keys by blast
  obtain mars misc geom where dicts:
    "make_dicts recorder (forecast_field 6) Map.empty (GeoGGRecord, Map.empty) = Inr (mars, misc, geom)"
    using forecast_dicts by blast
  obtain cached where "makeEntry recorder (forecast_field 6) mars misc geom = Inr cached" using forecast_entry by blast
  then have one: "one_encoded key = Some cached"
    using key dicts by (simp add: one_encoded_def getHandle_def getHandle_dicts_def makeOrGetEntry_def)
  obtain rs where run: "encode_fields recorder [(forecast_field 6, Map.empty, GeoGGRecord, Map.empty)] Map.empty =
      (rs, one_encoded)"
    unfolding one_encoded_def by (metis prod.collapse)
  have hit: "makeOrGetEntry recorder (forecast_field 12) [] [] [] one_encoded = (Inr cached, one_encoded)"
    using key one by (simp add: makeOrGetEntry_def forecast_same_keys)
  show ?thesis using key one hit cached_configuration_is_fresh [OF run hit] by blast
qed

end
