(* ===== verification/Levels.thy ===== *)
theory Levels
  imports EncoderOutcome "HOL-Library.Signed_Division"
begin

text \<open>
  The section of the level (\<^verbatim>\<open>mars2grib/sections/Level\<close>) and the collector of sections
  (\<^verbatim>\<open>mars2grib/sections/SectionSetter\<close>): the level and the fixed surfaces of a type of level, and which of the steps
  of a section are run.
\<close>

section \<open>The level of a type of level\<close>

definition get_level_type :: "LevelConfigurator \<Rightarrow> TypeOfLevel res" where
  "get_level_type conf = (case level_type conf of None \<Rightarrow> Inl DataModellingException | Some t \<Rightarrow> Inr t)"

definition get_levelist :: "dm_record \<Rightarrow> int res" where
  "get_levelist mars = (case mars ''levelist'' of Some (V_Int l) \<Rightarrow> Inr l | _ \<Rightarrow> Inl Mars2GribException)"

definition isSFC :: "dm_record \<Rightarrow> bool" where
  "isSFC mars \<longleftrightarrow> mars ''levtype'' = Some (V_LevType Lev_SFC)"

definition levelForTypeOfLevel :: "LevelConfigurator \<Rightarrow> dm_record \<Rightarrow> int option res" where
  "levelForTypeOfLevel conf mars =
     bind_res (get_level_type conf) (\<lambda>t.
     if t \<in> {Tol_HeightAboveSea, Tol_HeightAboveSeaAt10m, Tol_HeightAboveGroundAt2m, Tol_HeightAboveGroundAt10m,
             Tol_HeightAboveGround}
     then (case fixedLevel conf of
             Some l \<Rightarrow> Inr (Some l)
           | None \<Rightarrow> if isSFC mars then bind_res (get_levelist mars) (\<lambda>l. Inr (Some l)) else Inr None)
     else if t \<in> {Tol_Snow, Tol_SnowLayer, Tol_SoilLayer, Tol_SeaIceLayer, Tol_IsobaricInPa, Tol_PotentialVorticity,
                  Tol_Theta, Tol_Hybrid}
     then bind_res (get_levelist mars) (\<lambda>l. Inr (Some l))
     else if t = Tol_IsobaricInhPa then bind_res (get_levelist mars) (\<lambda>l. Inr (Some (l sdiv 100)))
     else Inr None)"

section \<open>The fixed surfaces of a type of level\<close>

definition surface_record :: "(string \<times> int) list \<Rightarrow> dm_record" where
  "surface_record kvs = map_of (map (\<lambda>(k, i). (k, V_Int i)) kvs)"

text \<open>None of the keys has a default and all are optional, but the code applies the defaults and the checks.\<close>

definition finish_horizontal :: "dm_record \<Rightarrow> dm_record res" where
  "finish_horizontal ret =
     bind_res (applyRecordDefaults HorizontalGribKeys ret) (\<lambda>ret.
     bind_res (validateRecord HorizontalGribKeys ret) (\<lambda>_. Inr ret))"

definition handleHeightAbove :: "LevelConfigurator \<Rightarrow> dm_record \<Rightarrow> int \<Rightarrow> dm_record res" where
  "handleHeightAbove conf mars typeOfFirst =
     (let ret = surface_record [(''typeOfFirstFixedSurface'', typeOfFirst), (''typeOfSecondFixedSurface'', 255)];
          ret = (case fixedLevel conf of
                   None \<Rightarrow> ret
                 | Some l \<Rightarrow> ret(''scaledValueOfFirstFixedSurface'' \<mapsto> V_Int l, ''scaleFactorOfFirstFixedSurface'' \<mapsto> V_Int 0))
      in bind_res (if isSFC mars
                   then bind_res (get_levelist mars) (\<lambda>l.
                     Inr (ret(''scaledValueOfFirstFixedSurface'' \<mapsto> V_Int l, ''scaleFactorOfFirstFixedSurface'' \<mapsto> V_Int 0)))
                   else Inr ret) finish_horizontal)"

definition handle2SurfacesWithoutLevel :: "int \<Rightarrow> int \<Rightarrow> dm_record res" where
  "handle2SurfacesWithoutLevel typeOfFirst typeOfSecond =
     finish_horizontal (surface_record [(''typeOfFirstFixedSurface'', typeOfFirst), (''typeOfSecondFixedSurface'', typeOfSecond)])"

definition handle1SurfaceWithoutLevel :: "int \<Rightarrow> dm_record res" where
  "handle1SurfaceWithoutLevel typeOfFirst =
     finish_horizontal (surface_record [(''typeOfFirstFixedSurface'', typeOfFirst), (''typeOfSecondFixedSurface'', 255)])"

definition handle1SurfaceWithLevel :: "LevelConfigurator \<Rightarrow> dm_record \<Rightarrow> int \<Rightarrow> string option \<Rightarrow> dm_record res" where
  "handle1SurfaceWithLevel conf mars typeOfFirst units =
     bind_res (case fixedLevel conf of Some l \<Rightarrow> Inr l | None \<Rightarrow> get_levelist mars) (\<lambda>l.
     let ret = surface_record [(''typeOfFirstFixedSurface'', typeOfFirst), (''typeOfSecondFixedSurface'', 255),
           (''scaledValueOfFirstFixedSurface'', l), (''scaleFactorOfFirstFixedSurface'', 0)]
     in finish_horizontal (case units of None \<Rightarrow> ret | Some u \<Rightarrow> ret(''pressureUnits'' \<mapsto> V_String u)))"

definition handle2SurfaceLayerWithlevel :: "dm_record \<Rightarrow> int \<Rightarrow> dm_record res" where
  "handle2SurfaceLayerWithlevel mars typeOfSurface =
     bind_res (get_levelist mars) (\<lambda>l.
     if \<not> in_int64 (l - 1) then Inl UndefinedBehaviour
     else finish_horizontal (surface_record
       [(''typeOfFirstFixedSurface'', typeOfSurface), (''typeOfSecondFixedSurface'', typeOfSurface),
        (''scaledValueOfFirstFixedSurface'', l - 1), (''scaleFactorOfFirstFixedSurface'', 0),
        (''scaledValueOfSecondFixedSurface'', l), (''scaleFactorOfSecondFixedSurface'', 0)]))"

text \<open>The types of level with one surface, or two, and no level.\<close>

definition one_surface :: "(TypeOfLevel \<times> int) list" where
  "one_surface =
     [(Tol_Surface, 1), (Tol_IceTopOnWater, 174), (Tol_CloudBase, 2), (Tol_AbstractMultipleLevels, 191),
      (Tol_AbstractSingleLevel, 191), (Tol_Isothermal, 20), (Tol_LakeBottom, 162), (Tol_MeanSea, 101),
      (Tol_MixedLayerParcel, 18), (Tol_MostUnstableParcel, 17), (Tol_MixingLayer, 166), (Tol_NominalTop, 8),
      (Tol_Tropopause, 7)]"

definition two_surfaces :: "(TypeOfLevel \<times> int \<times> int) list" where
  "two_surfaces =
     [(Tol_EntireLake, 1, 162), (Tol_EntireAtmosphere, 1, 8), (Tol_DepthBelowSeaLayer, 160, 160),
      (Tol_IceLayerOnWater, 174, 176)]"

definition level_surfaces :: "(TypeOfLevel \<times> int \<times> string option) list" where
  "level_surfaces =
     [(Tol_Hybrid, 105, Some ''hPa''), (Tol_PotentialVorticity, 109, None), (Tol_Theta, 107, None), (Tol_Snow, 114, None),
      (Tol_IsobaricInPa, 100, Some ''pa''), (Tol_IsobaricInhPa, 100, Some ''hPa'')]"

definition layer_surfaces :: "(TypeOfLevel \<times> int) list" where
  "layer_surfaces = [(Tol_SeaIceLayer, 152), (Tol_SnowLayer, 114), (Tol_SoilLayer, 151)]"

definition cloud_layers :: "(TypeOfLevel \<times> (string \<times> int) list) list" where
  "cloud_layers =
     [(Tol_HighCloudLayer,
        [(''typeOfFirstFixedSurface'', 100), (''typeOfSecondFixedSurface'', 8),
         (''scaledValueOfFirstFixedSurface'', 45000), (''scaleFactorOfFirstFixedSurface'', 0)]),
      (Tol_MediumCloudLayer,
        [(''typeOfFirstFixedSurface'', 100), (''typeOfSecondFixedSurface'', 100),
         (''scaledValueOfFirstFixedSurface'', 80000), (''scaleFactorOfFirstFixedSurface'', 0),
         (''scaledValueOfSecondFixedSurface'', 45000), (''scaleFactorOfSecondFixedSurface'', 0)]),
      (Tol_LowCloudLayer,
        [(''typeOfFirstFixedSurface'', 1), (''typeOfSecondFixedSurface'', 100),
         (''scaledValueOfSecondFixedSurface'', 80000), (''scaleFactorOfSecondFixedSurface'', 0)])]"

definition horizontalForTypeOfLevel :: "LevelConfigurator \<Rightarrow> dm_record \<Rightarrow> dm_record res" where
  "horizontalForTypeOfLevel conf mars =
     bind_res (get_level_type conf) (\<lambda>t.
     if t \<in> {Tol_HeightAboveSea, Tol_HeightAboveSeaAt10m} then handleHeightAbove conf mars 102
     else if t \<in> {Tol_HeightAboveGroundAt2m, Tol_HeightAboveGroundAt10m, Tol_HeightAboveGround}
     then handleHeightAbove conf mars 103
     else case map_of two_surfaces t of
       Some (a, b) \<Rightarrow> handle2SurfacesWithoutLevel a b
     | None \<Rightarrow>
         (case map_of one_surface t of
            Some a \<Rightarrow> handle1SurfaceWithoutLevel a
          | None \<Rightarrow>
              (case map_of level_surfaces t of
                 Some (a, units) \<Rightarrow> handle1SurfaceWithLevel conf mars a units
               | None \<Rightarrow>
                   (case map_of cloud_layers t of
                      Some kvs \<Rightarrow> finish_horizontal (surface_record kvs)
                    | None \<Rightarrow>
                        (case map_of layer_surfaces t of
                           Some a \<Rightarrow> handle2SurfaceLayerWithlevel mars a
                         | None \<Rightarrow> Inr Map.empty)))))"

section \<open>The vertical coordinates\<close>

text \<open>\<open>by_ref\<close>: whether the entry of the coefficients refers to a value that belongs to another object.\<close>

definition verticalForTypeOfLevel :: "bool \<Rightarrow> LevelConfigurator \<Rightarrow> dm_record \<Rightarrow> dm_record \<Rightarrow> dm_record option res" where
  "verticalForTypeOfLevel by_ref conf mars misc =
     bind_res (get_level_type conf) (\<lambda>t.
     if t \<in> {Tol_Hybrid, Tol_Snow} \<and> mars ''levtype'' = Some (V_LevType Lev_ML)
     then (if \<not> by_ref then Inl AssertionFailed
           else case misc ''pv'' of
             None \<Rightarrow> Inl Mars2GribException
           | Some pv \<Rightarrow>
               bind_res (applyRecordDefaults VerticalGribKeys [''pv'' \<mapsto> pv]) (\<lambda>ret.
               bind_res (validateRecord VerticalGribKeys ret) (\<lambda>_. Inr (Some ret))))
     else Inr None)"

section \<open>Sections and their collector\<close>

text \<open>
  A section says which of its steps are implemented; the collector runs those steps of its sections in the order they were
  added. \<open>'c\<close> are the keys a step depends on, \<open>'h\<close> is a handle of eccodes.
\<close>

record SectionConfig =
  registerPrepare :: bool
  registerAllocate :: bool
  registerPreset :: bool
  registerRuntime :: bool
  registerCheck :: bool

record ('c, 'h) DynSectionSetter =
  sectionInfo :: SectionConfig
  sect_prepare :: "'c \<Rightarrow> 'h \<Rightarrow> 'h res"
  sect_allocate :: "'c \<Rightarrow> 'h \<Rightarrow> 'h res"
  sect_preset :: "'c \<Rightarrow> 'h \<Rightarrow> 'h res"
  sect_runtime :: "'c \<Rightarrow> 'h \<Rightarrow> 'h res"
  sect_check :: "'c \<Rightarrow> 'h \<Rightarrow> unit res"

record ('c, 'h) SectionCollector =
  prepare_list :: "('c, 'h) DynSectionSetter list"
  allocate_list :: "('c, 'h) DynSectionSetter list"
  preset_list :: "('c, 'h) DynSectionSetter list"
  runtime_list :: "('c, 'h) DynSectionSetter list"
  check_list :: "('c, 'h) DynSectionSetter list"

definition empty_collector :: "('c, 'h) SectionCollector" where
  "empty_collector = \<lparr>prepare_list = [], allocate_list = [], preset_list = [], runtime_list = [], check_list = []\<rparr>"

definition collector_add :: "('c, 'h) DynSectionSetter \<Rightarrow> ('c, 'h) SectionCollector \<Rightarrow> ('c, 'h) SectionCollector" where
  "collector_add sect col =
     (let config = sectionInfo sect;
          push = (\<lambda>registered xs. if registered then xs @ [sect] else xs)
      in \<lparr>prepare_list = push (registerPrepare config) (prepare_list col),
          allocate_list = push (registerAllocate config) (allocate_list col),
          preset_list = push (registerPreset config) (preset_list col),
          runtime_list = push (registerRuntime config) (runtime_list col),
          check_list = push (registerCheck config) (check_list col)\<rparr>)"

definition collector_prepare :: "('c, 'h) SectionCollector \<Rightarrow> 'c \<Rightarrow> 'h \<Rightarrow> 'h res" where
  "collector_prepare col keys = fold_res (\<lambda>sect. sect_prepare sect keys) (prepare_list col)"

definition collector_allocate :: "('c, 'h) SectionCollector \<Rightarrow> 'c \<Rightarrow> 'h \<Rightarrow> 'h res" where
  "collector_allocate col keys = fold_res (\<lambda>sect. sect_allocate sect keys) (allocate_list col)"

definition collector_preset :: "('c, 'h) SectionCollector \<Rightarrow> 'c \<Rightarrow> 'h \<Rightarrow> 'h res" where
  "collector_preset col keys = fold_res (\<lambda>sect. sect_preset sect keys) (preset_list col)"

definition collector_runtime :: "('c, 'h) SectionCollector \<Rightarrow> 'c \<Rightarrow> 'h \<Rightarrow> 'h res" where
  "collector_runtime col keys = fold_res (\<lambda>sect. sect_runtime sect keys) (runtime_list col)"

text \<open>The checks of the sections that are registered to run.\<close>

definition collector_check :: "('c, 'h) SectionCollector \<Rightarrow> 'c \<Rightarrow> 'h \<Rightarrow> unit res" where
  "collector_check col keys h = fold_res (\<lambda>sect _. sect_check sect keys h) (runtime_list col) ()"

text \<open>
  The section of the level; setting a key of a handle and reading a record from one are eccodes. A flag stands for the
  vertical coordinates being a reference.
\<close>

record level_keys =
  lk_mars :: dm_record
  lk_misc :: dm_record
  lk_by_ref :: bool

type_synonym 'h handle_setter = "string \<Rightarrow> MetadataValue \<Rightarrow> 'h \<Rightarrow> 'h res"

definition dump_to_handle :: "'h handle_setter \<Rightarrow> RecordDef \<Rightarrow> dm_record \<Rightarrow> 'h \<Rightarrow> 'h res" where
  "dump_to_handle put R rec =
     fold_res (\<lambda>e h. case rec (ed_key e) of None \<Rightarrow> Inr h | Some v \<Rightarrow> put (ed_key e) (dump_value v) h) (rd_entries R)"

definition setLevels :: "'h handle_setter \<Rightarrow> LevelConfigurator \<Rightarrow> level_keys \<Rightarrow> 'h \<Rightarrow> 'h res" where
  "setLevels put conf keys h =
     bind_res (levelForTypeOfLevel conf (lk_mars keys)) (\<lambda>optLevel.
     bind_res (case level_type conf of None \<Rightarrow> Inr h | Some t \<Rightarrow> put ''typeOfLevel'' (MString (dump_TypeOfLevel t)) h) (\<lambda>h.
     case optLevel of None \<Rightarrow> Inr h | Some l \<Rightarrow> put ''level'' (MInteger l) h))"

definition level_allocate :: "'h handle_setter \<Rightarrow> LevelConfigurator \<Rightarrow> level_keys \<Rightarrow> 'h \<Rightarrow> 'h res" where
  "level_allocate put conf keys h =
     bind_res (verticalForTypeOfLevel (lk_by_ref keys) conf (lk_mars keys) (lk_misc keys)) (\<lambda>vert.
     case vert of None \<Rightarrow> Inr h | Some v \<Rightarrow> dump_to_handle put VerticalGribKeys v h)"

definition level_check :: "('h \<Rightarrow> dm_record res) \<Rightarrow> LevelConfigurator \<Rightarrow> level_keys \<Rightarrow> 'h \<Rightarrow> unit res" where
  "level_check read conf keys h =
     bind_res (horizontalForTypeOfLevel conf (lk_mars keys)) (\<lambda>infered.
     bind_res (read h) (\<lambda>horiz.
     if list_ex (\<lambda>e. infered (ed_key e) \<noteq> horiz (ed_key e)) (rd_entries HorizontalGribKeys)
     then Inl Mars2GribException else Inr ()))"

definition LevelSetter ::
    "'h handle_setter \<Rightarrow> ('h \<Rightarrow> dm_record res) \<Rightarrow> LevelConfigurator \<Rightarrow> (level_keys, 'h) DynSectionSetter" where
  "LevelSetter put read conf =
     \<lparr>sectionInfo = \<lparr>registerPrepare = False, registerAllocate = True, registerPreset = True, registerRuntime = True,
                     registerCheck = True\<rparr>,
      sect_prepare = (\<lambda>keys. Inr), sect_allocate = level_allocate put conf, sect_preset = setLevels put conf,
      sect_runtime = setLevels put conf, sect_check = level_check read conf\<rparr>"

section \<open>The level and the surfaces agree\<close>

lemma finish_horizontal_id [simp]: "finish_horizontal ret = Inr ret"
proof -
  have "validateRecord HorizontalGribKeys ret = Inr ()"
    by (simp add: validateRecord_def HorizontalGribKeys_def plain_def validateEntry_def grib_keys entry_defs)
  moreover have "applyRecordDefaults HorizontalGribKeys ret = Inr ret"
    by (simp add: applyRecordDefaults_def HorizontalGribKeys_def plain_def applyEntryDefaults_def grib_keys entry_defs)
  ultimately show ?thesis by (simp add: finish_horizontal_def)
qed

text \<open>
  The code of the fixed surface of a type of level in the standard (code table 4.5 of GRIB2): isobaric surface 100,
  heights above mean sea level 102 and above ground 103, hybrid level 105, isentropic level 107, potential vorticity 109,
  snow 114, soil 151, sea ice 152.
\<close>

definition surface_code :: "TypeOfLevel \<Rightarrow> int" where
  "surface_code t =
     (if t \<in> {Tol_IsobaricInPa, Tol_IsobaricInhPa} then 100
      else if t \<in> {Tol_HeightAboveSea, Tol_HeightAboveSeaAt10m} then 102
      else if t \<in> {Tol_HeightAboveGround, Tol_HeightAboveGroundAt2m, Tol_HeightAboveGroundAt10m} then 103
      else if t = Tol_Hybrid then 105
      else if t = Tol_Theta then 107
      else if t = Tol_PotentialVorticity then 109
      else if t \<in> {Tol_Snow, Tol_SnowLayer} then 114
      else if t = Tol_SoilLayer then 151
      else 152)"

definition height_types :: "TypeOfLevel set" where
  "height_types = {Tol_HeightAboveSea, Tol_HeightAboveSeaAt10m, Tol_HeightAboveGroundAt2m, Tol_HeightAboveGroundAt10m,
     Tol_HeightAboveGround}"

lemma whole_hundreds: "p sdiv 100 * 100 = (p :: int) \<longleftrightarrow> 100 dvd p"
proof -
  have exact: "q div 100 * 100 = q \<longleftrightarrow> 100 dvd q" for q :: int
    by (metis dvd_div_mult_self dvd_triv_right)
  show ?thesis using exact [of p] exact [of "- p"]
    by (cases "0 \<le> p") (auto simp: signed_divide_int_def sgn_if)
qed

lemma level_cases:
  assumes "level_type conf = Some t" "levelForTypeOfLevel conf mars = Inr (Some l)"
  obtains (height) f where "t \<in> height_types" "fixedLevel conf = Some f" "l = f"
    | (surface) "t \<in> height_types" "fixedLevel conf = None" "isSFC mars" "get_levelist mars = Inr l"
    | (single) "t \<in> {Tol_Snow, Tol_IsobaricInPa, Tol_PotentialVorticity, Tol_Theta, Tol_Hybrid}" "get_levelist mars = Inr l"
    | (layer) "t \<in> {Tol_SeaIceLayer, Tol_SnowLayer, Tol_SoilLayer}" "get_levelist mars = Inr l"
    | (hPa) p where "t = Tol_IsobaricInhPa" "get_levelist mars = Inr p" "l = p sdiv 100"
  using assms
  by (auto simp: levelForTypeOfLevel_def get_level_type_def height_types_def bind_res_Inr_iff
      split: if_splits option.splits)

lemmas surface_defs = horizontalForTypeOfLevel_def get_level_type_def handleHeightAbove_def handle1SurfaceWithLevel_def
  handle2SurfaceLayerWithlevel_def two_surfaces_def one_surface_def level_surfaces_def cloud_layers_def
  layer_surfaces_def surface_record_def surface_code_def

text \<open>
  Property C20. When a level is set and the surfaces can be determined, the first surface is of the kind the standard has
  for the type of level, and the two describe the same place with these exceptions. A layer lies between the level and the
  one above it. A level in hPa is the value of the surface divided by hundred and rounded towards zero, so that only
  whole hectopascals are the same place. With a fixed level the level of a height is the fixed one and
  the surface of a surface field is at its level list (that of another field is at the fixed level too), and for the other
  single surfaces it is the other way round: then they agree if and only if the level list is the fixed level.
\<close>

theorem level_agrees_with_surfaces:
  assumes "level_type conf = Some t"
    and "levelForTypeOfLevel conf mars = Inr (Some l)" "horizontalForTypeOfLevel conf mars = Inr h"
  shows "\<exists>p. h ''typeOfFirstFixedSurface'' = Some (V_Int (surface_code t)) \<and>
     h ''scaleFactorOfFirstFixedSurface'' = Some (V_Int 0) \<and> h ''scaledValueOfFirstFixedSurface'' = Some (V_Int p) \<and>
     (if t \<in> {Tol_SeaIceLayer, Tol_SnowLayer, Tol_SoilLayer}
      then p = l - 1 \<and> h ''typeOfSecondFixedSurface'' = Some (V_Int (surface_code t)) \<and>
           h ''scaleFactorOfSecondFixedSurface'' = Some (V_Int 0) \<and> h ''scaledValueOfSecondFixedSurface'' = Some (V_Int l)
      else h ''typeOfSecondFixedSurface'' = Some (V_Int 255) \<and>
        (if t = Tol_IsobaricInhPa
         then h ''pressureUnits'' = Some (V_String ''hPa'') \<and>
           (case fixedLevel conf of None \<Rightarrow> l = p sdiv 100 \<and> (l * 100 = p \<longleftrightarrow> 100 dvd p)
            | Some f \<Rightarrow> p = f \<and> (\<exists>q. get_levelist mars = Inr q \<and> l = q sdiv 100))
         else p = l \<longleftrightarrow> (case fixedLevel conf of None \<Rightarrow> True
            | Some f \<Rightarrow> t \<in> height_types \<and> \<not> isSFC mars \<or> get_levelist mars = Inr f)))"
  using assms(1,2)
proof (cases rule: level_cases)
  case (height f)
  then show ?thesis using assms by (auto simp: surface_defs height_types_def bind_res_Inr_iff Let_def split: if_splits)
next
  case surface
  then show ?thesis using assms by (auto simp: surface_defs height_types_def)
next
  case single
  then show ?thesis using assms by (auto simp: surface_defs height_types_def split: option.splits)
next
  case layer
  then show ?thesis using assms by (auto simp: surface_defs split: if_splits)
next
  case (hPa p)
  then show ?thesis using assms by (auto simp: surface_defs whole_hundreds split: option.splits)
qed

definition pressure_level :: LevelConfigurator where
  "pressure_level = \<lparr>level_type = Some Tol_IsobaricInhPa, fixedLevel = None\<rparr>"

definition two_metres :: LevelConfigurator where
  "two_metres = \<lparr>level_type = Some Tol_HeightAboveGroundAt2m, fixedLevel = Some 2\<rparr>"

text \<open>A pressure of 500, and a surface field at 2 m that has a level list of 5.\<close>

lemma level_agrees_with_surfaces_witness:
  "(\<exists>h. levelForTypeOfLevel pressure_level isobaric_field = Inr (Some 5) \<and>
     horizontalForTypeOfLevel pressure_level isobaric_field = Inr h \<and>
     h ''typeOfFirstFixedSurface'' = Some (V_Int 100) \<and> h ''scaledValueOfFirstFixedSurface'' = Some (V_Int 500)) \<and>
   (\<exists>h p. levelForTypeOfLevel two_metres [''levtype'' \<mapsto> V_LevType Lev_SFC, ''levelist'' \<mapsto> V_Int 5] = Inr (Some 2) \<and>
     horizontalForTypeOfLevel two_metres [''levtype'' \<mapsto> V_LevType Lev_SFC, ''levelist'' \<mapsto> V_Int 5] = Inr h \<and>
     h ''typeOfFirstFixedSurface'' = Some (V_Int 103) \<and> h ''scaledValueOfFirstFixedSurface'' = Some (V_Int p) \<and> p \<noteq> 2)"
proof
  have l: "levelForTypeOfLevel pressure_level isobaric_field = Inr (Some 5)" and t: "level_type pressure_level = Some Tol_IsobaricInhPa"
    by (simp_all add: levelForTypeOfLevel_def get_level_type_def pressure_level_def get_levelist_def isobaric_field_def)
  obtain h where h: "horizontalForTypeOfLevel pressure_level isobaric_field = Inr h"
    "h ''scaledValueOfFirstFixedSurface'' = Some (V_Int 500)"
    by (simp add: surface_defs pressure_level_def get_levelist_def isobaric_field_def)
  show "\<exists>h. levelForTypeOfLevel pressure_level isobaric_field = Inr (Some 5) \<and>
     horizontalForTypeOfLevel pressure_level isobaric_field = Inr h \<and>
     h ''typeOfFirstFixedSurface'' = Some (V_Int 100) \<and> h ''scaledValueOfFirstFixedSurface'' = Some (V_Int 500)"
    using level_agrees_with_surfaces [OF t l h(1)] l h by (auto simp: surface_code_def)
next
  let ?mars = "[''levtype'' \<mapsto> V_LevType Lev_SFC, ''levelist'' \<mapsto> V_Int 5] :: dm_record"
  have l: "levelForTypeOfLevel two_metres ?mars = Inr (Some 2)" and t: "level_type two_metres = Some Tol_HeightAboveGroundAt2m"
    by (simp_all add: levelForTypeOfLevel_def get_level_type_def two_metres_def)
  obtain h where h: "horizontalForTypeOfLevel two_metres ?mars = Inr h"
    by (simp add: surface_defs two_metres_def get_levelist_def isSFC_def)
  have "isSFC ?mars" "get_levelist ?mars = Inr 5" "fixedLevel two_metres = Some 2"
    by (simp_all add: isSFC_def get_levelist_def two_metres_def)
  then show "\<exists>h p. levelForTypeOfLevel two_metres ?mars = Inr (Some 2) \<and> horizontalForTypeOfLevel two_metres ?mars = Inr h \<and>
     h ''typeOfFirstFixedSurface'' = Some (V_Int 103) \<and> h ''scaledValueOfFirstFixedSurface'' = Some (V_Int p) \<and> p \<noteq> 2"
    using level_agrees_with_surfaces [OF t l h] l h by (auto simp: surface_code_def)
qed

section \<open>Fields on heights\<close>

definition at_level :: "LevelConfigurator option \<Rightarrow> SectionsConf \<Rightarrow> bool" where
  "at_level lev c \<longleftrightarrow> level (conf_product c) = lev"

lemma at_level_setters [simp]:
  "at_level lev (pointInTime_set c) \<longleftrightarrow> at_level lev c"
  "at_level lev (timeRange_set rtype proc c) \<longleftrightarrow> at_level lev c"
  "at_level lev (ensemble_set c) \<longleftrightarrow> at_level lev c"
  "at_level lev (largeEnsemble_set c) \<longleftrightarrow> at_level lev c"
  "at_level lev (reforecast_set c) \<longleftrightarrow> at_level lev c"
  "at_level lev (derivedForecast_set c) \<longleftrightarrow> at_level lev c"
  "at_level lev (localUse_set n c) \<longleftrightarrow> at_level lev c"
  "at_level lev (dataRepres_set n c) \<longleftrightarrow> at_level lev c"
  "at_level lev (grid_set n c) \<longleftrightarrow> at_level lev c"
  by (simp_all add: at_level_def setter_defs conf_product_def ensure_def Let_def split: option.splits)

definition height_level :: LevelConfigurator where
  "height_level = \<lparr>level_type = Some Tol_HeightAboveGround, fixedLevel = None\<rparr>"

lemma height_level_set [simp]: "at_level None c \<Longrightarrow> at_level (Some height_level) (typeOfLevel_set Tol_HeightAboveGround c)"
  by (simp add: at_level_def height_level_def setter_defs conf_product_def default_level_def)

lemma produces_height: "produces mars (at_level None) paramHLRules (at_level (Some height_level))"
  by (auto simp: paramHLRules_def setAll_def intro!: produces_exclusive produces_EncRule)

lemma produces_height_horizontal:
  assumes "mars ''levtype'' = Some (V_LevType Lev_HL)"
  shows "produces mars (at_level None) horizontalRules (at_level (Some height_level))"
  unfolding horizontalRules_def using assms
  by (intro produces_each)
    (auto intro!: produces_guarded produces_height produces_EncRule simp: matchLevType_def)

lemma produces_height_kept:
  "r \<in> {gridRules, localSectionRules, processTypesRules, packingRules} \<Longrightarrow> produces mars (at_level lev) r (at_level lev)"
  by (auto simp: gridRules_def makeGridRule_def localSectionRules_def processTypesRules_def packingRules_def setAll_def
      intro!: produces_exclusive produces_EncRule)

lemma produces_no_channel:
  assumes "mars ''channel'' = None"
  shows "produces mars A satelliteRules A"
proof -
  have "produces mars A (ChainedRuleList [EncRule m [], r]) A" if "\<not> matches m mars" for m r
    using that by (intro produces_guarded) simp
  moreover have "produces mars A (ChainedRuleList [EncRule m []]) A" for m
    by (rule produces_chain [OF produces_noop produces_nil])
  ultimately show ?thesis
    unfolding satelliteRules_def using assms by (intro produces_each) simp
qed

lemma produces_height_conf:
  assumes "mars ''levtype'' = Some (V_LevType Lev_HL)" "mars ''channel'' = None"
  shows "produces mars (at_level None) encoder_rules (at_level (Some height_level))"
  unfolding encoder_rules_def
  by (intro produces_chain [OF produces_height_kept] produces_chain [OF produces_height_horizontal]
      produces_chain [OF produces_no_channel] produces_nil) (use assms in simp_all)

text \<open>
  Property C21. A field on height levels is encoded without its height: in the configuration the rules build for it
  neither the level nor a value of the fixed surface is ever set, since only the keys of surface fields are asked for
  a level list.
\<close>

theorem heights_are_not_set:
  assumes "typed FullMarsRecord mars" "mars ''levtype'' = Some (V_LevType Lev_HL)" "mars ''channel'' = None"
    and "buildEncoderConf mars = Inr conf"
  shows "\<exists>p lev h. product conf = Some p \<and> level p = Some lev \<and> levelForTypeOfLevel lev mars = Inr None \<and>
           horizontalForTypeOfLevel lev mars = Inr h \<and> h ''scaledValueOfFirstFixedSurface'' = None"
proof -
  obtain c where c: "enc_apply encoder_rules mars empty_SectionsConf = Inr (c, True)" "sections_applyDefaults c = Inr conf"
    using assms(4) by (auto simp: buildEncoderConf_def bind_res_Inr_iff split: if_splits)
  have "at_level None empty_SectionsConf"
    by (simp add: at_level_def conf_product_def empty_SectionsConf_def default_product_def)
  then have "at_level (Some height_level) c"
    using c(1) produces_height_conf [OF assms(2,3)] typed_param [OF assms(1)]
    by (auto simp: produces_def enc_apply_first [OF unambiguous_encoder_rules])
  then obtain p where "product conf = Some p" "level p = Some height_level"
    using c(2) by (auto simp: sections_applyDefaults_def at_level_def conf_product_def product_applyDefaults_def
        bind_res_Inr_iff split: option.splits if_splits)
  moreover have "levelForTypeOfLevel height_level mars = Inr None"
    using assms(2) by (simp add: levelForTypeOfLevel_def get_level_type_def height_level_def isSFC_def)
  moreover have "\<exists>h. horizontalForTypeOfLevel height_level mars = Inr h \<and> h ''scaledValueOfFirstFixedSurface'' = None"
    using assms(2) by (simp add: horizontalForTypeOfLevel_def get_level_type_def height_level_def handleHeightAbove_def
        isSFC_def surface_record_def)
  ultimately show ?thesis by blast
qed

definition height_field :: dm_record where
  "height_field =
     [''repres'' \<mapsto> V_Repres Repres_GG, ''class'' \<mapsto> V_String ''od'', ''type'' \<mapsto> V_String ''fc'',
      ''levtype'' \<mapsto> V_LevType Lev_HL, ''levelist'' \<mapsto> V_Int 100, ''param'' \<mapsto> V_Param 10,
      ''packing'' \<mapsto> V_String ''ccsds'']"

lemma heights_are_not_set_witness:
  "\<exists>conf p lev. buildEncoderConf height_field = Inr conf \<and> product conf = Some p \<and> level p = Some lev \<and>
     levelForTypeOfLevel lev height_field = Inr None \<and> height_field ''levelist'' = Some (V_Int 100)"
proof -
  have "typed FullMarsRecord height_field"
    by (auto simp: height_field_def typed_def FullMarsRecord_def mars_groups REPRES_def CLASS_def TYPE_key_def
        LEVTYPE_def LEVELIST_def PARAM_def PACKING_def entry_defs)
  moreover have "case buildEncoderConf height_field of Inl _ \<Rightarrow> False | Inr _ \<Rightarrow> True"
    by code_simp
  then obtain conf where "buildEncoderConf height_field = Inr conf" by (cases "buildEncoderConf height_field") auto
  moreover have "height_field ''levtype'' = Some (V_LevType Lev_HL)" "height_field ''channel'' = None"
    "height_field ''levelist'' = Some (V_Int 100)"
    by (simp_all add: height_field_def)
  ultimately show ?thesis using heights_are_not_set by blast
qed

section \<open>Checks that do not run\<close>

text \<open>
  The check of a section runs exactly if the section is registered for its run-time keys, whatever it says of
  checks: after adding a section to a collector of which all sections pass, the collector fails exactly if the section
  is registered for the run-time keys and its check fails.
\<close>

theorem check_needs_runtime:
  assumes "collector_check col keys h = Inr ()"
  shows "collector_check (collector_add sect col) keys h =
     (if registerRuntime (sectionInfo sect) then sect_check sect keys h else Inr ())"
  using assms by (cases "sect_check sect keys h") (simp_all add: collector_check_def collector_add_def Let_def fold_res_append)

definition checking_section :: "(unit, unit) DynSectionSetter" where
  "checking_section =
     \<lparr>sectionInfo = \<lparr>registerPrepare = False, registerAllocate = False, registerPreset = False, registerRuntime = False,
                     registerCheck = True\<rparr>,
      sect_prepare = (\<lambda>_. Inr), sect_allocate = (\<lambda>_. Inr), sect_preset = (\<lambda>_. Inr), sect_runtime = (\<lambda>_. Inr),
      sect_check = (\<lambda>_ _. Inl Mars2GribException)\<rparr>"

lemma check_needs_runtime_witness:
  "collector_check (collector_add checking_section empty_collector) () () = Inr () \<and>
   sect_check checking_section () () = Inl Mars2GribException"
  using check_needs_runtime [of empty_collector "()" "()" checking_section]
  by (simp add: checking_section_def collector_check_def empty_collector_def)

end
