(* ===== verification/FieldActions.thy ===== *)
theory FieldActions
  imports Mappings MarsRecords Operations Configurations "HOL-Library.AList"
begin

text \<open>
  The actions that change one field at a time: \<^verbatim>\<open>action/mask\<close>, \<^verbatim>\<open>action/scale\<close> and
  \<^verbatim>\<open>action/average-rate\<close>. Each takes a message and passes on a list of messages or throws. Values are real numbers; the
  rounding of the floating point formats is a parameter \<open>rnd\<close>, applied where the code converts and where it computes, so
  what depends on it is visible; the special values have no counterpart. The metadata of a message are what its lookups see.
\<close>

type_synonym rounding = "PrecisionTag \<Rightarrow> real \<Rightarrow> real"

section \<open>Masking\<close>

definition getDouble_default :: "Config \<Rightarrow> string \<Rightarrow> real \<Rightarrow> real res" where
  "getDouble_default c k d = (case cfg_find c k of
     None \<Rightarrow> Inr d | Some (CDouble x) \<Rightarrow> Inr x | Some (CInt i) \<Rightarrow> Inr (of_int i) | Some _ \<Rightarrow> Inl ForeignException)"

definition fetch_offset_fields :: "Config \<Rightarrow> string list res" where
  "fetch_offset_fields c = (case cfg_find c ''offset-fields'' of
     None \<Rightarrow> Inr []
   | Some (CList cs) \<Rightarrow> (case list_as c_string cs of Some ss \<Rightarrow> Inr ss | None \<Rightarrow> Inl ForeignException)
   | Some _ \<Rightarrow> Inl ForeignException)"

record MaskAction =
  applyBitmap :: bool
  maskMissing :: real
  offsetFields :: "string list"
  offsetValue :: real

definition new_MaskAction :: "Config \<Rightarrow> MaskAction res" where
  "new_MaskAction c =
     bind_res (getBool_default c ''apply-bitmap'' True) (\<lambda>b.
     bind_res (getDouble_default c ''missing-value'' (limits_max Float)) (\<lambda>m.
     bind_res (fetch_offset_fields c) (\<lambda>fs.
     bind_res (getDouble_default c ''offset-value'' (27315 / 100)) (\<lambda>d.
     Inr \<lparr>applyBitmap = b, maskMissing = m, offsetFields = fs, offsetValue = d\<rparr>))))"

text \<open>
  The inner loops over the values of a run, and the outer loop over the runs of the mask; \<open>which\<close> is the value of the runs
  that are changed.
\<close>

primrec run_loop :: "(real \<Rightarrow> real) \<Rightarrow> nat \<Rightarrow> nat \<Rightarrow> real list \<Rightarrow> real list res" where
  "run_loop f i 0 git = Inr git"
| "run_loop f i (Suc n) git =
     bind_res (read_at git i) (\<lambda>v. bind_res (write_at git i (f v)) (run_loop f (Suc i) n))"

fun mask_runs :: "bool \<Rightarrow> (real \<Rightarrow> real) \<Rightarrow> (bool \<times> u64) list \<Rightarrow> nat \<Rightarrow> real list \<Rightarrow> real list res" where
  "mask_runs which f [] offset git = Inr git"
| "mask_runs which f ((v, n) # ps) offset git =
     bind_res (if v = which then run_loop f offset (unat n) git else Inr git)
       (mask_runs which f ps (offset + unat n))"

text \<open>
  The part \<^verbatim>\<open>applyMask\<close> and \<^verbatim>\<open>applyOffset\<close> share; they differ in what they throw for a mask of another size. A
  mask of \<open>n\<close> values has at most \<open>n\<close> runs, which bounds the loop.
\<close>

definition over_mask ::
    "exn \<Rightarrow> bool \<Rightarrow> (real \<Rightarrow> real) \<Rightarrow> real MaskStore \<Rightarrow> real message \<Rightarrow> real message res" where
  "over_mask e which f st msg =
     bind_res (mask_key (metadata msg)) (\<lambda>bkey.
     bind_res (mask_get st bkey) (\<lambda>(b, h).
     case payload msg of
       Values vs \<Rightarrow>
         if unat (numBits h) \<noteq> length vs then Inl e
         else (case runLengthPairs (Suc (length vs)) b of
             None \<Rightarrow> Inl UndefinedBehaviour
           | Some r \<Rightarrow> bind_res r (\<lambda>ps. bind_res (mask_runs which f ps 0 vs) (\<lambda>vs. Inr (msg\<lparr>payload := Values vs\<rparr>))))
     | _ \<Rightarrow> Inl UndefinedBehaviour))"

definition applyMask :: "rounding \<Rightarrow> MaskAction \<Rightarrow> real MaskStore \<Rightarrow> PrecisionTag \<Rightarrow> real message \<Rightarrow> real message res" where
  "applyMask rnd a st prec = over_mask SeriousBug False (\<lambda>_. rnd prec (maskMissing a)) st"

definition applyOffset :: "rounding \<Rightarrow> MaskAction \<Rightarrow> real MaskStore \<Rightarrow> PrecisionTag \<Rightarrow> real message \<Rightarrow> real message res" where
  "applyOffset rnd a st prec =
     over_mask AssertionFailed True (\<lambda>v. rnd prec (v + rnd prec (offsetValue a))) st"

definition createMasked :: "rounding \<Rightarrow> MaskAction \<Rightarrow> real MaskStore \<Rightarrow> PrecisionTag \<Rightarrow> real message \<Rightarrow> real message res" where
  "createMasked rnd a st prec msg =
     bind_res (if applyBitmap a then applyMask rnd a st prec msg else Inr msg) (\<lambda>msg.
     bind_res (msg_name msg) (\<lambda>n.
     bind_res (if n \<in> set (offsetFields a) then applyOffset rnd a st prec msg else Inr msg) (\<lambda>msg.
     Inr (msg\<lparr>metadata := md_set ''bitmapPresent'' (MBool True)
                (md_set ''missingValue'' (MDouble (maskMissing a)) (metadata msg))\<rparr>))))"

definition mask_executeImpl :: "rounding \<Rightarrow> MaskAction \<Rightarrow> real MaskStore \<Rightarrow> real message \<Rightarrow> real message list res" where
  "mask_executeImpl rnd a st msg =
     (if tag msg \<noteq> Field then Inr [msg]
      else bind_res (msg_precision msg) (\<lambda>prec.
        bind_res (createMasked rnd a st prec msg) (\<lambda>msg. Inr [msg])))"

section \<open>Scaling\<close>

definition ScaleMetadataKeys :: RecordDef where
  "ScaleMetadataKeys = plain [PARAM, MissingValue]"

datatype ScalePreset = LocalToWmo | WmoToLocal

record ScaleMapping =
  sm_paramIn :: int
  sm_paramOut :: int
  sm_scaling :: real

record ScaleResult =
  mr_paramOut :: int
  mr_scaling :: real

type_synonym ScaleMappings = "(int \<times> ScaleResult) list"

definition to_result :: "ScaleMapping \<Rightarrow> ScaleMappings \<Rightarrow> ScaleMappings" where
  "to_result m = AList.update (sm_paramIn m) \<lparr>mr_paramOut = sm_paramOut m, mr_scaling = sm_scaling m\<rparr>"

definition to_reverse :: "rounding \<Rightarrow> ScaleMapping \<Rightarrow> ScaleMappings \<Rightarrow> ScaleMappings" where
  "to_reverse rnd m =
     AList.update (sm_paramOut m) \<lparr>mr_paramOut = sm_paramIn m, mr_scaling = rnd Double (1 / sm_scaling m)\<rparr>"

text \<open>The rows of the file of mappings; the first case of the \<^verbatim>\<open>switch\<close> has no \<^verbatim>\<open>break\<close>.\<close>

definition preset_row :: "rounding \<Rightarrow> ScalePreset \<Rightarrow> ScaleMapping \<Rightarrow> ScaleMappings \<Rightarrow> ScaleMappings" where
  "preset_row rnd preset m ms =
     (case preset of LocalToWmo \<Rightarrow> to_reverse rnd m (to_result m ms) | WmoToLocal \<Rightarrow> to_reverse rnd m ms)"

text \<open>The file \<^verbatim>\<open>local-to-wmo.yaml\<close>.\<close>

definition local_to_wmo :: "ScaleMapping list" where
  "local_to_wmo = map (\<lambda>(i, out, s). \<lparr>sm_paramIn = i, sm_paramOut = out, sm_scaling = s\<rparr>)
   [(8, 231010, 1000), (9, 231012, 1000), (141, 228141, 1000), (142, 3062, 1000), (143, 228143, 1000),
    (144, 228144, 1000), (164, 228164, 100), (182, 260259, 1000), (186, 3073, 100), (187, 3074, 100),
    (188, 3075, 100), (198, 160198, 1000), (205, 231002, 1000), (228, 228228, 1000), (239, 231057, 1000),
    (240, 231058, 1000), (228216, 231001, 1000), (15, 210199, 100), (16, 210198, 100), (17, 210261, 100),
    (18, 210260, 100), (32, 228032, 100), (44, 231003, 1000), (45, 3099, 1000), (206, 260132, 1000),
    (243, 260509, 100), (210186, 210201, 100), (210187, 210202, 100), (210188, 210200, 100),
    (210189, 210263, 100), (210190, 210264, 100), (210191, 210262, 100), (228251, 231005, 1000),
    (172008, 235020, 1000), (172009, 235021, 1000), (172044, 235023, 1000), (172045, 235024, 1000),
    (172142, 235029, 1000), (172143, 235030, 1000), (172144, 235031, 1000), (172182, 235043, 1000),
    (172205, 235048, 1000), (172228, 235055, 1000), (235141, 235078, 1000), (235186, 235108, 100),
    (235187, 235109, 100), (235188, 235110, 100), (235243, 235263, 100)]"

definition preset_mappings :: "rounding \<Rightarrow> ScaleMapping list \<Rightarrow> ScalePreset \<Rightarrow> ScaleMappings" where
  "preset_mappings rnd rows preset = fold (preset_row rnd preset) rows []"

definition scale_getMappings ::
    "rounding \<Rightarrow> ScaleMapping list \<Rightarrow> ScalePreset option \<Rightarrow> ScaleMapping list \<Rightarrow> ScaleMappings res" where
  "scale_getMappings rnd rows preset customMappings =
     (let ms = (case preset of None \<Rightarrow> [] | Some p \<Rightarrow> preset_mappings rnd rows p);
          ms = fold to_result customMappings ms
      in if ms = [] then Inl UserError else Inr ms)"

definition get_param :: "dm_record \<Rightarrow> int res" where
  "get_param md = bind_res (get_entry md ''param'') (\<lambda>v. case v of V_Param p \<Rightarrow> Inr p | _ \<Rightarrow> Inl DataModellingException)"

definition get_missing :: "dm_record \<Rightarrow> real option" where
  "get_missing md = (case md ''missingValue'' of Some (V_Double m) \<Rightarrow> Some m | _ \<Rightarrow> None)"

definition scale_value :: "rounding \<Rightarrow> PrecisionTag \<Rightarrow> real option \<Rightarrow> real \<Rightarrow> real \<Rightarrow> real" where
  "scale_value rnd prec missing s v =
     rnd prec (if missing = Some v then v else rnd Double (v * s))"

definition scale_executeImpl ::
    "rounding \<Rightarrow> (string \<Rightarrow> int res) \<Rightarrow> ScaleMappings \<Rightarrow> real message \<Rightarrow> real message list res" where
  "scale_executeImpl rnd paramId mappings msg =
     (if tag msg \<noteq> Field then Inr [msg]
      else bind_res (readRecord paramId ScaleMetadataKeys (md_find (metadata msg))) (\<lambda>md.
      bind_res (get_param md) (\<lambda>p.
      case map_of mappings p of
        None \<Rightarrow> Inr [msg]
      | Some mapping \<Rightarrow>
          let md = md(''param'' \<mapsto> V_Param (mr_paramOut mapping));
              msg = msg\<lparr>metadata := dumpRecord ScaleMetadataKeys md (metadata msg)\<rparr>
          in bind_res (msg_precision msg) (\<lambda>prec.
             case payload msg of
               Values vs \<Rightarrow> Inr [msg\<lparr>payload := Values (map (scale_value rnd prec (get_missing md) (mr_scaling mapping)) vs)\<rparr>]
             | _ \<Rightarrow> Inl UndefinedBehaviour))))"

section \<open>Rates\<close>

definition AverageRateKeys_validate :: "dm_record \<Rightarrow> unit res" where
  "AverageRateKeys_validate k =
     bind_res (get_entry k ''timespan'') (\<lambda>v. case v of
         V_TimeDuration t \<Rightarrow> bind_res (toSeconds t) (\<lambda>s.
           if s = 0 then Inl SeriousBug
           else if k ''stattype'' \<noteq> None then Inl SeriousBug else Inr ())
       | _ \<Rightarrow> Inl DataModellingException)"

definition AverageRateKeys :: RecordDef where
  "AverageRateKeys =
     \<lparr>rd_entries = [PARAM, tagRequired TIMESPAN, STATTYPE, MissingValue],
      rd_defaults = Inr, rd_validate = AverageRateKeys_validate\<rparr>"

definition get_seconds :: "dm_record \<Rightarrow> int res" where
  "get_seconds md = bind_res (get_entry md ''timespan'') (\<lambda>v. case v of
     V_TimeDuration t \<Rightarrow> toSeconds t | _ \<Rightarrow> Inl DataModellingException)"

definition rate_value :: "rounding \<Rightarrow> PrecisionTag \<Rightarrow> real option \<Rightarrow> real \<Rightarrow> real \<Rightarrow> real" where
  "rate_value rnd prec missing c v =
     (case missing of
        Some x \<Rightarrow> let m = rnd prec x in rnd prec (if v = m then m else rnd Double (v * c))
      | None \<Rightarrow> rnd prec (rnd Double (v * c)))"

definition rate_compute :: "rounding \<Rightarrow> (string \<Rightarrow> int res) \<Rightarrow> PrecisionTag \<Rightarrow> real message \<Rightarrow> real message res" where
  "rate_compute rnd paramId prec msg =
     bind_res (readRecord paramId AverageRateKeys (md_find (metadata msg))) (\<lambda>md.
     bind_res (get_seconds md) (\<lambda>s.
     let c = rnd Double (1 / rnd Double (of_int s)) in
     case payload msg of
       Values vs \<Rightarrow> Inr (msg\<lparr>payload := Values (map (rate_value rnd prec (get_missing md) c) vs)\<rparr>)
     | _ \<Rightarrow> Inl UndefinedBehaviour))"

text \<open>The rows of the file of mappings, with the parameter that comes in and the one that goes out.\<close>

definition rate_getMappings :: "(int \<times> int) list \<Rightarrow> (int \<times> int) list" where
  "rate_getMappings rows = fold (\<lambda>(i, out). AList.update i out) rows []"

definition rate_executeImpl ::
    "rounding \<Rightarrow> (string \<Rightarrow> int res) \<Rightarrow> (int \<times> int) list \<Rightarrow> real message \<Rightarrow> real message list res" where
  "rate_executeImpl rnd paramId mappings msg =
     (if tag msg \<noteq> Field then Inr [msg]
      else bind_res (readRecord paramId AverageRateKeys (md_find (metadata msg))) (\<lambda>md.
      bind_res (get_param md) (\<lambda>p.
      case map_of mappings p of
        None \<Rightarrow> Inl UserError
      | Some out \<Rightarrow>
          let md = md(''param'' \<mapsto> V_Param out);
              msg = msg\<lparr>metadata := dumpRecord AverageRateKeys md (metadata msg)\<rparr>
          in bind_res (msg_precision msg) (\<lambda>prec.
             bind_res (rate_compute rnd paramId prec msg) (\<lambda>msg. Inr [msg])))))"


section \<open>Walking over the runs of a mask\<close>

lemma run_loop_map:
  "run_loop f (length pre) (length xs) (pre @ xs @ post) = Inr (pre @ map f xs @ post)"
proof (induction xs arbitrary: pre)
  case (Cons x xs)
  have "run_loop f (length (pre @ [f x])) (length xs) ((pre @ [f x]) @ xs @ post) = Inr ((pre @ [f x]) @ map f xs @ post)"
    by (rule Cons.IH)
  then show ?case by (simp add: list_update_append)
qed simp

definition under_mask :: "bool \<Rightarrow> (real \<Rightarrow> real) \<Rightarrow> bool list \<Rightarrow> real list \<Rightarrow> real list" where
  "under_mask which f bits vs = map2 (\<lambda>b v. if b = which then f v else v) bits vs"

lemma under_mask_replicate:
  "length vs = n \<Longrightarrow> under_mask which f (replicate n b) vs = (if b = which then map f vs else vs)"
  by (auto simp: under_mask_def map2_map_map zip_replicate1 intro!: nth_equalityI)

lemma under_mask_append:
  "length bits = length vs \<Longrightarrow>
   under_mask which f (bits @ bits') (vs @ vs') = under_mask which f bits vs @ under_mask which f bits' vs'"
  by (simp add: under_mask_def)

lemma length_under_mask [simp]: "length (under_mask which f bits vs) = min (length bits) (length vs)"
  by (simp add: under_mask_def)

lemma mask_runs_under_mask:
  assumes "\<forall>r\<in>set rs. snd r < 2 ^ 64" and "length vs = length (unruns rs)"
  shows "mask_runs which f (map (\<lambda>(b, k). (b, of_nat k)) rs) (length pre) (pre @ vs) =
    Inr (pre @ under_mask which f (unruns rs) vs)"
  using assms
proof (induction rs arbitrary: pre vs)
  case Nil
  then show ?case by (simp add: under_mask_def)
next
  case (Cons r rs)
  obtain b k where r: "r = (b, k)" by force
  have k: "unat (of_nat k :: u64) = k" using Cons.prems(1) r unat_of_nat64 by simp
  define xs ys where "xs = take k vs" and "ys = drop k vs"
  have len: "length xs = k" "vs = xs @ ys" "length ys = length (unruns rs)"
    using Cons.prems(2) r by (simp_all add: xs_def ys_def)
  have here: "(if b = which then run_loop f (length pre) k (pre @ xs @ ys) else Inr (pre @ xs @ ys)) =
      Inr ((pre @ under_mask which f (replicate k b) xs) @ ys)"
    using run_loop_map [of f pre xs ys] len(1,2) by (simp add: under_mask_replicate)
  have "mask_runs which f (map (\<lambda>(b, k). (b, of_nat k)) rs) (length (pre @ under_mask which f (replicate k b) xs))
      ((pre @ under_mask which f (replicate k b) xs) @ ys) =
      Inr ((pre @ under_mask which f (replicate k b) xs) @ under_mask which f (unruns rs) ys)"
    using Cons.prems(1) len(3) by (intro Cons.IH) simp_all
  then show ?case
    using here len(1) k r by (simp add: len(2) under_mask_append split: if_splits)
qed

text \<open>
  A mask that was stored for the bits \<open>m\<close>.
\<close>

definition stored_mask :: "real MaskStore \<Rightarrow> BaseMetadata \<Rightarrow> bool list \<Rightarrow> bool" where
  "stored_mask st md m \<longleftrightarrow> m \<noteq> [] \<and> length m \<le> 2 ^ 31 \<and>
     (\<exists>k uninit b. mask_key md = Inr k \<and> encodeMaskRunLength uninit m = Inr b \<and> bitmasks st k = Some b)"

lemma over_mask_stored:
  assumes "stored_mask st (metadata msg) m" and vs: "payload msg = Values vs"
  shows "over_mask e which f st msg =
     (if length vs = length m then Inr (msg\<lparr>payload := Values (under_mask which f m vs)\<rparr>) else Inl e)"
proof -
  obtain k uninit b where st: "mask_key (metadata msg) = Inr k" "encodeMaskRunLength uninit m = Inr b" "bitmasks st k = Some b"
    and m: "m \<noteq> []" "length m \<le> 2 ^ 31"
    using assms(1) by (auto simp: stored_mask_def)
  let ?rs = "runs (hd m) 1 (tl m)"
  have un: "unruns ?rs = m" using m(1) by (simp add: unruns_runs)
  have sum: "sum_list (map snd ?rs) = length m" using un by (metis length_unruns)
  obtain h w where h: "rl_payload b h w ?rs"
    using encodeMaskRunLength_payload [of "hd m" "tl m" uninit] m st(2) by force
  then have hd: "decodeMaskPayloadHeader b = Inr h" "unat (numBits h) = length m"
    and pos: "\<forall>r\<in>set ?rs. 0 < snd r"
    using sum m(2) unat_of_nat64 by (auto simp: rl_payload_def)
  have "\<forall>r\<in>set rs. 0 < snd r \<Longrightarrow> length rs \<le> sum_list (map snd rs)" for rs :: "(bool \<times> nat) list"
    by (induction rs) (auto simp: Suc_le_eq add_strict_increasing)
  then have "length ?rs \<le> sum_list (map snd ?rs)" using pos by blast
  moreover have "\<forall>r\<in>set ?rs. snd r < 2 ^ 64"
    using sum m(2) member_le_sum_list [of _ "map snd ?rs"] by fastforce
  ultimately show ?thesis
    using runLengthPairs_payload [OF h, of "Suc (length vs)"] mask_runs_under_mask [of ?rs vs which f "[]"]
      st hd vs un sum by (auto simp: over_mask_def mask_get_def)
qed


section \<open>The records of the actions\<close>

lemma md_find_metadata_find: "metadata_find [] md = md_find md"
  by (auto simp: metadata_find_def fun_eq_iff split: option.splits)

text \<open>Changing an entry of a record that has been read, and reading the record again from the metadata it is dumped to.\<close>

context record_def
begin

lemma read_dump_changed:
  assumes "readRecord paramId R look = Inr rec"
    and "e \<in> set (rd_entries R)" "has_type v (ed_type e)" "value_ok v"
    and "\<And>e. e \<in> set (rd_entries R) \<Longrightarrow> ed_default e = None"
    and "rd_defaults R (rec(ed_key e \<mapsto> v)) = Inr (rec(ed_key e \<mapsto> v))" "rd_validate R (rec(ed_key e \<mapsto> v)) = Inr ()"
  shows "readRecord paramId R (md_find (dumpRecord R (rec(ed_key e \<mapsto> v)) md)) = Inr (rec(ed_key e \<mapsto> v))"
proof -
  let ?rec = "rec(ed_key e \<mapsto> v)"
  have "typed R ?rec" "set_entries R ?rec"
    using read_typed [OF assms(1)] typed_upd [of R rec e "Some v"] assms(2-4) by (auto simp: set_entries_def)
  moreover have "fold applyEntryDefaults (rd_entries R) ?rec = ?rec"
    using assms(5) by (intro fold_applyEntryDefaults_id) auto
  moreover have "parseRecord paramId R (md_find (dumpRecord R ?rec md)) Map.empty = Inr ?rec"
    using calculation distinct_keys by (intro parseRecord_dumped) (auto simp: md_find_dumpRecord)
  ultimately show ?thesis
    using assms(6,7) by (simp add: readRecord_Inr applyRecordDefaults_def)
qed

end

interpretation scale_record: record_def ScaleMetadataKeys
  unfolding ScaleMetadataKeys_def by (rule record_def_plain) (auto simp: mars_keys grib_keys entry_defs)

interpretation rate_record: record_def AverageRateKeys
  by unfold_locales (auto simp: AverageRateKeys_def mars_keys grib_keys entry_defs completes_def)

lemma scale_keys: "ed_key ` set (rd_entries ScaleMetadataKeys) = {''param'', ''missingValue''}"
  by (simp add: ScaleMetadataKeys_def plain_def mars_keys grib_keys entry_defs)

lemma rate_keys: "ed_key ` set (rd_entries AverageRateKeys) = {''param'', ''timespan'', ''stattype'', ''missingValue''}"
  by (auto simp: AverageRateKeys_def mars_keys grib_keys entry_defs)

lemma get_param_Inr: "get_param md = Inr p \<longleftrightarrow> md ''param'' = Some (V_Param p)"
  by (auto simp: get_param_def get_entry_def bind_res_Inr_iff split: option.splits dm_value.splits)

lemma get_seconds_Inr: "get_seconds md = Inr s \<longleftrightarrow> (\<exists>t. md ''timespan'' = Some (V_TimeDuration t) \<and> toSeconds t = Inr s)"
  by (auto simp: get_seconds_def get_entry_def bind_res_Inr_iff split: option.splits dm_value.splits)

lemma get_missing_Some: "get_missing md = Some x \<longleftrightarrow> md ''missingValue'' = Some (V_Double x)"
  by (auto simp: get_missing_def split: option.splits dm_value.splits)

lemma get_missing_param [simp]: "get_missing (md(''param'' := v)) = get_missing md"
  by (simp add: get_missing_def)

lemma PARAM_key: "ed_key PARAM = ''param''" "ed_type PARAM = T_Param"
  by (simp_all add: mars_keys entry_defs)

lemma scale_parts:
  "PARAM \<in> set (rd_entries ScaleMetadataKeys)" "rd_defaults ScaleMetadataKeys = Inr"
  "rd_validate ScaleMetadataKeys = (\<lambda>_. Inr ())" "e \<in> set (rd_entries ScaleMetadataKeys) \<Longrightarrow> ed_default e = None"
  by (auto simp: ScaleMetadataKeys_def plain_def mars_keys grib_keys entry_defs)

lemma rate_parts:
  "PARAM \<in> set (rd_entries AverageRateKeys)" "rd_defaults AverageRateKeys = Inr"
  "rd_validate AverageRateKeys = AverageRateKeys_validate" "e \<in> set (rd_entries AverageRateKeys) \<Longrightarrow> ed_default e = None"
  by (auto simp: AverageRateKeys_def mars_keys grib_keys entry_defs)

lemma scale_reread:
  assumes "readRecord paramId ScaleMetadataKeys (md_find md0) = Inr md"
  shows "readRecord paramId ScaleMetadataKeys (md_find (dumpRecord ScaleMetadataKeys (md(''param'' \<mapsto> V_Param q)) md1)) =
     Inr (md(''param'' \<mapsto> V_Param q))"
  using scale_record.read_dump_changed [OF assms scale_parts(1), of "V_Param q" md1] scale_parts(4)
  by (simp add: scale_parts(2,3) PARAM_key)

lemma rate_validate_param: "AverageRateKeys_validate (md(''param'' := v)) = AverageRateKeys_validate md"
  by (cases "md ''stattype''") (simp_all add: AverageRateKeys_validate_def get_entry_def)

lemma rate_reread:
  assumes "readRecord paramId AverageRateKeys (md_find md0) = Inr md"
  shows "readRecord paramId AverageRateKeys (md_find (dumpRecord AverageRateKeys (md(''param'' \<mapsto> V_Param q)) md1)) =
     Inr (md(''param'' \<mapsto> V_Param q))"
proof -
  have "AverageRateKeys_validate md = Inr ()"
    using assms unfolding readRecord_Inr rate_parts(3) by blast
  then show ?thesis
    using rate_record.read_dump_changed [OF assms rate_parts(1), of "V_Param q" md1] rate_parts(4)
    by (simp add: rate_parts(2,3) PARAM_key rate_validate_param)
qed

text \<open>The precision survives what the actions do to the metadata.\<close>

lemma msg_precision_cong:
  "md_find (metadata msg) ''misc-precision'' = md_find (metadata msg') ''misc-precision'' \<Longrightarrow>
   msg_precision msg = msg_precision msg'"
  by (simp add: msg_precision_def required_def md_getOpt_def)

lemma missing_value_read:
  assumes "md_find md ''missingValue'' = Some (MDouble x)"
  shows "readRecord paramId ScaleMetadataKeys (md_find md) = Inr rec \<Longrightarrow> get_missing rec = Some x"
    and "readRecord paramId AverageRateKeys (md_find md) = Inr rec \<Longrightarrow> get_missing rec = Some x"
  using assms
  by (auto simp: readRecord_Inr parseRecord_def applyRecordDefaults_def ScaleMetadataKeys_def AverageRateKeys_def plain_def
      mars_keys grib_keys entry_defs bind_res_Inr_iff getByRef_def parse_value_def applyEntryDefaults_def get_missing_def)


lemma scale_executeImpl_field:
  assumes "tag msg = Field" "readRecord paramId ScaleMetadataKeys (md_find (metadata msg)) = Inr md"
    and "md ''param'' = Some (V_Param p)" "map_of mappings p = Some r"
    and "msg_precision msg = Inr prec" "payload msg = Values vs"
  shows "scale_executeImpl rnd paramId mappings msg =
    Inr [msg\<lparr>metadata := dumpRecord ScaleMetadataKeys (md(''param'' \<mapsto> V_Param (mr_paramOut r))) (metadata msg),
              payload := Values (map (scale_value rnd prec (get_missing md) (mr_scaling r)) vs)\<rparr>]"
proof -
  have "msg_precision (msg\<lparr>metadata := dumpRecord ScaleMetadataKeys md' (metadata msg)\<rparr>) = Inr prec" for md'
    using assms(5) msg_precision_cong [of "msg\<lparr>metadata := dumpRecord ScaleMetadataKeys md' (metadata msg)\<rparr>" msg]
    by (simp add: md_find_dumpRecord scale_keys)
  then show ?thesis
    using assms by (simp add: scale_executeImpl_def get_param_Inr [THEN iffD2] Let_def)
qed

lemma rate_executeImpl_Inr:
  assumes "tag msg = Field" "rate_executeImpl rnd paramId mappings msg = Inr out"
  shows "\<exists>md p q prec s vs. readRecord paramId AverageRateKeys (md_find (metadata msg)) = Inr md \<and>
     md ''param'' = Some (V_Param p) \<and> map_of mappings p = Some q \<and> msg_precision msg = Inr prec \<and>
     get_seconds md = Inr s \<and> s \<noteq> 0 \<and> payload msg = Values vs \<and>
     out = [msg\<lparr>metadata := dumpRecord AverageRateKeys (md(''param'' \<mapsto> V_Param q)) (metadata msg),
                payload := Values (map (rate_value rnd prec (get_missing md) (rnd Double (1 / rnd Double (of_int s)))) vs)\<rparr>]"
proof -
  obtain md p q where md: "readRecord paramId AverageRateKeys (md_find (metadata msg)) = Inr md"
      "md ''param'' = Some (V_Param p)" "map_of mappings p = Some q"
    using assms by (auto simp: rate_executeImpl_def bind_res_Inr_iff get_param_Inr split: option.splits)
  let ?msg = "msg\<lparr>metadata := dumpRecord AverageRateKeys (md(''param'' \<mapsto> V_Param q)) (metadata msg)\<rparr>"
  have prec: "msg_precision ?msg = msg_precision msg"
    by (rule msg_precision_cong) (simp add: md_find_dumpRecord rate_keys)
  have secs: "get_seconds (md(''param'' \<mapsto> V_Param q)) = get_seconds md"
    by (simp add: get_seconds_def get_entry_def)
  have "AverageRateKeys_validate md = Inr ()"
    using md(1) unfolding readRecord_Inr rate_parts(3) by blast
  then have "get_seconds md \<noteq> Inr 0"
    by (auto simp: AverageRateKeys_validate_def get_seconds_Inr get_entry_def)
  moreover have "bind_res (msg_precision msg) (\<lambda>prec. bind_res (rate_compute rnd paramId prec ?msg) (\<lambda>msg. Inr [msg])) = Inr out"
    using assms md by (simp add: rate_executeImpl_def get_param_Inr [THEN iffD2] prec)
  ultimately show ?thesis
    using md rate_reread [OF md(1), of q "metadata msg"]
    by (cases "payload msg") (auto simp: bind_res_Inr_iff rate_compute_def secs Let_def)
qed

lemma rate_executeImpl_run:
  assumes "tag msg = Field" "readRecord paramId AverageRateKeys (md_find (metadata msg)) = Inr md"
    and "md ''param'' = Some (V_Param p)" "map_of mappings p = Some q"
    and "msg_precision msg = Inr prec" "payload msg = Values vs" "get_seconds md = Inr s"
  shows "rate_executeImpl rnd paramId mappings msg =
    Inr [msg\<lparr>metadata := dumpRecord AverageRateKeys (md(''param'' \<mapsto> V_Param q)) (metadata msg),
             payload := Values (map (rate_value rnd prec (get_missing md) (rnd Double (1 / rnd Double (of_int s)))) vs)\<rparr>]"
proof -
  let ?msg = "msg\<lparr>metadata := dumpRecord AverageRateKeys (md(''param'' \<mapsto> V_Param q)) (metadata msg)\<rparr>"
  have "msg_precision ?msg = Inr prec"
    using assms(5) msg_precision_cong [of ?msg msg] by (simp add: md_find_dumpRecord rate_keys)
  moreover have "get_seconds (md(''param'' \<mapsto> V_Param q)) = Inr s"
    using assms(7) by (simp add: get_seconds_def get_entry_def)
  ultimately show ?thesis
    using assms rate_reread [OF assms(2), of q "metadata msg"]
    by (simp add: rate_executeImpl_def get_param_Inr [THEN iffD2] rate_compute_def Let_def)
qed

section \<open>The mappings of a preset\<close>

lemma map_of_to_result:
  "map_of (to_result m ms) p =
     (if p = sm_paramIn m then Some \<lparr>mr_paramOut = sm_paramOut m, mr_scaling = sm_scaling m\<rparr> else map_of ms p)"
  by (simp add: to_result_def update_conv')

lemma map_of_to_reverse:
  "map_of (to_reverse rnd m ms) p =
     (if p = sm_paramOut m then Some \<lparr>mr_paramOut = sm_paramIn m, mr_scaling = rnd Double (1 / sm_scaling m)\<rparr> else map_of ms p)"
  by (simp add: to_reverse_def update_conv')

text \<open>A row is in the mappings of the presets as it says, if its parameters occur in no other row.\<close>

lemma preset_rows_other:
  assumes "p \<notin> sm_paramIn ` set rows" "p \<notin> sm_paramOut ` set rows"
  shows "map_of (fold (preset_row rnd preset) rows ms) p = map_of ms p"
  using assms
  by (induction rows arbitrary: ms) (auto simp: preset_row_def map_of_to_result map_of_to_reverse split: ScalePreset.splits)

lemma preset_rows_mem:
  assumes "distinct (map sm_paramIn rows @ map sm_paramOut rows)" "r \<in> set rows"
  shows "map_of (fold (preset_row rnd LocalToWmo) rows ms) (sm_paramIn r) =
      Some \<lparr>mr_paramOut = sm_paramOut r, mr_scaling = sm_scaling r\<rparr>"
    and "map_of (fold (preset_row rnd preset) rows ms) (sm_paramOut r) =
      Some \<lparr>mr_paramOut = sm_paramIn r, mr_scaling = rnd Double (1 / sm_scaling r)\<rparr>"
    and "map_of (fold (preset_row rnd WmoToLocal) rows ms) (sm_paramIn r) = map_of ms (sm_paramIn r)"
proof -
  obtain pre post where rows: "rows = pre @ r # post" using assms(2) by (meson split_list)
  then have other: "map_of (fold (preset_row rnd preset) post ms) p = map_of ms p"
      if "p = sm_paramIn r \<or> p = sm_paramOut r" for ms preset p
    using that assms(1) rows by (intro preset_rows_other) (elim disjE; simp)+
  have before: "map_of (fold (preset_row rnd preset) pre ms) (sm_paramIn r) = map_of ms (sm_paramIn r)" for preset
    using assms(1) rows by (intro preset_rows_other) simp_all
  have ne: "sm_paramIn r \<noteq> sm_paramOut r" using assms(1) rows by auto
  show "map_of (fold (preset_row rnd LocalToWmo) rows ms) (sm_paramIn r) =
      Some \<lparr>mr_paramOut = sm_paramOut r, mr_scaling = sm_scaling r\<rparr>"
    using other ne by (simp add: rows preset_row_def map_of_to_result map_of_to_reverse)
  show "map_of (fold (preset_row rnd preset) rows ms) (sm_paramOut r) =
      Some \<lparr>mr_paramOut = sm_paramIn r, mr_scaling = rnd Double (1 / sm_scaling r)\<rparr>"
    using other ne by (simp add: rows preset_row_def map_of_to_result map_of_to_reverse split: ScalePreset.splits)
  show "map_of (fold (preset_row rnd WmoToLocal) rows ms) (sm_paramIn r) = map_of ms (sm_paramIn r)"
    using other before ne by (simp add: rows preset_row_def map_of_to_reverse)
qed

section \<open>Properties\<close>

lemma mask_executeImpl_stored:
  assumes "tag msg = Field" "stored_mask st (metadata msg) m" "payload msg = Values vs" "length vs = length m"
    and "msg_precision msg = Inr prec" "msg_name msg = Inr n"
  shows "mask_executeImpl rnd a st msg =
    Inr [msg\<lparr>metadata := md_set ''bitmapPresent'' (MBool True) (md_set ''missingValue'' (MDouble (maskMissing a)) (metadata msg)),
             payload := Values (under_mask True (\<lambda>v. if n \<in> set (offsetFields a) then rnd prec (v + rnd prec (offsetValue a)) else v) m
               (under_mask False (\<lambda>v. if applyBitmap a then rnd prec (maskMissing a) else v) m vs))\<rparr>]"
proof -
  have id: "under_mask b (\<lambda>v. v) m xs = xs" if "length xs = length m" for b xs
    using that by (auto simp: under_mask_def intro!: nth_equalityI)
  have name: "msg_name (msg\<lparr>payload := p\<rparr>) = Inr n" for p
    using assms(6) by (simp add: msg_name_def required_def)
  show ?thesis
    using assms by (auto simp: mask_executeImpl_def createMasked_def applyMask_def applyOffset_def over_mask_stored name id)
qed

text \<open>
  Property C22. The mask action keeps the values the mask lets through, with the offset added for the fields that have one, and
  replaces the others by the missing value, which it announces in the metadata. A mask of another size is refused. The option
  \<^verbatim>\<open>apply-bitmap\<close> is on, as it is by default.
\<close>

theorem mask_action_masks:
  assumes "tag msg = Field" "stored_mask st (metadata msg) m" "payload msg = Values vs"
    and "msg_precision msg = Inr prec" "msg_name msg = Inr n" "applyBitmap a"
  shows "if length vs = length m
    then \<exists>msg'. mask_executeImpl rnd a st msg = Inr [msg'] \<and>
      payload msg' = Values (map2 (\<lambda>b v. if \<not> b then rnd prec (maskMissing a)
        else if n \<in> set (offsetFields a) then rnd prec (v + rnd prec (offsetValue a)) else v) m vs) \<and>
      md_find (metadata msg') ''missingValue'' = Some (MDouble (maskMissing a)) \<and>
      md_find (metadata msg') ''bitmapPresent'' = Some (MBool True)
    else mask_executeImpl rnd a st msg = Inl SeriousBug"
proof (cases "length vs = length m")
  case True
  then show ?thesis
    using assms by (simp add: mask_executeImpl_stored) (auto simp: under_mask_def intro!: nth_equalityI)
next
  case False
  then show ?thesis
    using assms by (simp add: mask_executeImpl_def createMasked_def applyMask_def over_mask_stored)
qed


definition one_mask :: "real MaskStore" where
  "one_mask = \<lparr>messages = (\<lambda>_. None), bitmasks = (\<lambda>_. case encodeMaskRunLength (\<lambda>_. 0) [True, False] of
     Inr b \<Rightarrow> Some b | Inl _ \<Rightarrow> None)\<rparr>"

abbreviation ocean_field :: "real list \<Rightarrow> real message" where
  "ocean_field vs \<equiv> \<lparr>tag = Field, source = default_peer, destination = default_peer,
     metadata = [(''name'', MString ''sst''), (''domain'', MString ''t''), (''level'', MInteger 1),
       (''param'', MInteger 228), (''timespan'', MInteger 1), (''misc-precision'', MString ''single'')],
     payload = Values vs\<rparr>"

abbreviation to_celsius :: MaskAction where
  "to_celsius \<equiv> \<lparr>applyBitmap = True, maskMissing = 5 / 2, offsetFields = [''sst''], offsetValue = 10\<rparr>"

text \<open>A format that cannot represent 2.5.\<close>

definition coarse :: rounding where
  "coarse prec x = (if prec = Float \<and> x = 5 / 2 then 2 else x)"

lemma coarse_simps [simp]:
  "coarse Float (5 / 2) = 2" "coarse Double x = x" "x \<noteq> 5 / 2 \<Longrightarrow> coarse Float x = x" "coarse prec (coarse prec x) = coarse prec x"
  by (simp_all add: coarse_def)

lemma ocean_field_simps:
  "stored_mask one_mask (metadata (ocean_field vs)) [True, False]"
  "msg_precision (ocean_field vs) = Inr Float" "msg_name (ocean_field vs) = Inr ''sst''"
proof -
  obtain b where "encodeMaskRunLength (\<lambda>_. 0) [True, False] = Inr b"
    using encodeMaskRunLength_payload [of True "[False]" "\<lambda>_. 0"] by auto
  then show "stored_mask one_mask (metadata (ocean_field vs)) [True, False]"
    by (force simp: stored_mask_def one_mask_def mask_key_def md_get_Inr_iff md_find_def bind_res_Inr_iff)
qed (simp_all add: msg_precision_def msg_name_def required_def md_getOpt_def md_find_def getter_def decodePrecisionTag_def)

theorem mask_action_masks_witness:
  "\<exists>msg'. mask_executeImpl coarse to_celsius one_mask (ocean_field [3, 4]) = Inr [msg'] \<and> payload msg' = Values [13, 2]"
  using mask_action_masks [OF _ ocean_field_simps(1) _ ocean_field_simps(2,3), where rnd = coarse and a = to_celsius and vs = "[3, 4]"]
  by auto

text \<open>
  Property C25. The two presets of the scale action are meant to be the two directions of the file of mappings, but the
  first contains the second: with \<^verbatim>\<open>local-to-wmo\<close> a field that has been scaled already, or comes in WMO
  units, is scaled back to local units, as with \<^verbatim>\<open>wmo-to-local\<close>. So the action applied twice gives back the
  local parameter. Only \<^verbatim>\<open>wmo-to-local\<close> leaves alone what it is not for.
\<close>

theorem local_to_wmo_goes_back:
  assumes "distinct (map sm_paramIn rows @ map sm_paramOut rows)" and r: "r \<in> set rows"
    and "tag msg = Field" "readRecord paramId ScaleMetadataKeys (md_find (metadata msg)) = Inr md"
    and "md ''param'' = Some (V_Param (sm_paramIn r))" "msg_precision msg = Inr prec" "payload msg = Values vs"
  shows "\<exists>to_wmo to_local msg1 msg2.
    scale_getMappings rnd rows (Some LocalToWmo) [] = Inr to_wmo \<and>
    scale_getMappings rnd rows (Some WmoToLocal) [] = Inr to_local \<and>
    scale_executeImpl rnd paramId to_wmo msg = Inr [msg1] \<and>
    md_find (metadata msg1) ''param'' = Some (MInteger (sm_paramOut r)) \<and>
    scale_executeImpl rnd paramId to_wmo msg1 = Inr [msg2] \<and>
    md_find (metadata msg2) ''param'' = Some (MInteger (sm_paramIn r)) \<and>
    scale_executeImpl rnd paramId to_local msg1 = Inr [msg2] \<and>
    scale_executeImpl rnd paramId to_local msg = Inr [msg]"
proof -
  let ?ms = "\<lambda>preset. preset_mappings rnd rows preset"
  let ?wmo = "\<lparr>mr_paramOut = sm_paramOut r, mr_scaling = sm_scaling r\<rparr>"
  let ?local = "\<lparr>mr_paramOut = sm_paramIn r, mr_scaling = rnd Double (1 / sm_scaling r)\<rparr>"
  have ms: "map_of (?ms LocalToWmo) (sm_paramIn r) = Some ?wmo" "map_of (?ms preset) (sm_paramOut r) = Some ?local"
      "map_of (?ms WmoToLocal) (sm_paramIn r) = None" for preset
    using preset_rows_mem [OF assms(1) r] by (simp_all add: preset_mappings_def)
  have gm: "scale_getMappings rnd rows (Some preset) [] = Inr (?ms preset)" for preset
    using ms(2) [of preset] by (cases "?ms preset") (simp_all add: scale_getMappings_def)
  have same: "scale_executeImpl rnd paramId (?ms WmoToLocal) msg = Inr [msg]"
    using assms(3-5) ms(3) by (simp add: scale_executeImpl_def get_param_Inr [THEN iffD2])
  define msg1 where "msg1 = msg\<lparr>metadata := dumpRecord ScaleMetadataKeys (md(''param'' \<mapsto> V_Param (sm_paramOut r))) (metadata msg),
              payload := Values (map (scale_value rnd prec (get_missing md) (sm_scaling r)) vs)\<rparr>"
  have one: "scale_executeImpl rnd paramId (?ms LocalToWmo) msg = Inr [msg1]"
    using scale_executeImpl_field [OF assms(3-5) ms(1) assms(6,7), of rnd] by (simp add: msg1_def)
  have "msg_precision msg1 = Inr prec"
    using assms(6) msg_precision_cong [of msg1 msg] by (simp add: msg1_def md_find_dumpRecord scale_keys)
  moreover have "readRecord paramId ScaleMetadataKeys (md_find (metadata msg1)) = Inr (md(''param'' \<mapsto> V_Param (sm_paramOut r)))"
    using scale_reread [OF assms(4)] by (simp add: msg1_def)
  ultimately have two: "\<exists>msg2. (\<forall>preset. scale_executeImpl rnd paramId (?ms preset) msg1 = Inr [msg2]) \<and>
      md_find (metadata msg2) ''param'' = Some (MInteger (sm_paramIn r))"
    using scale_executeImpl_field [of msg1 paramId _ "sm_paramOut r" _ ?local prec _ rnd] ms(2) assms(3)
    by (force simp: msg1_def md_find_dumpRecord scale_keys)
  show ?thesis
    using gm same one two by (fastforce simp: msg1_def md_find_dumpRecord scale_keys)
qed

lemma ocean_field_read:
  "readRecord no_short_names ScaleMetadataKeys (md_find (metadata (ocean_field vs))) = Inr [''param'' \<mapsto> V_Param 228]"
  by (auto simp: readRecord_Inr parseRecord_def applyRecordDefaults_def ScaleMetadataKeys_def plain_def set_entries_def
      mars_keys grib_keys entry_defs getByRef_def parse_value_def via_int64_def applyEntryDefaults_def md_find_def)

lemma local_to_wmo_distinct: "distinct (map sm_paramIn local_to_wmo @ map sm_paramOut local_to_wmo)"
  by code_simp

theorem local_to_wmo_goes_back_witness:
  "\<exists>to_wmo to_local msg1 msg2.
    scale_getMappings coarse local_to_wmo (Some LocalToWmo) [] = Inr to_wmo \<and>
    scale_getMappings coarse local_to_wmo (Some WmoToLocal) [] = Inr to_local \<and>
    scale_executeImpl coarse no_short_names to_wmo (ocean_field [3, 4]) = Inr [msg1] \<and>
    md_find (metadata msg1) ''param'' = Some (MInteger 228228) \<and>
    scale_executeImpl coarse no_short_names to_wmo msg1 = Inr [msg2] \<and>
    md_find (metadata msg2) ''param'' = Some (MInteger 228) \<and>
    scale_executeImpl coarse no_short_names to_local msg1 = Inr [msg2] \<and>
    scale_executeImpl coarse no_short_names to_local (ocean_field [3, 4]) = Inr [ocean_field [3, 4]]"
proof -
  have "\<lparr>sm_paramIn = 228, sm_paramOut = 228228, sm_scaling = 1000\<rparr> \<in> set local_to_wmo"
    by (simp add: local_to_wmo_def)
  from local_to_wmo_goes_back [where rnd = coarse, OF local_to_wmo_distinct this _ ocean_field_read _ ocean_field_simps(2)]
  show ?thesis by simp
qed

section \<open>Missing values on their way\<close>

lemma masked_missing:
  assumes "tag msg = Field" "stored_mask st (metadata msg) m" "payload msg = Values vs" "length vs = length m"
    and "msg_precision msg = Inr prec" "msg_name msg = Inr n" "applyBitmap a"
    and "mask_executeImpl rnd a st msg = Inr [msg1]"
  shows "\<exists>ws. payload msg1 = Values ws \<and> length ws = length m \<and> tag msg1 = Field \<and> msg_precision msg1 = Inr prec \<and>
    md_find (metadata msg1) ''missingValue'' = Some (MDouble (maskMissing a)) \<and>
    (\<forall>i<length m. \<not> m ! i \<longrightarrow> ws ! i = rnd prec (maskMissing a))"
proof -
  have "msg_precision msg1 = msg_precision msg"
    using assms(8) mask_executeImpl_stored [OF assms(1-6)] by (intro msg_precision_cong) auto
  then show ?thesis
    using assms(1,3-5,7,8) mask_executeImpl_stored [OF assms(1-6), of rnd a] by (auto simp: under_mask_def)
qed

text \<open>The field after the mask action, as the other two actions read it.\<close>

lemma scale_read:
  assumes "md_find md ''param'' = Some (MInteger p)" "md_find md ''missingValue'' = Some (MDouble x)"
  shows "readRecord no_short_names ScaleMetadataKeys (md_find md) = Inr [''param'' \<mapsto> V_Param p, ''missingValue'' \<mapsto> V_Double x]"
  using assms
  by (auto simp: readRecord_Inr parseRecord_def applyRecordDefaults_def ScaleMetadataKeys_def plain_def set_entries_def
      mars_keys grib_keys entry_defs getByRef_def parse_value_def via_int64_def applyEntryDefaults_def)

lemma rate_read:
  assumes "md_find md ''param'' = Some (MInteger p)" "md_find md ''missingValue'' = Some (MDouble x)"
    and "md_find md ''timespan'' = Some (MInteger 1)" "md_find md ''stattype'' = None"
  shows "readRecord no_short_names AverageRateKeys (md_find md) =
    Inr [''param'' \<mapsto> V_Param p, ''missingValue'' \<mapsto> V_Double x, ''timespan'' \<mapsto> V_TimeDuration (Hours 1)]"
  using assms
  by (auto simp: readRecord_Inr parseRecord_def applyRecordDefaults_def AverageRateKeys_def set_entries_def
      mars_keys grib_keys entry_defs getByRef_def parse_value_def via_int64_def applyEntryDefaults_def
      AverageRateKeys_validate_def get_entry_def in_int64_def)

lemma masked_field:
  obtains msg1 where "mask_executeImpl coarse to_celsius one_mask (ocean_field [3, 4]) = Inr [msg1]"
    and "readRecord no_short_names ScaleMetadataKeys (md_find (metadata msg1)) =
      Inr [''param'' \<mapsto> V_Param 228, ''missingValue'' \<mapsto> V_Double (5 / 2)]"
    and "\<exists>msg2. rate_executeImpl coarse no_short_names [(228, 235055)] msg1 = Inr [msg2]"
proof -
  have len: "length [3, 4 :: real] = length [True, False]" by simp
  note run = mask_executeImpl_stored [OF _ ocean_field_simps(1) _ len ocean_field_simps(2,3), of "[3, 4]" coarse to_celsius]
  let ?msg1 = "ocean_field [13, 2]\<lparr>metadata := md_set ''bitmapPresent'' (MBool True) (md_set ''missingValue'' (MDouble (5 / 2))
    (metadata (ocean_field [3, 4])))\<rparr>"
  have finds: "md_find (metadata ?msg1) ''param'' = Some (MInteger 228)" "md_find (metadata ?msg1) ''missingValue'' = Some (MDouble (5 / 2))"
      "md_find (metadata ?msg1) ''timespan'' = Some (MInteger 1)" "md_find (metadata ?msg1) ''stattype'' = None"
    unfolding message.simps message.update_convs md_find_set by (simp_all add: md_find_def)
  have prec: "msg_precision ?msg1 = Inr Float"
    using ocean_field_simps(2) [of "[]"] by (subst msg_precision_cong [of _ "ocean_field []"]) (simp_all add: md_find_def)
  show ?thesis
  proof (rule that [of ?msg1])
    show "mask_executeImpl coarse to_celsius one_mask (ocean_field [3, 4]) = Inr [?msg1]"
      using run by (simp add: under_mask_def)
    show "readRecord no_short_names ScaleMetadataKeys (md_find (metadata ?msg1)) =
      Inr [''param'' \<mapsto> V_Param 228, ''missingValue'' \<mapsto> V_Double (5 / 2)]"
      by (rule scale_read [OF finds(1,2)])
    let ?md = "[''param'' \<mapsto> V_Param 228, ''missingValue'' \<mapsto> V_Double (5 / 2), ''timespan'' \<mapsto> V_TimeDuration (Hours 1)]"
    have "readRecord no_short_names AverageRateKeys (md_find (metadata ?msg1)) = Inr ?md"
      by (rule rate_read [OF finds])
    from rate_executeImpl_run [OF _ this _ _ prec] show "\<exists>msg2. rate_executeImpl coarse no_short_names [(228, 235055)] ?msg1 = Inr [msg2]"
      by (simp add: in_int64_def get_seconds_Inr)
  qed
qed

text \<open>
  Property C23. What the mask action has masked stays masked when the average rate is computed: at the masked points the result
  has the missing value, rounded to the precision of the field.
\<close>

theorem rates_keep_missing:
  assumes "tag msg = Field" "stored_mask st (metadata msg) m" "payload msg = Values vs" "length vs = length m"
    and "msg_precision msg = Inr prec" "msg_name msg = Inr n" "applyBitmap a"
    and "mask_executeImpl rnd a st msg = Inr [msg1]" "rate_executeImpl rnd paramId mappings msg1 = Inr [msg2]"
    and "\<And>x. rnd prec (rnd prec x) = rnd prec x"
  shows "\<exists>ws. payload msg2 = Values ws \<and> length ws = length m \<and>
    under_mask False (\<lambda>_. rnd prec (maskMissing a)) m ws = ws"
proof -
  obtain us where us: "payload msg1 = Values us" "length us = length m" "tag msg1 = Field" "msg_precision msg1 = Inr prec"
      "md_find (metadata msg1) ''missingValue'' = Some (MDouble (maskMissing a))"
      "\<forall>i<length m. \<not> m ! i \<longrightarrow> us ! i = rnd prec (maskMissing a)"
    using masked_missing [OF assms(1-8)] by blast
  obtain md s where md: "readRecord paramId AverageRateKeys (md_find (metadata msg1)) = Inr md"
      "payload msg2 = Values (map (rate_value rnd prec (get_missing md) (rnd Double (1 / rnd Double (of_int s)))) us)"
    using rate_executeImpl_Inr [OF us(3) assms(9)] us(1,4) by fastforce
  have "rate_value rnd prec (get_missing md) c (rnd prec (maskMissing a)) = rnd prec (maskMissing a)" for c
    using missing_value_read(2) [OF us(5) md(1)] assms(10) by (simp add: rate_value_def)
  then show ?thesis
    using us(2,6) md(2) by (auto simp: under_mask_def intro!: nth_equalityI)
qed

theorem rates_keep_missing_witness:
  "\<exists>msg1 msg2 ws. mask_executeImpl coarse to_celsius one_mask (ocean_field [3, 4]) = Inr [msg1] \<and>
    rate_executeImpl coarse no_short_names [(228, 235055)] msg1 = Inr [msg2] \<and>
    payload msg2 = Values ws \<and> length ws = 2 \<and> under_mask False (\<lambda>_. 2) [True, False] ws = ws"
proof -
  obtain msg1 msg2 where run: "mask_executeImpl coarse to_celsius one_mask (ocean_field [3, 4]) = Inr [msg1]"
      "rate_executeImpl coarse no_short_names [(228, 235055)] msg1 = Inr [msg2]"
    using masked_field by metis
  have "\<exists>ws. payload msg2 = Values ws \<and> length ws = length [True, False] \<and>
      under_mask False (\<lambda>_. coarse Float (maskMissing to_celsius)) [True, False] ws = ws"
    by (rule rates_keep_missing [OF _ ocean_field_simps(1) _ _ ocean_field_simps(2,3) _ run, where vs = "[3, 4]"]) simp_all
  then show ?thesis using run by fastforce
qed

text \<open>
  Property C24. The scale action compares the values with the missing value before it is rounded: what was masked
  stays masked if the missing value can be represented in the precision of the field, and is scaled otherwise.
\<close>

theorem scaling_keeps_representable_missing:
  assumes "tag msg = Field" "stored_mask st (metadata msg) m" "payload msg = Values vs" "length vs = length m"
    and "msg_precision msg = Inr prec" "msg_name msg = Inr n" "applyBitmap a"
    and "mask_executeImpl rnd a st msg = Inr [msg1]"
    and "readRecord paramId ScaleMetadataKeys (md_find (metadata msg1)) = Inr md"
    and "md ''param'' = Some (V_Param p)" "map_of mappings p = Some r"
  shows "\<exists>msg2 ws. scale_executeImpl rnd paramId mappings msg1 = Inr [msg2] \<and> payload msg2 = Values ws \<and>
    length ws = length m \<and>
    under_mask False (\<lambda>_. let x = rnd prec (maskMissing a) in
      if x = maskMissing a then x else rnd prec (rnd Double (x * mr_scaling r))) m ws = ws"
proof -
  obtain us where us: "payload msg1 = Values us" "length us = length m" "tag msg1 = Field" "msg_precision msg1 = Inr prec"
      "md_find (metadata msg1) ''missingValue'' = Some (MDouble (maskMissing a))"
      "\<forall>i<length m. \<not> m ! i \<longrightarrow> us ! i = rnd prec (maskMissing a)"
    using masked_missing [OF assms(1-8)] by blast
  have "scale_value rnd prec (get_missing md) (mr_scaling r) (rnd prec (maskMissing a)) =
      (let x = rnd prec (maskMissing a) in if x = maskMissing a then x else rnd prec (rnd Double (x * mr_scaling r)))"
    using missing_value_read(1) [OF us(5) assms(9)] by (auto simp: scale_value_def Let_def)
  then show ?thesis
    using scale_executeImpl_field [OF us(3) assms(9,10,11) us(4,1), of rnd] us(2,6)
    by (auto simp: under_mask_def intro!: nth_equalityI)
qed

theorem scaling_keeps_representable_missing_witness:
  "\<exists>msg1 msg2 ws. mask_executeImpl coarse to_celsius one_mask (ocean_field [3, 4]) = Inr [msg1] \<and>
    scale_executeImpl coarse no_short_names (preset_mappings coarse local_to_wmo LocalToWmo) msg1 = Inr [msg2] \<and>
    payload msg2 = Values ws \<and> length ws = 2 \<and> under_mask False (\<lambda>_. 2000) [True, False] ws = ws"
proof -
  obtain msg1 where run: "mask_executeImpl coarse to_celsius one_mask (ocean_field [3, 4]) = Inr [msg1]"
      "readRecord no_short_names ScaleMetadataKeys (md_find (metadata msg1)) =
        Inr [''param'' \<mapsto> V_Param 228, ''missingValue'' \<mapsto> V_Double (5 / 2)]"
    using masked_field by metis
  have "\<lparr>sm_paramIn = 228, sm_paramOut = 228228, sm_scaling = 1000\<rparr> \<in> set local_to_wmo"
    by (simp add: local_to_wmo_def)
  from preset_rows_mem(1) [OF local_to_wmo_distinct this, of coarse "[]"]
  have "map_of (preset_mappings coarse local_to_wmo LocalToWmo) 228 = Some \<lparr>mr_paramOut = 228228, mr_scaling = 1000\<rparr>"
    by (simp add: preset_mappings_def)
  then have "\<exists>msg2 ws. scale_executeImpl coarse no_short_names (preset_mappings coarse local_to_wmo LocalToWmo) msg1 = Inr [msg2] \<and>
      payload msg2 = Values ws \<and> length ws = length [True, False] \<and>
      under_mask False (\<lambda>_. let x = coarse Float (maskMissing to_celsius) in if x = maskMissing to_celsius then x
        else coarse Float (coarse Double (x * mr_scaling \<lparr>mr_paramOut = 228228, mr_scaling = 1000\<rparr>))) [True, False] ws = ws"
    by (intro scaling_keeps_representable_missing [OF _ ocean_field_simps(1) _ _ ocean_field_simps(2,3) _ run, where vs = "[3, 4]"]) simp_all
  then show ?thesis using run(1) by fastforce
qed

end
