(* ===== verification/Triggers.thy ===== *)
theory Triggers
  imports Configurations
begin

text \<open>
  The event triggers of the sinks (\<^verbatim>\<open>sink/Trigger\<close>): an ordered list of values of a key, e.g. of steps, is announced value
  by value as the messages move on. The state of a trigger are two iterators into its list, here positions, where the
  length of the list stands for \<^verbatim>\<open>values_.end()\<close>. A message is what its \<^verbatim>\<open>getString\<close> returns for a key.
\<close>

section \<open>Events and where they go\<close>

type_synonym StringDict = "(string \<times> string) list"

datatype Event =
    MetadataChange (ev_info: StringDict) (ev_metadata: StringDict)
  | NotifyMetadata (ev_info: StringDict) (ev_metadata: StringDict)

record EventTrigger =
  et_file :: string
  et_host :: string
  et_failOnRetry :: bool
  et_port :: int
  et_retries :: int
  et_timeout :: int
  et_info :: StringDict

definition dict_set :: "string \<Rightarrow> string \<Rightarrow> StringDict \<Rightarrow> StringDict" where
  "dict_set k v d = filter (\<lambda>(k', _). k' \<noteq> k) d @ [(k, v)]"

definition getInt_default :: "Config \<Rightarrow> string \<Rightarrow> int \<Rightarrow> int res" where
  "getInt_default = getLong_default"

definition new_EventTrigger :: "Config \<Rightarrow> EventTrigger res" where
  "new_EventTrigger c =
     bind_res (if cfg_has c ''file'' then cfg_getString c ''file'' else Inr []) (\<lambda>file_name.
     bind_res (if cfg_has c ''host'' then cfg_getString c ''host'' else Inr []) (\<lambda>host.
     bind_res (getInt_default c ''failOnRetry'' 0) (\<lambda>f.
     bind_res (getInt_default c ''port'' 10000) (\<lambda>p.
     bind_res (getInt_default c ''retries'' 5) (\<lambda>r.
     bind_res (getInt_default c ''timeout'' 60) (\<lambda>t.
     bind_res
       (if cfg_has c ''info''
        then let info = cfg_getSubConfiguration c ''info''
             in fold_res (\<lambda>(k, _) d. bind_res (cfg_getString info k) (\<lambda>v. Inr (dict_set k v d))) (cfg_entries info)
                  (dict_set ''app'' ''multio'' [])
        else Inr (dict_set ''app'' ''multio'' [])) (\<lambda>info.
     Inr \<lparr>et_file = file_name, et_host = host, et_failOnRetry = (f \<noteq> 0), et_port = p, et_retries = r, et_timeout = t,
          et_info = info\<rparr>)))))))"

text \<open>
  What has been written so far: the events sent to a host and those appended to a file, as eckit's JSON. Whether the host can be
  reached is the argument \<open>up\<close>.
\<close>

record Outputs =
  to_host :: "(string \<times> int \<times> Event) list"
  to_file :: "(string \<times> Event) list"

definition send :: "bool \<Rightarrow> EventTrigger \<Rightarrow> Event \<Rightarrow> Outputs \<Rightarrow> Outputs \<times> unit res" where
  "send up t ev out =
     (let file_part = (\<lambda>out. if et_file t \<noteq> [] then out\<lparr>to_file := to_file out @ [(et_file t, ev)]\<rparr> else out)
      in if et_host t \<noteq> []
         then if up then (file_part (out\<lparr>to_host := to_host out @ [(et_host t, et_port t, ev)]\<rparr>), Inr ())
              else if et_failOnRetry t then (out, Inl ForeignException) else (file_part out, Inr ())
         else (file_part out, Inr ()))"

section \<open>Announcing the values of a list\<close>

record MetadataChangeTrigger =
  mc_base :: EventTrigger
  mc_key :: string
  mc_values :: "string list"
  mc_lastSeen :: nat
  mc_issued :: nat

definition new_MetadataChangeTrigger :: "Config \<Rightarrow> MetadataChangeTrigger res" where
  "new_MetadataChangeTrigger c =
     bind_res (new_EventTrigger c) (\<lambda>b.
     bind_res (cfg_getString c ''key'') (\<lambda>k.
     bind_res (case cfg_find c ''values'' of
         Some (CList cs) \<Rightarrow> (case list_as c_string cs of Some ss \<Rightarrow> Inr ss | None \<Rightarrow> Inl ForeignException)
       | _ \<Rightarrow> Inl ForeignException) (\<lambda>vs.
     Inr \<lparr>mc_base = b, mc_key = k, mc_values = vs, mc_lastSeen = length vs, mc_issued = length vs\<rparr>)))"

definition issueEvent :: "bool \<Rightarrow> MetadataChangeTrigger \<Rightarrow> nat \<Rightarrow> Outputs \<Rightarrow> Outputs \<times> unit res" where
  "issueEvent up t i out =
     (if i = length (mc_values t) then (out, Inl AssertionFailed)
      else send up (mc_base t) (MetadataChange (et_info (mc_base t)) [(mc_key t, mc_values t ! i)]) out)"

text \<open>
  The loop \<^verbatim>\<open>while (issued_ != lastSeen_) { ++issued_; issueEvent(issued_); }\<close>: it ends at \<^verbatim>\<open>lastSeen_\<close> or
  with an exception, at the latest at the end of the list.
\<close>

function issue_loop ::
    "bool \<Rightarrow> MetadataChangeTrigger \<Rightarrow> Outputs \<Rightarrow> MetadataChangeTrigger \<times> Outputs \<times> unit res" where
  "issue_loop up t out =
     (if mc_issued t = mc_lastSeen t then (t, out, Inr ())
      else if length (mc_values t) \<le> mc_issued t then (t, out, Inl UndefinedBehaviour)
      else let t = t\<lparr>mc_issued := Suc (mc_issued t)\<rparr>
           in case issueEvent up t (mc_issued t) out of
                (out, Inl e) \<Rightarrow> (t, out, Inl e)
              | (out, Inr _) \<Rightarrow> issue_loop up t out)"
  by pat_completeness auto

termination
  by (relation "measure (\<lambda>(up, t, out). length (mc_values t) - mc_issued t)") auto

declare issue_loop.simps [simp del]

definition updateEventsIssued ::
    "bool \<Rightarrow> MetadataChangeTrigger \<Rightarrow> Outputs \<Rightarrow> MetadataChangeTrigger \<times> Outputs \<times> unit res" where
  "updateEventsIssued up t out =
     (let n = length (mc_values t)
      in if mc_issued t = n \<and> mc_lastSeen t \<noteq> n
         then let t = t\<lparr>mc_issued := 0\<rparr>
              in case issueEvent up t 0 out of
                   (out, Inl e) \<Rightarrow> (t, out, Inl e)
                 | (out, Inr _) \<Rightarrow> issue_loop up t out
         else issue_loop up t out)"

text \<open>\<^verbatim>\<open>std::find\<close>: the first position of a value, or the end.\<close>

definition position :: "string list \<Rightarrow> string \<Rightarrow> nat" where
  "position vs v = length (takeWhile (\<lambda>x. x \<noteq> v) vs)"

definition change_trigger ::
    "bool \<Rightarrow> MetadataChangeTrigger \<Rightarrow> (string \<Rightarrow> string res) \<Rightarrow> Outputs \<Rightarrow> MetadataChangeTrigger \<times> Outputs \<times> unit res" where
  "change_trigger up t msg out =
     (case msg (mc_key t) of
        Inl e \<Rightarrow> (t, out, Inl e)
      | Inr current \<Rightarrow>
          let n = length (mc_values t);
              now = position (mc_values t) current;
              t = (if mc_lastSeen t = n \<and> now \<noteq> n then t\<lparr>mc_lastSeen := now\<rparr> else t)
          in if mc_lastSeen t = now then (t, out, Inr ())
             else case updateEventsIssued up t out of
                (t, out, Inl e) \<Rightarrow> (t, out, Inl e)
              | (t, out, Inr _) \<Rightarrow> (if now \<noteq> n then t\<lparr>mc_lastSeen := now\<rparr> else t, out, Inr ()))"

text \<open>The destructor issues what is left; an exception that leaves it ends the program.\<close>

definition change_destructor :: "bool \<Rightarrow> MetadataChangeTrigger \<Rightarrow> Outputs \<Rightarrow> Outputs \<times> unit res" where
  "change_destructor up t out =
     (case updateEventsIssued up t out of
        (_, out, Inl _) \<Rightarrow> (out, Inl Terminate)
      | (_, out, Inr _) \<Rightarrow> (out, Inr ()))"

section \<open>Notifications and the list of triggers\<close>

record NotifyMetadataTrigger =
  nm_base :: EventTrigger
  nm_key :: string

definition new_NotifyMetadataTrigger :: "Config \<Rightarrow> NotifyMetadataTrigger res" where
  "new_NotifyMetadataTrigger c =
     bind_res (new_EventTrigger c) (\<lambda>b. bind_res (cfg_getString c ''key'') (\<lambda>k. Inr \<lparr>nm_base = b, nm_key = k\<rparr>))"

definition notify_trigger :: "bool \<Rightarrow> NotifyMetadataTrigger \<Rightarrow> StringDict \<Rightarrow> Outputs \<Rightarrow> Outputs \<times> unit res" where
  "notify_trigger up t keys out =
     (case map_of keys (nm_key t) of
        Some v \<Rightarrow> send up (nm_base t) (NotifyMetadata (et_info (nm_base t)) [(nm_key t, v)]) out
      | None \<Rightarrow> (out, Inr ()))"

datatype Trigger = Change MetadataChangeTrigger | Notify NotifyMetadataTrigger

definition build_trigger :: "Config \<Rightarrow> Trigger res" where
  "build_trigger c =
     bind_res (cfg_getString c ''type'') (\<lambda>ty.
     if ty = ''MetadataChange'' then bind_res (new_MetadataChangeTrigger c) (\<lambda>t. Inr (Change t))
     else if ty = ''NotifyMetadata'' then bind_res (new_NotifyMetadataTrigger c) (\<lambda>t. Inr (Notify t))
     else Inl BadValue)"

text \<open>The configuration in the environment variable, if it is set, adds triggers.\<close>

definition new_Trigger :: "Config \<Rightarrow> Config option \<Rightarrow> Trigger list res" where
  "new_Trigger c env =
     bind_res (fold_res (\<lambda>c ts. bind_res (build_trigger c) (\<lambda>t. Inr (ts @ [t])))
        (if cfg_has c ''triggers'' then cfg_getSubConfigurations c ''triggers'' else []) []) (\<lambda>ts.
     case env of
       None \<Rightarrow> Inr ts
     | Some conf \<Rightarrow> fold_res (\<lambda>c ts. bind_res (build_trigger c) (\<lambda>t. Inr (ts @ [t])))
         (cfg_getSubConfigurations conf ''triggers'') ts)"

fun events_keys :: "bool \<Rightarrow> Trigger list \<Rightarrow> StringDict \<Rightarrow> Outputs \<Rightarrow> Outputs \<times> unit res" where
  "events_keys up [] keys out = (out, Inr ())"
| "events_keys up (Change _ # ts) keys out = events_keys up ts keys out"
| "events_keys up (Notify t # ts) keys out =
     (case notify_trigger up t keys out of
        (out, Inl e) \<Rightarrow> (out, Inl e)
      | (out, Inr _) \<Rightarrow> events_keys up ts keys out)"

fun events_message ::
    "bool \<Rightarrow> Trigger list \<Rightarrow> (string \<Rightarrow> string res) \<Rightarrow> Outputs \<Rightarrow> Trigger list \<times> Outputs \<times> unit res" where
  "events_message up [] msg out = ([], out, Inr ())"
| "events_message up (Notify t # ts) msg out =
     (case events_message up ts msg out of (ts, out, r) \<Rightarrow> (Notify t # ts, out, r))"
| "events_message up (Change t # ts) msg out =
     (case change_trigger up t msg out of
        (t, out, Inl e) \<Rightarrow> (Change t # ts, out, Inl e)
      | (t, out, Inr _) \<Rightarrow> (case events_message up ts msg out of (ts, out, r) \<Rightarrow> (Change t # ts, out, r)))"


text \<open>A sequence of messages, until one throws.\<close>

fun change_run ::
    "bool \<Rightarrow> MetadataChangeTrigger \<Rightarrow> (string \<Rightarrow> string res) list \<Rightarrow> Outputs \<Rightarrow> MetadataChangeTrigger \<times> Outputs \<times> unit res" where
  "change_run up t [] out = (t, out, Inr ())"
| "change_run up t (m # ms) out =
     (case change_trigger up t m out of
        (t, out, Inl e) \<Rightarrow> (t, out, Inl e)
      | (t, out, Inr _) \<Rightarrow> change_run up t ms out)"

section \<open>What an update announces\<close>

text \<open>
  A trigger that no failing host stops: it has no host, or the host can be reached, or it does not care (then the events for the
  host are lost). \<open>announce\<close> is what has been sent once the events for the values at some positions have been
  added: to the host, if there is one that can be reached, and to the file, if there is one.
\<close>

definition delivers :: "bool \<Rightarrow> EventTrigger \<Rightarrow> bool" where
  "delivers up b \<longleftrightarrow> et_host b = [] \<or> up \<or> \<not> et_failOnRetry b"

definition value_event :: "MetadataChangeTrigger \<Rightarrow> nat \<Rightarrow> Event" where
  "value_event t i = MetadataChange (et_info (mc_base t)) [(mc_key t, mc_values t ! i)]"

definition announce :: "bool \<Rightarrow> MetadataChangeTrigger \<Rightarrow> nat list \<Rightarrow> Outputs \<Rightarrow> Outputs" where
  "announce up t is out =
     (let b = mc_base t
      in \<lparr>to_host = to_host out @ (if et_host b \<noteq> [] \<and> up then map (\<lambda>i. (et_host b, et_port b, value_event t i)) is else []),
          to_file = to_file out @ (if et_file b \<noteq> [] then map (\<lambda>i. (et_file b, value_event t i)) is else [])\<rparr>)"

definition announce_one :: "bool \<Rightarrow> MetadataChangeTrigger \<Rightarrow> nat \<Rightarrow> Outputs \<Rightarrow> Outputs" where
  "announce_one up t i out = announce up t [i] out"

lemma announce_simps [simp]:
  "announce up t [] out = out"
  "announce up t (i # is) out = announce up t is (announce_one up t i out)"
  "announce up t (is @ js) out = announce up t js (announce up t is out)"
  by (simp_all add: announce_def announce_one_def Let_def)

lemma announce_state [simp]:
  "announce up (t\<lparr>mc_issued := i\<rparr>) = announce up t" "announce up (t\<lparr>mc_lastSeen := j\<rparr>) = announce up t"
  "announce_one up (t\<lparr>mc_issued := i\<rparr>) = announce_one up t" "announce_one up (t\<lparr>mc_lastSeen := j\<rparr>) = announce_one up t"
  by (simp_all add: announce_def announce_one_def value_event_def Let_def fun_eq_iff)

lemma issueEvent_delivers:
  assumes "delivers up (mc_base t)" "i < length (mc_values t)"
  shows "issueEvent up t i out = (announce up t [i] out, Inr ())"
  using assms
  by (auto simp: issueEvent_def send_def delivers_def value_event_def announce_def Let_def simp del: announce_simps
      intro!: Outputs.equality)

lemma issue_loop_forward:
  assumes "delivers up (mc_base t)" "mc_issued t \<le> mc_lastSeen t" "mc_lastSeen t < length (mc_values t)"
  shows "issue_loop up t out =
    (t\<lparr>mc_issued := mc_lastSeen t\<rparr>, announce up t [Suc (mc_issued t)..<Suc (mc_lastSeen t)] out, Inr ())"
  using assms
proof (induction "mc_lastSeen t - mc_issued t" arbitrary: t out)
  case 0
  then show ?case by (subst issue_loop.simps) simp
next
  case (Suc d)
  let ?t = "t\<lparr>mc_issued := Suc (mc_issued t)\<rparr>" and ?out = "announce up t [Suc (mc_issued t)] out"
  have "issue_loop up ?t ?out = (?t\<lparr>mc_issued := mc_lastSeen ?t\<rparr>, announce up ?t [Suc (mc_issued ?t)..<Suc (mc_lastSeen ?t)] ?out, Inr ())"
    using Suc.hyps(2) Suc.prems by (intro Suc.hyps(1)) simp_all
  moreover have "issueEvent up ?t (mc_issued ?t) out = (?out, Inr ())"
    using Suc.hyps(2) Suc.prems issueEvent_delivers [of up ?t "Suc (mc_issued t)" out] by simp
  moreover have "[Suc (mc_issued t)..<Suc (mc_lastSeen t)] = Suc (mc_issued t) # [Suc (Suc (mc_issued t))..<Suc (mc_lastSeen t)]"
    using Suc.hyps(2) by (simp add: upt_conv_Cons del: upt_Suc)
  ultimately show ?case
    using Suc.hyps(2) Suc.prems by (subst issue_loop.simps) (simp del: upt_Suc)
qed

lemma issue_loop_backward:
  assumes "delivers up (mc_base t)" "mc_lastSeen t < mc_issued t" "mc_issued t < length (mc_values t)"
  shows "issue_loop up t out =
    (t\<lparr>mc_issued := length (mc_values t)\<rparr>, announce up t [Suc (mc_issued t)..<length (mc_values t)] out, Inl AssertionFailed)"
  using assms
proof (induction "length (mc_values t) - Suc (mc_issued t)" arbitrary: t out)
  case 0
  then have n: "length (mc_values t) = Suc (mc_issued t)" by simp
  show ?case using 0 by (subst issue_loop.simps) (simp add: issueEvent_def n)
next
  case (Suc d)
  let ?t = "t\<lparr>mc_issued := Suc (mc_issued t)\<rparr>" and ?out = "announce up t [Suc (mc_issued t)] out"
  have "issue_loop up ?t ?out = (?t\<lparr>mc_issued := length (mc_values ?t)\<rparr>,
      announce up ?t [Suc (mc_issued ?t)..<length (mc_values ?t)] ?out, Inl AssertionFailed)"
    using Suc.hyps(2) Suc.prems by (intro Suc.hyps(1)) simp_all
  moreover have "issueEvent up ?t (mc_issued ?t) out = (?out, Inr ())"
    using Suc.hyps(2) Suc.prems issueEvent_delivers [of up ?t "Suc (mc_issued t)" out] by simp
  moreover have "[Suc (mc_issued t)..<length (mc_values t)] = Suc (mc_issued t) # [Suc (Suc (mc_issued t))..<length (mc_values t)]"
    using Suc.hyps(2) by (simp add: upt_conv_Cons del: upt_Suc)
  ultimately show ?case
    using Suc.hyps(2) Suc.prems by (subst issue_loop.simps) (simp del: upt_Suc)
qed

text \<open>The number of values that have been announced, where nothing was announced yet at the end of the list.\<close>

definition announced :: "MetadataChangeTrigger \<Rightarrow> nat" where
  "announced t = (if mc_issued t = length (mc_values t) then 0 else Suc (mc_issued t))"

lemma updateEventsIssued_forward:
  assumes "delivers up (mc_base t)" "announced t \<le> Suc (mc_lastSeen t)" "mc_lastSeen t < length (mc_values t)"
  shows "updateEventsIssued up t out =
    (t\<lparr>mc_issued := mc_lastSeen t\<rparr>, announce up t [announced t..<Suc (mc_lastSeen t)] out, Inr ())"
proof (cases "mc_issued t = length (mc_values t)")
  case True
  have "mc_values t \<noteq> []" using assms(3) by auto
  moreover have "[0..<Suc (mc_lastSeen t)] = 0 # [Suc 0..<Suc (mc_lastSeen t)]" by (simp add: upt_conv_Cons del: upt_Suc)
  ultimately show ?thesis
    using True assms(1,3) issueEvent_delivers [of up "t\<lparr>mc_issued := 0\<rparr>" 0 out] issue_loop_forward [of up "t\<lparr>mc_issued := 0\<rparr>"]
    by (simp add: updateEventsIssued_def announced_def Let_def del: upt_Suc)
next
  case False
  then show ?thesis
    using assms by (simp add: updateEventsIssued_def announced_def Let_def issue_loop_forward del: upt_Suc)
qed

lemma updateEventsIssued_backward:
  assumes "delivers up (mc_base t)" "mc_lastSeen t < mc_issued t" "mc_issued t < length (mc_values t)"
  shows "updateEventsIssued up t out =
    (t\<lparr>mc_issued := length (mc_values t)\<rparr>, announce up t [announced t..<length (mc_values t)] out, Inl AssertionFailed)"
  using assms by (simp add: updateEventsIssued_def announced_def Let_def issue_loop_backward)


section \<open>Runs\<close>

text \<open>The position of the value a message shows; for one that is not in the list, or has no such key, it is the end.\<close>

definition seen :: "MetadataChangeTrigger \<Rightarrow> (string \<Rightarrow> string res) \<Rightarrow> nat" where
  "seen t m = (case m (mc_key t) of Inr v \<Rightarrow> position (mc_values t) v | Inl _ \<Rightarrow> length (mc_values t))"

lemma seen_Inr: "seen t m < length (mc_values t) \<Longrightarrow> \<exists>v. m (mc_key t) = Inr v \<and> position (mc_values t) v = seen t m"
  by (auto simp: seen_def split: sum.splits)

lemma seen_state [simp]: "seen (t\<lparr>mc_issued := i\<rparr>) = seen t" "seen (t\<lparr>mc_lastSeen := j\<rparr>) = seen t"
  by (simp_all add: seen_def fun_eq_iff split: sum.splits)

lemma change_run_append:
  "change_run up t (ms @ ms') out =
    (case change_run up t ms out of
       (t, out, Inl e) \<Rightarrow> (t, out, Inl e)
     | (t, out, Inr _) \<Rightarrow> change_run up t ms' out)"
  by (induction ms arbitrary: t out) (auto split: prod.splits sum.splits)

text \<open>A trigger that is at a listed value and has announced nothing beyond it.\<close>

definition on_track :: "MetadataChangeTrigger \<Rightarrow> nat \<Rightarrow> bool" where
  "on_track t p \<longleftrightarrow> mc_lastSeen t = p \<and> p < length (mc_values t) \<and> announced t \<le> p"

lemma change_trigger_first:
  assumes "mc_lastSeen t = length (mc_values t)" "mc_issued t = length (mc_values t)" "seen t m < length (mc_values t)"
  shows "change_trigger up t m out = (t\<lparr>mc_lastSeen := seen t m\<rparr>, out, Inr ())"
  using assms seen_Inr [OF assms(3)] by (auto simp: change_trigger_def)

lemma change_trigger_step:
  assumes "delivers up (mc_base t)" "on_track t p" "m (mc_key t) = Inr v"
  shows "change_trigger up t m out =
    (if seen t m = p then (t, out, Inr ())
     else (t\<lparr>mc_issued := p, mc_lastSeen := if seen t m < length (mc_values t) then seen t m else p\<rparr>,
           announce up t [announced t..<Suc p] out, Inr ()))"
proof -
  have le: "position (mc_values t) v \<le> length (mc_values t)"
    by (simp add: position_def length_takeWhile_le)
  have at: "mc_lastSeen t = p" "p < length (mc_values t)" "announced t \<le> Suc (mc_lastSeen t)"
    using assms(2) by (simp_all add: on_track_def)
  have seen: "seen t m = position (mc_values t) v" using assms(3) by (simp add: seen_def)
  have "updateEventsIssued up t out = (t\<lparr>mc_issued := p\<rparr>, announce up t [announced t..<Suc p] out, Inr ())"
    using updateEventsIssued_forward [OF assms(1) at(3), of out] at(2) unfolding at(1) by blast
  then show ?thesis
    using at(1,2) le assms(3) by (simp add: change_trigger_def seen Let_def del: upt_Suc)
qed

definition announced_for :: "nat list \<Rightarrow> nat" where
  "announced_for ps = (case filter (\<lambda>p. p < last ps) ps of [] \<Rightarrow> 0 | q # qs \<Rightarrow> Suc (last (q # qs)))"

lemma announced_for_snoc:
  assumes "sorted (ps @ [p])" "ps \<noteq> []"
  shows "announced_for (ps @ [p]) = (if p = last ps then announced_for ps else Suc (last ps))"
proof (cases "p = last ps")
  case True
  then show ?thesis by (simp add: announced_for_def)
next
  case False
  then have "\<forall>q\<in>set ps. q < p"
    using assms by (cases ps rule: rev_cases) (auto simp: sorted_append)
  then have "filter (\<lambda>q. q < last (ps @ [p])) (ps @ [p]) = ps" by simp
  then show ?thesis using False assms(2) unfolding announced_for_def by (auto split: list.split)
qed

lemma announced_for_le: "ps \<noteq> [] \<Longrightarrow> announced_for ps \<le> last ps"
proof -
  have "filter (\<lambda>p. p < last ps) ps \<noteq> [] \<Longrightarrow> last (filter (\<lambda>p. p < last ps) ps) < last ps"
    using last_in_set [of "filter (\<lambda>p. p < last ps) ps"] by auto
  then show ?thesis by (auto simp: announced_for_def Suc_le_eq split: list.splits)
qed

lemma change_run_sorted:
  assumes "delivers up (mc_base t)" "mc_lastSeen t = length (mc_values t)" "mc_issued t = length (mc_values t)"
    and "ms \<noteq> []" "\<forall>m\<in>set ms. seen t m < length (mc_values t)" "sorted (map (seen t) ms)"
  shows "\<exists>i. change_run up t ms out =
      (t\<lparr>mc_issued := i, mc_lastSeen := seen t (last ms)\<rparr>, announce up t [0..<announced_for (map (seen t) ms)] out, Inr ()) \<and>
    on_track (t\<lparr>mc_issued := i, mc_lastSeen := seen t (last ms)\<rparr>) (seen t (last ms)) \<and>
    announced (t\<lparr>mc_issued := i, mc_lastSeen := seen t (last ms)\<rparr>) = announced_for (map (seen t) ms)"
  using assms(4-6)
proof (induction ms rule: rev_induct)
  case (snoc m ms)
  show ?case
  proof (cases "ms = []")
    case True
    then show ?thesis
      using snoc.prems change_trigger_first [OF assms(2,3), of m up out]
      by (intro exI [of _ "mc_issued t"]) (simp add: announced_for_def on_track_def announced_def assms(3))
  next
    case False
    have sm: "sorted (map (seen t) ms @ [seen t m])" using snoc.prems(3) by simp
    obtain i where i: "change_run up t ms out =
          (t\<lparr>mc_issued := i, mc_lastSeen := seen t (last ms)\<rparr>, announce up t [0..<announced_for (map (seen t) ms)] out, Inr ())"
        "on_track (t\<lparr>mc_issued := i, mc_lastSeen := seen t (last ms)\<rparr>) (seen t (last ms))"
        "announced (t\<lparr>mc_issued := i, mc_lastSeen := seen t (last ms)\<rparr>) = announced_for (map (seen t) ms)"
      using snoc.IH False snoc.prems by (auto simp: sorted_append)
    obtain v where v: "m (mc_key t) = Inr v" using seen_Inr [of t m] snoc.prems(2) by auto
    have le: "announced_for (map (seen t) ms) \<le> Suc (seen t (last ms))"
      using announced_for_le [of "map (seen t) ms"] False by (simp add: last_map)
    have mono: "seen t (last ms) \<le> seen t m"
      using sm False by (simp add: sorted_append)
    let ?t = "t\<lparr>mc_issued := i, mc_lastSeen := seen t (last ms)\<rparr>"
    have "[0..<announced_for (map (seen t) ms)] @ [announced_for (map (seen t) ms)..<Suc (seen t (last ms))] = [0..<Suc (seen t (last ms))]"
      using le by (metis le_Suc_ex plus_nat.add_0 upt_add_eq_append zero_le)
    then have join: "announce up t [announced_for (map (seen t) ms)..<Suc (seen t (last ms))] (announce up t [0..<announced_for (map (seen t) ms)] out) =
        announce up t [0..<Suc (seen t (last ms))] out"
      by (metis announce_simps(3))
    have step: "change_trigger up ?t m (announce up t [0..<announced_for (map (seen t) ms)] out) =
      (if seen t m = seen t (last ms) then (?t, announce up t [0..<announced_for (map (seen t) ms)] out, Inr ())
       else (t\<lparr>mc_issued := seen t (last ms), mc_lastSeen := seen t m\<rparr>, announce up t [0..<Suc (seen t (last ms))] out, Inr ()))"
      using change_trigger_step [of up ?t "seen t (last ms)" m v] i(2,3) v assms(1) snoc.prems(2) join
      by (simp del: upt_Suc)
    show ?thesis
    proof (cases "seen t m = seen t (last ms)")
      case True
      then show ?thesis
        using i step False announced_for_snoc [OF sm] by (intro exI [of _ i]) (simp add: change_run_append last_map)
    next
      case ne: False
      then show ?thesis
        using i step False announced_for_snoc [OF sm] mono snoc.prems(2)
        by (intro exI [of _ "seen t (last ms)"])
          (simp add: change_run_append last_map on_track_def announced_def del: upt_Suc)
    qed
  qed
qed simp


lemma change_destructor_on_track:
  assumes "delivers up (mc_base t)" "on_track t p"
  shows "change_destructor up t out = (announce up t [announced t..<Suc p] out, Inr ())"
proof -
  have "announced t \<le> Suc (mc_lastSeen t)" "mc_lastSeen t < length (mc_values t)" "mc_lastSeen t = p"
    using assms(2) by (simp_all add: on_track_def)
  with updateEventsIssued_forward [OF assms(1), of out] show ?thesis
    by (simp add: change_destructor_def del: upt_Suc)
qed

lemma announce_join:
  assumes "k \<le> l"
  shows "announce up t [k..<l] (announce up t [0..<k] out) = announce up t [0..<l] out"
proof -
  have "[0..<l] = [0..<k] @ [k..<l]" using assms by (metis le_Suc_ex plus_nat.add_0 upt_add_eq_append zero_le)
  then show ?thesis by simp
qed

section \<open>Properties\<close>

text \<open>
  Property C26. A trigger whose list is in the order in which the values come, and whose host, if it has one, can be reached,
  announces each value up to the last one seen exactly once and in the order of the list, to its host and its file. When a
  message shows a later value, the values up to the one the run was at before are announced; those that
  are skipped follow with the next change, and on destruction all the rest up to the last value seen.
\<close>

theorem values_announced_in_order:
  assumes "et_host (mc_base t) = [] \<or> up" "mc_lastSeen t = length (mc_values t)" "mc_issued t = length (mc_values t)"
    and "ms \<noteq> []" "\<forall>m\<in>set ms. seen t m < length (mc_values t)" "sorted (map (seen t) ms)"
  shows "\<exists>t'. change_run up t ms out = (t', announce up t [0..<announced_for (map (seen t) ms)] out, Inr ()) \<and>
    announced_for (map (seen t) ms) \<le> seen t (last ms) \<and>
    change_destructor up t' (announce up t [0..<announced_for (map (seen t) ms)] out) =
      (announce up t [0..<Suc (seen t (last ms))] out, Inr ())"
proof -
  have delivers: "delivers up (mc_base t)" using assms(1) by (auto simp: delivers_def)
  let ?k = "announced_for (map (seen t) ms)"
  obtain i where i: "change_run up t ms out = (t\<lparr>mc_issued := i, mc_lastSeen := seen t (last ms)\<rparr>, announce up t [0..<?k] out, Inr ())"
      "on_track (t\<lparr>mc_issued := i, mc_lastSeen := seen t (last ms)\<rparr>) (seen t (last ms))"
      "announced (t\<lparr>mc_issued := i, mc_lastSeen := seen t (last ms)\<rparr>) = ?k"
    using change_run_sorted [OF delivers assms(2-6)] by blast
  have le: "?k \<le> seen t (last ms)"
    using announced_for_le [of "map (seen t) ms"] assms(4) by (simp add: last_map)
  have "change_destructor up (t\<lparr>mc_issued := i, mc_lastSeen := seen t (last ms)\<rparr>) (announce up t [0..<?k] out) =
      (announce up t [0..<Suc (seen t (last ms))] out, Inr ())"
    using change_destructor_on_track [OF _ i(2)] delivers i(3) announce_join [of ?k "Suc (seen t (last ms))"] le
    by (simp del: upt_Suc)
  then show ?thesis using i(1) le by blast
qed

definition steps_trigger :: MetadataChangeTrigger where
  "steps_trigger = \<lparr>mc_base = \<lparr>et_file = ''events'', et_host = [], et_failOnRetry = False, et_port = 10000, et_retries = 5,
     et_timeout = 60, et_info = [(''app'', ''multio'')]\<rparr>, mc_key = ''step'', mc_values = [''0'', ''6'', ''12'', ''18'', ''24''],
     mc_lastSeen = 5, mc_issued = 5\<rparr>"

definition of_step :: "string \<Rightarrow> string \<Rightarrow> string res" where
  "of_step v k = (if k = ''step'' then Inr v else Inl ForeignException)"

lemma steps_seen:
  "seen steps_trigger (of_step ''0'') = 0" "seen steps_trigger (of_step ''6'') = 1" "seen steps_trigger (of_step ''12'') = 2"
  "seen steps_trigger (of_step ''18'') = 3"
  by (simp_all add: seen_def steps_trigger_def of_step_def position_def)

lemma steps_start:
  "delivers True (mc_base steps_trigger)" "et_host (mc_base steps_trigger) = []" "mc_lastSeen steps_trigger = 5" "mc_issued steps_trigger = 5"
  "length (mc_values steps_trigger) = 5"
  by (simp_all add: steps_trigger_def delivers_def)

theorem values_announced_in_order_witness:
  "\<exists>t' out'. change_run True steps_trigger [of_step ''0'', of_step ''0'', of_step ''18''] \<lparr>to_host = [], to_file = []\<rparr> =
      (t', out', Inr ()) \<and>
    map (ev_metadata \<circ> snd) (to_file out') = [[(''step'', ''0'')]] \<and>
    (\<exists>out''. change_destructor True t' out' = (out'', Inr ()) \<and>
      map (ev_metadata \<circ> snd) (to_file out'') = [[(''step'', ''0'')], [(''step'', ''6'')], [(''step'', ''12'')], [(''step'', ''18'')]])"
proof -
  have "\<exists>t'. change_run True steps_trigger [of_step ''0'', of_step ''0'', of_step ''18''] \<lparr>to_host = [], to_file = []\<rparr> =
      (t', announce True steps_trigger [0..<announced_for [0, 0, 3]] \<lparr>to_host = [], to_file = []\<rparr>, Inr ()) \<and>
    announced_for [0, 0, 3] \<le> 3 \<and>
    change_destructor True t' (announce True steps_trigger [0..<announced_for [0, 0, 3]] \<lparr>to_host = [], to_file = []\<rparr>) =
      (announce True steps_trigger [0..<Suc 3] \<lparr>to_host = [], to_file = []\<rparr>, Inr ())"
    using values_announced_in_order [of steps_trigger True "[of_step ''0'', of_step ''0'', of_step ''18'']"
        "\<lparr>to_host = [], to_file = []\<rparr>"]
    using steps_start by (simp add: steps_seen del: upt_Suc change_run.simps)
  moreover have "announced_for [0, 0, 3] = 1" by (simp add: announced_for_def)
  moreover have "[0..<1] = [0]" "[0..<Suc 3] = [0, 1, 2, 3]" by (simp_all add: upt_rec)
  ultimately show ?thesis
    by (auto simp: announce_def value_event_def steps_trigger_def simp del: announce_simps)
qed

text \<open>
  Property C27. Values that come back are not expected: after a value later in the list, a message with an earlier one goes
  unnoticed, but with the next change, and even if it leads back to where the run was, all values to the end of the list are
  announced, seen or not, and an assertion fails. If there is no next change, the destructor does it, which ends the program.
\<close>

theorem going_back_announces_all:
  assumes "delivers up (mc_base t)" "mc_lastSeen t = length (mc_values t)" "mc_issued t = length (mc_values t)"
    and "ms \<noteq> []" "\<forall>m\<in>set ms. seen t m < length (mc_values t)" "sorted (map (seen t) ms)"
    and "seen t earlier < seen t (last ms)" "next_msg (mc_key t) = Inr v" "seen t next_msg \<noteq> seen t earlier"
  shows "\<exists>t'. change_run up t (ms @ [earlier]) out = (t', announce up t [0..<Suc (seen t (last ms))] out, Inr ()) \<and>
    (\<exists>t''. change_run up t (ms @ [earlier, next_msg]) out = (t'', announce up t [0..<length (mc_values t)] out, Inl AssertionFailed)) \<and>
    change_destructor up t' (announce up t [0..<Suc (seen t (last ms))] out) = (announce up t [0..<length (mc_values t)] out, Inl Terminate)"
proof -
  let ?k = "announced_for (map (seen t) ms)" and ?n = "length (mc_values t)" and ?L = "seen t (last ms)"
  obtain i where i: "change_run up t ms out = (t\<lparr>mc_issued := i, mc_lastSeen := ?L\<rparr>, announce up t [0..<?k] out, Inr ())"
      "on_track (t\<lparr>mc_issued := i, mc_lastSeen := ?L\<rparr>) ?L"
      "announced (t\<lparr>mc_issued := i, mc_lastSeen := ?L\<rparr>) = ?k"
    using change_run_sorted [OF assms(1-6)] by blast
  have L: "?L < ?n" "?k \<le> Suc ?L"
    using assms(4,5) announced_for_le [of "map (seen t) ms"] by (simp_all add: last_map)
  obtain b where b: "earlier (mc_key t) = Inr b" using seen_Inr [of t earlier] assms(7) L(1) by auto
  let ?t = "t\<lparr>mc_issued := ?L, mc_lastSeen := seen t earlier\<rparr>" and ?out = "announce up t [0..<Suc ?L] out"
  have one: "change_run up t (ms @ [earlier]) out = (?t, ?out, Inr ())"
    using i change_trigger_step [OF _ i(2), of up earlier b "announce up t [0..<?k] out"] assms(1,7) L b announce_join [OF L(2), of up t out]
    by (simp add: change_run_append del: upt_Suc)
  have "updateEventsIssued up ?t ?out = (?t\<lparr>mc_issued := ?n\<rparr>, announce up ?t [announced ?t..<length (mc_values ?t)] ?out, Inl AssertionFailed)"
    using updateEventsIssued_backward [of up ?t ?out] assms(1,7) L(1) by simp
  moreover have "announced ?t = Suc ?L" using L(1) by (simp add: announced_def)
  ultimately have failing: "updateEventsIssued up ?t ?out = (?t\<lparr>mc_issued := ?n\<rparr>, announce up t [0..<?n] out, Inl AssertionFailed)"
    using announce_join [of "Suc ?L" ?n up t out] L(1) by (simp del: upt_Suc)
  then have two: "change_trigger up ?t next_msg ?out = (?t\<lparr>mc_issued := ?n\<rparr>, announce up t [0..<?n] out, Inl AssertionFailed)"
    using assms(7-9) L(1) by (simp add: change_trigger_def seen_def Let_def del: upt_Suc)
  have "change_run up t (ms @ [earlier, next_msg]) out = (?t\<lparr>mc_issued := ?n\<rparr>, announce up t [0..<?n] out, Inl AssertionFailed)"
    using one two change_run_append [of up t "ms @ [earlier]" "[next_msg]" out] by (simp del: upt_Suc)
  then show ?thesis
    using one failing by (auto simp: change_destructor_def simp del: upt_Suc)
qed

theorem going_back_announces_all_witness:
  "\<exists>t' out'. change_run True steps_trigger [of_step ''0'', of_step ''6'', of_step ''0'', of_step ''6''] \<lparr>to_host = [], to_file = []\<rparr> =
      (t', out', Inl AssertionFailed) \<and>
    map (ev_metadata \<circ> snd) (to_file out') =
      [[(''step'', ''0'')], [(''step'', ''6'')], [(''step'', ''12'')], [(''step'', ''18'')], [(''step'', ''24'')]]"
proof -
  have n: "length (mc_values steps_trigger) = 5" by (simp add: steps_trigger_def)
  have "of_step ''6'' (mc_key steps_trigger) = Inr ''6''" by (simp add: steps_trigger_def of_step_def)
  then have "\<exists>t''. change_run True steps_trigger ([of_step ''0'', of_step ''6''] @ [of_step ''0'', of_step ''6'']) \<lparr>to_host = [], to_file = []\<rparr> =
      (t'', announce True steps_trigger [0..<length (mc_values steps_trigger)] \<lparr>to_host = [], to_file = []\<rparr>, Inl AssertionFailed)"
    using going_back_announces_all [of True steps_trigger "[of_step ''0'', of_step ''6'']" "of_step ''0''" "of_step ''6''" "''6''"
        "\<lparr>to_host = [], to_file = []\<rparr>"]
    using steps_start by (simp add: steps_seen n del: upt_Suc change_run.simps) blast
  moreover have "[0..<5] = [0, 1, 2, 3, 4]" by (simp add: upt_rec)
  ultimately show ?thesis unfolding n
    by (auto simp: announce_def value_event_def steps_trigger_def eval_nat_numeral simp del: announce_simps change_run.simps)
qed

end
