(* ===== verification/Distribution.thy ===== *)
theory Distribution
  imports Configurations Numerals
begin

text \<open>
  How a client distributes its messages over the servers: the action \<^verbatim>\<open>action/transport\<close>. What is sent is the list of
  messages given to \<^verbatim>\<open>bufferedSend\<close> of the transport; \<open>hash\<close> is \<^verbatim>\<open>std::hash\<close> on strings and \<open>fmt\<close> the
  decimal text of a floating point number, of both of which only is known that they are functions.
\<close>

section \<open>The action\<close>

datatype DistributionType = hashed_cyclic | hashed_to_single | even_distribution

record TransportAction =
  ta_client :: Peer
  ta_serverPeers :: "Peer list"
  ta_serverId :: nat
  ta_usedServerCount :: nat
  ta_hashKeys :: "string list"
  ta_destinations :: "(string \<times> Peer) list"
  ta_counters :: "nat list"
  ta_distType :: DistributionType

text \<open>The arithmetic of \<^verbatim>\<open>size_t\<close> wraps around.\<close>

definition serverIdDenom :: "nat \<Rightarrow> nat \<Rightarrow> nat" where
  "serverIdDenom clientCount serverCount =
     (if serverCount = 0 then 1 else ((clientCount + (2 ^ 64 - 1)) mod 2 ^ 64 div serverCount + 1) mod 2 ^ 64)"

definition getHashKeys :: "Config \<Rightarrow> string list res" where
  "getHashKeys c =
     (case cfg_find c ''hash-keys'' of
        None \<Rightarrow> Inr [''category'', ''name'', ''level'']
      | Some (CList cs) \<Rightarrow> (case list_as c_string cs of Some ss \<Rightarrow> Inr ss | None \<Rightarrow> Inl ForeignException)
      | Some _ \<Rightarrow> Inl ForeignException)"

definition distributionType :: "string option \<Rightarrow> DistributionType res" where
  "distributionType env =
     (case env of
        None \<Rightarrow> Inr hashed_to_single
      | Some key \<Rightarrow>
          (case map_of [(''hashed_cyclic'', hashed_cyclic), (''hashed_to_single'', hashed_to_single),
                        (''even'', even_distribution)] key of
             Some d \<Rightarrow> Inr d
           | None \<Rightarrow> Inl TransportException))"

text \<open>
  The constructor. The number of the servers of the transport is the length of its list; it is also what is passed for the
  number of clients. The resource \<open>used\<close> is 1 unless it is set.
\<close>

definition new_TransportAction ::
    "Config \<Rightarrow> Peer \<Rightarrow> Peer list \<Rightarrow> nat option \<Rightarrow> string option \<Rightarrow> TransportAction res" where
  "new_TransportAction c client servers used env =
     (let serverCount = length servers;
          denom = serverIdDenom serverCount serverCount
      in if denom = 0 then Inl UndefinedBehaviour
         else bind_res (getHashKeys c) (\<lambda>ks.
           bind_res (distributionType env) (\<lambda>d.
           Inr \<lparr>ta_client = client, ta_serverPeers = servers, ta_serverId = unat (id_of client) div denom,
                ta_usedServerCount = (case used of Some n \<Rightarrow> n | None \<Rightarrow> 1), ta_hashKeys = ks, ta_destinations = [],
                ta_counters = replicate serverCount 0, ta_distType = d\<rparr>)))"

section \<open>Choosing a server\<close>

definition hash_text :: "(real \<Rightarrow> string) \<Rightarrow> MetadataValue \<Rightarrow> string res" where
  "hash_text fmt v =
     (case v of
        MNull \<Rightarrow> Inr ''null''
      | MBool b \<Rightarrow> Inr (if b then ''1'' else ''0'')
      | MInteger i \<Rightarrow> Inr (int_to_string i)
      | MDouble d \<Rightarrow> Inr (fmt d)
      | MFloat d \<Rightarrow> Inr (fmt d)
      | MString s \<Rightarrow> Inr s
      | _ \<Rightarrow> Inl MetadataException)"

fun constructHash :: "(real \<Rightarrow> string) \<Rightarrow> string list \<Rightarrow> BaseMetadata \<Rightarrow> string res" where
  "constructHash fmt [] md = Inr []"
| "constructHash fmt (k # ks) md =
     (case md_find md k of
        None \<Rightarrow> Inl TransportException
      | Some v \<Rightarrow> bind_res (hash_text fmt v) (\<lambda>s. bind_res (constructHash fmt ks md) (\<lambda>rest. Inr (s @ rest))))"

text \<open>\<^verbatim>\<open>std::min_element\<close>: the position of the first smallest element.\<close>

fun min_element :: "nat list \<Rightarrow> nat" where
  "min_element [] = 0"
| "min_element (c # cs) = (if \<forall>c'\<in>set cs. c \<le> c' then 0 else Suc (min_element cs))"

definition chooseServer ::
    "(string \<Rightarrow> nat) \<Rightarrow> (real \<Rightarrow> string) \<Rightarrow> TransportAction \<Rightarrow> BaseMetadata \<Rightarrow> (TransportAction \<times> Peer) res" where
  "chooseServer hash fmt t md =
     (let serverPeers = ta_serverPeers t; serverCount = length serverPeers
      in if serverCount = 0 then Inl AssertionFailed
         else bind_res (constructHash fmt (ta_hashKeys t) md) (\<lambda>hashString.
           case ta_distType t of
             hashed_cyclic \<Rightarrow>
               if \<not> ta_usedServerCount t \<le> serverCount then Inl AssertionFailed
               else if ta_usedServerCount t = 0 then Inl UndefinedBehaviour
               else let offset = hash hashString mod ta_usedServerCount t;
                        i = (ta_serverId t + offset) mod 2 ^ 64 mod serverCount
                    in Inr (t, serverPeers ! i)
           | hashed_to_single \<Rightarrow> Inr (t, serverPeers ! (hash hashString mod serverCount))
           | even_distribution \<Rightarrow>
               (case map_of (ta_destinations t) hashString of
                  Some dest \<Rightarrow> Inr (t, dest)
                | None \<Rightarrow>
                    let i = min_element (ta_counters t)
                    in if \<not> i < length serverPeers then Inl AssertionFailed
                       else if \<not> i < length (ta_counters t) then Inl AssertionFailed
                       else Inr (t\<lparr>ta_counters := (ta_counters t)[i := (ta_counters t ! i + 1) mod 2 ^ 64],
                                   ta_destinations := (hashString, serverPeers ! i) # ta_destinations t\<rparr>,
                                 serverPeers ! i))))"

definition to_server :: "TransportAction \<Rightarrow> Peer \<Rightarrow> 'v message \<Rightarrow> 'v message" where
  "to_server t server msg =
     \<lparr>tag = tag msg, source = ta_client t, destination = server, metadata = metadata msg, payload = payload msg\<rparr>"

definition transport_executeImpl ::
    "(string \<Rightarrow> nat) \<Rightarrow> (real \<Rightarrow> string) \<Rightarrow> TransportAction \<Rightarrow> 'v message \<Rightarrow> (TransportAction \<times> 'v message list) res" where
  "transport_executeImpl hash fmt t msg =
     bind_res (md_get as_bool ''toAllServers'' (metadata msg)) (\<lambda>all_servers.
     if all_servers then Inr (t, map (\<lambda>server. to_server t server msg) (ta_serverPeers t))
     else bind_res (chooseServer hash fmt t (metadata msg)) (\<lambda>(t, server). Inr (t, [to_server t server msg])))"

text \<open>A sequence of messages for one server each, and where they went.\<close>

fun distribute ::
    "(string \<Rightarrow> nat) \<Rightarrow> (real \<Rightarrow> string) \<Rightarrow> TransportAction \<Rightarrow> BaseMetadata list \<Rightarrow> (TransportAction \<times> Peer list) res" where
  "distribute hash fmt t [] = Inr (t, [])"
| "distribute hash fmt t (md # mds) =
     bind_res (chooseServer hash fmt t md) (\<lambda>(t, p).
     bind_res (distribute hash fmt t mds) (\<lambda>(t, ps). Inr (t, p # ps)))"

section \<open>The servers of a client\<close>

lemma mod_shift: "(i + k) mod n = (j + k) mod n \<longleftrightarrow> i mod n = j mod n" for i j k n :: nat
proof -
  have "int (i + k) mod int n = int (j + k) mod int n \<longleftrightarrow> int i mod int n = int j mod int n"
    by (simp add: mod_eq_dvd_iff)
  then show ?thesis unfolding of_nat_mod [symmetric] of_nat_eq_iff .
qed

lemma serverIdDenom_self:
  assumes "n < 2 ^ 64"
  shows "serverIdDenom n n = 1"
proof (cases "n = 0")
  case False
  then have "n + (2 ^ 64 - 1) = (n - 1) + 2 ^ 64" by simp
  then have "(n + (2 ^ 64 - 1)) mod 2 ^ 64 = n - 1"
    using assms by (metis less_imp_diff_less mod_add_self2 mod_less)
  moreover have "(n - 1) div n = 0" using False by simp
  ultimately show ?thesis by (simp add: serverIdDenom_def)
qed (simp add: serverIdDenom_def)

lemma new_TransportAction_Inr:
  assumes "new_TransportAction c client servers used env = Inr t" "length servers < 2 ^ 64"
  shows "ta_serverId t = unat (id_of client) \<and> ta_serverPeers t = servers \<and> ta_destinations t = [] \<and>
    ta_counters t = replicate (length servers) 0"
  using assms serverIdDenom_self [OF assms(2)] by (auto simp: new_TransportAction_def bind_res_Inr_iff Let_def)

lemma min_element_least:
  "cs \<noteq> [] \<Longrightarrow> min_element cs < length cs \<and> (\<forall>c\<in>set cs. cs ! min_element cs \<le> c)"
proof (induction cs)
  case (Cons c cs)
  show ?case
  proof (cases "\<forall>c'\<in>set cs. c \<le> c'")
    case False
    then have "cs \<noteq> []" by auto
    moreover from False obtain c' where "c' \<in> set cs" "c' < c" by (auto simp: not_le)
    ultimately show ?thesis using Cons.IH False by fastforce
  qed simp
qed simp

text \<open>What holds of an action that distributes evenly.\<close>

definition balanced :: "TransportAction \<Rightarrow> bool" where
  "balanced t \<longleftrightarrow>
     length (ta_counters t) = length (ta_serverPeers t) \<and>
     distinct (map fst (ta_destinations t)) \<and> snd ` set (ta_destinations t) \<subseteq> set (ta_serverPeers t) \<and>
     (\<forall>i<length (ta_serverPeers t). ta_counters t ! i = length (filter (\<lambda>d. snd d = ta_serverPeers t ! i) (ta_destinations t))) \<and>
     (\<forall>c\<in>set (ta_counters t). \<forall>c'\<in>set (ta_counters t). c \<le> Suc c')"

lemma chooseServer_even_new:
  assumes "ta_distType t = even_distribution" "balanced t" "distinct (ta_serverPeers t)" "ta_serverPeers t \<noteq> []"
    and "constructHash fmt (ta_hashKeys t) md = Inr h" "map_of (ta_destinations t) h = None"
    and "length (ta_destinations t) < 2 ^ 64 - 1"
  shows "\<exists>t' p. chooseServer hash fmt t md = Inr (t', p) \<and> balanced t' \<and> p \<in> set (ta_serverPeers t) \<and>
    t' = t\<lparr>ta_counters := ta_counters t', ta_destinations := (h, p) # ta_destinations t\<rparr>"
proof -
  let ?i = "min_element (ta_counters t)" and ?cs = "ta_counters t" and ?n = "length (ta_serverPeers t)"
  have len: "length ?cs = ?n" and counts: "\<And>i. i < ?n \<Longrightarrow>
      ?cs ! i = length (filter (\<lambda>d. snd d = ta_serverPeers t ! i) (ta_destinations t))"
    and near: "\<And>c c'. c \<in> set ?cs \<Longrightarrow> c' \<in> set ?cs \<Longrightarrow> c \<le> Suc c'"
    using assms(2) by (auto simp: balanced_def)
  have i: "?i < ?n" "\<And>c. c \<in> set ?cs \<Longrightarrow> ?cs ! ?i \<le> c"
    using min_element_least [of ?cs] len assms(4) by (cases "?cs = []"; simp)+
  have "?cs ! ?i \<le> length (ta_destinations t)" using counts [OF i(1)] by simp
  then have small: "(?cs ! ?i + 1) mod 2 ^ 64 = ?cs ! ?i + 1" using assms(7) by simp
  let ?cs' = "?cs[?i := ?cs ! ?i + 1]" and ?p = "ta_serverPeers t ! ?i"
  let ?t' = "t\<lparr>ta_counters := ?cs', ta_destinations := (h, ?p) # ta_destinations t\<rparr>"
  have "chooseServer hash fmt t md = Inr (?t', ?p)"
    using assms(1,4-6) i(1) len small by (simp add: chooseServer_def Let_def)
  moreover have "balanced ?t'"
  proof -
    have "?cs' ! j = length (filter (\<lambda>d. snd d = ta_serverPeers t ! j) ((h, ?p) # ta_destinations t))" if "j < ?n" for j
      using that counts [OF that] assms(3) i(1) len by (auto simp: nth_eq_iff_index_eq)
    moreover have "c \<le> Suc c'" if "c \<in> set ?cs'" "c' \<in> set ?cs'" for c c'
    proof -
      have "c \<in> set ?cs \<or> c = ?cs ! ?i + 1" "c' \<in> set ?cs \<or> c' = ?cs ! ?i + 1"
        using that set_update_subset_insert [of ?cs ?i] by auto
      then show ?thesis using near i(2) nth_mem [of ?i ?cs] i(1) len by fastforce
    qed
    ultimately show ?thesis
      using assms(2,6) i(1) len by (auto simp: balanced_def map_of_eq_None_iff)
  qed
  ultimately show ?thesis using i(1) by (intro exI [of _ ?t'] exI [of _ ?p]) simp
qed


lemma chooseServer_even_known:
  assumes "ta_distType t = even_distribution" "ta_serverPeers t \<noteq> []"
    and "constructHash fmt (ta_hashKeys t) md = Inr h" "map_of (ta_destinations t) h = Some p"
  shows "chooseServer hash fmt t md = Inr (t, p)"
  using assms by (simp add: chooseServer_def Let_def)

lemma distribute_even:
  assumes "ta_distType t = even_distribution" "balanced t" "distinct (ta_serverPeers t)" "ta_serverPeers t \<noteq> []"
    and "map (constructHash fmt (ta_hashKeys t)) mds = map Inr hs"
    and "length (ta_destinations t) + length mds < 2 ^ 64 - 1"
  shows "\<exists>t'. distribute hash fmt t mds = Inr (t', map (\<lambda>h. the (map_of (ta_destinations t') h)) hs) \<and> balanced t' \<and>
    ta_serverPeers t' = ta_serverPeers t \<and> map_of (ta_destinations t) \<subseteq>\<^sub>m map_of (ta_destinations t') \<and>
    fst ` set (ta_destinations t') = fst ` set (ta_destinations t) \<union> set hs"
  using assms
proof (induction mds arbitrary: t hs)
  case Nil
  then show ?case by auto
next
  case (Cons md mds)
  obtain h hs' where hs: "hs = h # hs'" using Cons.prems(5) by (cases hs) auto
  have hash_md: "constructHash fmt (ta_hashKeys t) md = Inr h" using Cons.prems(5) hs by simp
  obtain t1 p where t1: "chooseServer hash fmt t md = Inr (t1, p)" "balanced t1" "ta_distType t1 = even_distribution"
      "ta_serverPeers t1 = ta_serverPeers t" "ta_hashKeys t1 = ta_hashKeys t"
      "map_of (ta_destinations t) \<subseteq>\<^sub>m map_of (ta_destinations t1)" "map_of (ta_destinations t1) h = Some p"
      "fst ` set (ta_destinations t1) = insert h (fst ` set (ta_destinations t))"
      "length (ta_destinations t1) \<le> Suc (length (ta_destinations t))"
  proof (cases "map_of (ta_destinations t) h")
    case None
    obtain t' q where t': "chooseServer hash fmt t md = Inr (t', q)" "balanced t'"
        "t' = t\<lparr>ta_counters := ta_counters t', ta_destinations := (h, q) # ta_destinations t\<rparr>"
      using chooseServer_even_new [OF Cons.prems(1-4) hash_md None, where hash = hash] Cons.prems(6) by auto
    have "ta_destinations t' = (h, q) # ta_destinations t" "ta_distType t' = even_distribution"
        "ta_serverPeers t' = ta_serverPeers t" "ta_hashKeys t' = ta_hashKeys t"
      using Cons.prems(1) by (subst t'(3); simp)+
    then show ?thesis using that [of t' q] t'(1,2) None
      by (simp add: map_le_def) (metis domIff)
  next
    case (Some q)
    have "h \<in> fst ` set (ta_destinations t)" using Some by (metis domI dom_map_of_conv_image_fst)
    then show ?thesis
      using that [of t q] chooseServer_even_known [OF Cons.prems(1,4) hash_md Some] Cons.prems(1,2) Some by auto
  qed
  have "\<exists>t'. distribute hash fmt t1 mds = Inr (t', map (\<lambda>h. the (map_of (ta_destinations t') h)) hs') \<and> balanced t' \<and>
      ta_serverPeers t' = ta_serverPeers t1 \<and> map_of (ta_destinations t1) \<subseteq>\<^sub>m map_of (ta_destinations t') \<and>
      fst ` set (ta_destinations t') = fst ` set (ta_destinations t1) \<union> set hs'"
    using Cons.prems(3-6) t1 hs by (intro Cons.IH) auto
  then obtain t' where t': "distribute hash fmt t1 mds = Inr (t', map (\<lambda>h. the (map_of (ta_destinations t') h)) hs')" "balanced t'"
      "ta_serverPeers t' = ta_serverPeers t1" "map_of (ta_destinations t1) \<subseteq>\<^sub>m map_of (ta_destinations t')"
      "fst ` set (ta_destinations t') = fst ` set (ta_destinations t1) \<union> set hs'"
    by blast
  have "map_of (ta_destinations t') h = Some p"
    using t'(4) t1(7) by (metis domI map_le_def)
  then show ?case
    using t1 t' hs map_le_trans [OF t1(6) t'(4)] by (intro exI [of _ t']) simp
qed

lemma balanced_cards:
  assumes "balanced t" "p \<in> set (ta_serverPeers t)" "q \<in> set (ta_serverPeers t)"
  shows "card {h \<in> fst ` set (ta_destinations t). the (map_of (ta_destinations t) h) = p} \<le>
    Suc (card {h \<in> fst ` set (ta_destinations t). the (map_of (ta_destinations t) h) = q})"
proof -
  have dist: "distinct (map fst (ta_destinations t))" using assms(1) by (simp add: balanced_def)
  have count: "card {h \<in> fst ` set (ta_destinations t). the (map_of (ta_destinations t) h) = r} =
      length (filter (\<lambda>d. snd d = r) (ta_destinations t))" for r
  proof -
    have "{h \<in> fst ` set (ta_destinations t). the (map_of (ta_destinations t) h) = r} =
        fst ` set (filter (\<lambda>d. snd d = r) (ta_destinations t))"
      using dist by (force simp: map_of_eq_Some_iff)
    moreover have "distinct (map fst (filter (\<lambda>d. snd d = r) (ta_destinations t)))"
      using dist by (rule distinct_map_filter)
    ultimately show ?thesis
      using distinct_card [of "map fst (filter (\<lambda>d. snd d = r) (ta_destinations t))"] by simp
  qed
  obtain i j where "i < length (ta_serverPeers t)" "ta_serverPeers t ! i = p" "j < length (ta_serverPeers t)" "ta_serverPeers t ! j = q"
    using assms(2,3) by (auto simp: in_set_conv_nth)
  moreover from this have "i < length (ta_counters t)" "j < length (ta_counters t)"
    using assms(1) by (simp_all add: balanced_def)
  then have "ta_counters t ! i \<in> set (ta_counters t)" "ta_counters t ! j \<in> set (ta_counters t)" by simp_all
  ultimately have "ta_counters t ! i = length (filter (\<lambda>d. snd d = p) (ta_destinations t))"
      "ta_counters t ! j = length (filter (\<lambda>d. snd d = q) (ta_destinations t))" "ta_counters t ! i \<le> Suc (ta_counters t ! j)"
    using assms(1) by (auto simp only: balanced_def)
  then show ?thesis by (simp add: count)
qed

section \<open>Properties\<close>

text \<open>
  Property C28. With the even distribution a client sends everything with the same hash string, the concatenated values of its
  hash keys, to the same server, whatever it has sent in between, and the numbers of different hash strings of any two servers
  differ by at most one.
\<close>

theorem even_distribution_is_fair:
  assumes "new_TransportAction c client servers used (Some ''even'') = Inr t"
    and "distinct servers" "servers \<noteq> []" "length servers < 2 ^ 64" "length mds < 2 ^ 64 - 1"
    and "map (constructHash fmt (ta_hashKeys t)) mds = map Inr hs"
  shows "\<exists>t' dest. distribute hash fmt t mds = Inr (t', map dest hs) \<and> dest ` set hs \<subseteq> set servers \<and>
    (\<forall>p\<in>set servers. \<forall>q\<in>set servers. card {h \<in> set hs. dest h = p} \<le> Suc (card {h \<in> set hs. dest h = q}))"
proof -
  have t: "ta_serverPeers t = servers" "ta_destinations t = []" "ta_counters t = replicate (length servers) 0"
    using new_TransportAction_Inr [OF assms(1,4)] by simp_all
  have "ta_distType t = even_distribution"
    using assms(1) by (auto simp: new_TransportAction_def distributionType_def bind_res_Inr_iff Let_def split: if_splits)
  moreover have "balanced t" using t by (auto simp: balanced_def)
  ultimately obtain t' where t': "distribute hash fmt t mds = Inr (t', map (\<lambda>h. the (map_of (ta_destinations t') h)) hs)"
      "balanced t'" "ta_serverPeers t' = servers" "fst ` set (ta_destinations t') = set hs"
    using distribute_even [of t fmt mds hs hash] assms(2-6) t by auto
  have "the (map_of (ta_destinations t') h) \<in> set servers" if "h \<in> set hs" for h
  proof -
    have "h \<in> dom (map_of (ta_destinations t'))" unfolding dom_map_of_conv_image_fst using that t'(4) by blast
    then obtain p where p: "map_of (ta_destinations t') h = Some p" by blast
    then have "p \<in> snd ` set (ta_destinations t')" by (force dest: map_of_SomeD)
    then have "p \<in> set servers" using t'(2,3) unfolding balanced_def by blast
    then show ?thesis by (simp add: p)
  qed
  moreover have "card {h \<in> set hs. the (map_of (ta_destinations t') h) = p} \<le>
      Suc (card {h \<in> set hs. the (map_of (ta_destinations t') h) = q})" if "p \<in> set servers" "q \<in> set servers" for p q
    using balanced_cards [OF t'(2), of p q] that unfolding t'(3,4) .
  ultimately show ?thesis
    using t'(1) by (intro exI [of _ t'] exI [of _ "\<lambda>h. the (map_of (ta_destinations t') h)"]) blast
qed

abbreviation two_servers :: "Peer list" where
  "two_servers \<equiv> [Peer ''server'' 0, Peer ''server'' 1]"

abbreviation field_md :: "string \<Rightarrow> int \<Rightarrow> BaseMetadata" where
  "field_md name level \<equiv> [(''category'', MString ''ocean''), (''name'', MString name), (''level'', MInteger level)]"

text \<open>A client with the number \<open>i\<close> and the default hash keys.\<close>

abbreviation client_action :: "u64 \<Rightarrow> DistributionType \<Rightarrow> TransportAction" where
  "client_action i d \<equiv> \<lparr>ta_client = Peer ''client'' i, ta_serverPeers = two_servers, ta_serverId = unat i, ta_usedServerCount = 1,
     ta_hashKeys = [''category'', ''name'', ''level''], ta_destinations = [], ta_counters = [0, 0], ta_distType = d\<rparr>"

lemma client_action_new:
  "distributionType env = Inr d \<Longrightarrow>
   new_TransportAction (CMap []) (Peer ''client'' i) two_servers None env = Inr (client_action i d)"
  by (simp add: new_TransportAction_def serverIdDenom_self getHashKeys_def Let_def)

lemma even_env: "distributionType (Some ''even'') = Inr even_distribution" "distributionType (Some ''hashed_cyclic'') = Inr hashed_cyclic"
  by (simp_all add: distributionType_def)

lemma field_hash:
  "constructHash fmt (ta_hashKeys (client_action i d)) (field_md name level) = Inr (''ocean'' @ name @ int_to_string level)"
  by (simp add: md_find_def hash_text_def)

theorem even_distribution_is_fair_witness:
  "\<exists>t t' dest. new_TransportAction (CMap []) (Peer ''client'' 3) two_servers None (Some ''even'') = Inr t \<and>
    distribute length (\<lambda>_. []) t [field_md ''sst'' 1, field_md ''u'' 1, field_md ''sst'' 1] =
      Inr (t', map dest (map (\<lambda>name. ''ocean'' @ name @ int_to_string 1) [''sst'', ''u'', ''sst''])) \<and>
    card {h \<in> set (map (\<lambda>name. ''ocean'' @ name @ int_to_string 1) [''sst'', ''u'', ''sst'']). dest h = Peer ''server'' 0} \<le>
      Suc (card {h \<in> set (map (\<lambda>name. ''ocean'' @ name @ int_to_string 1) [''sst'', ''u'', ''sst'']). dest h = Peer ''server'' 1})"
proof -
  let ?hs = "map (\<lambda>name. ''ocean'' @ name @ int_to_string 1) [''sst'', ''u'', ''sst'']"
  have "map (constructHash (\<lambda>_. []) (ta_hashKeys (client_action 3 even_distribution))) [field_md ''sst'' 1, field_md ''u'' 1, field_md ''sst'' 1] =
      map Inr ?hs"
    using field_hash by simp
  then have "\<exists>t' dest. distribute length (\<lambda>_. []) (client_action 3 even_distribution) [field_md ''sst'' 1, field_md ''u'' 1, field_md ''sst'' 1] =
      Inr (t', map dest ?hs) \<and> dest ` set ?hs \<subseteq> set two_servers \<and>
      (\<forall>p\<in>set two_servers. \<forall>q\<in>set two_servers. card {h \<in> set ?hs. dest h = p} \<le> Suc (card {h \<in> set ?hs. dest h = q}))"
    by (intro even_distribution_is_fair [OF client_action_new [OF even_env(1)]]) simp_all
  then obtain t' dest where "distribute length (\<lambda>_. []) (client_action 3 even_distribution) [field_md ''sst'' 1, field_md ''u'' 1, field_md ''sst'' 1] =
      Inr (t', map dest ?hs)"
    and fair: "\<forall>p\<in>set two_servers. \<forall>q\<in>set two_servers. card {h \<in> set ?hs. dest h = p} \<le> Suc (card {h \<in> set ?hs. dest h = q})"
    by blast
  moreover have "card {h \<in> set ?hs. dest h = Peer ''server'' 0} \<le> Suc (card {h \<in> set ?hs. dest h = Peer ''server'' 1})"
    by (rule bspec [OF bspec [OF fair, of "Peer ''server'' 0"], of "Peer ''server'' 1"]) simp_all
  ultimately show ?thesis using client_action_new [OF even_env(1), of 3] by blast
qed

text \<open>
  Property C29. What a client has sent before decides where the even distribution sends it: of two clients that start with the same
  two fields (with different hash strings) in another order, the first server gets the first field of each, so the parts of both fields end up on two
  servers and neither of them can aggregate the field.
\<close>

theorem even_distribution_splits_fields:
  assumes "new_TransportAction c client1 (s0 # s1 # servers) used (Some ''even'') = Inr t1"
    and "new_TransportAction c client2 (s0 # s1 # servers) used (Some ''even'') = Inr t2"
    and "length (s0 # s1 # servers) < 2 ^ 64"
    and "constructHash fmt (ta_hashKeys t1) a = Inr ha" "constructHash fmt (ta_hashKeys t1) b = Inr hb" "ha \<noteq> hb"
  shows "\<exists>t1' t2'. distribute hash fmt t1 [a, b] = Inr (t1', [s0, s1]) \<and> distribute hash fmt t2 [b, a] = Inr (t2', [s0, s1])"
proof -
  have t: "ta_distType t = even_distribution" "ta_serverPeers t = s0 # s1 # servers" "ta_destinations t = []"
      "ta_counters t = replicate (Suc (Suc (length servers))) 0" "ta_hashKeys t = ta_hashKeys t1"
    if "t \<in> {t1, t2}" for t
    using that new_TransportAction_Inr [OF assms(1,3)] new_TransportAction_Inr [OF assms(2,3)] assms(1,2)
    by (auto simp: new_TransportAction_def distributionType_def bind_res_Inr_iff Let_def split: if_splits)
  have least: "min_element (replicate (Suc (Suc n)) 0) = 0" "min_element (1 # 0 # replicate n 0) = 1" for n
    by simp_all
  have "\<exists>t'. distribute hash fmt t [x, y] = Inr (t', [s0, s1])"
    if "t \<in> {t1, t2}" "constructHash fmt (ta_hashKeys t1) x = Inr hx" "constructHash fmt (ta_hashKeys t1) y = Inr hy" "hx \<noteq> hy"
    for t x y hx hy
    using t [OF that(1)] that(2-4) least by (simp add: chooseServer_def Let_def)
  from this [of t1 a ha b hb] this [of t2 b hb a ha] show ?thesis using assms(4-6) by auto
qed

theorem even_distribution_splits_fields_witness:
  "\<exists>t1 t2 t1' t2'. new_TransportAction (CMap []) (Peer ''client'' 0) two_servers None (Some ''even'') = Inr t1 \<and>
    new_TransportAction (CMap []) (Peer ''client'' 1) two_servers None (Some ''even'') = Inr t2 \<and>
    distribute length (\<lambda>_. []) t1 [field_md ''sst'' 1, field_md ''u'' 1] = Inr (t1', two_servers) \<and>
    distribute length (\<lambda>_. []) t2 [field_md ''u'' 1, field_md ''sst'' 1] = Inr (t2', two_servers)"
proof -
  have "''ocean'' @ ''sst'' @ int_to_string 1 \<noteq> ''ocean'' @ ''u'' @ int_to_string 1" by simp
  from even_distribution_splits_fields [OF client_action_new [OF even_env(1), of 0] client_action_new [OF even_env(1), of 1] _
      field_hash field_hash this, of length]
  show ?thesis using client_action_new [OF even_env(1)] by fastforce
qed

text \<open>
  Property C30. The two distributions by hash. With \<^verbatim>\<open>hashed_to_single\<close>, the default, all clients send what has the
  same hash string, the concatenated values of the hash keys, to the same server, without any state. With \<^verbatim>\<open>hashed_cyclic\<close> they only do if their numbers
  agree modulo the number of servers: the number of servers is used in place of the number of clients, so the clients are not
  grouped into blocks.
\<close>

theorem hashed_distributions:
  assumes "new_TransportAction c client1 servers used env = Inr t1" "new_TransportAction c client2 servers used env = Inr t2"
    and "distinct servers" "servers \<noteq> []" "length servers < 2 ^ 63"
    and "unat (id_of client1) < 2 ^ 63" "unat (id_of client2) < 2 ^ 63"
    and "constructHash fmt (ta_hashKeys t1) md1 = Inr h" "constructHash fmt (ta_hashKeys t1) md2 = Inr h"
    and "0 < ta_usedServerCount t1" "ta_usedServerCount t1 \<le> length servers"
  shows "\<exists>d. distributionType env = Inr d \<and>
    (if d = hashed_to_single
     then \<exists>p\<in>set servers. chooseServer hash fmt t1 md1 = Inr (t1, p) \<and> chooseServer hash fmt t2 md2 = Inr (t2, p)
     else d = even_distribution \<or> (\<exists>p\<in>set servers. \<exists>q\<in>set servers.
       chooseServer hash fmt t1 md1 = Inr (t1, p) \<and> chooseServer hash fmt t2 md2 = Inr (t2, q) \<and>
       ((p = q) = (unat (id_of client1) mod length servers = unat (id_of client2) mod length servers))))"
proof -
  let ?n = "length servers"
  have len: "?n < 2 ^ 64" using assms(5) by simp
  obtain d where d: "distributionType env = Inr d" "ta_distType t1 = d" "ta_distType t2 = d"
      "ta_hashKeys t2 = ta_hashKeys t1" "ta_usedServerCount t2 = ta_usedServerCount t1"
    using assms(1,2) by (auto simp: new_TransportAction_def bind_res_Inr_iff Let_def split: if_splits)
  have t: "ta_serverId t1 = unat (id_of client1)" "ta_serverPeers t1 = servers"
      "ta_serverId t2 = unat (id_of client2)" "ta_serverPeers t2 = servers"
    using new_TransportAction_Inr [OF assms(1) len] new_TransportAction_Inr [OF assms(2) len] by simp_all
  let ?o = "hash h mod ta_usedServerCount t1"
  have "?o < 2 ^ 63" using assms(5,10,11) by (meson le_less_trans less_imp_le mod_less_divisor)
  then have small: "(i + ?o) mod 2 ^ 64 = i + ?o" if "i < 2 ^ 63" for i using that by simp
  have n: "0 < ?n" using assms(4) by simp
  have "(servers ! ((i + ?o) mod ?n) = servers ! ((j + ?o) mod ?n)) = (i mod ?n = j mod ?n)" for i j
    using assms(3) n by (simp add: nth_eq_iff_index_eq mod_shift)
  moreover have "servers ! (k mod ?n) \<in> set servers" for k using n by simp
  ultimately show ?thesis
    using d t assms(4,6-11) small by (cases d) (auto simp: chooseServer_def Let_def)
qed


theorem hashed_distributions_witness:
  "\<exists>t1 t2 p q. new_TransportAction (CMap []) (Peer ''client'' 0) two_servers None (Some ''hashed_cyclic'') = Inr t1 \<and>
    new_TransportAction (CMap []) (Peer ''client'' 1) two_servers None (Some ''hashed_cyclic'') = Inr t2 \<and>
    chooseServer length (\<lambda>_. []) t1 (field_md ''sst'' 1) = Inr (t1, p) \<and>
    chooseServer length (\<lambda>_. []) t2 (field_md ''sst'' 1) = Inr (t2, q) \<and> p \<noteq> q"
proof -
  from hashed_distributions [OF client_action_new [OF even_env(2), of 0] client_action_new [OF even_env(2), of 1] _ _ _ _ _
      field_hash field_hash, of length]
  show ?thesis using client_action_new [OF even_env(2)] even_env(2) by (fastforce split: if_splits)
qed

end
