(* ===== verification/Spec2Isabelle.thy ===== *)
theory Spec2Isabelle
  imports Server StatisticsRuns MetadataMappings LevelTypes Renumbering Mars2Mars EncoderCache Levels FieldActions Triggers Distribution
begin

text \<open>
  \<^bold>\<open>A verification library for multio.\<close>

  multio is the output server of ECMWF's models: the processes of a model are its clients, which send
  messages (open, field, mask, domain, parametrization, flush, close and so on) over a transport to
  server processes. A server's listener queues the messages, its dispatcher hands every message to its
  plans, and a plan is a chain of actions: selecting fields, aggregating the parts of a field from all
  clients to the global field, computing statistics over time, mapping metadata, masking, scaling,
  encoding, and writing to sinks. The paths below are those under
  \<^verbatim>\<open>src/src/multio\<close>. A definition has the name of the function it models; a prefix or suffix
  tells equal names of different classes apart (\<open>agg_executeImpl\<close>, \<open>win_updateData\<close>).

  \<^bold>\<open>Conventions.\<close> An operation that can throw returns a value of \<open>'a res\<close>, \<open>Inl\<close> of an exception or \<open>Inr\<close>
  of the result; \<open>UndefinedBehaviour\<close> and \<open>OutOfBounds\<close> stand for executions to which C++ gives no meaning, so
  a theorem that the result is \<open>Inr\<close> excludes them. An object is a record or a datatype of its fields, and an
  operation that changes it returns the changed object. Integers keep their width: either as words or as
  \<open>int\<close> with the range checked (signed overflow is undefined) or reduced. Loops are recursive functions; loops
  that may run for ever have fuel, and the theorems about them say how much of it is enough, or that no
  amount is. Floating point values are real numbers; rounding is not modelled, except that it is a parameter of the
  actions in \<open>FieldActions\<close>.

  \<^bold>\<open>The theories.\<close>
    \<^item> \<open>Prelude\<close>: exceptions, results, and the generic lemmas. \<open>Numerals\<close>: decimal numbers as text
      (\<^verbatim>\<open>std::to_string\<close>, \<^verbatim>\<open>std::stol\<close>).
    \<^item> \<open>BinaryUtils\<close> (\<^verbatim>\<open>util/BinaryUtils.h\<close>), \<open>MaskEncode\<close>, \<open>MaskDecode\<close>, \<open>MaskRoundTrip\<close>
      (\<^verbatim>\<open>domain/MaskCompression\<close>): the codec of masks. A mask is encoded as bits or as run lengths, whichever
      is smaller; the locale of the decoding iterators is interpreted for both formats; the decoders
      give back the encoded mask.
    \<^item> \<open>Metadata\<close> (\<^verbatim>\<open>message/BaseMetadata\<close>, \<^verbatim>\<open>message/Metadata\<close>, \<^verbatim>\<open>message/MetadataValue\<close>,
      \<^verbatim>\<open>message/Parametrization\<close>), \<open>Messages\<close> (\<^verbatim>\<open>message/Message\<close>, \<^verbatim>\<open>message/Peer\<close>),
      \<open>Configurations\<close> (eckit's configuration objects and \<^verbatim>\<open>message/MetadataValue\<close>'s conversions from
      them), \<open>Matchers\<close> (\<^verbatim>\<open>message/MetadataMatcher\<close>, \<^verbatim>\<open>action/select\<close>), \<open>MetadataMappings\<close>
      (\<^verbatim>\<open>message/MetadataMapping\<close>, \<^verbatim>\<open>config/MetadataMappings\<close>, \<^verbatim>\<open>action/metadata-mapping\<close>): a matcher's
      abstract specification is the formula its configuration spells out, and the built matcher
      implements it.
    \<^item> \<open>Domains\<close> (\<^verbatim>\<open>domain/Domain\<close>), \<open>Mappings\<close> (\<^verbatim>\<open>domain/Mappings\<close>, \<^verbatim>\<open>domain/Mask\<close>), \<open>Aggregation\<close>
      (\<^verbatim>\<open>action/aggregate\<close>): scattering and gathering the parts of a field, the map of domains by peer, the store
      of masks and the catalogue of incomplete fields.
    \<^item> \<open>FieldActions\<close> (\<^verbatim>\<open>action/mask\<close>, \<^verbatim>\<open>action/scale\<close>, \<^verbatim>\<open>action/average-rate\<close>): the actions that
      change one field at a time, and what becomes of masked points when one follows the other.
    \<^item> \<open>Triggers\<close> (\<^verbatim>\<open>sink/Trigger\<close>): the events the sinks send when the value of a key moves on through a list.
    \<^item> \<open>Distribution\<close> (\<^verbatim>\<open>action/transport\<close>): which server a client sends a message to.
    \<^item> \<open>Failures\<close> (\<^verbatim>\<open>util/FailureHandling.h\<close> and its six users) and \<open>Server\<close> (\<^verbatim>\<open>server/Listener\<close>,
      \<^verbatim>\<open>server/Dispatcher\<close>): the retry loop, and the two threads of a server over their queue as a step relation.
    \<^item> \<open>DateTimes\<close> (\<^verbatim>\<open>util/DateTime\<close>), \<open>Windows\<close> (\<^verbatim>\<open>action/statistics/OperationWindow\<close>,
      \<^verbatim>\<open>action/statistics/StatisticsIO\<close>), \<open>Periods\<close> (\<^verbatim>\<open>action/statistics/PeriodUpdater\<close>), \<open>Operations\<close>
      (\<^verbatim>\<open>action/statistics/operations\<close>), \<open>Statistics\<close> (\<^verbatim>\<open>action/statistics/TemporalStatistics\<close>,
      \<^verbatim>\<open>Statistics\<close>, \<^verbatim>\<open>RemapParamID\<close>) and \<open>StatisticsRuns\<close>: windows of time, the operations over them and
      whole runs of the statistics action over a sequence of fields.
    \<^item> \<open>NestCodec\<close>, \<open>PixelNumbers\<close> (\<^verbatim>\<open>action/renumber-healpix/HEALPix\<close>) and \<open>Renumbering\<close> (the cache
      generator and the action): the two numberings of the pixels of a HEALPix grid are inverse to each other, and the
      action permutes a field accordingly.
    \<^item> \<open>DataTypes\<close>, \<open>LevelTypes\<close> (\<^verbatim>\<open>datamod/types\<close>): the values of the keys of MARS and GRIB with their parsers and
      dumpers; the locale \<open>codec\<close> states that parsing undoes dumping and is interpreted for each type.
    \<^item> \<open>DataRecords\<close> (\<^verbatim>\<open>datamod/core\<close>), \<open>MarsRecords\<close> (\<^verbatim>\<open>datamod/MarsKeys.h\<close>, \<^verbatim>\<open>datamod/MarsMiscGeo.h\<close>,
      \<^verbatim>\<open>datamod/GribKeys.h\<close>, \<^verbatim>\<open>mars2grib/api\<close>): records of typed keys, described by their entries; reading them from
      metadata with defaults and checks, and dumping them. The locale \<open>record_def\<close> is the contract of a description.
    \<^item> \<open>MarsMatchers\<close> (\<^verbatim>\<open>mars2grib/rules/Matcher.h\<close>), \<open>Mars2Mars\<close> (\<^verbatim>\<open>mars2mars\<close>): the predicates of rule
      tables, the parameters they accept as intervals, and the mapping of MARS keys; the locale \<open>exclusive_rules\<close> says
      what makes the order of its rules irrelevant, and is interpreted for the table.
    \<^item> \<open>ProductCategories\<close> (\<^verbatim>\<open>mars2grib/generated/InferPDT.h\<close>), \<open>EncoderRules\<close> (\<^verbatim>\<open>mars2grib/Rules.cc\<close>,
      \<^verbatim>\<open>mars2grib/EncoderConf.h\<close>, \<^verbatim>\<open>mars2grib/rules\<close>), \<open>EncoderTables\<close>: the configuration of a GRIB encoder, the tree of
      rules that builds it from MARS keys, and the proof that no two exclusive rules match the same record.
      \<open>EncoderOutcome\<close>: what every configuration that is built satisfies, by triples of rule trees.
      \<open>Levels\<close> (\<^verbatim>\<open>mars2grib/sections\<close>): the level and the fixed surfaces of a type of level, and the collector of
      sections.
    \<^item> \<open>EncoderCache\<close> (\<^verbatim>\<open>mars2grib/EncoderCache\<close>, \<^verbatim>\<open>mars2grib/multiom\<close>): the cache of prepared encoders. The Fortran
      encoder and eccodes are a record of functions; the invariant of the cache holds for all of them.

  \<^bold>\<open>Parameters.\<close> Code that is not part of the repository is an argument of the definitions that use it: the
  content of uninitialised buffers, the calendar of eckit's dates, the text of metadata as JSON and the
  parser of YAML, the bytes of numbers, hashes of strings, whether a host can be reached, the conversion of text to numbers, the
  conversion of a double to a float, the reading of configuration files, the restart files of statistics, the Fortran
  encoder and the handles of eccodes.
  What the proofs need of them is a hypothesis of the theorem, and its witness has an instance.

  \<^bold>\<open>Metadata.\<close> Metadata are association lists with distinct keys (the code has a hash map; the order
  matters only for equality, which is why the model keeps it). Lookups fall back to the global parametrization.

  \<^bold>\<open>Not modelled.\<close> Transports and sinks (I/O of eckit, MPI and FDB5), the encoders (calls into eccodes and a
  Fortran library), interpolation (calls into mir), the command line tools, the C and Fortran interfaces, and
  the second copy of the statistics for MTG2. Reference counts and copy on write of payloads are not visible
  in the model, which has values.
\<close>

end
